(* ===== verification/LIO_Prelude.thy ===== *)
theory LIO_Prelude
  imports Complex_Main "HOL-Library.Multiset"
begin

text \<open>
  Shared vocabulary of the development: the collection of size facts used by the
  termination proofs, an extended float type for the places where the code compares
  against INFINITY, numbers as text, and generic lemmas on lists and multisets that several components use.

  Coordinates and distances are C++ \<open>float\<close>s in the program.  They are modelled as
  exact reals: ordering, minima, maxima and boxes are then the ones the code computes, and
  rounding of sums and products is not modelled.
\<close>

named_theorems tree_size "facts on the sizes of trees, for termination proofs"
named_theorems live_simps "how the operations act on the live points of a tree"

section \<open>Floats that may be infinite\<close>

datatype efloat = Fin real | Inf

instantiation efloat :: linorder
begin

fun less_eq_efloat :: "efloat \<Rightarrow> efloat \<Rightarrow> bool" where
  "less_eq_efloat (Fin a) (Fin b) = (a \<le> b)"
| "less_eq_efloat (Fin a) Inf = True"
| "less_eq_efloat Inf (Fin b) = False"
| "less_eq_efloat Inf Inf = True"

fun less_efloat :: "efloat \<Rightarrow> efloat \<Rightarrow> bool" where
  "less_efloat (Fin a) (Fin b) = (a < b)"
| "less_efloat (Fin a) Inf = True"
| "less_efloat Inf (Fin b) = False"
| "less_efloat Inf Inf = False"

instance
proof
  fix x y z :: efloat
  show "(x < y) = (x \<le> y \<and> \<not> y \<le> x)" by (cases x; cases y) auto
  show "x \<le> x" by (cases x) auto
  show "x \<le> y \<Longrightarrow> y \<le> z \<Longrightarrow> x \<le> z" by (cases x; cases y; cases z) auto
  show "x \<le> y \<Longrightarrow> y \<le> x \<Longrightarrow> x = y" by (cases x; cases y) auto
  show "x \<le> y \<or> y \<le> x" by (cases x; cases y) auto
qed

end

lemma le_Inf [simp]: "x \<le> Inf"
  by (cases x) auto

lemma Inf_less_False [simp]: "\<not> Inf < x"
  by (cases x) auto

text \<open>\<open>max_dist * max_dist\<close>.\<close>

fun esquare :: "efloat \<Rightarrow> efloat" where
  "esquare (Fin a) = Fin (a * a)"
| "esquare Inf = Inf"

section \<open>Lists and multisets\<close>

lemma mset_list_update_swap:
  assumes "i < length xs" "j < length xs"
  shows "mset (xs[i := xs ! j, j := xs ! i]) = mset xs"
  using assms by (cases "i = j") (auto simp: mset_update Multiset.mset_swap)

lemma filter_mset_all: "(\<forall>x \<in># M. P x) \<Longrightarrow> filter_mset P M = M"
  by (induction M) auto

lemma filter_mset_none: "(\<forall>x \<in># M. \<not> P x) \<Longrightarrow> filter_mset P M = {#}"
  by (induction M) auto

lemma size_filter_split:
  "size (filter_mset P M) + size (filter_mset (\<lambda>x. \<not> P x) M) = size M"
  by (induction M) auto

lemma mset_take_drop: "mset (take n xs) + mset (drop n xs) = mset xs"
  by (metis append_take_drop_id mset_append)

lemma mset_take_nth_drop:
  "n < length xs \<Longrightarrow>
   mset (take n xs) + {#xs ! n#} + mset (drop (Suc n) xs) = mset xs"
  by (metis Cons_nth_drop_Suc add_mset_add_single mset.simps(2) mset_take_drop
      union_mset_add_mset_left union_mset_add_mset_right)

section \<open>Numbers as text\<close>

text \<open>\<open>std::to_string\<close> of an unsigned number.\<close>

fun to_string :: "nat \<Rightarrow> string" where
  "to_string n = (if n < 10 then [char_of (48 + n)] else to_string (n div 10) @ [char_of (48 + n mod 10)])"

declare to_string.simps [simp del]

end
