(* ===== verification/KD_Types.thy ===== *)
theory KD_Types
  imports LIO_Prelude
begin

text \<open>
  The data of the incremental k-d tree of FAST-LIO (src/FAST_LIO_ROS2/include/ikd-Tree):
  points and boxes, the tree node with its lazy-deletion flags, the logged operations, the
  state of a tree object, and the geometric helpers (\<open>same_point\<close>, \<open>calc_dist\<close>,
  \<open>calc_box_dist\<close>) with what the searches need of them.
\<close>

section \<open>Points and boxes\<close>

record point3 =
  px :: real
  py :: real
  pz :: real

record BoxPointType =
  vertex_min :: point3
  vertex_max :: point3

abbreviation "xmin b \<equiv> px (vertex_min b)"
abbreviation "xmax b \<equiv> px (vertex_max b)"
abbreviation "ymin b \<equiv> py (vertex_min b)"
abbreviation "ymax b \<equiv> py (vertex_max b)"
abbreviation "zmin b \<equiv> pz (vertex_min b)"
abbreviation "zmax b \<equiv> pz (vertex_max b)"

text \<open>\<open>EPSS\<close>, \<open>Minimal_Unbalanced_Tree_Size\<close> and \<open>Multi_Thread_Rebuild_Point_Num\<close>.\<close>

definition EPSS :: real where "EPSS = 1 / 10 ^ 6"
definition Minimal_Unbalanced_Tree_Size :: int where "Minimal_Unbalanced_Tree_Size = 10"
definition Multi_Thread_Rebuild_Point_Num :: int where "Multi_Thread_Rebuild_Point_Num = 1500"
definition DOWNSAMPLE_SWITCH :: bool where "DOWNSAMPLE_SWITCH = True"

definition same_point :: "point3 \<Rightarrow> point3 \<Rightarrow> bool" where
  "same_point a b \<longleftrightarrow> \<bar>px a - px b\<bar> < EPSS \<and> \<bar>py a - py b\<bar> < EPSS \<and> \<bar>pz a - pz b\<bar> < EPSS"

definition calc_dist :: "point3 \<Rightarrow> point3 \<Rightarrow> real" where
  "calc_dist a b =
     (px a - px b) * (px a - px b) + (py a - py b) * (py a - py b) + (pz a - pz b) * (pz a - pz b)"

text \<open>The half-open membership test \<open>min <= p && max > p\<close> on the three axes.\<close>

definition in_box :: "BoxPointType \<Rightarrow> point3 \<Rightarrow> bool" where
  "in_box b p \<longleftrightarrow> xmin b \<le> px p \<and> xmax b > px p \<and> ymin b \<le> py p \<and> ymax b > py p
     \<and> zmin b \<le> pz p \<and> zmax b > pz p"

text \<open>The three early returns: the box does not meet the node's range.\<close>

definition box_disjoint :: "BoxPointType \<Rightarrow> BoxPointType \<Rightarrow> bool" where
  "box_disjoint b r \<longleftrightarrow> (xmax b \<le> xmin r \<or> xmin b > xmax r)
     \<or> (ymax b \<le> ymin r \<or> ymin b > ymax r) \<or> (zmax b \<le> zmin r \<or> zmin b > zmax r)"

text \<open>The box covers the node's range.\<close>

definition box_covers :: "BoxPointType \<Rightarrow> BoxPointType \<Rightarrow> bool" where
  "box_covers b r \<longleftrightarrow> xmin b \<le> xmin r \<and> xmax b > xmax r \<and> ymin b \<le> ymin r
     \<and> ymax b > ymax r \<and> zmin b \<le> zmin r \<and> zmax b > zmax r"

text \<open>A node's range is closed on both sides.\<close>

definition in_range :: "BoxPointType \<Rightarrow> point3 \<Rightarrow> bool" where
  "in_range r p \<longleftrightarrow> xmin r \<le> px p \<and> px p \<le> xmax r \<and> ymin r \<le> py p \<and> py p \<le> ymax r
     \<and> zmin r \<le> pz p \<and> pz p \<le> zmax r"

lemma box_disjoint_in_range: "box_disjoint b r \<Longrightarrow> in_range r p \<Longrightarrow> \<not> in_box b p"
  by (auto simp: box_disjoint_def in_range_def in_box_def)

lemma box_covers_in_range: "box_covers b r \<Longrightarrow> in_range r p \<Longrightarrow> in_box b p"
  by (auto simp: box_covers_def in_range_def in_box_def)

lemma calc_dist_commute: "calc_dist a b = calc_dist b a"
  unfolding calc_dist_def by (simp add: algebra_simps)

lemma calc_dist_nonneg [simp]: "0 \<le> calc_dist a b"
  unfolding calc_dist_def by (intro add_nonneg_nonneg) (simp_all add: zero_le_square)

lemma calc_dist_self [simp]: "calc_dist a a = 0"
  unfolding calc_dist_def by simp

lemma same_point_refl [simp]: "same_point p p"
  by (simp add: same_point_def EPSS_def)

section \<open>Ranges\<close>

definition point_range :: "point3 \<Rightarrow> BoxPointType" where
  "point_range p = \<lparr>vertex_min = p, vertex_max = p\<rparr>"

definition range_join :: "BoxPointType \<Rightarrow> BoxPointType \<Rightarrow> BoxPointType" where
  "range_join a b =
     \<lparr>vertex_min = \<lparr>px = min (xmin a) (xmin b), py = min (ymin a) (ymin b), pz = min (zmin a) (zmin b)\<rparr>,
      vertex_max = \<lparr>px = max (xmax a) (xmax b), py = max (ymax a) (ymax b), pz = max (zmax a) (zmax b)\<rparr>\<rparr>"

text \<open>
  \<open>tmp_range\<close> starts as \<open>{INFINITY, -INFINITY}\<close> on every axis, which is \<open>None\<close>
  here; joining a range to it gives that range.
\<close>

definition range_add :: "BoxPointType option \<Rightarrow> BoxPointType \<Rightarrow> BoxPointType option" where
  "range_add r b = (case r of None \<Rightarrow> Some b | Some a \<Rightarrow> Some (range_join a b))"

text \<open>The half diagonal of the range, squared.\<close>

definition range_radius_sq :: "BoxPointType \<Rightarrow> real" where
  "range_radius_sq r =
     (let x_L = (xmax r - xmin r) * (1 / 2); y_L = (ymax r - ymin r) * (1 / 2);
          z_L = (zmax r - zmin r) * (1 / 2)
      in x_L * x_L + y_L * y_L + z_L * z_L)"

lemma in_range_point [simp]: "in_range (point_range p) q \<longleftrightarrow> px q = px p \<and> py q = py p \<and> pz q = pz p"
  by (auto simp: in_range_def point_range_def)

lemma in_range_join1: "in_range a p \<Longrightarrow> in_range (range_join a b) p"
  by (auto simp: in_range_def range_join_def)

lemma in_range_join2: "in_range b p \<Longrightarrow> in_range (range_join a b) p"
  by (auto simp: in_range_def range_join_def)

section \<open>Nodes, trees and the tree object's state\<close>

record kd_node =
  point :: point3
  division_axis :: nat
  TreeSize :: int
  invalid_point_num :: int
  down_del_num :: int
  point_deleted :: bool
  tree_deleted :: bool
  point_downsample_deleted :: bool
  tree_downsample_deleted :: bool
  need_push_down_to_left :: bool
  need_push_down_to_right :: bool
  working_flag :: bool
  node_range :: BoxPointType
  radius_sq :: real

datatype kd_tree = Null | Node kd_tree kd_node kd_tree

datatype dir = LeftSon | RightSon

text \<open>A node is addressed by its path from the root; a pointer comparison compares paths.\<close>

type_synonym path = "dir list"

datatype operation_set =
  ADD_POINT | DELETE_POINT | DELETE_BOX | ADD_BOX | DOWNSAMPLE_DELETE | PUSH_DOWN

datatype delete_point_storage_set = NOT_RECORD | DELETE_POINTS_REC | MULTI_THREAD_REC

text \<open>
  \<open>Operation_Logger_Type\<close>: the operation with the fields that its kind sets; the others
  are never read.
\<close>

datatype operation_log =
    Log_Add_Point point3
  | Log_Delete_Point point3
  | Log_Delete_Box BoxPointType
  | Log_Add_Box BoxPointType
  | Log_Downsample_Delete BoxPointType
  | Log_Push_Down bool bool  \<comment> \<open>\<open>tree_deleted\<close>, \<open>tree_downsample_deleted\<close>\<close>

fun op_of :: "operation_log \<Rightarrow> operation_set" where
  "op_of (Log_Add_Point _) = ADD_POINT"
| "op_of (Log_Delete_Point _) = DELETE_POINT"
| "op_of (Log_Delete_Box _) = DELETE_BOX"
| "op_of (Log_Add_Box _) = ADD_BOX"
| "op_of (Log_Downsample_Delete _) = DOWNSAMPLE_DELETE"
| "op_of (Log_Push_Down _ _) = PUSH_DOWN"

text \<open>
  The state of a \<open>KD_TREE\<close> that the operations read and write beside the nodes.
  \<open>Rebuild_Ptr\<close> is \<open>None\<close> for the null pointer, or the path of the node it points to
  with that node's \<open>TreeSize\<close>.  \<open>rebuild_ptr_locked\<close> says whether the rebuild thread
  holds \<open>rebuild_ptr_mutex_lock\<close>, so that the main thread's \<open>trylock\<close> fails.
  \<open>Rebuild_Logger\<close> is the queue of logged operations, oldest first.
\<close>

record kd_state =
  Rebuild_Ptr :: "(path \<times> int) option"
  rebuild_flag :: bool
  rebuild_ptr_locked :: bool
  Rebuild_Logger :: "operation_log list"
  Points_deleted :: "point3 list"
  Multithread_Points_deleted :: "point3 list"
  delete_criterion_param :: real
  balance_criterion_param :: real
  downsample_size :: real

definition init_state :: "real \<Rightarrow> real \<Rightarrow> real \<Rightarrow> kd_state" where
  "init_state delete_param balance_param box_length =
     \<lparr>Rebuild_Ptr = None, rebuild_flag = False, rebuild_ptr_locked = False, Rebuild_Logger = [],
      Points_deleted = [], Multithread_Points_deleted = [],
      delete_criterion_param = delete_param, balance_criterion_param = balance_param,
      downsample_size = box_length\<rparr>"

definition InitTreeNode :: kd_node where
  "InitTreeNode =
     \<lparr>point = \<lparr>px = 0, py = 0, pz = 0\<rparr>, division_axis = 0, TreeSize = 0, invalid_point_num = 0,
      down_del_num = 0, point_deleted = False, tree_deleted = False,
      point_downsample_deleted = False, tree_downsample_deleted = False,
      need_push_down_to_left = False, need_push_down_to_right = False, working_flag = False,
      node_range = point_range \<lparr>px = 0, py = 0, pz = 0\<rparr>, radius_sq = 0\<rparr>"

fun tree_count :: "kd_tree \<Rightarrow> nat" where
  "tree_count Null = 0"
| "tree_count (Node l a r) = tree_count l + tree_count r + 1"

text \<open>Every stored point, deleted or not.\<close>

fun all_points :: "kd_tree \<Rightarrow> point3 list" where
  "all_points Null = []"
| "all_points (Node l a r) = point a # all_points l @ all_points r"

text \<open>
  The points the tree still holds: a node with \<open>tree_deleted\<close> hides its whole subtree
  whether or not the flag has been pushed down.  This is the abstraction of the tree that
  the properties are stated with.
\<close>

fun live :: "kd_tree \<Rightarrow> point3 list" where
  "live Null = []"
| "live (Node l a r) =
     (if tree_deleted a then []
      else (if point_deleted a then [] else [point a]) @ live l @ live r)"

abbreviation live_mset :: "kd_tree \<Rightarrow> point3 multiset" where
  "live_mset t \<equiv> mset (live t)"

section \<open>Distance from a point to a node's range\<close>

definition axis_gap :: "real \<Rightarrow> real \<Rightarrow> real \<Rightarrow> real" where
  "axis_gap x lo hi =
     (if x < lo then (x - lo) * (x - lo) else 0) + (if x > hi then (x - hi) * (x - hi) else 0)"

fun calc_box_dist :: "kd_tree \<Rightarrow> point3 \<Rightarrow> efloat" where
  "calc_box_dist Null p = Inf"
| "calc_box_dist (Node l a r) p =
     Fin (axis_gap (px p) (xmin (node_range a)) (xmax (node_range a))
        + axis_gap (py p) (ymin (node_range a)) (ymax (node_range a))
        + axis_gap (pz p) (zmin (node_range a)) (zmax (node_range a)))"

lemma axis_gap_le:
  assumes "lo \<le> q" "q \<le> hi"
  shows "axis_gap x lo hi \<le> (x - q) * (x - q)"
proof (cases "x < lo")
  case True
  with assms have "lo - x \<le> q - x" "0 \<le> lo - x" by auto
  then have "(lo - x) * (lo - x) \<le> (q - x) * (q - x)" by (intro mult_mono) auto
  with True assms show ?thesis by (simp add: axis_gap_def algebra_simps)
next
  case False
  show ?thesis
  proof (cases "x > hi")
    case True
    with assms have "x - hi \<le> x - q" "0 \<le> x - hi" by auto
    then have "(x - hi) * (x - hi) \<le> (x - q) * (x - q)" by (intro mult_mono) auto
    with True False show ?thesis by (simp add: axis_gap_def)
  next
    case False
    with \<open>\<not> x < lo\<close> show ?thesis by (simp add: axis_gap_def)
  qed
qed

text \<open>The range distance is a lower bound on the distance to every point of the range.\<close>

lemma calc_box_dist_lower:
  assumes "in_range (node_range a) q"
  shows "calc_box_dist (Node l a r) p \<le> Fin (calc_dist p q)"
  using assms unfolding in_range_def calc_box_dist.simps calc_dist_def less_eq_efloat.simps
  by (intro add_mono axis_gap_le) auto

end
