(* ===== verification/KD_Ops.thy ===== *)
theory KD_Ops
  imports KD_Types
begin

text \<open>
  The operations of \<open>KD_TREE\<close> on a subtree (ikd_Tree.cpp): \<open>Update\<close>, \<open>Push_Down\<close>,
  \<open>flatten\<close>, \<open>BuildTree\<close>, \<open>Criterion_Check\<close>, \<open>Rebuild\<close>, insertion and the two
  deletions, re-insertion by box, and the box and radius searches, as the main thread runs
  them.  Each takes the tree's state and the path of the subtree's root, and returns the new
  subtree and state.  The mutexes only order the main and the rebuild thread and do not
  appear; \<open>working_flag\<close> and the operation log do.
\<close>

section \<open>Update\<close>

text \<open>The range from the parts that still hold points.\<close>

definition merge_ranges :: "BoxPointType option \<Rightarrow> BoxPointType option \<Rightarrow> BoxPointType option \<Rightarrow> BoxPointType \<Rightarrow> BoxPointType" where
  "merge_ranges l r p old =
     (let t0 = None;
          t1 = (case l of None \<Rightarrow> t0 | Some b \<Rightarrow> range_add t0 b);
          t2 = (case r of None \<Rightarrow> t1 | Some b \<Rightarrow> range_add t1 b);
          t3 = (case p of None \<Rightarrow> t2 | Some b \<Rightarrow> range_add t2 b)
      in case t3 of None \<Rightarrow> old | Some b \<Rightarrow> b)"

definition set_range :: "BoxPointType \<Rightarrow> kd_node \<Rightarrow> kd_node" where
  "set_range r a = a\<lparr>node_range := r, radius_sq := range_radius_sq r\<rparr>"

definition bit :: "bool \<Rightarrow> int" where
  "bit b = (if b then 1 else 0)"

fun Update :: "kd_tree \<Rightarrow> kd_tree" where
  "Update Null = Null"
| "Update (Node (Node ll la lr) a (Node rl ra rr)) =
     (let td = tree_deleted la \<and> tree_deleted ra \<and> point_deleted a;
          a1 = a\<lparr>TreeSize := TreeSize la + TreeSize ra + 1,
                 invalid_point_num := invalid_point_num la + invalid_point_num ra + bit (point_deleted a),
                 down_del_num := down_del_num la + down_del_num ra + bit (point_downsample_deleted a),
                 tree_downsample_deleted := tree_downsample_deleted la \<and> tree_downsample_deleted ra
                                            \<and> point_downsample_deleted a,
                 tree_deleted := td\<rparr>;
          rg = (if td \<or> (\<not> tree_deleted la \<and> \<not> tree_deleted ra \<and> \<not> point_deleted a)
                then range_join (range_join (node_range la) (node_range ra)) (point_range (point a))
                else merge_ranges (if \<not> tree_deleted la then Some (node_range la) else None)
                       (if \<not> tree_deleted ra then Some (node_range ra) else None)
                       (if \<not> point_deleted a then Some (point_range (point a)) else None) (node_range a))
      in Node (Node ll la lr) (set_range rg a1) (Node rl ra rr))"
| "Update (Node (Node ll la lr) a Null) =
     (let td = tree_deleted la \<and> point_deleted a;
          a1 = a\<lparr>TreeSize := TreeSize la + 1,
                 invalid_point_num := invalid_point_num la + bit (point_deleted a),
                 down_del_num := down_del_num la + bit (point_downsample_deleted a),
                 tree_downsample_deleted := tree_downsample_deleted la \<and> point_downsample_deleted a,
                 tree_deleted := td\<rparr>;
          rg = (if td \<or> (\<not> tree_deleted la \<and> \<not> point_deleted a)
                then range_join (node_range la) (point_range (point a))
                else merge_ranges (if \<not> tree_deleted la then Some (node_range la) else None) None
                       (if \<not> point_deleted a then Some (point_range (point a)) else None) (node_range a))
      in Node (Node ll la lr) (set_range rg a1) Null)"
| "Update (Node Null a (Node rl ra rr)) =
     (let td = tree_deleted ra \<and> point_deleted a;
          a1 = a\<lparr>TreeSize := TreeSize ra + 1,
                 invalid_point_num := invalid_point_num ra + bit (point_deleted a),
                 down_del_num := down_del_num ra + bit (point_downsample_deleted a),
                 tree_downsample_deleted := tree_downsample_deleted ra \<and> point_downsample_deleted a,
                 tree_deleted := td\<rparr>;
          rg = (if td \<or> (\<not> tree_deleted ra \<and> \<not> point_deleted a)
                then range_join (node_range ra) (point_range (point a))
                else merge_ranges None (if \<not> tree_deleted ra then Some (node_range ra) else None)
                       (if \<not> point_deleted a then Some (point_range (point a)) else None) (node_range a))
      in Node Null (set_range rg a1) (Node rl ra rr))"
| "Update (Node Null a Null) =
     Node Null (set_range (point_range (point a))
       (a\<lparr>TreeSize := 1,
          invalid_point_num := bit (point_deleted a),
          down_del_num := bit (point_downsample_deleted a),
          tree_downsample_deleted := point_downsample_deleted a,
          tree_deleted := point_deleted a\<rparr>)) Null"

section \<open>Push_Down\<close>

definition at_rebuild :: "kd_state \<Rightarrow> path \<Rightarrow> bool" where
  "at_rebuild st p \<longleftrightarrow> (case Rebuild_Ptr st of None \<Rightarrow> False | Some (q, _) \<Rightarrow> q = p)"

definition log_if :: "bool \<Rightarrow> operation_log \<Rightarrow> kd_state \<Rightarrow> kd_state" where
  "log_if b op st = (if b \<and> rebuild_flag st then st\<lparr>Rebuild_Logger := Rebuild_Logger st @ [op]\<rparr> else st)"

text \<open>What a father's deletion flags do to a son.\<close>

definition inherit_flags :: "bool \<Rightarrow> bool \<Rightarrow> kd_node \<Rightarrow> kd_node" where
  "inherit_flags td tdd s =
     (let tdd' = tree_downsample_deleted s \<or> tdd;
          pdd' = point_downsample_deleted s \<or> tdd;
          td' = td \<or> tdd';
          pd' = td' \<or> pdd';
          ddn = (if tdd then TreeSize s else down_del_num s);
          ipn = (if td then TreeSize s else ddn)
      in s\<lparr>tree_downsample_deleted := tdd', point_downsample_deleted := pdd', tree_deleted := td',
           point_deleted := pd', down_del_num := ddn, invalid_point_num := ipn,
           need_push_down_to_left := True, need_push_down_to_right := True\<rparr>)"

fun inherit :: "kd_node \<Rightarrow> kd_tree \<Rightarrow> kd_tree" where
  "inherit a Null = Null"
| "inherit a (Node l s r) = Node l (inherit_flags (tree_deleted a) (tree_downsample_deleted a) s) r"

definition Push_Down ::
  "kd_state \<Rightarrow> path \<Rightarrow> kd_tree \<Rightarrow> kd_node \<Rightarrow> kd_tree \<Rightarrow> kd_tree \<times> kd_node \<times> kd_tree \<times> kd_state" where
  "Push_Down st p l a r =
     (let op = Log_Push_Down (tree_deleted a) (tree_downsample_deleted a);
          pl = (need_push_down_to_left a \<and> l \<noteq> Null);
          l' = (if pl then inherit a l else l);
          st1 = log_if (pl \<and> at_rebuild st (p @ [LeftSon])) op st;
          a1 = (if pl then a\<lparr>need_push_down_to_left := False\<rparr> else a);
          pr = (need_push_down_to_right a \<and> r \<noteq> Null);
          r' = (if pr then inherit a r else r);
          st2 = log_if (pr \<and> at_rebuild st1 (p @ [RightSon])) op st1;
          a2 = (if pr then a1\<lparr>need_push_down_to_right := False\<rparr> else a1)
      in (l', a2, r', st2))"

lemma size_inherit [simp]: "size (inherit a t) = size t"
  by (cases t) auto

lemma Push_Down_size [tree_size]:
  "(l', a', r', st') = Push_Down st p l a r \<Longrightarrow> size l' = size l \<and> size r' = size r"
  by (auto simp: Push_Down_def Let_def split: if_splits)

section \<open>flatten\<close>

definition record_deleted :: "delete_point_storage_set \<Rightarrow> kd_node \<Rightarrow> kd_state \<Rightarrow> kd_state" where
  "record_deleted stype a st =
     (case stype of
        NOT_RECORD \<Rightarrow> st
      | DELETE_POINTS_REC \<Rightarrow>
          if point_deleted a \<and> \<not> point_downsample_deleted a
          then st\<lparr>Points_deleted := Points_deleted st @ [point a]\<rparr> else st
      | MULTI_THREAD_REC \<Rightarrow>
          if point_deleted a \<and> \<not> point_downsample_deleted a
          then st\<lparr>Multithread_Points_deleted := Multithread_Points_deleted st @ [point a]\<rparr> else st)"

text \<open>The last component is what is appended to \<open>Storage\<close>.\<close>

function flatten :: "delete_point_storage_set \<Rightarrow> kd_state \<Rightarrow> path \<Rightarrow> kd_tree \<Rightarrow> kd_tree \<times> kd_state \<times> point3 list" where
  "flatten stype st p Null = (Null, st, [])"
| "flatten stype st p (Node l a r) =
     (let (l1, a1, r1, st1) = Push_Down st p l a r;
          here = (if \<not> point_deleted a1 then [point a1] else []);
          (l2, st2, ls) = flatten stype st1 (p @ [LeftSon]) l1;
          (r2, st3, rs) = flatten stype st2 (p @ [RightSon]) r1
      in (Node l2 a1 r2, record_deleted stype a1 st3, here @ ls @ rs))"
  by pat_completeness auto
termination
  by (relation "measure (\<lambda>(stype, st, p, t). size t)") (auto dest: Push_Down_size)

text \<open>Freeing a subtree pushes its flags down on the way, which can reach the operation log.\<close>

function delete_tree_nodes :: "kd_state \<Rightarrow> path \<Rightarrow> kd_tree \<Rightarrow> kd_tree \<times> kd_state" where
  "delete_tree_nodes st p Null = (Null, st)"
| "delete_tree_nodes st p (Node l a r) =
     (let (l1, a1, r1, st1) = Push_Down st p l a r;
          (l2, st2) = delete_tree_nodes st1 (p @ [LeftSon]) l1;
          (r2, st3) = delete_tree_nodes st2 (p @ [RightSon]) r1
      in (Null, st3))"
  by pat_completeness auto
termination
  by (relation "measure (\<lambda>(st, p, t). size t)") (auto dest: Push_Down_size)

section \<open>BuildTree\<close>

text \<open>
  \<open>std::nth_element\<close> may return any permutation that has the right element at the given
  place; it is a parameter, with what the standard says of it as \<open>nth_element_ok\<close>.
\<close>

type_synonym nth_fun = "(point3 \<Rightarrow> real) \<Rightarrow> nat \<Rightarrow> point3 list \<Rightarrow> point3 list"

definition nth_element_ok :: "nth_fun \<Rightarrow> bool" where
  "nth_element_ok ne \<longleftrightarrow>
     (\<forall>key n xs. n < length xs \<longrightarrow>
        mset (ne key n xs) = mset xs \<and>
        (\<forall>i < n. key (ne key n xs ! i) \<le> key (ne key n xs ! n)) \<and>
        (\<forall>i. n < i \<longrightarrow> i < length xs \<longrightarrow> key (ne key n xs ! n) \<le> key (ne key n xs ! i)))"

definition axis_key :: "nat \<Rightarrow> point3 \<Rightarrow> real" where
  "axis_key d = (if d = 0 then px else if d = 1 then py else if d = 2 then pz else px)"

fun coord_min :: "(point3 \<Rightarrow> real) \<Rightarrow> point3 list \<Rightarrow> real" where
  "coord_min f [] = 0"
| "coord_min f [p] = f p"
| "coord_min f (p # ps) = min (f p) (coord_min f ps)"

fun coord_max :: "(point3 \<Rightarrow> real) \<Rightarrow> point3 list \<Rightarrow> real" where
  "coord_max f [] = 0"
| "coord_max f [p] = f p"
| "coord_max f (p # ps) = max (f p) (coord_max f ps)"

definition best_axis :: "point3 list \<Rightarrow> nat" where
  "best_axis ps =
     (let dim_range = (\<lambda>i. coord_max (axis_key i) ps - coord_min (axis_key i) ps);
          d1 = (if dim_range 1 > dim_range 0 then 1 else 0);
          d2 = (if dim_range 2 > dim_range d1 then 2 else d1)
      in d2)"

text \<open>\<open>xs\<close> is the slice \<open>Storage[l..r]\<close>; \<open>mid\<close> is relative to \<open>l\<close>.\<close>

function BuildTree :: "nth_fun \<Rightarrow> point3 list \<Rightarrow> kd_tree" where
  "BuildTree ne xs =
     (if xs = [] then Null
      else
        let mid = (length xs - 1) div 2;
            div_axis = best_axis xs;
            ys = ne (axis_key div_axis) mid xs;
            left_son = BuildTree ne (take mid ys);
            right_son = BuildTree ne (take (length xs - Suc mid) (drop (Suc mid) ys))
        in Update (Node left_son (InitTreeNode\<lparr>division_axis := div_axis, point := ys ! mid\<rparr>) right_son))"
  by pat_completeness auto
termination
  by (relation "measure (\<lambda>(ne, xs). length xs)") (auto simp: neq_Nil_conv)

declare BuildTree.simps [simp del]

section \<open>Rebuild\<close>

definition Criterion_Check :: "kd_state \<Rightarrow> kd_tree \<Rightarrow> bool" where
  "Criterion_Check st t =
     (case t of
        Null \<Rightarrow> False
      | Node l a r \<Rightarrow>
          if TreeSize a \<le> Minimal_Unbalanced_Tree_Size then False
          else
            let son_size = (case l of Node _ s _ \<Rightarrow> TreeSize s
                            | Null \<Rightarrow> (case r of Node _ s _ \<Rightarrow> TreeSize s | Null \<Rightarrow> 0));
                delete_evaluation = of_int (invalid_point_num a) / of_int (TreeSize a) :: real;
                balance_evaluation = of_int son_size / of_int (TreeSize a - 1) :: real
            in if delete_evaluation > delete_criterion_param st then True
               else balance_evaluation > balance_criterion_param st
                    \<or> balance_evaluation < 1 - balance_criterion_param st)"

fun root_size :: "kd_tree \<Rightarrow> int" where
  "root_size Null = 0"
| "root_size (Node l a r) = TreeSize a"

definition Rebuild :: "nth_fun \<Rightarrow> kd_state \<Rightarrow> path \<Rightarrow> kd_tree \<Rightarrow> kd_tree \<times> kd_state" where
  "Rebuild ne st p t =
     (if root_size t \<ge> Multi_Thread_Rebuild_Point_Num then
        (if \<not> rebuild_ptr_locked st then
           (case Rebuild_Ptr st of
              None \<Rightarrow> (t, st\<lparr>Rebuild_Ptr := Some (p, root_size t)\<rparr>)
            | Some (q, n) \<Rightarrow>
                if root_size t > n then (t, st\<lparr>Rebuild_Ptr := Some (p, root_size t)\<rparr>) else (t, st))
         else (t, st))
      else
        let (t1, st1, storage) = flatten DELETE_POINTS_REC st p t;
            (_, st2) = delete_tree_nodes st1 p t1
        in (BuildTree ne storage, st2))"

text \<open>
  The tail that insertion and deletion share: \<open>Update\<close> the node, drop a rebuild that has
  become too small (else note the size of the node the pointer designates), rebuild if the
  criterion asks for it, clear \<open>working_flag\<close>.
\<close>

definition note_size :: "path \<Rightarrow> kd_tree \<Rightarrow> kd_state \<Rightarrow> kd_state" where
  "note_size p t st =
     (if at_rebuild st p then
        (if root_size t < Multi_Thread_Rebuild_Point_Num then st\<lparr>Rebuild_Ptr := None\<rparr>
         else st\<lparr>Rebuild_Ptr := Some (p, root_size t)\<rparr>)
      else st)"

fun clear_working :: "kd_tree \<Rightarrow> kd_tree" where
  "clear_working Null = Null"
| "clear_working (Node l a r) = Node l (a\<lparr>working_flag := False\<rparr>) r"

definition finish :: "nth_fun \<Rightarrow> kd_state \<Rightarrow> path \<Rightarrow> bool \<Rightarrow> kd_tree \<Rightarrow> kd_node \<Rightarrow> kd_tree \<Rightarrow> kd_tree \<times> kd_state" where
  "finish ne st p allow_rebuild l a r =
     (let t = Update (Node l a r);
          st1 = note_size p t st;
          need_rebuild = (allow_rebuild \<and> Criterion_Check st1 t);
          (t2, st2) = (if need_rebuild then Rebuild ne st1 p t else (t, st1))
      in (clear_working t2, st2))"

section \<open>Deletion by box\<close>

text \<open>The whole range of the node is deleted lazily.\<close>

definition mark_tree_deleted :: "bool \<Rightarrow> kd_node \<Rightarrow> kd_node" where
  "mark_tree_deleted is_downsample a =
     (let a1 = a\<lparr>tree_deleted := True, point_deleted := True, need_push_down_to_left := True,
                 need_push_down_to_right := True, invalid_point_num := TreeSize a\<rparr>
      in if is_downsample
         then a1\<lparr>tree_downsample_deleted := True, point_downsample_deleted := True,
                 down_del_num := TreeSize a1\<rparr>
         else a1)"

definition mark_point_deleted :: "bool \<Rightarrow> kd_node \<Rightarrow> kd_node" where
  "mark_point_deleted is_downsample a =
     (if is_downsample then a\<lparr>point_deleted := True, point_downsample_deleted := True\<rparr>
      else a\<lparr>point_deleted := True\<rparr>)"

definition delete_box_log :: "bool \<Rightarrow> BoxPointType \<Rightarrow> operation_log" where
  "delete_box_log is_downsample b = (if is_downsample then Log_Downsample_Delete b else Log_Delete_Box b)"

function Delete_by_range ::
  "nth_fun \<Rightarrow> kd_state \<Rightarrow> path \<Rightarrow> kd_tree \<Rightarrow> BoxPointType \<Rightarrow> bool \<Rightarrow> bool \<Rightarrow> kd_tree \<times> kd_state \<times> int" where
  "Delete_by_range ne st p Null boxpoint allow_rebuild is_downsample = (Null, st, 0)"
| "Delete_by_range ne st p (Node l a r) boxpoint allow_rebuild is_downsample =
     (if tree_deleted a then (Node l a r, st, 0)
      else
        let (l1, a1, r1, st1) = Push_Down st p l (a\<lparr>working_flag := True\<rparr>) r in
        if box_disjoint boxpoint (node_range a1) then (Node l1 a1 r1, st1, 0)
        else if box_covers boxpoint (node_range a1) then
          (Node l1 (mark_tree_deleted is_downsample a1) r1, st1, TreeSize a1 - invalid_point_num a1)
        else
          let hit = (\<not> point_deleted a1 \<and> in_box boxpoint (point a1));
              a2 = (if hit then mark_point_deleted is_downsample a1 else a1);
              log = delete_box_log is_downsample boxpoint;
              lb = at_rebuild st1 (p @ [LeftSon]);
              (l2, st2, nl) = Delete_by_range ne st1 (p @ [LeftSon]) l1 boxpoint
                                (if lb then False else allow_rebuild) is_downsample;
              st3 = log_if lb log st2;
              rb = at_rebuild st3 (p @ [RightSon]);
              (r2, st4, nr) = Delete_by_range ne st3 (p @ [RightSon]) r1 boxpoint
                                (if rb then False else allow_rebuild) is_downsample;
              st5 = log_if rb log st4;
              (t, st6) = finish ne st5 p allow_rebuild l2 a2 r2
          in (t, st6, bit hit + nl + nr))"
  by pat_completeness auto
termination
  by (relation "measure (\<lambda>(ne, st, p, t, b, al, ds). size t)") (auto dest: Push_Down_size)

section \<open>Deletion of one point\<close>

definition goes_left :: "kd_node \<Rightarrow> point3 \<Rightarrow> bool" where
  "goes_left a q \<longleftrightarrow> (division_axis a = 0 \<and> px q < px (point a))
     \<or> (division_axis a = 1 \<and> py q < py (point a)) \<or> (division_axis a = 2 \<and> pz q < pz (point a))"

function Delete_by_point ::
  "nth_fun \<Rightarrow> kd_state \<Rightarrow> path \<Rightarrow> kd_tree \<Rightarrow> point3 \<Rightarrow> bool \<Rightarrow> kd_tree \<times> kd_state" where
  "Delete_by_point ne st p Null q allow_rebuild = (Null, st)"
| "Delete_by_point ne st p (Node l a r) q allow_rebuild =
     (if tree_deleted a then (Node l a r, st)
      else
        let (l1, a1, r1, st1) = Push_Down st p l (a\<lparr>working_flag := True\<rparr>) r in
        if same_point (point a1) q \<and> \<not> point_deleted a1 then
          let n = invalid_point_num a1 + 1;
              a2 = a1\<lparr>point_deleted := True, invalid_point_num := n,
                      tree_deleted := (if n = TreeSize a1 then True else tree_deleted a1)\<rparr>
          in (Node l1 a2 r1, st1)
        else if goes_left a1 q then
          let b = at_rebuild st1 (p @ [LeftSon]);
              (l2, st2) = Delete_by_point ne st1 (p @ [LeftSon]) l1 q (if b then False else allow_rebuild);
              st3 = log_if b (Log_Delete_Point q) st2
          in finish ne st3 p allow_rebuild l2 a1 r1
        else
          let b = at_rebuild st1 (p @ [RightSon]);
              (r2, st2) = Delete_by_point ne st1 (p @ [RightSon]) r1 q (if b then False else allow_rebuild);
              st3 = log_if b (Log_Delete_Point q) st2
          in finish ne st3 p allow_rebuild l1 a1 r2)"
  by pat_completeness auto
termination
  by (relation "measure (\<lambda>(ne, st, p, t, q, al). size t)") (auto dest: Push_Down_size)

section \<open>Re-insertion by box\<close>

function Add_by_range ::
  "nth_fun \<Rightarrow> kd_state \<Rightarrow> path \<Rightarrow> kd_tree \<Rightarrow> BoxPointType \<Rightarrow> bool \<Rightarrow> kd_tree \<times> kd_state" where
  "Add_by_range ne st p Null boxpoint allow_rebuild = (Null, st)"
| "Add_by_range ne st p (Node l a r) boxpoint allow_rebuild =
     (let (l1, a1, r1, st1) = Push_Down st p l (a\<lparr>working_flag := True\<rparr>) r in
      if box_disjoint boxpoint (node_range a1) then (Node l1 a1 r1, st1)
      else if box_covers boxpoint (node_range a1) then
        (Node l1 (a1\<lparr>tree_deleted := False \<or> tree_downsample_deleted a1,
                     point_deleted := False \<or> point_downsample_deleted a1,
                     need_push_down_to_left := True, need_push_down_to_right := True,
                     invalid_point_num := down_del_num a1\<rparr>) r1, st1)
      else
        let a2 = (if in_box boxpoint (point a1) then a1\<lparr>point_deleted := point_downsample_deleted a1\<rparr> else a1);
            lb = at_rebuild st1 (p @ [LeftSon]);
            (l2, st2) = Add_by_range ne st1 (p @ [LeftSon]) l1 boxpoint (if lb then False else allow_rebuild);
            st3 = log_if lb (Log_Add_Box boxpoint) st2;
            rb = at_rebuild st3 (p @ [RightSon]);
            (r2, st4) = Add_by_range ne st3 (p @ [RightSon]) r1 boxpoint (if rb then False else allow_rebuild);
            st5 = log_if rb (Log_Add_Box boxpoint) st4
        in finish ne st5 p allow_rebuild l2 a2 r2)"
  by pat_completeness auto
termination
  by (relation "measure (\<lambda>(ne, st, p, t, b, al). size t)") (auto dest: Push_Down_size)

section \<open>Insertion\<close>

function Add_by_point ::
  "nth_fun \<Rightarrow> kd_state \<Rightarrow> path \<Rightarrow> kd_tree \<Rightarrow> point3 \<Rightarrow> bool \<Rightarrow> nat \<Rightarrow> kd_tree \<times> kd_state" where
  "Add_by_point ne st p Null q allow_rebuild father_axis =
     (Update (Node Null (InitTreeNode\<lparr>point := q, division_axis := (father_axis + 1) mod 3\<rparr>) Null), st)"
| "Add_by_point ne st p (Node l a r) q allow_rebuild father_axis =
     (let (l1, a1, r1, st1) = Push_Down st p l (a\<lparr>working_flag := True\<rparr>) r in
      if goes_left a1 q then
        let b = at_rebuild st1 (p @ [LeftSon]);
            (l2, st2) = Add_by_point ne st1 (p @ [LeftSon]) l1 q (if b then False else allow_rebuild) (division_axis a1);
            st3 = log_if b (Log_Add_Point q) st2
        in finish ne st3 p allow_rebuild l2 a1 r1
      else
        let b = at_rebuild st1 (p @ [RightSon]);
            (r2, st2) = Add_by_point ne st1 (p @ [RightSon]) r1 q (if b then False else allow_rebuild) (division_axis a1);
            st3 = log_if b (Log_Add_Point q) st2
        in finish ne st3 p allow_rebuild l1 a1 r2)"
  by pat_completeness auto
termination
  by (relation "measure (\<lambda>(ne, st, p, t, q, al, ax). size t)") (auto dest: Push_Down_size)

section \<open>Box and radius search\<close>

function Search_by_range ::
  "kd_state \<Rightarrow> path \<Rightarrow> kd_tree \<Rightarrow> BoxPointType \<Rightarrow> kd_tree \<times> kd_state \<times> point3 list" where
  "Search_by_range st p Null boxpoint = (Null, st, [])"
| "Search_by_range st p (Node l a r) boxpoint =
     (let (l1, a1, r1, st1) = Push_Down st p l a r in
      if box_disjoint boxpoint (node_range a1) then (Node l1 a1 r1, st1, [])
      else if box_covers boxpoint (node_range a1) then flatten NOT_RECORD st1 p (Node l1 a1 r1)
      else
        let here = (if in_box boxpoint (point a1) \<and> \<not> point_deleted a1 then [point a1] else []);
            (l2, st2, ls) = Search_by_range st1 (p @ [LeftSon]) l1 boxpoint;
            (r2, st3, rs) = Search_by_range st2 (p @ [RightSon]) r1 boxpoint
        in (Node l2 a1 r2, st3, here @ ls @ rs))"
  by pat_completeness auto
termination
  by (relation "measure (\<lambda>(st, p, t, b). size t)") (auto dest: Push_Down_size)

definition range_center :: "BoxPointType \<Rightarrow> point3" where
  "range_center r =
     \<lparr>px = (xmin r + xmax r) * (1 / 2), py = (ymin r + ymax r) * (1 / 2), pz = (zmin r + zmax r) * (1 / 2)\<rparr>"

function Search_by_radius ::
  "kd_state \<Rightarrow> path \<Rightarrow> kd_tree \<Rightarrow> point3 \<Rightarrow> real \<Rightarrow> kd_tree \<times> kd_state \<times> point3 list" where
  "Search_by_radius st p Null q radius = (Null, st, [])"
| "Search_by_radius st p (Node l a r) q radius =
     (let (l1, a1, r1, st1) = Push_Down st p l a r;
          d = sqrt (calc_dist (range_center (node_range a1)) q)
      in if d > radius + sqrt (radius_sq a1) then (Node l1 a1 r1, st1, [])
         else if d \<le> radius - sqrt (radius_sq a1) then flatten NOT_RECORD st1 p (Node l1 a1 r1)
         else
           let here = (if \<not> point_deleted a1 \<and> calc_dist (point a1) q \<le> radius * radius then [point a1] else []);
               (l2, st2, ls) = Search_by_radius st1 (p @ [LeftSon]) l1 q radius;
               (r2, st3, rs) = Search_by_radius st2 (p @ [RightSon]) r1 q radius
           in (Node l2 a1 r2, st3, here @ ls @ rs))"
  by pat_completeness auto
termination
  by (relation "measure (\<lambda>(st, p, t, q, rad). size t)") (auto dest: Push_Down_size)

end
