(* ===== verification/KD_Inv.thy ===== *)
theory KD_Inv
  imports KD_Ops
begin

text \<open>
  The invariant of an ikd-Tree and what every operation but \<open>Add_by_range\<close> keeps of it.
  It ties the lazily maintained fields to the points that are really there: the size and
  deletion counters, the range, the deletion flags, and the pending push-downs.
\<close>

section \<open>The invariant\<close>

text \<open>The root's \<open>tree_deleted\<close>; a null pointer has nothing left.\<close>

fun dead :: "kd_tree \<Rightarrow> bool" where
  "dead Null = True"
| "dead (Node l a r) = tree_deleted a"

text \<open>A null pointer, or a leaf that nothing has happened to since it was created.\<close>

fun fresh :: "kd_tree \<Rightarrow> bool" where
  "fresh Null = True"
| "fresh (Node l a r) =
     (l = Null \<and> r = Null \<and> \<not> tree_deleted a \<and> \<not> point_deleted a \<and> \<not> tree_downsample_deleted a
      \<and> \<not> point_downsample_deleted a \<and> down_del_num a = 0 \<and> invalid_point_num a = 0)"

text \<open>
  A pending push-down: under a deleted root it will delete the son; otherwise it can only
  be a left-over flag of a son that did not exist at the last push, which it does not harm.
\<close>

definition son_ok :: "bool \<Rightarrow> bool \<Rightarrow> kd_tree \<Rightarrow> bool" where
  "son_ok td need s \<longleftrightarrow> (if td then need \<or> dead s else need \<longrightarrow> fresh s)"

definition flags_ok :: "kd_node \<Rightarrow> bool" where
  "flags_ok a \<longleftrightarrow> (tree_deleted a \<longrightarrow> point_deleted a) \<and> (point_downsample_deleted a \<longrightarrow> point_deleted a)
     \<and> (tree_downsample_deleted a \<longrightarrow> tree_deleted a)"

definition node_ok :: "kd_tree \<Rightarrow> kd_node \<Rightarrow> kd_tree \<Rightarrow> bool" where
  "node_ok l a r \<longleftrightarrow>
     TreeSize a = int (tree_count (Node l a r)) \<and>
     invalid_point_num a = TreeSize a - int (length (live (Node l a r))) \<and>
     (tree_deleted a \<longleftrightarrow> live (Node l a r) = []) \<and>
     flags_ok a \<and>
     (\<forall>q \<in> set (live (Node l a r)). in_range (node_range a) q) \<and>
     radius_sq a = range_radius_sq (node_range a) \<and>
     son_ok (tree_deleted a) (need_push_down_to_left a) l \<and>
     son_ok (tree_deleted a) (need_push_down_to_right a) r"

fun kd_inv :: "kd_tree \<Rightarrow> bool" where
  "kd_inv Null = True"
| "kd_inv (Node l a r) = (kd_inv l \<and> kd_inv r \<and> node_ok l a r)"

lemma kd_inv_dead: "kd_inv t \<Longrightarrow> dead t \<longleftrightarrow> live t = []"
  by (cases t) (auto simp: node_ok_def)

lemma kd_inv_root_size: "kd_inv t \<Longrightarrow> root_size t = int (tree_count t)"
  by (cases t) (auto simp: node_ok_def)

fun root_invalid :: "kd_tree \<Rightarrow> int" where
  "root_invalid Null = 0"
| "root_invalid (Node l a r) = invalid_point_num a"

lemma kd_inv_root_invalid: "kd_inv t \<Longrightarrow> root_invalid t = int (tree_count t) - int (length (live t))"
  by (cases t) (auto simp: node_ok_def)

lemma tree_count_eq_0 [simp]: "tree_count t = 0 \<longleftrightarrow> t = Null"
  by (cases t) auto

lemma length_live_le: "length (live t) \<le> tree_count t"
  by (induction t) auto

lemma flags_ok_working [simp]: "flags_ok (a\<lparr>working_flag := b\<rparr>) = flags_ok a"
  by (simp add: flags_ok_def)

lemma node_ok_working [simp]: "node_ok l (a\<lparr>working_flag := b\<rparr>) r = node_ok l a r"
  by (simp add: node_ok_def)

lemma live_working [simp]: "live (Node l (a\<lparr>working_flag := b\<rparr>) r) = live (Node l a r)"
  by simp

section \<open>Update\<close>

definition here_live :: "kd_node \<Rightarrow> point3 list" where
  "here_live a = (if point_deleted a then [] else [point a])"

text \<open>The four cases of \<open>Update\<close> at once.\<close>

fun root_tdd :: "kd_tree \<Rightarrow> bool" where
  "root_tdd Null = True"
| "root_tdd (Node l a r) = tree_downsample_deleted a"

definition upd_range :: "kd_tree \<Rightarrow> kd_node \<Rightarrow> kd_tree \<Rightarrow> BoxPointType" where
  "upd_range l a r = (case Update (Node l a r) of Node _ b _ \<Rightarrow> node_range b | Null \<Rightarrow> node_range a)"

lemma Update_node:
  "\<exists>b. Update (Node l a r) = Node l b r \<and>
     TreeSize b = root_size l + root_size r + 1 \<and>
     invalid_point_num b = root_invalid l + root_invalid r + bit (point_deleted a) \<and>
     tree_deleted b = (dead l \<and> dead r \<and> point_deleted a) \<and>
     tree_downsample_deleted b = (root_tdd l \<and> root_tdd r \<and> point_downsample_deleted a) \<and>
     point_deleted b = point_deleted a \<and> point_downsample_deleted b = point_downsample_deleted a \<and>
     point b = point a \<and> need_push_down_to_left b = need_push_down_to_left a \<and>
     need_push_down_to_right b = need_push_down_to_right a \<and> division_axis b = division_axis a \<and>
     node_range b = upd_range l a r \<and> radius_sq b = range_radius_sq (upd_range l a r)"
  by (cases l; cases r) (auto simp: Let_def set_range_def upd_range_def)

lemma range_add_in: "in_range b q \<Longrightarrow> \<exists>c. range_add r b = Some c \<and> in_range c q"
  by (auto simp: range_add_def in_range_join2 split: option.splits)

lemma range_add_keep: "in_range c q \<Longrightarrow> \<exists>d. range_add (Some c) b = Some d \<and> in_range d q"
  by (auto simp: range_add_def in_range_join1)

lemma merge_ranges_in:
  assumes "(\<exists>b. l = Some b \<and> in_range b q) \<or> (\<exists>b. r = Some b \<and> in_range b q) \<or> (\<exists>b. p = Some b \<and> in_range b q)"
  shows "in_range (merge_ranges l r p old) q"
  using assms
  by (auto simp: merge_ranges_def Let_def range_add_def in_range_join1 in_range_join2 split: option.splits)

text \<open>
  On every reachable call at least one part is still live where the parts are merged one by
  one, so the range never stays infinite.
\<close>

lemma merge_ranges_old:
  "l \<noteq> None \<or> r \<noteq> None \<or> p \<noteq> None \<Longrightarrow> merge_ranges l r p old = merge_ranges l r p old'"
  by (auto simp: merge_ranges_def Let_def range_add_def split: option.splits)

fun root_range :: "kd_tree \<Rightarrow> BoxPointType" where
  "root_range Null = point_range \<lparr>px = 0, py = 0, pz = 0\<rparr>"
| "root_range (Node l a r) = node_range a"

lemma upd_range_sub:
  assumes "(\<not> dead l \<and> in_range (root_range l) q) \<or> (\<not> dead r \<and> in_range (root_range r) q)
      \<or> (\<not> point_deleted a \<and> q = point a)"
  shows "in_range (upd_range l a r) q"
  using assms
  by (cases l; cases r)
     (auto simp: upd_range_def Let_def set_range_def in_range_join1 in_range_join2 intro!: merge_ranges_in)

lemma kd_inv_range: "kd_inv t \<Longrightarrow> q \<in> set (live t) \<Longrightarrow> in_range (root_range t) q"
  by (cases t) (auto simp: node_ok_def)

lemma live_not_dead: "kd_inv t \<Longrightarrow> q \<in> set (live t) \<Longrightarrow> \<not> dead t"
  using kd_inv_dead by fastforce

lemma Update_live:
  assumes "kd_inv l" "kd_inv r"
  shows "live (Update (Node l a r)) = here_live a @ live l @ live r"
proof -
  obtain b where b: "Update (Node l a r) = Node l b r"
    "tree_deleted b = (dead l \<and> dead r \<and> point_deleted a)" "point_deleted b = point_deleted a"
    "point b = point a"
    using Update_node [of l a r] by blast
  show ?thesis
    using b assms by (auto simp: here_live_def kd_inv_dead)
qed

lemma Update_inv:
  assumes inv: "kd_inv l" "kd_inv r"
    and fresh: "need_push_down_to_left a \<Longrightarrow> fresh l" "need_push_down_to_right a \<Longrightarrow> fresh r"
    and pdd: "point_downsample_deleted a \<Longrightarrow> point_deleted a"
  shows "kd_inv (Update (Node l a r))"
proof -
  obtain b where b: "Update (Node l a r) = Node l b r"
    "TreeSize b = root_size l + root_size r + 1"
    "invalid_point_num b = root_invalid l + root_invalid r + bit (point_deleted a)"
    "tree_deleted b = (dead l \<and> dead r \<and> point_deleted a)"
    "tree_downsample_deleted b = (root_tdd l \<and> root_tdd r \<and> point_downsample_deleted a)"
    "point_deleted b = point_deleted a" "point_downsample_deleted b = point_downsample_deleted a"
    "point b = point a" "need_push_down_to_left b = need_push_down_to_left a"
    "need_push_down_to_right b = need_push_down_to_right a"
    "node_range b = upd_range l a r" "radius_sq b = range_radius_sq (upd_range l a r)"
    using Update_node [of l a r] by blast
  have lv: "live (Node l b r) = here_live a @ live l @ live r"
    using Update_live [OF inv] b(1) by metis
  have tdd: "root_tdd t \<Longrightarrow> dead t" if "kd_inv t" for t
    using that by (cases t) (auto simp: node_ok_def flags_ok_def)
  have "\<forall>q \<in> set (live (Node l b r)). in_range (node_range b) q"
    unfolding lv b(11)
    using inv kd_inv_range live_not_dead
    by (intro ballI upd_range_sub) (auto simp: here_live_def split: if_splits)
  moreover have "flags_ok b"
    using b pdd tdd inv by (auto simp: flags_ok_def)
  moreover have "TreeSize b = int (tree_count (Node l b r))"
    using b inv by (simp add: kd_inv_root_size)
  moreover have "invalid_point_num b = TreeSize b - int (length (live (Node l b r)))"
    unfolding lv using b inv
    by (simp add: kd_inv_root_size kd_inv_root_invalid here_live_def bit_def)
  moreover have "tree_deleted b \<longleftrightarrow> live (Node l b r) = []"
    unfolding lv using b inv by (auto simp: kd_inv_dead here_live_def)
  moreover have "son_ok (tree_deleted b) (need_push_down_to_left b) l"
    "son_ok (tree_deleted b) (need_push_down_to_right b) r"
    using b fresh by (auto simp: son_ok_def)
  moreover have "radius_sq b = range_radius_sq (node_range b)"
    using b(11,12) by simp
  ultimately show ?thesis
    unfolding b(1) kd_inv.simps node_ok_def using inv by blast
qed

lemma tree_count_Update [simp]: "tree_count (Update t) = tree_count t"
proof (cases t)
  case (Node l a r)
  then show ?thesis using Update_node [of l a r] by auto
qed simp

section \<open>Push_Down\<close>

lemma inherit_eq_Null [simp]: "inherit a t = Null \<longleftrightarrow> t = Null"
  by (cases t) auto

lemma tree_count_inherit [simp]: "tree_count (inherit a t) = tree_count t"
  by (cases t) auto

lemma inherit_deleted:
  assumes "kd_inv t" "tree_deleted a"
  shows "kd_inv (inherit a t) \<and> live (inherit a t) = [] \<and> dead (inherit a t)"
proof (cases t)
  case (Node l s r)
  then show ?thesis
    using assms by (auto simp: inherit_flags_def Let_def node_ok_def flags_ok_def son_ok_def)
qed simp

lemma inherit_fresh:
  assumes "kd_inv t" "fresh t" "\<not> tree_deleted a" "\<not> tree_downsample_deleted a"
  shows "kd_inv (inherit a t) \<and> live (inherit a t) = live t \<and> fresh (inherit a t)"
proof (cases t)
  case (Node l s r)
  then show ?thesis
    using assms by (auto simp: inherit_flags_def Let_def node_ok_def flags_ok_def son_ok_def)
qed simp

text \<open>What a push leaves: the same live points, no pending push to an existing son.\<close>

definition same_core :: "kd_node \<Rightarrow> kd_node \<Rightarrow> bool" where
  "same_core a b \<longleftrightarrow> b = a\<lparr>need_push_down_to_left := need_push_down_to_left b,
                         need_push_down_to_right := need_push_down_to_right b\<rparr>"

definition pushed :: "kd_tree \<Rightarrow> kd_node \<Rightarrow> kd_tree \<Rightarrow> bool" where
  "pushed l a r \<longleftrightarrow> (need_push_down_to_left a \<longrightarrow> l = Null) \<and> (need_push_down_to_right a \<longrightarrow> r = Null)"

lemma inherit_son:
  assumes "kd_inv t" "son_ok (tree_deleted a) need t" "flags_ok a" "need"
  shows "kd_inv (inherit a t) \<and> live (inherit a t) = (if tree_deleted a then [] else live t)
    \<and> (tree_deleted a \<longrightarrow> dead (inherit a t))"
  using assms inherit_deleted [of t a] inherit_fresh [of t a]
  by (auto simp: son_ok_def flags_ok_def)

lemma Push_Down_spec:
  assumes inv: "kd_inv (Node l a r)" and push: "Push_Down st p l a r = (l', a', r', st')"
  shows "kd_inv (Node l' a' r')" "pushed l' a' r'" "same_core a a'"
    "live (Node l' a' r') = live (Node l a r)"
    "tree_count l' = tree_count l" "tree_count r' = tree_count r"
    "live l' = (if tree_deleted a then [] else live l)"
    "live r' = (if tree_deleted a then [] else live r)"
    "l' = Null \<longleftrightarrow> l = Null" "r' = Null \<longleftrightarrow> r = Null"
proof -
  let ?pl = "need_push_down_to_left a \<and> l \<noteq> Null"
  let ?pr = "need_push_down_to_right a \<and> r \<noteq> Null"
  have l': "l' = (if ?pl then inherit a l else l)" and r': "r' = (if ?pr then inherit a r else r)"
    and a': "a' = a\<lparr>need_push_down_to_left := need_push_down_to_left a \<and> l = Null,
                    need_push_down_to_right := need_push_down_to_right a \<and> r = Null\<rparr>"
    using push by (auto simp: Push_Down_def Let_def)
  have ok: "flags_ok a" "son_ok (tree_deleted a) (need_push_down_to_left a) l"
    "son_ok (tree_deleted a) (need_push_down_to_right a) r" "kd_inv l" "kd_inv r"
    using inv by (auto simp: node_ok_def)
  have L: "kd_inv l' \<and> live l' = (if tree_deleted a then [] else live l) \<and> (tree_deleted a \<longrightarrow> dead l')"
    using ok(1,2,4) inherit_son [of l a] unfolding l' by (auto simp: son_ok_def kd_inv_dead)
  have R: "kd_inv r' \<and> live r' = (if tree_deleted a then [] else live r) \<and> (tree_deleted a \<longrightarrow> dead r')"
    using ok(1,3,5) inherit_son [of r a] unfolding r' by (auto simp: son_ok_def kd_inv_dead)
  show c: "tree_count l' = tree_count l" "tree_count r' = tree_count r"
    unfolding l' r' by auto
  show "live l' = (if tree_deleted a then [] else live l)"
    "live r' = (if tree_deleted a then [] else live r)"
    using L R by auto
  show nul: "l' = Null \<longleftrightarrow> l = Null" "r' = Null \<longleftrightarrow> r = Null"
    unfolding l' r' by auto
  show live: "live (Node l' a' r') = live (Node l a r)"
    using L R unfolding a' by auto
  show "pushed l' a' r'"
    using nul unfolding a' pushed_def by auto
  show "same_core a a'"
    unfolding same_core_def a' by simp
  have N: "node_ok l a r" using inv by simp
  have son: "son_ok (tree_deleted a') (need_push_down_to_left a') l'"
    "son_ok (tree_deleted a') (need_push_down_to_right a') r'"
    using L R nul unfolding a' by (auto simp: son_ok_def)
  have core: "TreeSize a' = TreeSize a" "invalid_point_num a' = invalid_point_num a"
    "tree_deleted a' = tree_deleted a" "flags_ok a' = flags_ok a" "node_range a' = node_range a"
    "radius_sq a' = radius_sq a" "tree_count (Node l' a' r') = tree_count (Node l a r)"
    using c unfolding a' by (auto simp: flags_ok_def)
  have "node_ok l' a' r'"
    using N son unfolding node_ok_def core live by blast
  with L R show "kd_inv (Node l' a' r')" by simp
qed

end
