(* ===== verification/KD_Correct.thy ===== *)
theory KD_Correct
  imports KD_Inv
begin

text \<open>
  What the operations do to the live points, under the invariant: \<open>flatten\<close> lists them,
  \<open>BuildTree\<close> and \<open>Rebuild\<close> keep them, insertion adds one, the deletions remove
  exactly those of a box, or at most one, and the box search lists those of a box.
\<close>

section \<open>Replacing the sons of a pushed node\<close>

lemma same_core_fields:
  assumes "same_core a b"
  shows "point b = point a" "division_axis b = division_axis a" "TreeSize b = TreeSize a"
    "invalid_point_num b = invalid_point_num a" "point_deleted b = point_deleted a"
    "tree_deleted b = tree_deleted a" "tree_downsample_deleted b = tree_downsample_deleted a"
    "point_downsample_deleted b = point_downsample_deleted a" "node_range b = node_range a"
    "radius_sq b = radius_sq a" "down_del_num b = down_del_num a"
  using assms unfolding same_core_def by (metis kd_node.select_convs kd_node.surjective
      kd_node.update_convs(10) kd_node.update_convs(11))+

lemma node_replace:
  assumes "kd_inv (Node l a r)" "pushed l a r" "kd_inv l2" "kd_inv r2"
    and live: "live l2 = live l" "live r2 = live r"
    and count: "tree_count l2 = tree_count l" "tree_count r2 = tree_count r"
  shows "kd_inv (Node l2 a r2)" "live (Node l2 a r2) = live (Node l a r)"
proof -
  show lv: "live (Node l2 a r2) = live (Node l a r)" using live by simp
  have nul: "l2 = Null \<longleftrightarrow> l = Null" "r2 = Null \<longleftrightarrow> r = Null"
    using count by (metis tree_count_eq_0)+
  have N: "node_ok l a r" using assms(1) by simp
  have "dead l2 \<longleftrightarrow> dead l" "dead r2 \<longleftrightarrow> dead r"
    using assms by (auto simp: kd_inv_dead)
  then have "son_ok (tree_deleted a) (need_push_down_to_left a) l2"
    "son_ok (tree_deleted a) (need_push_down_to_right a) r2"
    using N assms(2) nul by (auto simp: son_ok_def node_ok_def pushed_def)
  moreover have "tree_count (Node l2 a r2) = tree_count (Node l a r)" using count by simp
  ultimately have "node_ok l2 a r2"
    using N unfolding node_ok_def lv by metis
  then show "kd_inv (Node l2 a r2)" using assms(3,4) by simp
qed

section \<open>Induction over subtrees of the same shape\<close>

text \<open>The recursive calls are made on the sons after a push, which have the sons' sizes.\<close>

lemma shape_induct [case_names Null Node]:
  assumes "P Null"
    and "\<And>l a r. (\<And>t. tree_count t = tree_count l \<Longrightarrow> P t) \<Longrightarrow> (\<And>t. tree_count t = tree_count r \<Longrightarrow> P t) \<Longrightarrow>
           P (Node l a r)"
  shows "P t"
proof (induction "tree_count t" arbitrary: t rule: less_induct)
  case less
  then show ?case using assms by (cases t) auto
qed

section \<open>flatten\<close>

lemma flatten_spec:
  "kd_inv t \<Longrightarrow> flatten stype st p t = (t', st', ps) \<Longrightarrow>
   ps = live t \<and> kd_inv t' \<and> live t' = live t \<and> tree_count t' = tree_count t"
proof (induction t arbitrary: st p t' st' ps rule: shape_induct)
  case Null
  then show ?case by simp
next
  case (Node l a r)
  obtain l1 a1 r1 st1 where push: "Push_Down st p l a r = (l1, a1, r1, st1)"
    by (metis prod_cases4)
  obtain l2 st2 ls where fl: "flatten stype st1 (p @ [LeftSon]) l1 = (l2, st2, ls)"
    by (metis prod_cases3)
  obtain r2 st3 rs where fr: "flatten stype st2 (p @ [RightSon]) r1 = (r2, st3, rs)"
    by (metis prod_cases3)
  note P = Push_Down_spec [OF Node.prems(1) push]
  have inv: "kd_inv l1" "kd_inv r1" using P(1) by auto
  note IHl = Node.IH(1) [OF P(5) inv(1) fl]
  note IHr = Node.IH(2) [OF P(6) inv(2) fr]
  have res: "t' = Node l2 a1 r2" "ps = (if \<not> point_deleted a1 then [point a1] else []) @ ls @ rs"
    using Node.prems(2) by (simp_all add: push fl fr Let_def)
  have rep: "kd_inv (Node l2 a1 r2)" "live (Node l2 a1 r2) = live (Node l1 a1 r1)"
    using node_replace [OF P(1,2)] IHl IHr by auto
  have "ps = live (Node l1 a1 r1)"
    using res(2) IHl IHr P(1,3,7,8)
    by (auto simp: same_core_fields node_ok_def flags_ok_def)
  then show ?case
    using res rep P(4,5,6) IHl IHr by simp
qed

lemma flatten_points: "kd_inv t \<Longrightarrow> snd (snd (flatten stype st p t)) = live t"
  using flatten_spec by (metis prod.collapse)

section \<open>BuildTree\<close>

lemma nth_element_length: "nth_element_ok ne \<Longrightarrow> n < length xs \<Longrightarrow> length (ne key n xs) = length xs"
  unfolding nth_element_ok_def by (metis size_mset)

lemma nth_element_mset: "nth_element_ok ne \<Longrightarrow> n < length xs \<Longrightarrow> mset (ne key n xs) = mset xs"
  unfolding nth_element_ok_def by blast

lemma tree_count_live: "kd_inv t \<Longrightarrow> tree_count t = length (live t) \<longleftrightarrow> root_invalid t = 0"
  by (simp add: kd_inv_root_invalid)

lemma BuildTree_spec:
  "nth_element_ok ne \<Longrightarrow>
   kd_inv (BuildTree ne xs) \<and> live_mset (BuildTree ne xs) = mset xs \<and> tree_count (BuildTree ne xs) = length xs"
proof (induction ne xs rule: BuildTree.induct)
  case (1 ne xs)
  show ?case
  proof (cases "xs = []")
    case True
    then show ?thesis by (simp add: BuildTree.simps)
  next
    case False
    define mid where "mid = (length xs - 1) div 2"
    define ys where "ys = ne (axis_key (best_axis xs)) mid xs"
    define zs where "zs = take (length xs - Suc mid) (drop (Suc mid) ys)"
    define a where "a = InitTreeNode\<lparr>division_axis := best_axis xs, point := ys ! mid\<rparr>"
    have build: "BuildTree ne xs = Update (Node (BuildTree ne (take mid ys)) a (BuildTree ne zs))"
      using False by (subst BuildTree.simps) (simp add: Let_def mid_def ys_def zs_def a_def)
    have mid: "mid < length xs" using False by (auto simp: mid_def neq_Nil_conv)
    have ys: "length ys = length xs" "mset ys = mset xs"
      unfolding ys_def using nth_element_length nth_element_mset "1.prems" mid by blast+
    have zs: "zs = drop (Suc mid) ys" using ys mid by (simp add: zs_def)
    have IHl: "kd_inv (BuildTree ne (take mid ys)) \<and> live_mset (BuildTree ne (take mid ys)) = mset (take mid ys)
        \<and> tree_count (BuildTree ne (take mid ys)) = length (take mid ys)"
      by (rule "1.IH"(1) [OF False mid_def refl ys_def "1.prems"])
    have IHr: "kd_inv (BuildTree ne zs) \<and> live_mset (BuildTree ne zs) = mset zs
        \<and> tree_count (BuildTree ne zs) = length zs"
      unfolding zs_def by (rule "1.IH"(2) [OF False mid_def refl ys_def refl "1.prems"])
    have a: "\<not> point_deleted a" "point a = ys ! mid" "\<not> need_push_down_to_left a"
      "\<not> need_push_down_to_right a" "\<not> point_downsample_deleted a"
      by (simp_all add: a_def InitTreeNode_def)
    have "live_mset (BuildTree ne xs) = mset (take mid ys) + {#ys ! mid#} + mset zs"
      unfolding build using IHl IHr a by (simp add: Update_live here_live_def)
    also have "\<dots> = mset xs"
      using mset_take_nth_drop [of mid ys] ys mid by (simp add: zs)
    finally have live: "live_mset (BuildTree ne xs) = mset xs" .
    moreover have "kd_inv (BuildTree ne xs)"
      unfolding build using IHl IHr a by (intro Update_inv) auto
    moreover have "tree_count (BuildTree ne xs) = length xs"
      using IHl IHr ys mid by (simp add: build zs)
    ultimately show ?thesis by blast
  qed
qed

lemmas BuildTree_inv = BuildTree_spec [THEN conjunct1]
lemmas BuildTree_live = BuildTree_spec [THEN conjunct2, THEN conjunct1]

section \<open>Rebuild and the common tail\<close>

lemma Rebuild_spec:
  assumes "nth_element_ok ne" "kd_inv t" "Rebuild ne st p t = (t', st')"
  shows "kd_inv t' \<and> live_mset t' = live_mset t"
proof -
  obtain t1 st1 ps where fl: "flatten DELETE_POINTS_REC st p t = (t1, st1, ps)"
    by (metis prod_cases3)
  have "ps = live t" using flatten_spec [OF assms(2) fl] by simp
  then show ?thesis
    using assms BuildTree_spec [OF assms(1), of ps]
    by (auto simp: Rebuild_def fl Let_def split: if_splits option.splits prod.splits)
qed

lemma clear_working_inv [simp]: "kd_inv (clear_working t) = kd_inv t"
  by (cases t) auto

lemma clear_working_live [simp]: "live (clear_working t) = live t"
  by (cases t) auto

lemma finish_spec:
  assumes ne: "nth_element_ok ne" and inv: "kd_inv l" "kd_inv r"
    and fresh: "need_push_down_to_left a \<Longrightarrow> fresh l" "need_push_down_to_right a \<Longrightarrow> fresh r"
    and pdd: "point_downsample_deleted a \<Longrightarrow> point_deleted a"
    and fin: "finish ne st p allow l a r = (t', st')"
  shows "kd_inv t'" and "live_mset t' = mset (here_live a) + live_mset l + live_mset r"
proof -
  let ?t = "Update (Node l a r)"
  have u: "kd_inv ?t" "live ?t = here_live a @ live l @ live r"
    using Update_inv Update_live assms by auto
  obtain t2 st2 where reb: "Rebuild ne (note_size p ?t st) p ?t = (t2, st2)"
    by (metis surj_pair)
  have "kd_inv t2 \<and> live_mset t2 = live_mset ?t" using Rebuild_spec [OF ne u(1) reb] .
  then have "kd_inv t' \<and> live_mset t' = live_mset ?t"
    using fin u reb by (auto simp: finish_def Let_def split: if_splits)
  then show "kd_inv t'" and "live_mset t' = mset (here_live a) + live_mset l + live_mset r"
    using u by auto
qed

section \<open>Deletion by box\<close>

lemma mark_tree_deleted_spec:
  assumes "kd_inv (Node l a r)"
  shows "kd_inv (Node l (mark_tree_deleted ds a) r)" "live (Node l (mark_tree_deleted ds a) r) = []"
proof -
  show live: "live (Node l (mark_tree_deleted ds a) r) = []"
    by (simp add: mark_tree_deleted_def Let_def)
  have "radius_sq a = range_radius_sq (node_range a)" "flags_ok a"
    "TreeSize a = int (tree_count (Node l a r))"
    using assms by (auto simp: node_ok_def)
  then have "node_ok l (mark_tree_deleted ds a) r"
    unfolding node_ok_def live
    by (auto simp: mark_tree_deleted_def Let_def flags_ok_def son_ok_def)
  then show "kd_inv (Node l (mark_tree_deleted ds a) r)" using assms by simp
qed

lemma live_undeleted:
  "\<not> tree_deleted a \<Longrightarrow> live (Node l a r) = here_live a @ live l @ live r"
  by (simp add: here_live_def)

lemma live_in_range: "kd_inv (Node l a r) \<Longrightarrow> q \<in># live_mset (Node l a r) \<Longrightarrow> in_range (node_range a) q"
  by (simp only: kd_inv.simps node_ok_def set_mset_mset)

lemma live_count:
  "kd_inv (Node l a r) \<Longrightarrow> TreeSize a - invalid_point_num a = int (size (live_mset (Node l a r)))"
  by (simp only: kd_inv.simps node_ok_def size_mset)

lemma kd_inv_flags: "kd_inv (Node l a r) \<Longrightarrow> flags_ok a"
  by (simp add: node_ok_def)

lemma kd_inv_set_working: "kd_inv (Node l a r) \<Longrightarrow> kd_inv (Node l (a\<lparr>working_flag := True\<rparr>) r)"
  by simp

lemma Delete_by_range_Null [simp]: "fst (Delete_by_range ne st p Null b al ds) = Null"
  by simp

lemma Delete_by_range_spec:
  assumes ne: "nth_element_ok ne"
  shows "kd_inv t \<Longrightarrow> Delete_by_range ne st p t b al ds = (t', st', n) \<Longrightarrow>
    kd_inv t' \<and> live_mset t' = filter_mset (\<lambda>q. \<not> in_box b q) (live_mset t)
    \<and> n = int (size (filter_mset (in_box b) (live_mset t)))"
proof (induction t arbitrary: st p al t' st' n rule: shape_induct)
  case Null
  then show ?case by simp
next
  case (Node l a r)
  show ?case
  proof (cases "tree_deleted a")
    case True
    with Node.prems show ?thesis by auto
  next
    case td: False
    obtain l1 a1 r1 st1 where push: "Push_Down st p l (a\<lparr>working_flag := True\<rparr>) r = (l1, a1, r1, st1)"
      by (metis prod_cases4)
    note P = Push_Down_spec [OF kd_inv_set_working [OF Node.prems(1)] push]
    have live1: "live (Node l1 a1 r1) = live (Node l a r)" using P(4) by simp
    have inv1: "kd_inv l1" "kd_inv r1" and td1: "\<not> tree_deleted a1"
      using P(1) P(3) td by (auto simp: same_core_fields)
    consider (out) "box_disjoint b (node_range a1)"
      | (cover) "\<not> box_disjoint b (node_range a1)" "box_covers b (node_range a1)"
      | (split) "\<not> box_disjoint b (node_range a1)" "\<not> box_covers b (node_range a1)" by blast
    then show ?thesis
    proof cases
      case out
      then have res: "t' = Node l1 a1 r1" "n = 0" using Node.prems(2) td by (simp_all add: push)
      have "\<forall>q \<in># live_mset (Node l1 a1 r1). \<not> in_box b q"
        using out box_disjoint_in_range live_in_range [OF P(1)] by blast
      then show ?thesis
        unfolding res live1 [symmetric] using P(1) by (simp add: filter_mset_all filter_mset_none)
    next
      case cover
      then have res: "t' = Node l1 (mark_tree_deleted ds a1) r1" "n = TreeSize a1 - invalid_point_num a1"
        using Node.prems(2) td by (simp_all add: push)
      have "\<forall>q \<in># live_mset (Node l1 a1 r1). in_box b q"
        using cover box_covers_in_range live_in_range [OF P(1)] by blast
      then show ?thesis
        unfolding res live1 [symmetric] live_count [OF P(1)] mark_tree_deleted_spec(2) [OF P(1)]
        using mark_tree_deleted_spec(1) [OF P(1)] by (simp only: filter_mset_all filter_mset_none) simp
    next
      case split
      define hit where "hit = (\<not> point_deleted a1 \<and> in_box b (point a1))"
      define a2 where "a2 = (if hit then mark_point_deleted ds a1 else a1)"
      define lb where "lb = at_rebuild st1 (p @ [LeftSon])"
      obtain l2 st2 nl where dl:
        "Delete_by_range ne st1 (p @ [LeftSon]) l1 b (if lb then False else al) ds = (l2, st2, nl)"
        by (metis prod_cases3)
      define st3 where "st3 = log_if lb (delete_box_log ds b) st2"
      define rb where "rb = at_rebuild st3 (p @ [RightSon])"
      obtain r2 st4 nr where dr:
        "Delete_by_range ne st3 (p @ [RightSon]) r1 b (if rb then False else al) ds = (r2, st4, nr)"
        by (metis prod_cases3)
      obtain t2 st6 where fin: "finish ne (log_if rb (delete_box_log ds b) st4) p al l2 a2 r2 = (t2, st6)"
        by (metis surj_pair)
      have res: "t' = t2" "n = bit hit + nl + nr"
        using Node.prems(2) td split dl dr fin
        by (simp_all add: push Let_def hit_def [symmetric] a2_def [symmetric] lb_def [symmetric]
            st3_def [symmetric] rb_def [symmetric])
      note IHl = Node.IH(1) [OF P(5) inv1(1) dl] and IHr = Node.IH(2) [OF P(6) inv1(2) dr]
      have Null: "l1 = Null \<Longrightarrow> l2 = Null" "r1 = Null \<Longrightarrow> r2 = Null"
        using dl dr by auto
      have a2: "mset (here_live a2) = filter_mset (\<lambda>q. \<not> in_box b q) (mset (here_live a1))"
        "bit hit = int (size (filter_mset (in_box b) (mset (here_live a1))))"
        "need_push_down_to_left a2 = need_push_down_to_left a1"
        "need_push_down_to_right a2 = need_push_down_to_right a1"
        "point_downsample_deleted a2 \<Longrightarrow> point_deleted a2"
        using kd_inv_flags [OF P(1)]
        by (auto simp: a2_def hit_def here_live_def mark_point_deleted_def bit_def flags_ok_def)
      have fresh: "need_push_down_to_left a2 \<Longrightarrow> fresh l2" "need_push_down_to_right a2 \<Longrightarrow> fresh r2"
        using P(2) Null a2(3,4) by (auto simp: pushed_def)
      have F: "kd_inv t2" "live_mset t2 = mset (here_live a2) + live_mset l2 + live_mset r2"
        using finish_spec [OF ne _ _ fresh a2(5) fin] IHl IHr by auto
      have L: "live_mset (Node l a r) = mset (here_live a1) + live_mset l1 + live_mset r1"
        unfolding live1 [symmetric] live_undeleted [OF td1] by simp
      show ?thesis unfolding res L using F IHl IHr a2(1,2) by simp
    qed
  qed
qed

section \<open>Insertion\<close>

text \<open>What the descending operations know after marking the node and pushing down.\<close>

lemma push_working:
  assumes inv: "kd_inv (Node l a r)"
    and push: "Push_Down st p l (a\<lparr>working_flag := True\<rparr>) r = (l1, a1, r1, st1)"
  shows "kd_inv (Node l1 a1 r1)" "kd_inv l1" "kd_inv r1" "pushed l1 a1 r1"
    "tree_count l1 = tree_count l" "tree_count r1 = tree_count r"
    "live (Node l1 a1 r1) = live (Node l a r)" "tree_deleted a1 = tree_deleted a"
    "live_mset (Node l a r) = mset (here_live a1) + live_mset l1 + live_mset r1"
    "point_downsample_deleted a1 \<Longrightarrow> point_deleted a1"
proof -
  note P = Push_Down_spec [OF kd_inv_set_working [OF inv] push]
  show *: "kd_inv (Node l1 a1 r1)" "kd_inv l1" "kd_inv r1" "pushed l1 a1 r1"
    "tree_count l1 = tree_count l" "tree_count r1 = tree_count r"
    "live (Node l1 a1 r1) = live (Node l a r)" "tree_deleted a1 = tree_deleted a"
    using P(1-6) by (auto simp: same_core_fields)
  show "point_downsample_deleted a1 \<Longrightarrow> point_deleted a1"
    using kd_inv_flags [OF P(1)] by (simp add: flags_ok_def)
  show "live_mset (Node l a r) = mset (here_live a1) + live_mset l1 + live_mset r1"
  proof (cases "tree_deleted a")
    case True
    then have "point_deleted a1" using kd_inv_flags [OF P(1)] *(8) by (simp add: flags_ok_def)
    with True P(7,8) show ?thesis by (simp add: here_live_def)
  next
    case False
    then have "\<not> tree_deleted a1" using *(8) by simp
    then show ?thesis unfolding *(7) [symmetric] by (simp add: here_live_def)
  qed
qed

lemma Add_by_point_spec:
  assumes ne: "nth_element_ok ne"
  shows "kd_inv t \<Longrightarrow> Add_by_point ne st p t q al ax = (t', st') \<Longrightarrow>
    kd_inv t' \<and> live_mset t' = add_mset q (live_mset t) \<and> (t = Null \<longrightarrow> fresh t')"
proof (induction t arbitrary: st p al ax t' st' rule: shape_induct)
  case Null
  then show ?case
    by (auto simp: set_range_def InitTreeNode_def bit_def node_ok_def flags_ok_def son_ok_def)
next
  case (Node l a r)
  obtain l1 a1 r1 st1 where push: "Push_Down st p l (a\<lparr>working_flag := True\<rparr>) r = (l1, a1, r1, st1)"
    by (metis prod_cases4)
  note P = push_working [OF Node.prems(1) push]
  show ?case
  proof (cases "goes_left a1 q")
    case True
    define b where "b = at_rebuild st1 (p @ [LeftSon])"
    obtain l2 st2 where rec: "Add_by_point ne st1 (p @ [LeftSon]) l1 q (if b then False else al) (division_axis a1) = (l2, st2)"
      by (metis surj_pair)
    have fin: "finish ne (log_if b (Log_Add_Point q) st2) p al l2 a1 r1 = (t', st')"
      using Node.prems(2) True rec by (simp add: push Let_def b_def [symmetric])
    note IH = Node.IH(1) [OF P(5) P(2) rec]
    have fresh: "need_push_down_to_left a1 \<Longrightarrow> fresh l2" "need_push_down_to_right a1 \<Longrightarrow> fresh r1"
      using P(4) IH by (auto simp: pushed_def)
    show ?thesis
      using finish_spec [OF ne _ P(3) fresh P(10) fin] IH P(9) by simp
  next
    case False
    define b where "b = at_rebuild st1 (p @ [RightSon])"
    obtain r2 st2 where rec: "Add_by_point ne st1 (p @ [RightSon]) r1 q (if b then False else al) (division_axis a1) = (r2, st2)"
      by (metis surj_pair)
    have fin: "finish ne (log_if b (Log_Add_Point q) st2) p al l1 a1 r2 = (t', st')"
      using Node.prems(2) False rec by (simp add: push Let_def b_def [symmetric])
    note IH = Node.IH(2) [OF P(6) P(3) rec]
    have fresh: "need_push_down_to_left a1 \<Longrightarrow> fresh l1" "need_push_down_to_right a1 \<Longrightarrow> fresh r2"
      using P(4) IH by (auto simp: pushed_def)
    show ?thesis
      using finish_spec [OF ne P(2) _ fresh P(10) fin] IH P(9) by simp
  qed
qed

section \<open>Deletion of one point\<close>

text \<open>At most one live point goes, and only one within \<open>EPSS\<close> of the given point.\<close>

definition removes_one :: "point3 \<Rightarrow> point3 multiset \<Rightarrow> point3 multiset \<Rightarrow> bool" where
  "removes_one q M N \<longleftrightarrow> N = M \<or> (\<exists>x \<in># M. same_point x q \<and> N = M - {#x#})"

lemma removes_one_same: "removes_one q M M"
  by (simp add: removes_one_def)

lemma removes_one_add: "removes_one q M N \<Longrightarrow> removes_one q (M + K) (N + K)"
  by (auto simp: removes_one_def)

lemma delete_root_point:
  assumes inv: "kd_inv (Node l a r)" and "\<not> tree_deleted a" "\<not> point_deleted a"
    and a2: "a2 = a\<lparr>point_deleted := True, invalid_point_num := invalid_point_num a + 1,
                 tree_deleted := (if invalid_point_num a + 1 = TreeSize a then True else tree_deleted a)\<rparr>"
  shows "kd_inv (Node l a2 r)" "live_mset (Node l a2 r) = live_mset l + live_mset r"
proof -
  have N: "node_ok l a r" and il: "kd_inv l" and ir: "kd_inv r" using inv by auto
  have lv: "live (Node l a r) = point a # live l @ live r" using assms(2,3) by simp
  have cnt: "invalid_point_num a = TreeSize a - 1 - int (length (live l @ live r))"
    using N unfolding node_ok_def lv by simp
  then have full: "invalid_point_num a + 1 = TreeSize a \<longleftrightarrow> live l @ live r = []"
    by (metis (no_types, lifting) add.commute add_diff_cancel_left' add_diff_eq diff_add_cancel
        diff_zero length_0_conv of_nat_eq_0_iff)
  have lv2: "live (Node l a2 r) = live l @ live r"
    using full assms(2) by (auto simp: a2)
  then show "live_mset (Node l a2 r) = live_mset l + live_mset r" by simp
  have td2: "tree_deleted a2 \<longleftrightarrow> live l @ live r = []" using full assms(2) by (auto simp: a2)
  have "son_ok (tree_deleted a2) (need_push_down_to_left a2) l"
    "son_ok (tree_deleted a2) (need_push_down_to_right a2) r"
    using N td2 il ir assms(2) by (auto simp: son_ok_def node_ok_def a2 kd_inv_dead)
  moreover have "flags_ok a2" using N assms(2) by (auto simp: flags_ok_def node_ok_def a2)
  moreover have "\<forall>q \<in> set (live l @ live r). in_range (node_range a2) q"
    using N unfolding node_ok_def lv by (simp add: a2)
  moreover have "TreeSize a2 = int (tree_count (Node l a2 r))"
    "radius_sq a2 = range_radius_sq (node_range a2)"
    using N by (auto simp: node_ok_def a2)
  moreover have "invalid_point_num a2 = TreeSize a2 - int (length (live l @ live r))"
    using cnt by (simp add: a2)
  ultimately have "node_ok l a2 r"
    unfolding node_ok_def lv2 using td2 by blast
  then show "kd_inv (Node l a2 r)" using il ir by simp
qed

lemma Delete_by_point_spec:
  assumes ne: "nth_element_ok ne"
  shows "kd_inv t \<Longrightarrow> Delete_by_point ne st p t q al = (t', st') \<Longrightarrow>
    kd_inv t' \<and> removes_one q (live_mset t) (live_mset t')"
proof (induction t arbitrary: st p al t' st' rule: shape_induct)
  case Null
  then show ?case by (simp add: removes_one_def)
next
  case (Node l a r)
  show ?case
  proof (cases "tree_deleted a")
    case True
    with Node.prems show ?thesis by (auto simp: removes_one_def)
  next
    case td: False
    obtain l1 a1 r1 st1 where push: "Push_Down st p l (a\<lparr>working_flag := True\<rparr>) r = (l1, a1, r1, st1)"
      by (metis prod_cases4)
    note P = push_working [OF Node.prems(1) push]
    have td1: "\<not> tree_deleted a1" using P(8) td by simp
    consider (hit) "same_point (point a1) q \<and> \<not> point_deleted a1"
      | (left) "\<not> (same_point (point a1) q \<and> \<not> point_deleted a1)" "goes_left a1 q"
      | (right) "\<not> (same_point (point a1) q \<and> \<not> point_deleted a1)" "\<not> goes_left a1 q" by blast
    then show ?thesis
    proof cases
      case hit
      define a2 where "a2 = a1\<lparr>point_deleted := True, invalid_point_num := invalid_point_num a1 + 1,
        tree_deleted := (if invalid_point_num a1 + 1 = TreeSize a1 then True else tree_deleted a1)\<rparr>"
      have res: "t' = Node l1 a2 r1"
        using Node.prems(2) td hit by (simp add: push Let_def a2_def)
      note D = delete_root_point [OF P(1) td1 _ a2_def]
      have "live_mset (Node l a r) = add_mset (point a1) (live_mset l1 + live_mset r1)"
        using P(9) hit by (simp add: here_live_def)
      then show ?thesis
        unfolding res removes_one_def using D hit by auto
    next
      case left
      define b where "b = at_rebuild st1 (p @ [LeftSon])"
      obtain l2 st2 where rec: "Delete_by_point ne st1 (p @ [LeftSon]) l1 q (if b then False else al) = (l2, st2)"
        by (metis surj_pair)
      have fin: "finish ne (log_if b (Log_Delete_Point q) st2) p al l2 a1 r1 = (t', st')"
        using Node.prems(2) td left rec by (simp add: push Let_def b_def [symmetric])
      note IH = Node.IH(1) [OF P(5) P(2) rec]
      have fresh: "need_push_down_to_left a1 \<Longrightarrow> fresh l2" "need_push_down_to_right a1 \<Longrightarrow> fresh r1"
        using P(4) rec by (auto simp: pushed_def)
      have F: "kd_inv t'" "live_mset t' = mset (here_live a1) + live_mset l2 + live_mset r1"
        using finish_spec [OF ne _ P(3) fresh P(10) fin] IH by auto
      have "removes_one q (live_mset l1 + (mset (here_live a1) + live_mset r1))
              (live_mset l2 + (mset (here_live a1) + live_mset r1))"
        using IH by (intro removes_one_add) simp
      then show ?thesis using F P(9) by (simp add: ac_simps)
    next
      case right
      define b where "b = at_rebuild st1 (p @ [RightSon])"
      obtain r2 st2 where rec: "Delete_by_point ne st1 (p @ [RightSon]) r1 q (if b then False else al) = (r2, st2)"
        by (metis surj_pair)
      have fin: "finish ne (log_if b (Log_Delete_Point q) st2) p al l1 a1 r2 = (t', st')"
        using Node.prems(2) td right rec by (simp add: push Let_def b_def [symmetric])
      note IH = Node.IH(2) [OF P(6) P(3) rec]
      have fresh: "need_push_down_to_left a1 \<Longrightarrow> fresh l1" "need_push_down_to_right a1 \<Longrightarrow> fresh r2"
        using P(4) rec by (auto simp: pushed_def)
      have F: "kd_inv t'" "live_mset t' = mset (here_live a1) + live_mset l1 + live_mset r2"
        using finish_spec [OF ne P(2) _ fresh P(10) fin] IH by auto
      have "removes_one q (live_mset r1 + (mset (here_live a1) + live_mset l1))
              (live_mset r2 + (mset (here_live a1) + live_mset l1))"
        using IH by (intro removes_one_add) simp
      then show ?thesis using F P(9) by (simp add: ac_simps)
    qed
  qed
qed

section \<open>Box search\<close>

text \<open>After a plain push: as \<open>push_working\<close>, with the live points as lists.\<close>

lemma push_lists:
  assumes inv: "kd_inv (Node l a r)" and push: "Push_Down st p l a r = (l1, a1, r1, st1)"
  shows "live (Node l a r) = here_live a1 @ live l1 @ live r1"
proof (cases "tree_deleted a")
  case True
  note P = Push_Down_spec [OF inv push]
  then have "point_deleted a1"
    using kd_inv_flags [OF P(1)] True by (simp add: flags_ok_def same_core_fields)
  with True P(7,8) show ?thesis by (simp add: here_live_def)
next
  case False
  note P = Push_Down_spec [OF inv push]
  have "\<not> tree_deleted a1" using P(3) False by (simp add: same_core_fields)
  then show ?thesis unfolding P(4) [symmetric] by (simp add: here_live_def)
qed

lemma Search_by_range_spec:
  "kd_inv t \<Longrightarrow> Search_by_range st p t b = (t', st', ps) \<Longrightarrow>
   ps = filter (in_box b) (live t) \<and> kd_inv t' \<and> live t' = live t \<and> tree_count t' = tree_count t"
proof (induction t arbitrary: st p t' st' ps rule: shape_induct)
  case Null
  then show ?case by simp
next
  case (Node l a r)
  obtain l1 a1 r1 st1 where push: "Push_Down st p l a r = (l1, a1, r1, st1)"
    by (metis prod_cases4)
  note P = Push_Down_spec [OF Node.prems(1) push]
  have inv: "kd_inv l1" "kd_inv r1" using P(1) by auto
  have range: "\<forall>q \<in> set (live (Node l a r)). in_range (node_range a1) q"
    using live_in_range [OF P(1)] P(4) by (metis set_mset_mset)
  consider (out) "box_disjoint b (node_range a1)"
    | (cover) "\<not> box_disjoint b (node_range a1)" "box_covers b (node_range a1)"
    | (split) "\<not> box_disjoint b (node_range a1)" "\<not> box_covers b (node_range a1)" by blast
  then show ?case
  proof cases
    case out
    then have res: "t' = Node l1 a1 r1" "ps = []" using Node.prems(2) by (simp_all add: push)
    have "filter (in_box b) (live (Node l a r)) = []"
      using out range box_disjoint_in_range by (auto simp: filter_empty_conv simp del: live.simps)
    then show ?thesis using res P by (simp del: live.simps kd_inv.simps)
  next
    case cover
    then have fl: "flatten NOT_RECORD st1 p (Node l1 a1 r1) = (t', st', ps)"
      using Node.prems(2) by (simp add: push del: flatten.simps)
    have "filter (in_box b) (live (Node l a r)) = live (Node l a r)"
      using cover range box_covers_in_range by (auto simp: filter_id_conv simp del: live.simps)
    then show ?thesis using flatten_spec [OF P(1) fl] P(4-6) by (simp del: live.simps kd_inv.simps)
  next
    case split
    obtain l2 st2 ls where sl: "Search_by_range st1 (p @ [LeftSon]) l1 b = (l2, st2, ls)"
      by (metis prod_cases3)
    obtain r2 st3 rs where sr: "Search_by_range st2 (p @ [RightSon]) r1 b = (r2, st3, rs)"
      by (metis prod_cases3)
    note IHl = Node.IH(1) [OF P(5) inv(1) sl] and IHr = Node.IH(2) [OF P(6) inv(2) sr]
    have res: "t' = Node l2 a1 r2"
      "ps = (if in_box b (point a1) \<and> \<not> point_deleted a1 then [point a1] else []) @ ls @ rs"
      using Node.prems(2) split sl sr by (simp_all add: push Let_def)
    have "ps = filter (in_box b) (here_live a1 @ live l1 @ live r1)"
      using res(2) IHl IHr by (simp add: here_live_def)
    then show ?thesis
      using node_replace [OF P(1,2)] IHl IHr P(4,5,6) push_lists [OF Node.prems(1) push]
      by (simp add: res(1) del: live.simps kd_inv.simps)
  qed
qed

end
