(* ===== verification/KD_Heap.thy ===== *)
theory KD_Heap
  imports KD_Types
begin

text \<open>
  \<open>PointType_CMP\<close> and \<open>MANUAL_HEAP\<close> of ikd_Tree.h: the bounded array max-heap that
  the nearest-neighbour search keeps its candidates in.  The comparison is not a strict weak
  order in general (two distances closer than \<open>1e-10\<close> are compared by \<open>x\<close>), so the
  heap facts are stated for a carrier set of elements on which it is one.
\<close>

section \<open>Candidates\<close>

record PointType_CMP =
  cmp_point :: point3
  cmp_dist :: efloat

definition default_cmp :: PointType_CMP where
  "default_cmp = \<lparr>cmp_point = \<lparr>px = 0, py = 0, pz = 0\<rparr>, cmp_dist = Inf\<rparr>"

text \<open>\<open>operator<\<close>; \<open>INFINITY - INFINITY\<close> is NaN, whose comparison is false.\<close>

definition cmp_less :: "PointType_CMP \<Rightarrow> PointType_CMP \<Rightarrow> bool" where
  "cmp_less c a =
     (case (cmp_dist c, cmp_dist a) of
        (Fin d, Fin e) \<Rightarrow> if \<bar>d - e\<bar> < 1 / 10 ^ 10 then px (cmp_point c) < px (cmp_point a) else d < e
      | (d, e) \<Rightarrow> d < e)"

section \<open>The heap\<close>

record MANUAL_HEAP =
  heap :: "PointType_CMP list"
  heap_size :: nat
  cap :: nat

definition new_heap :: "nat \<Rightarrow> MANUAL_HEAP" where
  "new_heap max_capacity =
     \<lparr>heap = replicate max_capacity default_cmp, heap_size = 0, cap = max_capacity\<rparr>"

text \<open>
  The loop of \<open>MoveDown\<close>: \<open>i\<close> is \<open>heap_index\<close>, \<open>tmp\<close> the element on its way
  down, \<open>n\<close> the heap's size.
\<close>

function MoveDown_loop :: "nat \<Rightarrow> PointType_CMP list \<Rightarrow> PointType_CMP \<Rightarrow> nat \<Rightarrow> PointType_CMP list" where
  "MoveDown_loop n h tmp i =
     (let l0 = i * 2 + 1 in
      if l0 < n then
        let l = (if l0 + 1 < n \<and> cmp_less (h ! l0) (h ! (l0 + 1)) then l0 + 1 else l0) in
        if cmp_less tmp (h ! l) then MoveDown_loop n (h[i := h ! l]) tmp l
        else h[i := tmp]
      else h[i := tmp])"
  by pat_completeness auto
termination
  by (relation "measure (\<lambda>(n, h, tmp, i). n - i)") (auto split: if_splits)

declare MoveDown_loop.simps [simp del]

definition MoveDown :: "MANUAL_HEAP \<Rightarrow> nat \<Rightarrow> MANUAL_HEAP" where
  "MoveDown q i = q\<lparr>heap := MoveDown_loop (heap_size q) (heap q) (heap q ! i) i\<rparr>"

function FloatUp_loop :: "PointType_CMP list \<Rightarrow> PointType_CMP \<Rightarrow> nat \<Rightarrow> PointType_CMP list" where
  "FloatUp_loop h tmp i =
     (if i > 0 then
        let ancestor = (i - 1) div 2 in
        if cmp_less (h ! ancestor) tmp then FloatUp_loop (h[i := h ! ancestor]) tmp ancestor
        else h[i := tmp]
      else h[i := tmp])"
  by pat_completeness auto
termination
  by (relation "measure (\<lambda>(h, tmp, i). i)") auto

declare FloatUp_loop.simps [simp del]

definition FloatUp :: "MANUAL_HEAP \<Rightarrow> nat \<Rightarrow> MANUAL_HEAP" where
  "FloatUp q i = q\<lparr>heap := FloatUp_loop (heap q) (heap q ! i) i\<rparr>"

definition heap_pop :: "MANUAL_HEAP \<Rightarrow> MANUAL_HEAP" where
  "heap_pop q =
     (if heap_size q = 0 then q
      else MoveDown (q\<lparr>heap := (heap q)[0 := heap q ! (heap_size q - 1)],
                       heap_size := heap_size q - 1\<rparr>) 0)"

definition heap_top :: "MANUAL_HEAP \<Rightarrow> PointType_CMP" where
  "heap_top q = heap q ! 0"

definition heap_push :: "MANUAL_HEAP \<Rightarrow> PointType_CMP \<Rightarrow> MANUAL_HEAP" where
  "heap_push q p =
     (if heap_size q \<ge> cap q then q
      else let q1 = FloatUp (q\<lparr>heap := (heap q)[heap_size q := p]\<rparr>) (heap_size q)
           in q1\<lparr>heap_size := heap_size q1 + 1\<rparr>)"

definition heap_clear :: "MANUAL_HEAP \<Rightarrow> MANUAL_HEAP" where
  "heap_clear q = q\<lparr>heap_size := 0\<rparr>"

section \<open>The elements of a heap\<close>

text \<open>
  The loops only permute: what they return is the array with the moving element written at
  its place, up to order.  The first \<open>n\<close> cells are a heap's contents.
\<close>

definition heap_mset :: "MANUAL_HEAP \<Rightarrow> PointType_CMP multiset" where
  "heap_mset q = mset (take (heap_size q) (heap q))"

lemma length_MoveDown_loop [simp]: "length (MoveDown_loop n h tmp i) = length h"
  by (induction n h tmp i rule: MoveDown_loop.induct)
     (subst MoveDown_loop.simps, auto simp: Let_def)

lemma length_FloatUp_loop [simp]: "length (FloatUp_loop h tmp i) = length h"
  by (induction h tmp i rule: FloatUp_loop.induct) (subst FloatUp_loop.simps, auto simp: Let_def)

lemma mset_take_hole_swap:
  assumes "i < n" "j < n" "n \<le> length h"
  shows "mset (take n (h[i := h ! j, j := x])) = mset (take n (h[i := x]))"
proof (cases "i = j")
  case False
  let ?t = "take n (h[i := x])"
  have "take n (h[i := h ! j, j := x]) = ?t[i := ?t ! j, j := ?t ! i]"
    using False assms by (simp add: take_update_swap list_update_swap)
  moreover have "mset (?t[i := ?t ! j, j := ?t ! i]) = mset ?t"
    using assms by (intro mset_list_update_swap) auto
  ultimately show ?thesis by simp
qed simp

text \<open>One step of each loop, with the larger son named.\<close>

definition bigger_son :: "nat \<Rightarrow> PointType_CMP list \<Rightarrow> nat \<Rightarrow> nat" where
  "bigger_son n h i =
     (if i * 2 + 1 + 1 < n \<and> cmp_less (h ! (i * 2 + 1)) (h ! (i * 2 + 1 + 1)) then i * 2 + 1 + 1
      else i * 2 + 1)"

lemma bigger_son_gt: "i < bigger_son n h i"
  by (auto simp: bigger_son_def)

lemma bigger_son_parent: "(bigger_son n h i - 1) div 2 = i"
  by (auto simp: bigger_son_def)

lemma bigger_son_less: "i * 2 + 1 < n \<Longrightarrow> bigger_son n h i < n"
  by (auto simp: bigger_son_def)

lemma MoveDown_loop_step:
  "i * 2 + 1 < n \<Longrightarrow> cmp_less tmp (h ! bigger_son n h i) \<Longrightarrow>
   MoveDown_loop n h tmp i = MoveDown_loop n (h[i := h ! bigger_son n h i]) tmp (bigger_son n h i)"
  by (subst MoveDown_loop.simps) (auto simp: Let_def bigger_son_def split: if_splits)

lemma MoveDown_loop_stop:
  "\<not> (i * 2 + 1 < n \<and> cmp_less tmp (h ! bigger_son n h i)) \<Longrightarrow> MoveDown_loop n h tmp i = h[i := tmp]"
  by (subst MoveDown_loop.simps) (auto simp: Let_def bigger_son_def split: if_splits)

lemma FloatUp_loop_step:
  "i > 0 \<Longrightarrow> cmp_less (h ! ((i - 1) div 2)) tmp \<Longrightarrow>
   FloatUp_loop h tmp i = FloatUp_loop (h[i := h ! ((i - 1) div 2)]) tmp ((i - 1) div 2)"
  by (subst FloatUp_loop.simps) (simp add: Let_def)

lemma FloatUp_loop_stop:
  "\<not> (i > 0 \<and> cmp_less (h ! ((i - 1) div 2)) tmp) \<Longrightarrow> FloatUp_loop h tmp i = h[i := tmp]"
  by (subst FloatUp_loop.simps) (auto simp: Let_def)

text \<open>Induction over the moves each loop makes.\<close>

lemma MoveDown_induct [case_names step stop]:
  assumes "\<And>h i. i * 2 + 1 < n \<Longrightarrow> cmp_less tmp (h ! bigger_son n h i) \<Longrightarrow>
             P (h[i := h ! bigger_son n h i]) (bigger_son n h i) \<Longrightarrow> P h i"
    and "\<And>h i. \<not> (i * 2 + 1 < n \<and> cmp_less tmp (h ! bigger_son n h i)) \<Longrightarrow> P h i"
  shows "P h i"
proof (induction "n - i" arbitrary: h i rule: less_induct)
  case less
  show ?case
  proof (cases "i * 2 + 1 < n \<and> cmp_less tmp (h ! bigger_son n h i)")
    case True
    then have "n - bigger_son n h i < n - i"
      using bigger_son_gt [of i n h] bigger_son_less [of i n h] by linarith
    with True show ?thesis using less assms(1) by blast
  next
    case False
    then show ?thesis by (rule assms(2))
  qed
qed

lemma FloatUp_induct [case_names step stop]:
  assumes "\<And>h i. i > 0 \<Longrightarrow> cmp_less (h ! ((i - 1) div 2)) tmp \<Longrightarrow>
             P (h[i := h ! ((i - 1) div 2)]) ((i - 1) div 2) \<Longrightarrow> P h i"
    and "\<And>h i. \<not> (i > 0 \<and> cmp_less (h ! ((i - 1) div 2)) tmp) \<Longrightarrow> P h i"
  shows "P h (i :: nat)"
proof (induction i arbitrary: h rule: less_induct)
  case (less i)
  show ?case
  proof (cases "i > 0 \<and> cmp_less (h ! ((i - 1) div 2)) tmp")
    case True
    then have "(i - 1) div 2 < i" by auto
    with True show ?thesis using less assms(1) by blast
  next
    case False
    then show ?thesis by (rule assms(2))
  qed
qed

lemma mset_MoveDown_loop:
  "i < n \<Longrightarrow> n \<le> length h \<Longrightarrow>
   mset (take n (MoveDown_loop n h tmp i)) = mset (take n (h[i := tmp]))"
proof (induction h i rule: MoveDown_induct [where n = n and tmp = tmp])
  case (step h i)
  then show ?case
    using mset_take_hole_swap [of i n "bigger_son n h i" h tmp] bigger_son_less [of i n h]
    by (simp add: MoveDown_loop_step)
next
  case (stop h i)
  then show ?case by (simp add: MoveDown_loop_stop)
qed

lemma mset_FloatUp_loop:
  "i < n \<Longrightarrow> n \<le> length h \<Longrightarrow>
   mset (take n (FloatUp_loop h tmp i)) = mset (take n (h[i := tmp]))"
proof (induction h i rule: FloatUp_induct [where tmp = tmp])
  case (step h i)
  then have "(i - 1) div 2 < n" by auto
  with step show ?case
    using mset_take_hole_swap [of i n "(i - 1) div 2" h tmp]
    by (simp add: FloatUp_loop_step)
next
  case (stop h i)
  then show ?case by (simp add: FloatUp_loop_stop)
qed

section \<open>The heap order\<close>

text \<open>The comparison is a strict weak order on the carrier.\<close>

definition weak_cmp :: "PointType_CMP set \<Rightarrow> bool" where
  "weak_cmp S \<longleftrightarrow>
     (\<forall>a \<in> S. \<forall>b \<in> S. cmp_less a b \<longrightarrow> \<not> cmp_less b a) \<and>
     (\<forall>a \<in> S. \<forall>b \<in> S. \<forall>c \<in> S. \<not> cmp_less a b \<longrightarrow> \<not> cmp_less b c \<longrightarrow> \<not> cmp_less a c)"

lemma weak_cmp_asym: "weak_cmp S \<Longrightarrow> a \<in> S \<Longrightarrow> b \<in> S \<Longrightarrow> cmp_less a b \<Longrightarrow> \<not> cmp_less b a"
  unfolding weak_cmp_def by blast

lemma weak_cmp_trans:
  "weak_cmp S \<Longrightarrow> a \<in> S \<Longrightarrow> b \<in> S \<Longrightarrow> c \<in> S \<Longrightarrow> \<not> cmp_less a b \<Longrightarrow> \<not> cmp_less b c \<Longrightarrow>
   \<not> cmp_less a c"
  unfolding weak_cmp_def by blast

lemma weak_cmp_irrefl: "weak_cmp S \<Longrightarrow> a \<in> S \<Longrightarrow> \<not> cmp_less a a"
  unfolding weak_cmp_def by blast

definition cells_in :: "nat \<Rightarrow> PointType_CMP list \<Rightarrow> PointType_CMP set \<Rightarrow> bool" where
  "cells_in n h S \<longleftrightarrow> n \<le> length h \<and> (\<forall>j < n. h ! j \<in> S)"

definition is_heap :: "nat \<Rightarrow> PointType_CMP list \<Rightarrow> bool" where
  "is_heap n h \<longleftrightarrow> (\<forall>j < n. 0 < j \<longrightarrow> \<not> cmp_less (h ! ((j - 1) div 2)) (h ! j))"

text \<open>
  A heap but for the edge above cell \<open>i\<close> (\<open>up_ok\<close>) or the edges below it (\<open>down_ok\<close>);
  the cell's father still dominates its sons.
\<close>

definition up_ok :: "nat \<Rightarrow> PointType_CMP list \<Rightarrow> nat \<Rightarrow> bool" where
  "up_ok n g i \<longleftrightarrow>
     (\<forall>j < n. 0 < j \<longrightarrow> j \<noteq> i \<longrightarrow> \<not> cmp_less (g ! ((j - 1) div 2)) (g ! j)) \<and>
     (0 < i \<longrightarrow> (\<forall>j < n. 0 < j \<longrightarrow> (j - 1) div 2 = i \<longrightarrow> \<not> cmp_less (g ! ((i - 1) div 2)) (g ! j)))"

definition down_ok :: "nat \<Rightarrow> PointType_CMP list \<Rightarrow> nat \<Rightarrow> bool" where
  "down_ok n g i \<longleftrightarrow>
     (\<forall>j < n. 0 < j \<longrightarrow> (j - 1) div 2 \<noteq> i \<longrightarrow> \<not> cmp_less (g ! ((j - 1) div 2)) (g ! j)) \<and>
     (0 < i \<longrightarrow> (\<forall>j < n. 0 < j \<longrightarrow> (j - 1) div 2 = i \<longrightarrow> \<not> cmp_less (g ! ((i - 1) div 2)) (g ! j)))"


lemma cells_in_swap:
  "cells_in n g S \<Longrightarrow> i < n \<Longrightarrow> j < n \<Longrightarrow> cells_in n (g[i := g ! j, j := g ! i]) S"
  by (auto simp: cells_in_def nth_list_update)

lemma up_ok_step:
  fixes g :: "PointType_CMP list" and i :: nat
  defines "a \<equiv> (i - 1) div 2"
  assumes ok: "up_ok n g i" and less: "cmp_less (g ! a) (g ! i)" and i: "0 < i" "i < n"
    and cells: "cells_in n g S" and wc: "weak_cmp S"
  shows "up_ok n (g[i := g ! a, a := g ! i]) a"
proof -
  let ?g = "g[i := g ! a, a := g ! i]"
  have ai: "a < i" and an: "a < n" and ilen: "i < length g" "a < length g"
    using i cells by (auto simp: a_def cells_in_def)
  have gi: "?g ! i = g ! a" and ga: "?g ! a = g ! i"
    using ai ilen by auto
  have other: "?g ! j = g ! j" if "j \<noteq> i" "j \<noteq> a" for j using that by simp
  have S: "g ! j \<in> S" if "j < n" for j using cells that by (simp add: cells_in_def)
  have asym: "\<not> cmp_less (g ! i) (g ! a)"
    using weak_cmp_asym [OF wc S S less] an i by blast
  have edge: "\<not> cmp_less (g ! ((j - 1) div 2)) (g ! j)" if "j < n" "0 < j" "j \<noteq> i" for j
    using ok that by (simp add: up_ok_def)
  have below: "\<not> cmp_less (g ! a) (g ! j)" if "j < n" "0 < j" "(j - 1) div 2 = i" for j
    using ok that i by (simp add: up_ok_def a_def)
  have 1: "\<not> cmp_less (?g ! ((j - 1) div 2)) (?g ! j)" if j: "j < n" "0 < j" "j \<noteq> a" for j
  proof -
    consider "j = i" | "j \<noteq> i" "(j - 1) div 2 = i" | "j \<noteq> i" "(j - 1) div 2 = a" "a \<noteq> i"
      | "j \<noteq> i" "(j - 1) div 2 \<noteq> i" "(j - 1) div 2 \<noteq> a" by blast
    then show ?thesis
    proof cases
      case 1
      then have "(j - 1) div 2 = a" by (simp add: a_def)
      then show ?thesis using asym gi ga 1 by metis
    next
      case 2
      then show ?thesis using below j gi other by metis
    next
      case 3
      then have "\<not> cmp_less (g ! a) (g ! j)" using edge j by metis
      then have "\<not> cmp_less (g ! i) (g ! j)"
        using weak_cmp_trans [OF wc S S S asym] i an j by blast
      then show ?thesis using 3 j ga other by metis
    next
      case 4
      then show ?thesis using edge j other by metis
    qed
  qed
  have 2: "\<not> cmp_less (?g ! ((a - 1) div 2)) (?g ! j)"
    if a0: "0 < a" and j: "j < n" "0 < j" "(j - 1) div 2 = a" for j
  proof -
    have b: "(a - 1) div 2 < a" using a0 by auto
    then have gb: "?g ! ((a - 1) div 2) = g ! ((a - 1) div 2)" using ai by (intro other) auto
    have top: "\<not> cmp_less (g ! ((a - 1) div 2)) (g ! a)" using edge a0 an ai by blast
    show ?thesis
    proof (cases "j = i")
      case True
      then show ?thesis using top gb gi by simp
    next
      case False
      then have "\<not> cmp_less (g ! a) (g ! j)" using edge j by metis
      then have "\<not> cmp_less (g ! ((a - 1) div 2)) (g ! j)"
        using weak_cmp_trans [OF wc S S S top] b an j by (meson order.strict_trans)
      moreover have "?g ! j = g ! j" using False j a0 by (intro other) auto
      ultimately show ?thesis using gb by simp
    qed
  qed
  show ?thesis unfolding up_ok_def using 1 2 by blast
qed

lemma up_ok_stop:
  assumes "up_ok n g i" "i < n" "\<not> (0 < i \<and> cmp_less (g ! ((i - 1) div 2)) (g ! i))"
  shows "is_heap n g"
  using assms by (auto simp: up_ok_def is_heap_def)

lemma is_heap_FloatUp_loop:
  assumes "i < n" "cells_in n (h[i := tmp]) S" "weak_cmp S" "up_ok n (h[i := tmp]) i"
  shows "is_heap n (FloatUp_loop h tmp i)"
  using assms
proof (induction h i rule: FloatUp_induct [where tmp = tmp])
  case (step h i)
  let ?a = "(i - 1) div 2" and ?g = "h[i := tmp]"
  have a: "?a < n" "?a \<noteq> i" and len: "i < length h"
    using step.hyps step.prems by (auto simp: cells_in_def)
  have g: "?g[i := ?g ! ?a, ?a := ?g ! i] = h[i := h ! ?a, ?a := tmp]"
    using a len by (simp add: list_update_swap)
  have "up_ok n (h[i := h ! ?a, ?a := tmp]) ?a"
    using up_ok_step [of n ?g i S] step a len by (simp add: g)
  moreover have "cells_in n (h[i := h ! ?a, ?a := tmp]) S"
    using cells_in_swap [OF step.prems(2,1) a(1)] by (simp only: g)
  ultimately have "is_heap n (FloatUp_loop (h[i := h ! ?a]) tmp ?a)"
    using step.IH step.prems(3) a by blast
  with step.hyps show ?case by (simp add: FloatUp_loop_step)
next
  case (stop h i)
  then have "\<not> (0 < i \<and> cmp_less (h[i := tmp] ! ((i - 1) div 2)) (h[i := tmp] ! i))"
    by (auto simp: cells_in_def nth_list_update)
  with stop have "is_heap n (h[i := tmp])" using up_ok_stop by blast
  then show ?case unfolding FloatUp_loop_stop [OF stop.hyps] .
qed

lemma bigger_son_sibling:
  assumes cells: "cells_in n h S" and wc: "weak_cmp S" and i: "i * 2 + 1 < n"
    and j: "j < n" "0 < j" "(j - 1) div 2 = i" and "j \<noteq> bigger_son n h i"
  shows "\<not> cmp_less (h ! bigger_son n h i) (h ! j)"
proof -
  have child: "j = i * 2 + 1 \<or> j = i * 2 + 1 + 1" using j by arith
  have S: "h ! k \<in> S" if "k < n" for k using cells that by (simp add: cells_in_def)
  show ?thesis
  proof (cases "i * 2 + 1 + 1 < n \<and> cmp_less (h ! (i * 2 + 1)) (h ! (i * 2 + 1 + 1))")
    case True
    then have "bigger_son n h i = i * 2 + 1 + 1" by (simp add: bigger_son_def)
    moreover from this have "j = i * 2 + 1" using child assms(7) by auto
    ultimately show ?thesis using weak_cmp_asym [OF wc S S] True i by metis
  next
    case False
    then have "bigger_son n h i = i * 2 + 1" by (auto simp: bigger_son_def)
    moreover from this have "j = i * 2 + 1 + 1" using child assms(7) by auto
    ultimately show ?thesis using False j(1) by metis
  qed
qed

lemma down_ok_step:
  fixes g :: "PointType_CMP list" and i n :: nat
  defines "l \<equiv> bigger_son n g i"
  assumes ok: "down_ok n g i" and less: "cmp_less (g ! i) (g ! l)" and i: "i * 2 + 1 < n"
    and cells: "cells_in n g S" and wc: "weak_cmp S"
  shows "down_ok n (g[i := g ! l, l := g ! i]) l"
proof -
  let ?g = "g[i := g ! l, l := g ! i]"
  have il: "i < l" and ln: "l < n" and pl: "(l - 1) div 2 = i"
    using bigger_son_gt bigger_son_less [OF i] bigger_son_parent by (auto simp: l_def)
  have lens: "i < length g" "l < length g" and S: "g ! j \<in> S" if "j < n" for j
    using cells that il ln by (auto simp: cells_in_def)
  have len: "i < length g" "l < length g" using lens ln by auto
  have gi: "?g ! i = g ! l" and gl: "?g ! l = g ! i" using il len by auto
  have other: "?g ! j = g ! j" if "j \<noteq> i" "j \<noteq> l" for j using that by simp
  have edge: "\<not> cmp_less (g ! ((j - 1) div 2)) (g ! j)" if "j < n" "0 < j" "(j - 1) div 2 \<noteq> i" for j
    using ok that by (simp add: down_ok_def)
  have above: "\<not> cmp_less (g ! ((i - 1) div 2)) (g ! j)"
    if "0 < i" "j < n" "0 < j" "(j - 1) div 2 = i" for j
    using ok that by (simp add: down_ok_def)
  have asym: "\<not> cmp_less (g ! l) (g ! i)"
    using weak_cmp_asym [OF wc S S less] il ln by auto
  have sib: "\<not> cmp_less (g ! l) (g ! j)" if j: "j < n" "0 < j" "(j - 1) div 2 = i" "j \<noteq> l" for j
    using bigger_son_sibling [OF cells wc i j(1,2,3)] j(4) by (simp add: l_def)
  have 1: "\<not> cmp_less (?g ! ((j - 1) div 2)) (?g ! j)" if j: "j < n" "0 < j" "(j - 1) div 2 \<noteq> l" for j
  proof -
    consider "j = l" | "j \<noteq> l" "(j - 1) div 2 = i" | "j = i" | "j \<noteq> l" "j \<noteq> i" "(j - 1) div 2 \<noteq> i" by blast
    then show ?thesis
    proof cases
      case 1
      then show ?thesis using asym gi gl pl by metis
    next
      case 2
      moreover have "j \<noteq> i" using 2 j by auto
      ultimately show ?thesis using sib j gi other by metis
    next
      case 3
      then have "(j - 1) div 2 \<noteq> i" using j by auto
      moreover have "\<not> cmp_less (g ! ((i - 1) div 2)) (g ! l)"
        using above [of l] ln il pl j 3 by auto
      ultimately show ?thesis using 3 gi j other by metis
    next
      case 4
      then show ?thesis using edge j other by metis
    qed
  qed
  have 2: "\<not> cmp_less (?g ! ((l - 1) div 2)) (?g ! j)" if j: "j < n" "0 < j" "(j - 1) div 2 = l" for j
  proof -
    have "j \<noteq> i" "j \<noteq> l" using j il by auto
    moreover have "\<not> cmp_less (g ! l) (g ! j)" using edge [of j] j il by auto
    ultimately show ?thesis using pl gi other by metis
  qed
  show ?thesis unfolding down_ok_def using 1 2 by blast
qed

lemma down_ok_stop:
  assumes ok: "down_ok n g i" and i: "i < n" and cells: "cells_in n g S" and wc: "weak_cmp S"
    and stop: "\<not> (i * 2 + 1 < n \<and> cmp_less (g ! i) (g ! bigger_son n g i))"
  shows "is_heap n g"
  unfolding is_heap_def
proof (intro allI impI)
  fix j assume j: "j < n" "0 < j"
  let ?l = "bigger_son n g i"
  have S: "g ! j \<in> S" if "j < n" for j using cells that by (simp add: cells_in_def)
  show "\<not> cmp_less (g ! ((j - 1) div 2)) (g ! j)"
  proof (cases "(j - 1) div 2 = i")
    case True
    then have i2: "i * 2 + 1 < n" using j by arith
    then have il: "\<not> cmp_less (g ! i) (g ! ?l)" and ln: "?l < n"
      using stop bigger_son_less by auto
    have "j = ?l \<or> \<not> cmp_less (g ! ?l) (g ! j)"
      using bigger_son_sibling [OF cells wc i2 j True] by blast
    then have "\<not> cmp_less (g ! i) (g ! j)"
      using il weak_cmp_trans [OF wc S S S il] i ln j by blast
    with True show ?thesis by simp
  next
    case False
    then show ?thesis using ok j by (simp add: down_ok_def)
  qed
qed

lemma bigger_son_update: "bigger_son n (h[i := x]) i = bigger_son n h i"
  by (simp add: bigger_son_def)

lemma is_heap_MoveDown_loop:
  assumes "i < n" "cells_in n (h[i := tmp]) S" "weak_cmp S" "down_ok n (h[i := tmp]) i"
  shows "is_heap n (MoveDown_loop n h tmp i)"
  using assms
proof (induction h i rule: MoveDown_induct [where n = n and tmp = tmp])
  case (step h i)
  let ?l = "bigger_son n h i" and ?g = "h[i := tmp]"
  have l: "?l < n" "?l \<noteq> i" and len: "i < length h"
    using step.hyps step.prems bigger_son_less [of i n h] bigger_son_gt [of i n h]
    by (auto simp: cells_in_def)
  have g: "?g[i := ?g ! ?l, ?l := ?g ! i] = h[i := h ! ?l, ?l := tmp]"
    using l len by (simp add: list_update_swap)
  have "down_ok n (h[i := h ! ?l, ?l := tmp]) ?l"
    using down_ok_step [of n ?g i S] step l len by (simp add: g bigger_son_update)
  moreover have "cells_in n (h[i := h ! ?l, ?l := tmp]) S"
    using cells_in_swap [OF step.prems(2,1) l(1)] by (simp only: g)
  ultimately have "is_heap n (MoveDown_loop n (h[i := h ! ?l]) tmp ?l)"
    using step.IH step.prems(3) l by blast
  with step.hyps show ?case by (simp add: MoveDown_loop_step)
next
  case (stop h i)
  have "h[i := tmp] ! bigger_son n h i = h ! bigger_son n h i"
    using bigger_son_gt [of i n h] by simp
  moreover have "i < length h" using stop.prems by (auto simp: cells_in_def)
  ultimately have "is_heap n (h[i := tmp])"
    using stop down_ok_stop [of n "h[i := tmp]" i S] by (simp add: bigger_son_update)
  with stop.hyps show ?case by (simp add: MoveDown_loop_stop)
qed

text \<open>In a heap no element exceeds the first one.\<close>

lemma is_heap_top:
  assumes "is_heap n h" "cells_in n h S" "weak_cmp S" "j < n"
  shows "\<not> cmp_less (h ! 0) (h ! j)"
  using \<open>j < n\<close>
proof (induction j rule: less_induct)
  case (less j)
  have S: "h ! k \<in> S" if "k < n" for k using assms(2) that by (simp add: cells_in_def)
  show ?case
  proof (cases "j = 0")
    case True
    with less.prems show ?thesis using weak_cmp_irrefl [OF assms(3) S] by simp
  next
    case False
    then have p: "(j - 1) div 2 < j" by auto
    with less have "\<not> cmp_less (h ! 0) (h ! ((j - 1) div 2))" by auto
    moreover have "\<not> cmp_less (h ! ((j - 1) div 2)) (h ! j)"
      using assms(1) False less.prems by (simp add: is_heap_def)
    ultimately show ?thesis
      using weak_cmp_trans [OF assms(3) S S S] p less.prems False by (meson gr0I order.strict_trans)
  qed
qed

section \<open>The heap operations\<close>

definition heap_ok :: "MANUAL_HEAP \<Rightarrow> bool" where
  "heap_ok q \<longleftrightarrow> length (heap q) = cap q \<and> heap_size q \<le> cap q \<and> is_heap (heap_size q) (heap q)"

lemma heap_ok_new [simp]: "heap_ok (new_heap k)"
  by (simp add: heap_ok_def new_heap_def is_heap_def)

lemma heap_mset_new [simp]: "heap_mset (new_heap k) = {#}"
  by (simp add: heap_mset_def new_heap_def)

lemma size_heap_mset: "heap_ok q \<Longrightarrow> size (heap_mset q) = heap_size q"
  by (simp add: heap_ok_def heap_mset_def)

lemma heap_mset_cells:
  "n \<le> length h \<Longrightarrow> set_mset (mset (take n h)) \<subseteq> S \<Longrightarrow> cells_in n h S"
  by (auto simp: cells_in_def in_set_conv_nth subset_iff)

lemma heap_cells: "heap_ok q \<Longrightarrow> set_mset (heap_mset q) \<subseteq> S \<Longrightarrow> cells_in (heap_size q) (heap q) S"
  using heap_mset_cells [of "heap_size q" "heap q" S] by (simp add: heap_ok_def heap_mset_def)

lemma heap_top_in: "heap_ok q \<Longrightarrow> heap_size q > 0 \<Longrightarrow> heap_top q \<in># heap_mset q"
  unfolding heap_ok_def heap_mset_def heap_top_def
  by (metis in_multiset_in_set length_take min.absorb2 nth_mem nth_take)

text \<open>\<open>top\<close> is a greatest element.\<close>

lemma heap_top_max:
  assumes "heap_ok q" "set_mset (heap_mset q) \<subseteq> S" "weak_cmp S" "c \<in># heap_mset q"
  shows "\<not> cmp_less (heap_top q) c"
proof -
  obtain j where "j < heap_size q" "c = heap q ! j"
    using assms(1,4) by (auto simp: heap_mset_def heap_ok_def in_set_conv_nth)
  then show ?thesis
    using is_heap_top [of "heap_size q" "heap q" S] heap_cells [OF assms(1,2)] assms(1,3)
    by (simp add: heap_top_def heap_ok_def)
qed

lemma mset_take_last: "n < length xs \<Longrightarrow> mset (take (Suc n) xs) = add_mset (xs ! n) (mset (take n xs))"
  by (simp add: take_Suc_conv_app_nth)

lemma heap_push_size: "heap_size q < cap q \<Longrightarrow> heap_size (heap_push q p) = heap_size q + 1"
  by (simp add: heap_push_def FloatUp_def)

lemma heap_push_cap [simp]: "cap (heap_push q p) = cap q"
  by (simp add: heap_push_def FloatUp_def Let_def)

lemma heap_push_spec:
  assumes ok: "heap_ok q" and room: "heap_size q < cap q"
    and S: "set_mset (heap_mset q) \<subseteq> S" "p \<in> S" and wc: "weak_cmp S"
  shows "heap_ok (heap_push q p)" and "heap_mset (heap_push q p) = add_mset p (heap_mset q)"
proof -
  let ?n = "heap_size q" and ?h = "(heap q)[heap_size q := p]"
  have len: "length ?h = cap q" and n: "?n < length ?h" and hp: "is_heap ?n (heap q)"
    using ok room by (auto simp: heap_ok_def)
  have q1: "heap (heap_push q p) = FloatUp_loop ?h p ?n" "heap_size (heap_push q p) = Suc ?n"
    using room len by (auto simp: heap_push_def FloatUp_def Let_def)
  have take: "mset (take (Suc ?n) ?h) = add_mset p (heap_mset q)"
    using mset_take_last [OF n] len room by (simp add: heap_mset_def)
  have cells: "cells_in (Suc ?n) ?h S"
    using S take len room by (intro heap_mset_cells) auto
  have "up_ok (Suc ?n) ?h ?n"
    using hp n unfolding up_ok_def is_heap_def by auto
  then have "is_heap (Suc ?n) (FloatUp_loop ?h p ?n)"
    using cells wc by (intro is_heap_FloatUp_loop) auto
  then show "heap_ok (heap_push q p)"
    using q1 len room by (simp add: heap_ok_def)
  show "heap_mset (heap_push q p) = add_mset p (heap_mset q)"
    using mset_FloatUp_loop [of ?n "Suc ?n" ?h p] n q1 take by (simp add: heap_mset_def)
qed

lemma heap_pop_cap [simp]: "cap (heap_pop q) = cap q"
  by (simp add: heap_pop_def MoveDown_def Let_def)

lemma heap_pop_size: "heap_size (heap_pop q) = heap_size q - 1"
  by (simp add: heap_pop_def MoveDown_def Let_def)

lemma heap_pop_spec:
  assumes ok: "heap_ok q" and ne: "heap_size q > 0"
    and S: "set_mset (heap_mset q) \<subseteq> S" and wc: "weak_cmp S"
  shows "heap_ok (heap_pop q)" and "heap_mset (heap_pop q) = heap_mset q - {#heap_top q#}"
proof -
  obtain m where m: "heap_size q = Suc m" using ne by (cases "heap_size q") auto
  let ?h = "(heap q)[0 := heap q ! m]"
  have len: "length (heap q) = cap q" "Suc m \<le> cap q" and hp: "is_heap (Suc m) (heap q)"
    using ok m by (auto simp: heap_ok_def)
  have q1: "heap (heap_pop q) = MoveDown_loop m ?h (?h ! 0) 0" "heap_size (heap_pop q) = m"
    using m len by (auto simp: heap_pop_def MoveDown_def Let_def)
  have cells0: "cells_in (Suc m) (heap q) S" using heap_cells [OF ok S] m by simp
  have split: "heap_mset q = add_mset (heap_top q) (mset (take m ?h))"
  proof (cases m)
    case 0
    then show ?thesis using len by (simp add: heap_mset_def heap_top_def m take_Suc_conv_app_nth)
  next
    case (Suc k)
    obtain x xs where h: "heap q = x # xs" using len by (cases "heap q") auto
    then show ?thesis using len Suc
      by (simp add: heap_mset_def heap_top_def m take_Suc_conv_app_nth)
  qed
  have mset: "mset (take m (heap (heap_pop q))) = mset (take m ?h)"
  proof (cases "m = 0")
    case False
    then show ?thesis using mset_MoveDown_loop [of 0 m ?h "?h ! 0"] len q1
      by (simp add: list_update_overwrite)
  qed simp
  show "heap_mset (heap_pop q) = heap_mset q - {#heap_top q#}"
    using mset split q1 by (simp add: heap_mset_def)
  have "is_heap m (MoveDown_loop m ?h (?h ! 0) 0)"
  proof (cases "m = 0")
    case False
    have "cells_in m ?h S" using cells0 len by (auto simp: cells_in_def nth_list_update)
    moreover have "down_ok m ?h 0"
      using hp len unfolding down_ok_def is_heap_def by (auto simp: nth_list_update)
    ultimately show ?thesis using wc False
      by (intro is_heap_MoveDown_loop [where S = S]) (auto simp: list_update_overwrite)
  qed (simp add: is_heap_def)
  then show "heap_ok (heap_pop q)"
    using q1 len by (simp add: heap_ok_def)
qed

section \<open>When the comparison is a weak order\<close>

text \<open>
  Distances that are equal or at least \<open>1e-10\<close> apart: the comparison is then the
  lexicographic order of distance and \<open>x\<close>.
\<close>

definition separated :: "real set \<Rightarrow> bool" where
  "separated D \<longleftrightarrow> (\<forall>d \<in> D. \<forall>e \<in> D. d = e \<or> 1 / 10 ^ 10 \<le> \<bar>d - e\<bar>)"

definition cands :: "real set \<Rightarrow> PointType_CMP set" where
  "cands D = {c. \<exists>d \<in> D. cmp_dist c = Fin d}"

lemma cmp_less_separated:
  assumes "separated D" "c \<in> cands D" "a \<in> cands D"
  shows "cmp_less c a \<longleftrightarrow>
    cmp_dist c < cmp_dist a \<or> (cmp_dist c = cmp_dist a \<and> px (cmp_point c) < px (cmp_point a))"
proof -
  obtain d e where d: "cmp_dist c = Fin d" "d \<in> D" and e: "cmp_dist a = Fin e" "e \<in> D"
    using assms by (auto simp: cands_def)
  then have "d = e \<or> 1 / 10 ^ 10 \<le> \<bar>d - e\<bar>" using assms(1) by (simp add: separated_def)
  then show ?thesis using d e by (auto simp: cmp_less_def)
qed

lemma weak_cmp_cands:
  assumes "separated D"
  shows "weak_cmp (cands D)"
  unfolding weak_cmp_def by (auto simp: cmp_less_separated [OF assms])

lemma not_cmp_less_dist:
  "separated D \<Longrightarrow> c \<in> cands D \<Longrightarrow> a \<in> cands D \<Longrightarrow> \<not> cmp_less c a \<Longrightarrow> cmp_dist a \<le> cmp_dist c"
  by (auto simp: cmp_less_separated)

end
