(* ===== verification/KD_Nearest.thy ===== *)
theory KD_Nearest
  imports KD_Correct KD_Heap
begin

text \<open>
  The k-nearest-neighbour search: \<open>Search\<close> with its branch-and-bound on the range
  distance, and \<open>Nearest_Search\<close>, which drains the candidate heap into the two result
  vectors.
\<close>

section \<open>The search\<close>

text \<open>The node's own point: offered to the heap, replacing the farthest when it is full.\<close>

definition visit_point :: "nat \<Rightarrow> efloat \<Rightarrow> point3 \<Rightarrow> kd_node \<Rightarrow> MANUAL_HEAP \<Rightarrow> MANUAL_HEAP" where
  "visit_point k_nearest max_dist_sqr pt a q =
     (if \<not> point_deleted a then
        let dist = Fin (calc_dist pt (point a)) in
        if dist \<le> max_dist_sqr \<and> (heap_size q < k_nearest \<or> dist < cmp_dist (heap_top q)) then
          heap_push (if heap_size q \<ge> k_nearest then heap_pop q else q)
            \<lparr>cmp_point = point a, cmp_dist = dist\<rparr>
        else q
      else q)"

function Search ::
  "kd_state \<Rightarrow> path \<Rightarrow> kd_tree \<Rightarrow> nat \<Rightarrow> point3 \<Rightarrow> MANUAL_HEAP \<Rightarrow> efloat \<Rightarrow> kd_tree \<times> kd_state \<times> MANUAL_HEAP" where
  "Search st p Null k_nearest pt q max_dist = (Null, st, q)"
| "Search st p (Node l a r) k_nearest pt q max_dist =
     (if tree_deleted a then (Node l a r, st, q)
      else
        let cur_dist = calc_box_dist (Node l a r) pt; max_dist_sqr = esquare max_dist in
        if cur_dist > max_dist_sqr then (Node l a r, st, q)
        else
          let (l1, a1, r1, st1) = (if need_push_down_to_left a \<or> need_push_down_to_right a
                                   then Push_Down st p l a r else (l, a, r, st));
              q1 = visit_point k_nearest max_dist_sqr pt a1 q;
              dist_left = calc_box_dist l1 pt;
              dist_right = calc_box_dist r1 pt
          in if heap_size q1 < k_nearest
                \<or> dist_left < cmp_dist (heap_top q1) \<and> dist_right < cmp_dist (heap_top q1) then
               if dist_left \<le> dist_right then
                 let (l2, st2, q2) = Search st1 (p @ [LeftSon]) l1 k_nearest pt q1 max_dist;
                     (r2, st3, q3) = (if heap_size q2 < k_nearest \<or> dist_right < cmp_dist (heap_top q2)
                                      then Search st2 (p @ [RightSon]) r1 k_nearest pt q2 max_dist
                                      else (r1, st2, q2))
                 in (Node l2 a1 r2, st3, q3)
               else
                 let (r2, st2, q2) = Search st1 (p @ [RightSon]) r1 k_nearest pt q1 max_dist;
                     (l2, st3, q3) = (if heap_size q2 < k_nearest \<or> dist_left < cmp_dist (heap_top q2)
                                      then Search st2 (p @ [LeftSon]) l1 k_nearest pt q2 max_dist
                                      else (l1, st2, q2))
                 in (Node l2 a1 r2, st3, q3)
             else
               let (l2, st2, q2) = (if dist_left < cmp_dist (heap_top q1)
                                    then Search st1 (p @ [LeftSon]) l1 k_nearest pt q1 max_dist
                                    else (l1, st1, q1));
                   (r2, st3, q3) = (if dist_right < cmp_dist (heap_top q2)
                                    then Search st2 (p @ [RightSon]) r1 k_nearest pt q2 max_dist
                                    else (r1, st2, q2))
               in (Node l2 a1 r2, st3, q3))"
  by pat_completeness auto
termination
  by (relation "measure (\<lambda>(st, p, t, k, pt, q, d). size t)") (auto dest: Push_Down_size split: if_splits)

text \<open>The loop that empties the heap into the front of the result vectors.\<close>

fun drain :: "nat \<Rightarrow> MANUAL_HEAP \<Rightarrow> PointType_CMP list \<Rightarrow> PointType_CMP list" where
  "drain 0 q acc = acc"
| "drain (Suc n) q acc = drain n (heap_pop q) (heap_top q # acc)"

definition Nearest_Search ::
  "kd_state \<Rightarrow> kd_tree \<Rightarrow> point3 \<Rightarrow> nat \<Rightarrow> efloat \<Rightarrow> kd_tree \<times> kd_state \<times> point3 list \<times> efloat list" where
  "Nearest_Search st t pt k_nearest max_dist =
     (let q = heap_clear (new_heap (2 * k_nearest));
          (t', st', q') = Search st [] t k_nearest pt q max_dist;
          k_found = min k_nearest (heap_size q');
          found = drain k_found q' []
      in (t', st', map cmp_point found, map cmp_dist found))"

section \<open>The k best of a collection\<close>

definition kbest :: "nat \<Rightarrow> PointType_CMP multiset \<Rightarrow> PointType_CMP multiset \<Rightarrow> bool" where
  "kbest k T S \<longleftrightarrow> S \<subseteq># T \<and> size S = min k (size T) \<and>
     (\<forall>a \<in># S. \<forall>b \<in># T - S. cmp_dist a \<le> cmp_dist b)"

lemma kbest_empty [simp]: "kbest k {#} {#}"
  by (simp add: kbest_def)

lemma kbest_size: "kbest k T S \<Longrightarrow> size S \<le> k"
  by (simp add: kbest_def)

lemma kbest_all:
  assumes "kbest k T S" "size S < k"
  shows "S = T"
proof -
  have "S \<subseteq># T" "size S = size T" using assms by (auto simp: kbest_def)
  then show ?thesis by (metis less_irrefl mset_subset_size subset_mset.le_less)
qed

lemma kbest_add_room:
  assumes "kbest k T S" "size S < k"
  shows "kbest k (add_mset c T) (add_mset c S)"
  unfolding kbest_all [OF assms] using assms kbest_all [OF assms] by (simp add: kbest_def)

lemma kbest_full:
  assumes "kbest k T S" "size S = k"
  obtains X where "T = S + X" "\<forall>a \<in># S. \<forall>b \<in># X. cmp_dist a \<le> cmp_dist b"
proof -
  obtain X where X: "T = S + X" using assms(1) unfolding kbest_def by (metis subset_mset.le_iff_add)
  moreover have "T - S = X" unfolding X by simp
  ultimately show ?thesis using assms(1) that unfolding kbest_def by metis
qed

lemma kbest_fullI:
  assumes "T = S + X" "size S = k" "\<And>a b. a \<in># S \<Longrightarrow> b \<in># X \<Longrightarrow> cmp_dist a \<le> cmp_dist b"
  shows "kbest k T S"
proof -
  have "T - S = X" "S \<subseteq># T" "size S = min k (size T)" using assms(1,2) by auto
  then show ?thesis using assms(3) by (simp add: kbest_def)
qed

lemma kbest_prune:
  assumes "kbest k T S" "size S = k" and far: "\<And>a b. a \<in># S \<Longrightarrow> b \<in># B \<Longrightarrow> cmp_dist a \<le> cmp_dist b"
  shows "kbest k (T + B) S"
proof -
  obtain X where X: "T = S + X" "\<forall>a \<in># S. \<forall>b \<in># X. cmp_dist a \<le> cmp_dist b"
    using kbest_full [OF assms(1,2)] by blast
  show ?thesis
  proof (rule kbest_fullI [where X = "X + B"])
    show "T + B = S + (X + B)" using X(1) by simp
    show "size S = k" by (rule assms(2))
  qed (use X(2) far in auto)
qed

lemma kbest_replace:
  assumes "kbest k T S" "size S = k" and m: "m \<in># S"
    and max: "\<And>a. a \<in># S \<Longrightarrow> cmp_dist a \<le> cmp_dist m" and c: "cmp_dist c \<le> cmp_dist m"
  shows "kbest k (add_mset c T) (add_mset c (S - {#m#}))"
proof -
  obtain X where X: "T = S + X" "\<forall>a \<in># S. \<forall>b \<in># X. cmp_dist a \<le> cmp_dist b"
    using kbest_full [OF assms(1,2)] by blast
  obtain S' where S': "S = add_mset m S'" using m by (metis insert_DiffM)
  show ?thesis
  proof (rule kbest_fullI [where X = "add_mset m X"])
    show "add_mset c T = add_mset c (S - {#m#}) + add_mset m X" unfolding X(1) S' by simp
    show "size (add_mset c (S - {#m#})) = k" using assms(2) S' by simp
    fix a b assume "a \<in># add_mset c (S - {#m#})" "b \<in># add_mset m X"
    then have "a = c \<or> a \<in># S" "b = m \<or> b \<in># X" by (auto dest: in_diffD)
    then show "cmp_dist a \<le> cmp_dist b" using X(2) m max c by (meson order.trans)
  qed
qed

section \<open>The state of a search\<close>

definition cand :: "point3 \<Rightarrow> point3 \<Rightarrow> PointType_CMP" where
  "cand pt x = \<lparr>cmp_point = x, cmp_dist = Fin (calc_dist pt x)\<rparr>"

text \<open>The candidates of a subtree: its live points within the maximal distance.\<close>

definition candidates :: "point3 \<Rightarrow> efloat \<Rightarrow> kd_tree \<Rightarrow> PointType_CMP multiset" where
  "candidates pt md t =
     image_mset (cand pt) (filter_mset (\<lambda>x. Fin (calc_dist pt x) \<le> esquare md) (live_mset t))"

definition holds_best :: "real set \<Rightarrow> nat \<Rightarrow> PointType_CMP multiset \<Rightarrow> MANUAL_HEAP \<Rightarrow> bool" where
  "holds_best D k T q \<longleftrightarrow> separated D \<and> 1 \<le> k \<and> heap_ok q \<and> cap q = 2 * k \<and> kbest k T (heap_mset q)
     \<and> set_mset T \<subseteq> cands D"

lemma holds_best_mset: "holds_best D k T q \<Longrightarrow> set_mset (heap_mset q) \<subseteq> cands D"
  unfolding holds_best_def kbest_def by (meson mset_subset_eqD subset_iff)

lemma holds_best_size: "holds_best D k T q \<Longrightarrow> heap_size q \<le> k"
  unfolding holds_best_def using kbest_size size_heap_mset by metis

lemma holds_best_top:
  assumes "holds_best D k T q" "c \<in># heap_mset q"
  shows "cmp_dist c \<le> cmp_dist (heap_top q)"
proof -
  have sep: "separated D" and ok: "heap_ok q" using assms(1) by (auto simp: holds_best_def)
  have sub: "set_mset (heap_mset q) \<subseteq> cands D" by (rule holds_best_mset [OF assms(1)])
  have "heap_size q > 0" using assms(2) size_heap_mset [OF ok] by (metis gr0I size_eq_0_iff_empty empty_iff set_mset_empty)
  then have "heap_top q \<in> cands D" using heap_top_in [OF ok] sub by blast
  then show ?thesis
    using not_cmp_less_dist [OF sep _ _ heap_top_max [OF ok sub weak_cmp_cands [OF sep] assms(2)]] sub assms(2)
    by blast
qed

text \<open>A group of candidates no nearer than the farthest kept one can be left out.\<close>

lemma holds_best_skip:
  assumes "holds_best D k T q" "set_mset B \<subseteq> cands D" "\<not> heap_size q < k"
    and "\<And>b. b \<in># B \<Longrightarrow> cmp_dist (heap_top q) \<le> cmp_dist b"
  shows "holds_best D k (T + B) q"
proof -
  have "size (heap_mset q) = k"
    using assms(1,3) holds_best_size size_heap_mset by (fastforce simp: holds_best_def)
  moreover have "kbest k T (heap_mset q)" using assms(1) by (simp add: holds_best_def)
  ultimately have "kbest k (T + B) (heap_mset q)"
  proof (intro kbest_prune)
    fix a b assume "a \<in># heap_mset q" "b \<in># B"
    then show "cmp_dist a \<le> cmp_dist b"
      using holds_best_top [OF assms(1)] assms(4) by (meson order.trans)
  qed
  then show ?thesis using assms by (auto simp: holds_best_def)
qed

lemma holds_best_offer:
  assumes H: "holds_best D k T q" and c: "c \<in> cands D"
    and take: "heap_size q < k \<or> cmp_dist c < cmp_dist (heap_top q)"
  shows "holds_best D k (add_mset c T) (heap_push (if heap_size q \<ge> k then heap_pop q else q) c)"
proof -
  have sep: "separated D" and ok: "heap_ok q" and k: "1 \<le> k" "cap q = 2 * k"
    and best: "kbest k T (heap_mset q)" and T: "set_mset T \<subseteq> cands D"
    using H by (auto simp: holds_best_def)
  note wc = weak_cmp_cands [OF sep] and sub = holds_best_mset [OF H]
  show ?thesis
  proof (cases "heap_size q < k")
    case True
    then have "heap_size q < cap q" using k by simp
    note push = heap_push_spec [OF ok this sub c wc]
    have "kbest k (add_mset c T) (add_mset c (heap_mset q))"
      using True best size_heap_mset [OF ok] by (intro kbest_add_room) auto
    then show ?thesis using True push sep k T c by (auto simp: holds_best_def)
  next
    case False
    then have full: "size (heap_mset q) = k" and ne: "heap_size q > 0"
      using holds_best_size [OF H] size_heap_mset [OF ok] k by auto
    note pop = heap_pop_spec [OF ok ne sub wc]
    have sub2: "set_mset (heap_mset (heap_pop q)) \<subseteq> cands D"
      using pop(2) sub by (auto dest: in_diffD)
    have room: "heap_size (heap_pop q) < cap (heap_pop q)"
      using holds_best_size [OF H] k by (simp add: heap_pop_size)
    note push = heap_push_spec [OF pop(1) room sub2 c wc]
    have "kbest k (add_mset c T) (add_mset c (heap_mset q - {#heap_top q#}))"
      using kbest_replace [OF best full heap_top_in [OF ok ne] holds_best_top [OF H]] take False by auto
    then show ?thesis using False push pop sep k T c by (auto simp: holds_best_def)
  qed
qed

section \<open>Correctness of the search\<close>

definition dists_in :: "real set \<Rightarrow> point3 \<Rightarrow> kd_tree \<Rightarrow> bool" where
  "dists_in D pt t \<longleftrightarrow> calc_dist pt ` set (live t) \<subseteq> D"

lemma candidates_cands: "dists_in D pt t \<Longrightarrow> set_mset (candidates pt md t) \<subseteq> cands D"
  by (auto simp: dists_in_def candidates_def cands_def cand_def)

lemma candidates_dist:
  assumes "kd_inv t" "b \<in># candidates pt md t"
  shows "calc_box_dist t pt \<le> cmp_dist b" "cmp_dist b \<le> esquare md"
proof -
  obtain x where x: "x \<in> set (live t)" "b = cand pt x" "Fin (calc_dist pt x) \<le> esquare md"
    using assms(2) by (auto simp: candidates_def)
  then show "cmp_dist b \<le> esquare md" by (simp add: cand_def)
  show "calc_box_dist t pt \<le> cmp_dist b"
  proof (cases t)
    case (Node l a r)
    then have "in_range (node_range a) x" using live_in_range assms(1) x(1) by auto
    then show ?thesis using calc_box_dist_lower Node x(2) by (simp add: cand_def)
  qed (use x in simp)
qed

lemma skip_subtree:
  assumes "holds_best D k T q" "kd_inv t" "dists_in D pt t"
    and "\<not> heap_size q < k" "\<not> calc_box_dist t pt < cmp_dist (heap_top q)"
  shows "holds_best D k (T + candidates pt md t) q"
  using assms candidates_dist(1) [OF assms(2)] candidates_cands
  by (intro holds_best_skip) (auto intro: order.trans simp: not_less)

lemma visit_point_spec:
  assumes H: "holds_best D k T q" and d: "\<not> point_deleted a \<Longrightarrow> calc_dist pt (point a) \<in> D"
  shows "holds_best D k (T + image_mset (cand pt)
           (filter_mset (\<lambda>x. Fin (calc_dist pt x) \<le> esquare md) (mset (here_live a))))
         (visit_point k (esquare md) pt a q)"
proof (cases "point_deleted a \<or> \<not> Fin (calc_dist pt (point a)) \<le> esquare md")
  case True
  then show ?thesis using H by (auto simp: visit_point_def here_live_def)
next
  case False
  then have c: "cand pt (point a) \<in> cands D" using d by (auto simp: cands_def cand_def)
  have here: "image_mset (cand pt) (filter_mset (\<lambda>x. Fin (calc_dist pt x) \<le> esquare md) (mset (here_live a)))
      = {#cand pt (point a)#}" using False by (simp add: here_live_def)
  show ?thesis
  proof (cases "heap_size q < k \<or> Fin (calc_dist pt (point a)) < cmp_dist (heap_top q)")
    case True
    have take: "heap_size q < k \<or> cmp_dist (cand pt (point a)) < cmp_dist (heap_top q)"
      using True by (simp add: cand_def)
    have "visit_point k (esquare md) pt a q
        = heap_push (if heap_size q \<ge> k then heap_pop q else q) (cand pt (point a))"
      using False True by (simp add: visit_point_def cand_def Let_def)
    then show ?thesis unfolding here using holds_best_offer [OF H c take] by simp
  next
    case skip: False
    have same: "visit_point k (esquare md) pt a q = q" using skip by (auto simp: visit_point_def Let_def)
    have "holds_best D k (T + {#cand pt (point a)#}) q"
      using skip c by (intro holds_best_skip [OF H]) (auto simp: cand_def)
    then show ?thesis unfolding same here .
  qed
qed

lemma candidates_push:
  assumes "kd_inv (Node l a r)" "Push_Down st p l a r = (l1, a1, r1, st1)"
  shows "candidates pt md (Node l a r) = image_mset (cand pt)
      (filter_mset (\<lambda>x. Fin (calc_dist pt x) \<le> esquare md) (mset (here_live a1)))
    + candidates pt md l1 + candidates pt md r1"
  unfolding candidates_def push_lists [OF assms] by simp

lemma Push_Down_idle:
  "\<not> (need_push_down_to_left a \<or> need_push_down_to_right a) \<Longrightarrow> Push_Down st p l a r = (l, a, r, st)"
  by (simp add: Push_Down_def log_if_def Let_def)

definition search_post ::
  "real set \<Rightarrow> nat \<Rightarrow> point3 \<Rightarrow> efloat \<Rightarrow> PointType_CMP multiset \<Rightarrow> kd_tree \<Rightarrow> kd_tree \<times> kd_state \<times> MANUAL_HEAP \<Rightarrow> bool" where
  "search_post D k pt md T t res \<longleftrightarrow>
     (case res of (t', st', q') \<Rightarrow>
        kd_inv t' \<and> live t' = live t \<and> tree_count t' = tree_count t \<and>
        holds_best D k (T + candidates pt md t) q')"

lemma holds_best_stays_full:
  assumes H: "holds_best D k T q" and full: "\<not> heap_size q < k" and H': "holds_best D k (T + B) q'"
  shows "\<not> heap_size q' < k"
proof -
  have k: "kbest k T (heap_mset q)" "kbest k (T + B) (heap_mset q')" and ok: "heap_ok q" "heap_ok q'"
    using H H' by (auto simp: holds_best_def)
  have "size (heap_mset q) = min k (size T)" "size (heap_mset q') = min k (size (T + B))"
    using k unfolding kbest_def by blast+
  then show ?thesis using full size_heap_mset [OF ok(1)] size_heap_mset [OF ok(2)] by auto
qed

text \<open>One of the conditional visits of a son.\<close>

lemma visit_son:
  assumes H: "holds_best D k T q" and inv: "kd_inv t" and D: "dists_in D pt t"
    and rec: "search_post D k pt md T t (Search st p t k pt q md)"
    and b: "\<not> b \<Longrightarrow> \<not> heap_size q < k \<and> \<not> calc_box_dist t pt < cmp_dist (heap_top q)"
  shows "search_post D k pt md T t (if b then Search st p t k pt q md else (t, st, q))"
  using assms skip_subtree [OF H inv D] by (cases b) (auto simp: search_post_def)

text \<open>Putting a node back together after both sons have been dealt with, in either order.\<close>

lemma search_combine:
  assumes inv: "kd_inv (Node l a r)" and push: "Push_Down st p l a r = (l1, a1, r1, st1)"
    and L: "search_post D k pt md U l1 (l2, st2, q2)" and R: "search_post D k pt md V r1 (r2, st3, q3)"
    and T: "T + candidates pt md (Node l a r) = W" and W: "holds_best D k W q4"
  shows "search_post D k pt md T (Node l a r) (Node l2 a1 r2, st4, q4)"
proof -
  note P = Push_Down_spec [OF inv push]
  have l2: "kd_inv l2" "live l2 = live l1" "tree_count l2 = tree_count l1"
    and r2: "kd_inv r2" "live r2 = live r1" "tree_count r2 = tree_count r1"
    using L R by (auto simp: search_post_def)
  note rep = node_replace [OF P(1,2) l2(1) r2(1) l2(2) r2(2) l2(3) r2(3)]
  have "tree_count (Node l2 a1 r2) = tree_count (Node l a r)" using l2(3) r2(3) P(5,6) by simp
  then show ?thesis
    using rep P(4) W T unfolding search_post_def by (simp del: live.simps kd_inv.simps tree_count.simps)
qed

lemma search_post_best: "search_post D k pt md T t (t', st', q') \<Longrightarrow> holds_best D k (T + candidates pt md t) q'"
  by (simp add: search_post_def)

lemma Search_spec:
  "kd_inv t \<Longrightarrow> dists_in D pt t \<Longrightarrow> holds_best D k T q \<Longrightarrow>
   search_post D k pt md T t (Search st p t k pt q md)"
proof (induction t arbitrary: st p T q rule: shape_induct)
  case Null
  then show ?case by (simp add: search_post_def candidates_def)
next
  case (Node l a r)
  show ?case
  proof (cases "tree_deleted a \<or> calc_box_dist (Node l a r) pt > esquare md")
    case True
    have "candidates pt md (Node l a r) = {#}"
    proof (cases "tree_deleted a")
      case False
      then have far: "calc_box_dist (Node l a r) pt > esquare md" using True by blast
      show ?thesis
      proof (rule ccontr)
        assume "candidates pt md (Node l a r) \<noteq> {#}"
        then obtain b where "b \<in># candidates pt md (Node l a r)" by blast
        then show False using candidates_dist [OF Node.prems(1)] far by (meson leD order.trans)
      qed
    qed (simp add: candidates_def)
    moreover have "Search st p (Node l a r) k pt q md = (Node l a r, st, q)" using True by auto
    ultimately show ?thesis using Node.prems by (simp add: search_post_def del: kd_inv.simps live.simps)
  next
    case False
    obtain l1 a1 r1 st1 where push: "Push_Down st p l a r = (l1, a1, r1, st1)"
      by (metis prod_cases4)
    note P = Push_Down_spec [OF Node.prems(1) push]
    have inv: "kd_inv l1" "kd_inv r1" using P(1) by auto
    have lv: "live (Node l a r) = here_live a1 @ live l1 @ live r1" by (rule push_lists [OF Node.prems(1) push])
    have D: "dists_in D pt l1" "dists_in D pt r1" "\<not> point_deleted a1 \<Longrightarrow> calc_dist pt (point a1) \<in> D"
      using Node.prems(2) unfolding dists_in_def lv by (auto simp: here_live_def)
    define q1 where "q1 = visit_point k (esquare md) pt a1 q"
    define T1 where "T1 = T + image_mset (cand pt)
      (filter_mset (\<lambda>x. Fin (calc_dist pt x) \<le> esquare md) (mset (here_live a1)))"
    have H1: "holds_best D k T1 q1"
      unfolding q1_def T1_def by (rule visit_point_spec [OF Node.prems(3) D(3)])
    have T: "T + candidates pt md (Node l a r) = T1 + candidates pt md l1 + candidates pt md r1"
      "T + candidates pt md (Node l a r) = T1 + candidates pt md r1 + candidates pt md l1"
      unfolding candidates_push [OF Node.prems(1) push] T1_def by (simp_all add: ac_simps)
    note rl = Node.IH(1) [OF P(5) inv(1) D(1)] and rr = Node.IH(2) [OF P(6) inv(2) D(2)]
    let ?dl = "calc_box_dist l1 pt" and ?dr = "calc_box_dist r1 pt"
    have pd: "(if need_push_down_to_left a \<or> need_push_down_to_right a then Push_Down st p l a r else (l, a, r, st))
        = (l1, a1, r1, st1)"
      using Push_Down_idle [of a st p l r] push by auto
    have body: "Search st p (Node l a r) k pt q md =
      (if heap_size q1 < k \<or> ?dl < cmp_dist (heap_top q1) \<and> ?dr < cmp_dist (heap_top q1) then
         if ?dl \<le> ?dr then
           let (l2, st2, q2) = Search st1 (p @ [LeftSon]) l1 k pt q1 md;
               (r2, st3, q3) = (if heap_size q2 < k \<or> ?dr < cmp_dist (heap_top q2)
                                then Search st2 (p @ [RightSon]) r1 k pt q2 md else (r1, st2, q2))
           in (Node l2 a1 r2, st3, q3)
         else
           let (r2, st2, q2) = Search st1 (p @ [RightSon]) r1 k pt q1 md;
               (l2, st3, q3) = (if heap_size q2 < k \<or> ?dl < cmp_dist (heap_top q2)
                                then Search st2 (p @ [LeftSon]) l1 k pt q2 md else (l1, st2, q2))
           in (Node l2 a1 r2, st3, q3)
       else
         let (l2, st2, q2) = (if ?dl < cmp_dist (heap_top q1) then Search st1 (p @ [LeftSon]) l1 k pt q1 md
                              else (l1, st1, q1));
             (r2, st3, q3) = (if ?dr < cmp_dist (heap_top q2) then Search st2 (p @ [RightSon]) r1 k pt q2 md
                              else (r1, st2, q2))
         in (Node l2 a1 r2, st3, q3))"
      using False by (simp add: pd Let_def q1_def [symmetric] del: calc_box_dist.simps)
    consider (left) "heap_size q1 < k \<or> ?dl < cmp_dist (heap_top q1) \<and> ?dr < cmp_dist (heap_top q1)" "?dl \<le> ?dr"
      | (right) "heap_size q1 < k \<or> ?dl < cmp_dist (heap_top q1) \<and> ?dr < cmp_dist (heap_top q1)" "\<not> ?dl \<le> ?dr"
      | (both) "\<not> (heap_size q1 < k \<or> ?dl < cmp_dist (heap_top q1) \<and> ?dr < cmp_dist (heap_top q1))"
      by blast
    then show ?thesis
    proof cases
      case left
      obtain l2 st2 q2 where s1: "Search st1 (p @ [LeftSon]) l1 k pt q1 md = (l2, st2, q2)"
        by (metis prod_cases3)
      have post1: "search_post D k pt md T1 l1 (l2, st2, q2)" using rl [OF H1] s1 by metis
      note H2 = search_post_best [OF post1]
      obtain r2 st3 q3 where s2: "(if heap_size q2 < k \<or> ?dr < cmp_dist (heap_top q2)
          then Search st2 (p @ [RightSon]) r1 k pt q2 md else (r1, st2, q2)) = (r2, st3, q3)"
        by (metis prod_cases3)
      have post2: "search_post D k pt md (T1 + candidates pt md l1) r1 (r2, st3, q3)"
        unfolding s2 [symmetric] by (rule visit_son [OF H2 inv(2) D(2) rr [OF H2]]) simp
      show ?thesis unfolding body using left
        by (simp add: s1 s2 search_combine [OF Node.prems(1) push post1 post2 T(1) search_post_best [OF post2]])
    next
      case right
      obtain r2 st2 q2 where s1: "Search st1 (p @ [RightSon]) r1 k pt q1 md = (r2, st2, q2)"
        by (metis prod_cases3)
      have post1: "search_post D k pt md T1 r1 (r2, st2, q2)" using rr [OF H1] s1 by metis
      note H2 = search_post_best [OF post1]
      obtain l2 st3 q3 where s2: "(if heap_size q2 < k \<or> ?dl < cmp_dist (heap_top q2)
          then Search st2 (p @ [LeftSon]) l1 k pt q2 md else (l1, st2, q2)) = (l2, st3, q3)"
        by (metis prod_cases3)
      have post2: "search_post D k pt md (T1 + candidates pt md r1) l1 (l2, st3, q3)"
        unfolding s2 [symmetric] by (rule visit_son [OF H2 inv(1) D(1) rl [OF H2]]) simp
      show ?thesis unfolding body using right
        by (simp add: s1 s2 search_combine [OF Node.prems(1) push post2 post1 T(2) search_post_best [OF post2]])
    next
      case both
      obtain l2 st2 q2 where s1: "(if ?dl < cmp_dist (heap_top q1)
          then Search st1 (p @ [LeftSon]) l1 k pt q1 md else (l1, st1, q1)) = (l2, st2, q2)"
        by (metis prod_cases3)
      have post1: "search_post D k pt md T1 l1 (l2, st2, q2)"
        unfolding s1 [symmetric] by (rule visit_son [OF H1 inv(1) D(1) rl [OF H1]]) (use both in simp)
      note H2 = search_post_best [OF post1]
      obtain r2 st3 q3 where s2: "(if ?dr < cmp_dist (heap_top q2)
          then Search st2 (p @ [RightSon]) r1 k pt q2 md else (r1, st2, q2)) = (r2, st3, q3)"
        by (metis prod_cases3)
      have full: "\<not> heap_size q2 < k" using holds_best_stays_full [OF H1 _ H2] both by blast
      have post2: "search_post D k pt md (T1 + candidates pt md l1) r1 (r2, st3, q3)"
        unfolding s2 [symmetric] by (rule visit_son [OF H2 inv(2) D(2) rr [OF H2]]) (use full in simp)
      have "Search st p (Node l a r) k pt q md = (Node l2 a1 r2, st3, q3)"
        unfolding body if_not_P [OF both] by (simp only: s1 s2 Let_def split_conv)
      then show ?thesis
        by (simp only: search_combine [OF Node.prems(1) push post1 post2 T(1) search_post_best [OF post2]])
    qed
  qed
qed

section \<open>Draining the heap\<close>

lemma drain_spec:
  assumes sep: "separated D"
  shows "heap_ok q \<Longrightarrow> heap_size q = n \<Longrightarrow> set_mset (heap_mset q) \<subseteq> cands D \<Longrightarrow>
    \<exists>xs. drain n q acc = xs @ acc \<and> mset xs = heap_mset q \<and> sorted (map cmp_dist xs)"
proof (induction n arbitrary: q acc)
  case 0
  then show ?case by (auto simp: heap_mset_def)
next
  case (Suc n)
  have ne: "heap_size q > 0" using Suc.prems(2) by simp
  note pop = heap_pop_spec [OF Suc.prems(1) ne Suc.prems(3) weak_cmp_cands [OF sep]]
  have sub: "set_mset (heap_mset (heap_pop q)) \<subseteq> cands D"
    using Suc.prems(3) pop(2) by (auto dest: in_diffD)
  have "heap_size (heap_pop q) = n" using Suc.prems(2) by (simp add: heap_pop_size)
  then obtain xs where xs: "drain n (heap_pop q) (heap_top q # acc) = xs @ heap_top q # acc"
    "mset xs = heap_mset (heap_pop q)" "sorted (map cmp_dist xs)"
    using Suc.IH [OF pop(1) _ sub] by blast
  have top: "cmp_dist c \<le> cmp_dist (heap_top q)" if "c \<in> set xs" for c
  proof -
    have c: "c \<in># heap_mset q" using that xs(2) pop(2) by (metis in_diffD set_mset_mset)
    have "heap_top q \<in> cands D" "c \<in> cands D"
      using c heap_top_in [OF Suc.prems(1) ne] Suc.prems(3) by auto
    then show ?thesis
      using not_cmp_less_dist [OF sep] heap_top_max [OF Suc.prems(1,3) weak_cmp_cands [OF sep] c] by blast
  qed
  have "mset (xs @ [heap_top q]) = heap_mset q"
    using xs(2) pop(2) heap_top_in [OF Suc.prems(1) ne] by simp
  moreover have "sorted (map cmp_dist (xs @ [heap_top q]))"
    using xs(3) top by (auto simp: sorted_append)
  moreover have "drain (Suc n) q acc = (xs @ [heap_top q]) @ acc" using xs(1) by simp
  ultimately show ?case by blast
qed

section \<open>Nearest_Search\<close>

lemma holds_best_new:
  assumes "separated D" "1 \<le> k"
  shows "holds_best D k {#} (heap_clear (new_heap (2 * k)))"
proof -
  have "heap_clear (new_heap (2 * k)) = new_heap (2 * k)" by (simp add: heap_clear_def new_heap_def)
  then show ?thesis using assms by (simp add: holds_best_def) (simp add: new_heap_def)
qed

lemma Nearest_Search_spec:
  assumes inv: "kd_inv t" and k: "1 \<le> k" and sep: "separated (calc_dist pt ` set (live t))"
    and run: "Nearest_Search st t pt k md = (t', st', ps, ds)"
  shows "kd_inv t'" "live t' = live t"
    "ds = map (\<lambda>p. Fin (calc_dist pt p)) ps" "sorted ds"
    "kbest k (candidates pt md t) (mset (map (cand pt) ps))"
proof -
  let ?D = "calc_dist pt ` set (live t)" and ?q0 = "heap_clear (new_heap (2 * k))"
  obtain t1 st1 q where s: "Search st [] t k pt ?q0 md = (t1, st1, q)" by (metis prod_cases3)
  have "dists_in ?D pt t" by (simp add: dists_in_def)
  from Search_spec [OF inv this holds_best_new [OF sep k], where st = st and p = "[]" and md = md]
  have post: "kd_inv t1" "live t1 = live t" "holds_best ?D k (candidates pt md t) q"
    by (simp_all add: s search_post_def)
  have ok: "heap_ok q" and best: "kbest k (candidates pt md t) (heap_mset q)"
    using post(3) by (auto simp: holds_best_def)
  have n: "min k (heap_size q) = heap_size q" using holds_best_size [OF post(3)] by simp
  obtain xs where xs: "drain (heap_size q) q [] = xs" "mset xs = heap_mset q" "sorted (map cmp_dist xs)"
    using drain_spec [OF sep ok refl holds_best_mset [OF post(3)], of "[]"] by auto
  have res: "t' = t1" "ps = map cmp_point xs" "ds = map cmp_dist xs"
    using run by (auto simp: Nearest_Search_def s Let_def n xs(1))
  show "kd_inv t'" "live t' = live t" "sorted ds" using post xs res by auto
  have sub: "heap_mset q \<subseteq># candidates pt md t" using best by (simp add: kbest_def)
  have c: "c = cand pt (cmp_point c)" if "c \<in> set xs" for c
  proof -
    have "c \<in># candidates pt md t" using that xs(2) sub by (metis mset_subset_eqD set_mset_mset)
    then show ?thesis by (auto simp: candidates_def cand_def)
  qed
  then have "map (cand pt) (map cmp_point xs) = xs" by (simp add: map_idI)
  then show "kbest k (candidates pt md t) (mset (map (cand pt) ps))" using best xs(2) res(2) by simp
  show "ds = map (\<lambda>p. Fin (calc_dist pt p)) ps"
    unfolding res map_map using c by (intro map_cong refl) (metis cand_def PointType_CMP.select_convs(2) comp_apply)
qed

end
