(* ===== verification/KD_Radius.thy ===== *)
theory KD_Radius
  imports KD_Correct
begin

text \<open>
  The radius search: a ball around each node's range centre encloses the range, so the two
  distance tests of \<open>Search_by_radius\<close> discard or take a whole subtree soundly.
\<close>

section \<open>Euclidean distance\<close>

definition edist :: "point3 \<Rightarrow> point3 \<Rightarrow> real" where
  "edist a b = sqrt (calc_dist a b)"

lemma sqrt_sum3_triangle:
  "sqrt ((a + d)\<^sup>2 + (b + e)\<^sup>2 + (c + f)\<^sup>2) \<le> sqrt (a\<^sup>2 + b\<^sup>2 + c\<^sup>2) + sqrt (d\<^sup>2 + e\<^sup>2 + f\<^sup>2)"
proof -
  let ?u = "sqrt (a\<^sup>2 + b\<^sup>2)" and ?v = "sqrt (d\<^sup>2 + e\<^sup>2)"
  have "sqrt ((a + d)\<^sup>2 + (b + e)\<^sup>2) \<le> ?u + ?v"
    by (rule real_sqrt_sum_squares_triangle_ineq)
  then have "(sqrt ((a + d)\<^sup>2 + (b + e)\<^sup>2))\<^sup>2 \<le> (?u + ?v)\<^sup>2"
    by (intro power_mono) auto
  then have "sqrt ((a + d)\<^sup>2 + (b + e)\<^sup>2 + (c + f)\<^sup>2) \<le> sqrt ((?u + ?v)\<^sup>2 + (c + f)\<^sup>2)"
    by simp
  also have "\<dots> \<le> sqrt (?u\<^sup>2 + c\<^sup>2) + sqrt (?v\<^sup>2 + f\<^sup>2)"
    by (rule real_sqrt_sum_squares_triangle_ineq)
  finally show ?thesis by simp
qed

lemma edist_triangle: "edist a c \<le> edist a b + edist b c"
  using sqrt_sum3_triangle [of "px a - px b" "px b - px c" "py a - py b" "py b - py c"
      "pz a - pz b" "pz b - pz c"]
  by (simp add: edist_def calc_dist_def power2_eq_square)

lemma edist_commute: "edist a b = edist b a"
  by (simp add: edist_def calc_dist_commute)

lemma edist_le_iff: "0 \<le> r \<Longrightarrow> edist a b \<le> r \<longleftrightarrow> calc_dist a b \<le> r * r"
  by (metis calc_dist_nonneg edist_def power2_eq_square real_sqrt_abs real_sqrt_le_iff abs_of_nonneg)

section \<open>The enclosing ball of a range\<close>

lemma half_span: "lo \<le> (q::real) \<Longrightarrow> q \<le> hi \<Longrightarrow>
   ((lo + hi) * (1 / 2) - q) * ((lo + hi) * (1 / 2) - q) \<le> ((hi - lo) * (1 / 2)) * ((hi - lo) * (1 / 2))"
proof -
  assume "lo \<le> q" "q \<le> hi"
  then have "\<bar>(lo + hi) * (1 / 2) - q\<bar> \<le> \<bar>(hi - lo) * (1 / 2)\<bar>" by (auto simp: abs_if field_simps)
  then show ?thesis by (metis abs_mult_self_eq abs_ge_zero mult_mono)
qed

lemma in_range_ball: "in_range r q \<Longrightarrow> calc_dist (range_center r) q \<le> range_radius_sq r"
  unfolding calc_dist_def range_center_def range_radius_sq_def in_range_def Let_def point3.simps
  by (intro add_mono half_span) auto

lemma in_range_edist: "in_range r q \<Longrightarrow> edist (range_center r) q \<le> sqrt (range_radius_sq r)"
  by (simp add: edist_def in_range_ball)

lemma ball_out:
  assumes "edist (range_center r) c > radius + sqrt (range_radius_sq r)" "in_range r q" "0 \<le> radius"
  shows "\<not> calc_dist q c \<le> radius * radius"
proof
  assume "calc_dist q c \<le> radius * radius"
  then have "edist q c \<le> radius" using assms(3) by (simp add: edist_le_iff)
  then show False
    using edist_triangle [of "range_center r" c q] in_range_edist [OF assms(2)] assms(1) by linarith
qed

lemma ball_in:
  assumes "edist (range_center r) c \<le> radius - sqrt (range_radius_sq r)" "in_range r q" "0 \<le> radius"
  shows "calc_dist q c \<le> radius * radius"
proof -
  have "edist q c \<le> radius"
    using edist_triangle [of q c "range_center r"] edist_commute [of q "range_center r"] in_range_edist [OF assms(2)]
      assms(1) by linarith
  then show ?thesis using assms(3) by (simp add: edist_le_iff)
qed

section \<open>The search\<close>

definition in_ball :: "point3 \<Rightarrow> real \<Rightarrow> point3 \<Rightarrow> bool" where
  "in_ball c radius q \<longleftrightarrow> calc_dist q c \<le> radius * radius"

lemma Search_by_radius_spec:
  assumes rad: "0 \<le> radius"
  shows "kd_inv t \<Longrightarrow> Search_by_radius st p t c radius = (t', st', ps) \<Longrightarrow>
   ps = filter (in_ball c radius) (live t) \<and> kd_inv t' \<and> live t' = live t \<and> tree_count t' = tree_count t"
proof (induction t arbitrary: st p t' st' ps rule: shape_induct)
  case Null
  then show ?case by simp
next
  case (Node l a r)
  obtain l1 a1 r1 st1 where push: "Push_Down st p l a r = (l1, a1, r1, st1)"
    by (metis prod_cases4)
  note P = Push_Down_spec [OF Node.prems(1) push]
  have inv: "kd_inv l1" "kd_inv r1" using P(1) by auto
  have range: "\<forall>q \<in> set (live (Node l a r)). in_range (node_range a1) q"
    using live_in_range [OF P(1)] P(4) by (metis set_mset_mset)
  have rsq: "radius_sq a1 = range_radius_sq (node_range a1)" using P(1) by (simp add: node_ok_def)
  let ?d = "edist (range_center (node_range a1)) c" and ?s = "sqrt (range_radius_sq (node_range a1))"
  consider (out) "?d > radius + ?s" | (cover) "\<not> ?d > radius + ?s" "?d \<le> radius - ?s"
    | (split) "\<not> ?d > radius + ?s" "\<not> ?d \<le> radius - ?s" by blast
  then show ?case
  proof cases
    case out
    then have res: "t' = Node l1 a1 r1" "ps = []"
      using Node.prems(2) by (simp_all add: push rsq Let_def edist_def)
    have "filter (in_ball c radius) (live (Node l a r)) = []"
      using ball_out [OF out _ rad] range by (auto simp: filter_empty_conv in_ball_def simp del: live.simps)
    then show ?thesis using res P by (simp del: live.simps kd_inv.simps)
  next
    case cover
    then have fl: "flatten NOT_RECORD st1 p (Node l1 a1 r1) = (t', st', ps)"
      using Node.prems(2) by (simp add: push rsq Let_def edist_def del: flatten.simps)
    have "filter (in_ball c radius) (live (Node l a r)) = live (Node l a r)"
      using ball_in [OF cover(2) _ rad] range by (auto simp: filter_id_conv in_ball_def simp del: live.simps)
    then show ?thesis using flatten_spec [OF P(1) fl] P(4-6) by (simp del: live.simps kd_inv.simps)
  next
    case split
    obtain l2 st2 ls where sl: "Search_by_radius st1 (p @ [LeftSon]) l1 c radius = (l2, st2, ls)"
      by (metis prod_cases3)
    obtain r2 st3 rs where sr: "Search_by_radius st2 (p @ [RightSon]) r1 c radius = (r2, st3, rs)"
      by (metis prod_cases3)
    note IHl = Node.IH(1) [OF P(5) inv(1) sl] and IHr = Node.IH(2) [OF P(6) inv(2) sr]
    have res: "t' = Node l2 a1 r2"
      "ps = (if \<not> point_deleted a1 \<and> calc_dist (point a1) c \<le> radius * radius then [point a1] else []) @ ls @ rs"
      using Node.prems(2) split sl sr by (simp_all add: push rsq Let_def edist_def)
    have "ps = filter (in_ball c radius) (here_live a1 @ live l1 @ live r1)"
      using res(2) IHl IHr by (simp add: here_live_def in_ball_def [symmetric])
    then show ?thesis
      using node_replace [OF P(1,2)] IHl IHr P(4,5,6) push_lists [OF Node.prems(1) push]
      by (simp add: res(1) del: live.simps kd_inv.simps)
  qed
qed

end
