(* ===== verification/KD_State.thy ===== *)
theory KD_State
  imports KD_Nearest KD_Radius
begin

text \<open>
  What the operations on subtrees may do to the state of the tree object: the parameters and
  \<open>rebuild_flag\<close> never change, and the operation log and the lists of removed points
  only grow at the end.
\<close>

definition st_ext :: "kd_state \<Rightarrow> kd_state \<Rightarrow> bool" where
  "st_ext s s' \<longleftrightarrow>
     downsample_size s' = downsample_size s \<and> delete_criterion_param s' = delete_criterion_param s
     \<and> balance_criterion_param s' = balance_criterion_param s \<and> rebuild_flag s' = rebuild_flag s
     \<and> rebuild_ptr_locked s' = rebuild_ptr_locked s
     \<and> (\<exists>xs. Rebuild_Logger s' = Rebuild_Logger s @ xs) \<and> (\<exists>xs. Points_deleted s' = Points_deleted s @ xs)
     \<and> (\<exists>xs. Multithread_Points_deleted s' = Multithread_Points_deleted s @ xs)"

lemma st_ext_refl [simp]: "st_ext s s"
  by (simp add: st_ext_def)

lemma st_ext_trans [trans]: "st_ext a b \<Longrightarrow> st_ext b c \<Longrightarrow> st_ext a c"
  unfolding st_ext_def by (metis append.assoc)

lemma st_ext_trans4: "st_ext a b \<Longrightarrow> st_ext b c \<Longrightarrow> st_ext c d \<Longrightarrow> st_ext d e \<Longrightarrow> st_ext a e"
  using st_ext_trans by blast

lemma st_ext_log [simp]: "st_ext s (log_if b op s)"
  by (simp add: st_ext_def log_if_def)

lemma st_ext_note [simp]: "st_ext s (note_size p t s)"
  by (simp add: st_ext_def note_size_def)

lemma st_ext_record [simp]: "st_ext s (record_deleted ty a s)"
  by (simp add: st_ext_def record_deleted_def split: delete_point_storage_set.split)

lemma st_ext_logD: "st_ext (log_if b op s) t \<Longrightarrow> st_ext s t"
  by (rule st_ext_trans [OF st_ext_log])

lemma st_ext_logI: "st_ext s t \<Longrightarrow> st_ext s (log_if b op t)"
  by (rule st_ext_trans [OF _ st_ext_log])

lemma st_ext_recordI: "st_ext s t \<Longrightarrow> st_ext s (record_deleted ty a t)"
  by (rule st_ext_trans [OF _ st_ext_record])

lemma st_ext_noteD: "st_ext (note_size p t' s) t \<Longrightarrow> st_ext s t"
  by (rule st_ext_trans [OF st_ext_note])

lemma Push_Down_counts:
  "Push_Down st p l a r = (l1, a1, r1, st1) \<Longrightarrow> tree_count l1 = tree_count l \<and> tree_count r1 = tree_count r"
  by (cases l; cases r) (auto simp: Push_Down_def Let_def split: if_splits)

lemma st_ext_Push_Down: "Push_Down st p l a r = (l1, a1, r1, st1) \<Longrightarrow> st_ext st st1"
  by (auto simp: Push_Down_def Let_def intro: st_ext_trans [OF st_ext_log st_ext_log])

lemma Push_Down_step:
  assumes "Push_Down st p l a r = (l1, a1, r1, st1)"
  shows "tree_count l1 = tree_count l" "tree_count r1 = tree_count r" "st_ext st st1"
  using Push_Down_counts [OF assms] st_ext_Push_Down [OF assms] by auto

lemma st_ext_flatten: "flatten ty st p t = (t', st', ps) \<Longrightarrow> st_ext st st'"
proof (induction t arbitrary: st p t' st' ps rule: shape_induct)
  case (Node l a r)
  obtain l1 a1 r1 st1 where push: "Push_Down st p l a r = (l1, a1, r1, st1)" by (metis prod_cases4)
  note P = Push_Down_step [OF push]
  show ?case using Node.prems P(3)
    by (auto simp: push Let_def split: prod.splits intro!: st_ext_recordI
        dest!: Node.IH(1) [OF P(1)] Node.IH(2) [OF P(2)] intro: st_ext_trans P(3))
qed simp

lemma st_ext_delete_tree_nodes: "delete_tree_nodes st p t = (t', st') \<Longrightarrow> st_ext st st'"
proof (induction t arbitrary: st p t' st' rule: shape_induct)
  case (Node l a r)
  obtain l1 a1 r1 st1 where push: "Push_Down st p l a r = (l1, a1, r1, st1)" by (metis prod_cases4)
  note P = Push_Down_step [OF push]
  show ?case using Node.prems P(3)
    by (auto simp: push Let_def split: prod.splits
        dest!: Node.IH(1) [OF P(1)] Node.IH(2) [OF P(2)] intro: st_ext_trans P(3))
qed simp

lemma st_ext_Rebuild:
  assumes "Rebuild ne st p t = (t', st')"
  shows "st_ext st st'"
proof -
  obtain t1 st1 ps where fl: "flatten DELETE_POINTS_REC st p t = (t1, st1, ps)" by (metis prod_cases3)
  obtain t2 st2 where dl: "delete_tree_nodes st1 p t1 = (t2, st2)" by (metis prod.collapse)
  have "st_ext st st2"
    using st_ext_trans st_ext_flatten [OF fl] st_ext_delete_tree_nodes [OF dl] by blast
  then show ?thesis using assms
    by (auto simp: Rebuild_def fl dl st_ext_def split: if_splits option.splits)
qed

lemma st_ext_finish:
  assumes "finish ne st p allow l a r = (t', st')"
  shows "st_ext st st'"
  using assms
  by (auto simp: finish_def Let_def split: if_splits prod.splits dest!: st_ext_Rebuild intro: st_ext_noteD)

lemma st_ext_Search_by_range: "Search_by_range st p t b = (t', st', ps) \<Longrightarrow> st_ext st st'"
proof (induction t arbitrary: st p t' st' ps rule: shape_induct)
  case (Node l a r)
  obtain l1 a1 r1 st1 where push: "Push_Down st p l a r = (l1, a1, r1, st1)" by (metis prod_cases4)
  note P = Push_Down_step [OF push]
  show ?case using Node.prems P(3)
    by (auto simp: push Let_def simp del: flatten.simps split: prod.splits if_splits
        dest!: Node.IH(1) [OF P(1)] Node.IH(2) [OF P(2)] st_ext_flatten intro: st_ext_trans P(3))
qed simp

lemma st_ext_Search_by_radius: "Search_by_radius st p t c rad = (t', st', ps) \<Longrightarrow> st_ext st st'"
proof (induction t arbitrary: st p t' st' ps rule: shape_induct)
  case (Node l a r)
  obtain l1 a1 r1 st1 where push: "Push_Down st p l a r = (l1, a1, r1, st1)" by (metis prod_cases4)
  note P = Push_Down_step [OF push]
  show ?case using Node.prems P(3)
    by (auto simp: push Let_def simp del: flatten.simps split: prod.splits if_splits
        dest!: Node.IH(1) [OF P(1)] Node.IH(2) [OF P(2)] st_ext_flatten intro: st_ext_trans P(3))
qed simp

lemma st_ext_Delete_by_range: "Delete_by_range ne st p t b al ds = (t', st', n) \<Longrightarrow> st_ext st st'"
proof (induction t arbitrary: st p al t' st' n rule: shape_induct)
  case (Node l a r)
  obtain l1 a1 r1 st1 where push: "Push_Down st p l (a\<lparr>working_flag := True\<rparr>) r = (l1, a1, r1, st1)"
    by (metis prod_cases4)
  note P = Push_Down_step [OF push]
  show ?case using Node.prems P(3)
    by (auto simp: push Let_def split: prod.splits if_splits
        dest!: Node.IH(1) [OF P(1)] Node.IH(2) [OF P(2)] st_ext_finish st_ext_logD intro: st_ext_trans4 [OF P(3)] P(3))
qed simp

lemma st_ext_Add_by_point: "Add_by_point ne st p t q al ax = (t', st') \<Longrightarrow> st_ext st st'"
proof (induction t arbitrary: st p al ax t' st' rule: shape_induct)
  case (Node l a r)
  obtain l1 a1 r1 st1 where push: "Push_Down st p l (a\<lparr>working_flag := True\<rparr>) r = (l1, a1, r1, st1)"
    by (metis prod_cases4)
  note P = Push_Down_step [OF push]
  show ?case using Node.prems P(3)
    by (auto simp: push Let_def split: prod.splits if_splits
        dest!: Node.IH(1) [OF P(1)] Node.IH(2) [OF P(2)] st_ext_finish st_ext_logD intro: st_ext_trans P(3))
qed simp

lemma st_ext_Delete_by_point: "Delete_by_point ne st p t q al = (t', st') \<Longrightarrow> st_ext st st'"
proof (induction t arbitrary: st p al t' st' rule: shape_induct)
  case (Node l a r)
  obtain l1 a1 r1 st1 where push: "Push_Down st p l (a\<lparr>working_flag := True\<rparr>) r = (l1, a1, r1, st1)"
    by (metis prod_cases4)
  note P = Push_Down_step [OF push]
  show ?case using Node.prems P(3)
    by (auto simp: push Let_def split: prod.splits if_splits
        dest!: Node.IH(1) [OF P(1)] Node.IH(2) [OF P(2)] st_ext_finish st_ext_logD intro: st_ext_trans P(3))
qed simp

lemma st_ext_Add_by_range: "Add_by_range ne st p t b al = (t', st') \<Longrightarrow> st_ext st st'"
proof (induction t arbitrary: st p al t' st' rule: shape_induct)
  case (Node l a r)
  obtain l1 a1 r1 st1 where push: "Push_Down st p l (a\<lparr>working_flag := True\<rparr>) r = (l1, a1, r1, st1)"
    by (metis prod_cases4)
  note P = Push_Down_step [OF push]
  show ?case using Node.prems P(3)
    by (auto simp: push Let_def split: prod.splits if_splits
        dest!: Node.IH(1) [OF P(1)] Node.IH(2) [OF P(2)] st_ext_finish st_ext_logD intro: st_ext_trans4 [OF P(3)] P(3))
qed simp

end
