(* ===== verification/KD_Api.thy ===== *)
theory KD_Api
  imports KD_State
begin

text \<open>
  The public operations of \<open>KD_TREE\<close> (ikd_Tree.cpp): building, the size queries, the
  searches, insertion with voxel down-sampling, the deletions and re-insertions, and
  \<open>run_operation\<close>.  When \<open>Rebuild_Ptr\<close> designates the root they forbid rebuilding
  and log what they did for the rebuild thread.  An access through a null \<open>Root_Node\<close>
  is \<open>None\<close>.
\<close>

section \<open>The tree object\<close>

text \<open>
  \<open>working_locked\<close> says whether the rebuild thread holds \<open>working_flag_mutex\<close> when
  a query tries to lock it.
\<close>

record KD_TREE =
  Root_Node :: kd_tree
  kd_st :: kd_state
  Treesize_tmp :: int
  working_locked :: bool

definition new_KD_TREE :: "real \<Rightarrow> real \<Rightarrow> real \<Rightarrow> KD_TREE" where
  "new_KD_TREE delete_param balance_param box_length =
     \<lparr>Root_Node = Null, kd_st = init_state delete_param balance_param box_length, Treesize_tmp = 0,
      working_locked = False\<rparr>"

definition InitializeKDTree :: "KD_TREE \<Rightarrow> real \<Rightarrow> real \<Rightarrow> real \<Rightarrow> KD_TREE" where
  "InitializeKDTree k delete_param balance_param box_length =
     k\<lparr>kd_st := (kd_st k)\<lparr>delete_criterion_param := delete_param,
        balance_criterion_param := balance_param, downsample_size := box_length\<rparr>\<rparr>"

text \<open>\<open>Rebuild_Ptr != nullptr && *Rebuild_Ptr == Root_Node\<close>.\<close>

definition root_rebuilding :: "KD_TREE \<Rightarrow> bool" where
  "root_rebuilding k \<longleftrightarrow> at_rebuild (kd_st k) []"

section \<open>Queries\<close>

text \<open>A null \<open>Root_Node\<close> behind a \<open>Rebuild_Ptr\<close> to it cannot be read.\<close>

fun root_fields :: "kd_tree \<Rightarrow> kd_node option" where
  "root_fields Null = None"
| "root_fields (Node l a r) = Some a"

definition kd_size :: "KD_TREE \<Rightarrow> int option" where
  "kd_size k =
     (if \<not> root_rebuilding k then
        (case Root_Node k of Null \<Rightarrow> Some 0 | Node l a r \<Rightarrow> Some (TreeSize a))
      else if \<not> working_locked k then map_option TreeSize (root_fields (Root_Node k))
      else Some (Treesize_tmp k))"

definition validnum :: "KD_TREE \<Rightarrow> int option" where
  "validnum k =
     (if \<not> root_rebuilding k then
        (case Root_Node k of Null \<Rightarrow> Some 0 | Node l a r \<Rightarrow> Some (TreeSize a - invalid_point_num a))
      else if \<not> working_locked k then
        map_option (\<lambda>a. TreeSize a - invalid_point_num a) (root_fields (Root_Node k))
      else Some (- 1))"

definition zero_box :: BoxPointType where
  "zero_box = point_range \<lparr>px = 0, py = 0, pz = 0\<rparr>"

definition kd_tree_range :: "KD_TREE \<Rightarrow> BoxPointType option" where
  "kd_tree_range k =
     (if \<not> root_rebuilding k then
        (case Root_Node k of Null \<Rightarrow> Some zero_box | Node l a r \<Rightarrow> Some (node_range a))
      else if \<not> working_locked k then map_option node_range (root_fields (Root_Node k))
      else Some zero_box)"

section \<open>Building and searching\<close>

definition Build :: "nth_fun \<Rightarrow> KD_TREE \<Rightarrow> point3 list \<Rightarrow> KD_TREE" where
  "Build ne k point_cloud =
     (let (t1, st1) = (if Root_Node k \<noteq> Null then delete_tree_nodes (kd_st k) [] (Root_Node k)
                       else (Root_Node k, kd_st k))
      in if point_cloud = [] then k\<lparr>Root_Node := t1, kd_st := st1\<rparr>
         else k\<lparr>Root_Node := BuildTree ne point_cloud, kd_st := st1\<rparr>)"

definition kd_Nearest_Search ::
  "KD_TREE \<Rightarrow> point3 \<Rightarrow> nat \<Rightarrow> efloat \<Rightarrow> KD_TREE \<times> point3 list \<times> efloat list" where
  "kd_Nearest_Search k p k_nearest max_dist =
     (let (t, s, ps, ds) = Nearest_Search (kd_st k) (Root_Node k) p k_nearest max_dist
      in (k\<lparr>Root_Node := t, kd_st := s\<rparr>, ps, ds))"

definition Box_Search :: "KD_TREE \<Rightarrow> BoxPointType \<Rightarrow> KD_TREE \<times> point3 list" where
  "Box_Search k b =
     (let (t, s, ps) = Search_by_range (kd_st k) [] (Root_Node k) b in (k\<lparr>Root_Node := t, kd_st := s\<rparr>, ps))"

definition Radius_Search :: "KD_TREE \<Rightarrow> point3 \<Rightarrow> real \<Rightarrow> KD_TREE \<times> point3 list" where
  "Radius_Search k p radius =
     (let (t, s, ps) = Search_by_radius (kd_st k) [] (Root_Node k) p radius
      in (k\<lparr>Root_Node := t, kd_st := s\<rparr>, ps))"

section \<open>Insertion\<close>

text \<open>The voxel of a point, its middle, and the point of the voxel that is kept.\<close>

definition voxel_box :: "real \<Rightarrow> point3 \<Rightarrow> BoxPointType" where
  "voxel_box ds p =
     (let x = real_of_int \<lfloor>px p / ds\<rfloor> * ds; y = real_of_int \<lfloor>py p / ds\<rfloor> * ds;
          z = real_of_int \<lfloor>pz p / ds\<rfloor> * ds
      in \<lparr>vertex_min = \<lparr>px = x, py = y, pz = z\<rparr>, vertex_max = \<lparr>px = x + ds, py = y + ds, pz = z + ds\<rparr>\<rparr>)"

definition voxel_mid :: "BoxPointType \<Rightarrow> point3" where
  "voxel_mid b =
     \<lparr>px = xmin b + (xmax b - xmin b) / 2, py = ymin b + (ymax b - ymin b) / 2,
      pz = zmin b + (zmax b - zmin b) / 2\<rparr>"

fun closest :: "point3 \<Rightarrow> real \<Rightarrow> point3 \<Rightarrow> point3 list \<Rightarrow> point3" where
  "closest mid min_dist best [] = best"
| "closest mid min_dist best (q # qs) =
     (if calc_dist q mid < min_dist then closest mid (calc_dist q mid) q qs else closest mid min_dist best qs)"

fun root_axis :: "kd_tree \<Rightarrow> nat option" where
  "root_axis Null = None"
| "root_axis (Node l a r) = Some (division_axis a)"

text \<open>\<open>Add_by_point(&Root_Node, p, allow, Root_Node->division_axis)\<close>.\<close>

definition add_root :: "nth_fun \<Rightarrow> kd_state \<Rightarrow> kd_tree \<Rightarrow> point3 \<Rightarrow> bool \<Rightarrow> (kd_tree \<times> kd_state) option" where
  "add_root ne s t p allow =
     (case root_axis t of None \<Rightarrow> None | Some ax \<Rightarrow> Some (Add_by_point ne s [] t p allow ax))"

text \<open>One round of the loop of \<open>Add_Points\<close>; the count goes up when a point is re-added.\<close>

definition add_downsampled :: "nth_fun \<Rightarrow> KD_TREE \<Rightarrow> point3 \<Rightarrow> (KD_TREE \<times> int) option" where
  "add_downsampled ne k p =
     (let box = voxel_box (downsample_size (kd_st k)) p;
          mid = voxel_mid box;
          (t1, s1, storage) = Search_by_range (kd_st k) [] (Root_Node k) box;
          result = closest mid (calc_dist p mid) p storage;
          busy = at_rebuild s1 []
      in if length storage > 1 \<or> same_point p result then
           let (t2, s2, _) = (if length storage > 0
                              then Delete_by_range ne s1 [] t1 box (\<not> busy) True else (t1, s1, 0))
           in (case add_root ne s2 t2 result (\<not> busy) of
                 None \<Rightarrow> None
               | Some (t3, s3) \<Rightarrow>
                   let s4 = log_if (busy \<and> length storage > 0) (Log_Downsample_Delete box) s3;
                       s5 = log_if busy (Log_Add_Point result) s4
                   in Some (k\<lparr>Root_Node := t3, kd_st := s5\<rparr>, 1))
         else Some (k\<lparr>Root_Node := t1, kd_st := s1\<rparr>, 0))"

definition add_plain :: "nth_fun \<Rightarrow> KD_TREE \<Rightarrow> point3 \<Rightarrow> (KD_TREE \<times> int) option" where
  "add_plain ne k p =
     (let busy = root_rebuilding k
      in case add_root ne (kd_st k) (Root_Node k) p (\<not> busy) of
           None \<Rightarrow> None
         | Some (t, s) \<Rightarrow> Some (k\<lparr>Root_Node := t, kd_st := log_if busy (Log_Add_Point p) s\<rparr>, 0))"

fun add_all :: "(KD_TREE \<Rightarrow> point3 \<Rightarrow> (KD_TREE \<times> int) option) \<Rightarrow> KD_TREE \<Rightarrow> point3 list \<Rightarrow> (KD_TREE \<times> int) option" where
  "add_all f k [] = Some (k, 0)"
| "add_all f k (p # ps) =
     (case f k p of
        None \<Rightarrow> None
      | Some (k1, n) \<Rightarrow> (case add_all f k1 ps of None \<Rightarrow> None | Some (k2, m) \<Rightarrow> Some (k2, n + m)))"

definition Add_Points :: "nth_fun \<Rightarrow> KD_TREE \<Rightarrow> point3 list \<Rightarrow> bool \<Rightarrow> (KD_TREE \<times> int) option" where
  "Add_Points ne k PointToAdd downsample_on =
     (case kd_size k of
        None \<Rightarrow> None
      | Some _ \<Rightarrow>
          add_all (if downsample_on \<and> DOWNSAMPLE_SWITCH then add_downsampled ne else add_plain ne) k PointToAdd)"

section \<open>Boxes and deletions\<close>

fun Add_Point_Boxes :: "nth_fun \<Rightarrow> KD_TREE \<Rightarrow> BoxPointType list \<Rightarrow> KD_TREE" where
  "Add_Point_Boxes ne k [] = k"
| "Add_Point_Boxes ne k (b # bs) =
     (let busy = root_rebuilding k;
          (t, s) = Add_by_range ne (kd_st k) [] (Root_Node k) b (\<not> busy)
      in Add_Point_Boxes ne (k\<lparr>Root_Node := t, kd_st := log_if busy (Log_Add_Box b) s\<rparr>) bs)"

fun Delete_Points :: "nth_fun \<Rightarrow> KD_TREE \<Rightarrow> point3 list \<Rightarrow> KD_TREE" where
  "Delete_Points ne k [] = k"
| "Delete_Points ne k (p # ps) =
     (let busy = root_rebuilding k;
          (t, s) = Delete_by_point ne (kd_st k) [] (Root_Node k) p (\<not> busy)
      in Delete_Points ne (k\<lparr>Root_Node := t, kd_st := log_if busy (Log_Delete_Point p) s\<rparr>) ps)"

fun Delete_Point_Boxes :: "nth_fun \<Rightarrow> KD_TREE \<Rightarrow> BoxPointType list \<Rightarrow> KD_TREE \<times> int" where
  "Delete_Point_Boxes ne k [] = (k, 0)"
| "Delete_Point_Boxes ne k (b # bs) =
     (let busy = root_rebuilding k;
          (t, s, n) = Delete_by_range ne (kd_st k) [] (Root_Node k) b (\<not> busy) False;
          (k', m) = Delete_Point_Boxes ne (k\<lparr>Root_Node := t, kd_st := log_if busy (Log_Delete_Box b) s\<rparr>) bs
      in (k', n + m))"

definition acquire_removed_points :: "KD_TREE \<Rightarrow> point3 list \<Rightarrow> KD_TREE \<times> point3 list" where
  "acquire_removed_points k removed_points =
     (k\<lparr>kd_st := (kd_st k)\<lparr>Points_deleted := [], Multithread_Points_deleted := []\<rparr>\<rparr>,
      removed_points @ Points_deleted (kd_st k) @ Multithread_Points_deleted (kd_st k))"

section \<open>What the operations do to the stored points\<close>

abbreviation kd_ok :: "KD_TREE \<Rightarrow> bool" where
  "kd_ok k \<equiv> kd_inv (Root_Node k)"

abbreviation points_of :: "KD_TREE \<Rightarrow> point3 multiset" where
  "points_of k \<equiv> live_mset (Root_Node k)"

lemma Build_spec:
  assumes "nth_element_ok ne"
  shows "kd_ok (Build ne k ps) \<and> points_of (Build ne k ps) = mset ps \<and> tree_count (Root_Node (Build ne k ps)) = length ps"
proof -
  have freed: "fst (delete_tree_nodes st p t) = Null" for st p t
    by (cases t) (auto split: prod.splits)
  obtain t1 st1 where d: "(if Root_Node k \<noteq> Null then delete_tree_nodes (kd_st k) [] (Root_Node k)
      else (Root_Node k, kd_st k)) = (t1, st1)" by (metis prod.collapse)
  then have "t1 = Null" using freed [of "kd_st k" "[]" "Root_Node k"] by (auto split: if_splits)
  then show ?thesis using BuildTree_spec [OF assms, of ps] by (simp add: Build_def d)
qed

lemma validnum_spec:
  assumes "kd_ok k" "\<not> root_rebuilding k"
  shows "kd_size k = Some (int (tree_count (Root_Node k)))" "validnum k = Some (int (size (points_of k)))"
  using assms by (auto simp: kd_size_def validnum_def node_ok_def split: kd_tree.splits)

lemma Box_Search_spec:
  assumes "kd_ok k" "Box_Search k b = (k', ps)"
  shows "ps = filter (in_box b) (live (Root_Node k))" "kd_ok k'" "live (Root_Node k') = live (Root_Node k)"
proof -
  obtain t s qs where r: "Search_by_range (kd_st k) [] (Root_Node k) b = (t, s, qs)" by (metis prod_cases3)
  have k': "k' = k\<lparr>Root_Node := t, kd_st := s\<rparr>" "ps = qs" using assms(2) by (auto simp: Box_Search_def r)
  show "ps = filter (in_box b) (live (Root_Node k))" "kd_ok k'" "live (Root_Node k') = live (Root_Node k)"
    using Search_by_range_spec [OF assms(1) r] k' by auto
qed

lemma Delete_Point_Boxes_spec:
  assumes ne: "nth_element_ok ne"
  shows "kd_ok k \<Longrightarrow> Delete_Point_Boxes ne k bs = (k', n) \<Longrightarrow>
    kd_ok k' \<and> points_of k' = filter_mset (\<lambda>p. \<forall>b \<in> set bs. \<not> in_box b p) (points_of k)
    \<and> n = int (size (points_of k)) - int (size (points_of k'))"
proof (induction bs arbitrary: k k' n)
  case Nil
  then show ?case by auto
next
  case (Cons b bs)
  let ?busy = "root_rebuilding k"
  obtain t s m where d: "Delete_by_range ne (kd_st k) [] (Root_Node k) b (\<not> ?busy) False = (t, s, m)"
    by (metis prod_cases3)
  note D = Delete_by_range_spec [OF ne Cons.prems(1) d]
  let ?k1 = "k\<lparr>Root_Node := t, kd_st := log_if ?busy (Log_Delete_Box b) s\<rparr>"
  obtain k2 n2 where r: "Delete_Point_Boxes ne ?k1 bs = (k2, n2)" by (metis prod.collapse)
  have "kd_ok ?k1" using D by simp
  note R = Cons.IH [OF this r]
  have res: "k' = k2" "n = m + n2" using Cons.prems(2) by (simp_all add: d r Let_def)
  have split: "int (size (points_of k)) = m + int (size (live_mset t))"
    using D size_filter_split [of "in_box b" "points_of k"] by simp
  have "points_of k2 = filter_mset (\<lambda>p. \<forall>b' \<in> set bs. \<not> in_box b' p) (filter_mset (\<lambda>q. \<not> in_box b q) (points_of k))"
    using R D by simp
  then have "points_of k2 = filter_mset (\<lambda>p. \<forall>b' \<in> set (b # bs). \<not> in_box b' p) (points_of k)"
    by (simp add: filter_filter_mset conj_commute)
  then show ?case using R D split res by (simp del: size_mset)
qed

lemma Add_by_point_nonempty:
  "nth_element_ok ne \<Longrightarrow> kd_inv t \<Longrightarrow> Add_by_point ne st p t q al ax = (t', st') \<Longrightarrow> t' \<noteq> Null"
  using Add_by_point_spec by fastforce

lemma add_plain_spec:
  assumes ne: "nth_element_ok ne" and ok: "kd_ok k" and nn: "Root_Node k \<noteq> Null"
  shows "\<exists>k'. add_plain ne k p = Some (k', 0) \<and> kd_ok k' \<and> points_of k' = add_mset p (points_of k) \<and> Root_Node k' \<noteq> Null"
proof -
  obtain l a r where t: "Root_Node k = Node l a r" using nn by (cases "Root_Node k") auto
  obtain t' s' where a: "Add_by_point ne (kd_st k) [] (Root_Node k) p (\<not> root_rebuilding k) (division_axis a) = (t', s')"
    by (metis prod.collapse)
  have root: "root_axis (Root_Node k) = Some (division_axis a)" using t by simp
  show ?thesis
    using Add_by_point_spec [OF ne ok a] Add_by_point_nonempty [OF ne ok a]
    by (simp add: add_plain_def add_root_def root a Let_def)
qed

lemma add_all_plain_spec:
  assumes ne: "nth_element_ok ne"
  shows "kd_ok k \<Longrightarrow> Root_Node k \<noteq> Null \<Longrightarrow>
    \<exists>k'. add_all (add_plain ne) k ps = Some (k', 0) \<and> kd_ok k' \<and> points_of k' = points_of k + mset ps"
proof (induction ps arbitrary: k)
  case (Cons p ps)
  obtain k1 where k1: "add_plain ne k p = Some (k1, 0)" "kd_ok k1" "points_of k1 = add_mset p (points_of k)"
    "Root_Node k1 \<noteq> Null" using add_plain_spec [OF ne Cons.prems] by blast
  then show ?case using Cons.IH [OF k1(2,4)] by auto
qed simp

section \<open>Down-sampling\<close>

lemma voxel_box_in:
  assumes "0 < ds"
  shows "in_box (voxel_box ds p) p"
proof -
  have "real_of_int \<lfloor>x / ds\<rfloor> * ds \<le> x \<and> x < real_of_int \<lfloor>x / ds\<rfloor> * ds + ds" for x
  proof -
    have "real_of_int \<lfloor>x / ds\<rfloor> * ds \<le> (x / ds) * ds" using assms by (intro mult_right_mono) auto
    moreover have "(x / ds) * ds < (real_of_int \<lfloor>x / ds\<rfloor> + 1) * ds"
      using assms by (intro mult_strict_right_mono) auto
    ultimately show ?thesis using assms by (simp add: distrib_right)
  qed
  then show ?thesis by (simp add: in_box_def voxel_box_def Let_def)
qed

lemma closest_spec:
  "d = calc_dist best mid \<Longrightarrow>
   closest mid d best qs \<in> set (best # qs) \<and> (\<forall>q \<in> set (best # qs). calc_dist (closest mid d best qs) mid \<le> calc_dist q mid)"
proof (induction qs arbitrary: d best)
  case (Cons q qs)
  show ?case
  proof (cases "calc_dist q mid < d")
    case True
    then show ?thesis using Cons.IH [of "calc_dist q mid" q] Cons.prems by force
  next
    case False
    then show ?thesis using Cons.IH [of d best] Cons.prems by force
  qed
qed simp

text \<open>A round of \<open>Add_Points\<close> as a function of the points alone.\<close>

definition downsample_points :: "real \<Rightarrow> point3 \<Rightarrow> point3 list \<Rightarrow> point3 multiset" where
  "downsample_points ds p ps =
     (let box = voxel_box ds p; mid = voxel_mid box; storage = filter (in_box box) ps;
          result = closest mid (calc_dist p mid) p storage
      in if length storage > 1 \<or> same_point p result
         then add_mset result (filter_mset (\<lambda>q. \<not> in_box box q) (mset ps)) else mset ps)"

lemma add_downsampled_spec:
  assumes ne: "nth_element_ok ne" and ok: "kd_ok k" and run: "add_downsampled ne k p = Some (k', n)"
  shows "kd_ok k'" "points_of k' = downsample_points (downsample_size (kd_st k)) p (live (Root_Node k))"
proof -
  let ?box = "voxel_box (downsample_size (kd_st k)) p"
  let ?mid = "voxel_mid ?box"
  obtain t1 s1 ps where s: "Search_by_range (kd_st k) [] (Root_Node k) ?box = (t1, s1, ps)" by (metis prod_cases3)
  note S = Search_by_range_spec [OF ok s]
  let ?res = "closest ?mid (calc_dist p ?mid) p ps" and ?busy = "at_rebuild s1 []"
  show "kd_ok k'" "points_of k' = downsample_points (downsample_size (kd_st k)) p (live (Root_Node k))"
  proof (atomize (full), cases "length ps > 1 \<or> same_point p ?res")
    case False
    then have "k' = k\<lparr>Root_Node := t1, kd_st := s1\<rparr>"
      using run unfolding add_downsampled_def Let_def s split_conv by auto
    then show "kd_ok k' \<and> points_of k' = downsample_points (downsample_size (kd_st k)) p (live (Root_Node k))"
      using S False by (simp add: downsample_points_def Let_def)
  next
    case True
    obtain t2 s2 m where d: "(if length ps > 0 then Delete_by_range ne s1 [] t1 ?box (\<not> ?busy) True else (t1, s1, 0)) = (t2, s2, m)"
      by (metis prod_cases3)
    have D: "kd_inv t2 \<and> live_mset t2 = filter_mset (\<lambda>q. \<not> in_box ?box q) (points_of k)"
    proof (cases "length ps > 0")
      case True
      then have "Delete_by_range ne s1 [] t1 ?box (\<not> ?busy) True = (t2, s2, m)" using d by simp
      then show ?thesis using Delete_by_range_spec [OF ne, of t1] S by metis
    next
      case False
      then have "filter (in_box ?box) (live (Root_Node k)) = []" using S by simp
      then have "filter (\<lambda>q. \<not> in_box ?box q) (live (Root_Node k)) = live (Root_Node k)"
        by (simp add: filter_empty_conv filter_id_conv)
      then show ?thesis using d S False by (auto simp flip: mset_filter)
    qed
    obtain t3 s3 where a: "add_root ne s2 t2 ?res (\<not> ?busy) = Some (t3, s3)" "Root_Node k' = t3"
      using run True unfolding add_downsampled_def Let_def s split_conv d
      by (auto split: option.splits prod.splits)
    then have "kd_inv t3 \<and> live_mset t3 = add_mset ?res (live_mset t2)"
      using Add_by_point_spec [OF ne] D by (auto simp: add_root_def split: option.splits)
    then show "kd_ok k' \<and> points_of k' = downsample_points (downsample_size (kd_st k)) p (live (Root_Node k))"
      using D True S a(2) by (simp add: downsample_points_def Let_def)
  qed
qed

text \<open>What the down-sampling is for: one point is left in the voxel, one nearest to its middle.\<close>

lemma downsample_points_voxel:
  assumes ds: "0 < ds" and box: "box = voxel_box ds p"
  shows "\<exists>c. filter_mset (in_box box) (downsample_points ds p ps) = {#c#} \<and>
    (\<forall>q \<in> set (p # filter (in_box box) ps). calc_dist c (voxel_mid box) \<le> calc_dist q (voxel_mid box))"
proof -
  let ?st = "filter (in_box box) ps" and ?mid = "voxel_mid box"
  let ?res = "closest ?mid (calc_dist p ?mid) p ?st"
  have best: "?res \<in> set (p # ?st)" "\<forall>q \<in> set (p # ?st). calc_dist ?res ?mid \<le> calc_dist q ?mid"
    using closest_spec [OF refl, of ?mid p ?st] by blast+
  have inb: "in_box box ?res" using best(1) voxel_box_in [OF ds, of p] box by auto
  show ?thesis
  proof (cases "length ?st > 1 \<or> same_point p ?res")
    case True
    then have "downsample_points ds p ps = add_mset ?res (filter_mset (\<lambda>q. \<not> in_box box q) (mset ps))"
      by (simp add: downsample_points_def box Let_def)
    then have "filter_mset (in_box box) (downsample_points ds p ps) = {#?res#}"
      using inb by (simp add: filter_filter_mset)
    then show ?thesis using best(2) by blast
  next
    case False
    then have "?res \<noteq> p" by auto
    then obtain c where c: "?st = [c]" "?res = c"
      using best(1) False by (cases ?st) auto
    have "downsample_points ds p ps = mset ps" using False by (simp add: downsample_points_def box Let_def)
    then have "filter_mset (in_box box) (downsample_points ds p ps) = {#c#}" using c by (simp flip: mset_filter)
    then show ?thesis using best(2) c(2) by auto
  qed
qed

lemma downsample_points_outside:
  "box = voxel_box ds p \<Longrightarrow> 0 < ds \<Longrightarrow>
   filter_mset (\<lambda>q. \<not> in_box box q) (downsample_points ds p ps) = filter_mset (\<lambda>q. \<not> in_box box q) (mset ps)"
proof -
  assume box: "box = voxel_box ds p" and ds: "0 < ds"
  let ?st = "filter (in_box box) ps" and ?mid = "voxel_mid box"
  let ?res = "closest ?mid (calc_dist p ?mid) p ?st"
  have "?res \<in> set (p # ?st)" using closest_spec [OF refl, of ?mid p ?st] by blast
  then have "in_box box ?res" using voxel_box_in [OF ds, of p] box by auto
  then show ?thesis by (simp add: downsample_points_def box Let_def filter_filter_mset)
qed

section \<open>A whole call of \<open>Add_Points\<close> with down-sampling\<close>

lemma floor_cell:
  assumes "0 < ds"
  shows "real_of_int \<lfloor>x / ds\<rfloor> * ds \<le> y \<and> y < real_of_int \<lfloor>x / ds\<rfloor> * ds + ds \<longleftrightarrow> \<lfloor>y / ds\<rfloor> = \<lfloor>x / ds\<rfloor>"
proof -
  have "real_of_int n * ds \<le> y \<and> y < real_of_int n * ds + ds \<longleftrightarrow> real_of_int n \<le> y / ds \<and> y / ds < real_of_int n + 1" for n
    using assms by (simp add: pos_le_divide_eq pos_divide_less_eq distrib_right)
  then show ?thesis by (simp add: floor_eq_iff)
qed

text \<open>The voxels are the cells of a grid: two of them are equal or disjoint.\<close>

lemma in_voxel_iff:
  assumes "0 < ds"
  shows "in_box (voxel_box ds p) q \<longleftrightarrow> voxel_box ds q = voxel_box ds p"
proof -
  have "in_box (voxel_box ds p) q \<longleftrightarrow> \<lfloor>px q / ds\<rfloor> = \<lfloor>px p / ds\<rfloor> \<and> \<lfloor>py q / ds\<rfloor> = \<lfloor>py p / ds\<rfloor> \<and> \<lfloor>pz q / ds\<rfloor> = \<lfloor>pz p / ds\<rfloor>"
    using floor_cell [OF assms, of "px p" "px q"] floor_cell [OF assms, of "py p" "py q"]
      floor_cell [OF assms, of "pz p" "pz q"]
    by (auto simp: in_box_def voxel_box_def Let_def)
  then show ?thesis using assms by (auto simp: voxel_box_def Let_def)
qed

lemma add_downsampled_state:
  assumes "add_downsampled ne k p = Some (k', n)"
  shows "downsample_size (kd_st k') = downsample_size (kd_st k)"
proof -
  let ?box = "voxel_box (downsample_size (kd_st k)) p"
  obtain t1 s1 ps where s: "Search_by_range (kd_st k) [] (Root_Node k) ?box = (t1, s1, ps)" by (metis prod_cases3)
  have e1: "st_ext (kd_st k) s1" by (rule st_ext_Search_by_range [OF s])
  obtain t2 s2 m where d: "(if length ps > 0 then Delete_by_range ne s1 [] t1 ?box (\<not> at_rebuild s1 []) True else (t1, s1, 0)) = (t2, s2, m)"
    by (metis prod_cases3)
  have e2: "st_ext s1 s2" using d st_ext_Delete_by_range by (auto split: if_splits)
  have "st_ext (kd_st k) (kd_st k')"
    using assms e1 e2 st_ext_Add_by_point unfolding add_downsampled_def Let_def s split_conv d
    by (auto simp: add_root_def split: option.splits prod.splits if_splits intro!: st_ext_logI dest!: st_ext_Add_by_point intro: st_ext_trans)
  then show ?thesis by (simp add: st_ext_def)
qed

lemma downsample_other_voxel:
  assumes ds: "0 < ds" and other: "voxel_box ds q \<noteq> voxel_box ds p"
  shows "filter_mset (in_box (voxel_box ds q)) (downsample_points ds p ps) = filter_mset (in_box (voxel_box ds q)) (mset ps)"
proof -
  have split: "filter_mset (in_box (voxel_box ds q)) M
      = filter_mset (in_box (voxel_box ds q)) (filter_mset (\<lambda>x. \<not> in_box (voxel_box ds p) x) M)" for M
    using other by (auto simp: filter_filter_mset in_voxel_iff [OF ds] intro!: filter_mset_cong)
  show ?thesis
    by (subst (1 2) split) (simp add: downsample_points_outside [OF refl ds])
qed

lemma add_all_downsampled_spec:
  assumes ne: "nth_element_ok ne" and ds: "0 < ds"
  shows "kd_ok k \<Longrightarrow> downsample_size (kd_st k) = ds \<Longrightarrow> add_all (add_downsampled ne) k ps = Some (k', n) \<Longrightarrow>
    kd_ok k' \<and> filter_mset (in_box (voxel_box ds q)) (points_of k') =
      (if \<exists>p \<in> set ps. voxel_box ds p = voxel_box ds q
       then filter_mset (in_box (voxel_box ds q)) (points_of k')
       else filter_mset (in_box (voxel_box ds q)) (points_of k))
    \<and> ((\<exists>p \<in> set ps. voxel_box ds p = voxel_box ds q) \<or> size (filter_mset (in_box (voxel_box ds q)) (points_of k)) = 1 \<longrightarrow>
         size (filter_mset (in_box (voxel_box ds q)) (points_of k')) = 1)"
proof (induction ps arbitrary: k n)
  case (Cons p ps)
  obtain k1 m where k1: "add_downsampled ne k p = Some (k1, m)" using Cons.prems(3) by (auto split: option.splits)
  obtain n2 where rest: "add_all (add_downsampled ne) k1 ps = Some (k', n2)"
    using Cons.prems(3) k1 by (auto split: option.splits)
  note S = add_downsampled_spec [OF ne Cons.prems(1) k1]
  have ds1: "downsample_size (kd_st k1) = ds" using add_downsampled_state [OF k1] Cons.prems(2) by simp
  note IH = Cons.IH [OF S(1) ds1 rest]
  show ?case
  proof (cases "voxel_box ds p = voxel_box ds q")
    case True
    then obtain c where "filter_mset (in_box (voxel_box ds q)) (points_of k1) = {#c#}"
      using downsample_points_voxel [OF ds refl, of p "live (Root_Node k)"] S(2) Cons.prems(2) by auto
    then show ?thesis using IH True by auto
  next
    case False
    then have "filter_mset (in_box (voxel_box ds q)) (points_of k1) = filter_mset (in_box (voxel_box ds q)) (points_of k)"
      using downsample_other_voxel [OF ds, of q p "live (Root_Node k)"] S(2) Cons.prems(2) by auto
    then show ?thesis using IH False by auto
  qed
qed simp

section \<open>Deleting points\<close>

lemma Delete_Points_spec:
  assumes ne: "nth_element_ok ne"
  shows "kd_ok k \<Longrightarrow> kd_ok (Delete_Points ne k qs) \<and> points_of (Delete_Points ne k qs) \<subseteq># points_of k
    \<and> size (points_of k) \<le> size (points_of (Delete_Points ne k qs)) + length qs
    \<and> (\<forall>x \<in># points_of k - points_of (Delete_Points ne k qs). \<exists>q \<in> set qs. same_point x q)"
proof (induction qs arbitrary: k)
  case (Cons q qs)
  obtain t s where d: "Delete_by_point ne (kd_st k) [] (Root_Node k) q (\<not> root_rebuilding k) = (t, s)"
    by (metis prod.collapse)
  define k1 where "k1 = k\<lparr>Root_Node := t, kd_st := log_if (root_rebuilding k) (Log_Delete_Point q) s\<rparr>"
  have run: "Delete_Points ne k (q # qs) = Delete_Points ne k1 qs" by (simp add: d k1_def Let_def)
  have D: "kd_ok k1" "removes_one q (points_of k) (points_of k1)"
    using Delete_by_point_spec [OF ne Cons.prems d] by (auto simp: k1_def)
  note IH = Cons.IH [OF D(1)]
  let ?M = "points_of k" and ?N = "points_of k1" and ?R = "points_of (Delete_Points ne k1 qs)"
  have sub: "?N \<subseteq># ?M \<and> size ?M \<le> Suc (size ?N) \<and> (\<forall>x \<in># ?M - ?N. same_point x q)"
  proof (cases "?N = ?M")
    case False
    then obtain x where x: "x \<in># ?M" "same_point x q" "?N = ?M - {#x#}" using D(2) by (auto simp: removes_one_def)
    obtain K where "?M = add_mset x K" using x(1) by (metis insert_DiffM)
    then show ?thesis using x(2,3) by (simp del: size_mset)
  qed simp
  then have sub: "?N \<subseteq># ?M" "size ?M \<le> Suc (size ?N)" "\<forall>x \<in># ?M - ?N. same_point x q" by blast+
  have "\<exists>c \<in> set (q # qs). same_point x c" if x: "x \<in># ?M - ?R" for x
  proof -
    have "x \<in># (?M - ?N) + (?N - ?R)" using x sub(1) IH by (simp add: in_diff_count subset_mset.add_diff_assoc2)
    then have "x \<in># ?M - ?N \<or> x \<in># ?N - ?R" by (simp only: union_iff)
    then show ?thesis using sub(3) IH by auto
  qed
  then show ?case unfolding run using IH sub(1,2) subset_mset.trans by (auto simp del: set_mset_mset)
qed simp

section \<open>The shape of a built tree\<close>

fun kd_height :: "kd_tree \<Rightarrow> nat" where
  "kd_height Null = 0"
| "kd_height (Node l a r) = Suc (max (kd_height l) (kd_height r))"

lemma kd_height_Update [simp]: "kd_height (Update (Node l a r)) = kd_height (Node l a r)"
  using Update_node [of l a r] by auto

lemma BuildTree_height:
  "nth_element_ok ne \<Longrightarrow> xs \<noteq> [] \<Longrightarrow> 2 ^ kd_height (BuildTree ne xs) \<le> 2 * length xs"
proof (induction ne xs rule: BuildTree.induct)
  case (1 ne xs)
  let ?m = "(length xs - 1) div 2" and ?ys = "ne (axis_key (best_axis xs)) ((length xs - 1) div 2) xs"
  let ?L = "take ?m ?ys" and ?R = "take (length xs - Suc ?m) (drop (Suc ?m) ?ys)"
  have pos: "0 < length xs" using 1(4) by simp
  then have len: "length ?ys = length xs" by (intro nth_element_length [OF 1(3)]) linarith
  have sizes: "length ?L \<le> length xs div 2" "length ?R \<le> length xs div 2"
    using pos unfolding length_take length_drop len by linarith+
  have sub: "2 * 2 ^ kd_height (BuildTree ne ys) \<le> 2 * length xs"
    if "length ys \<le> length xs div 2" "ys \<noteq> [] \<Longrightarrow> 2 ^ kd_height (BuildTree ne ys) \<le> 2 * length ys" for ys
  proof (cases "ys = []")
    case True
    then show ?thesis using pos by (cases xs) (auto simp: BuildTree.simps)
  next
    case False
    then have "2 ^ kd_height (BuildTree ne ys) \<le> 2 * length ys" by (rule that(2))
    moreover have "2 * (2 * length ys) \<le> 2 * length xs" using that(1) by auto
    ultimately show ?thesis by linarith
  qed
  have "kd_height (BuildTree ne xs) = Suc (max (kd_height (BuildTree ne ?L)) (kd_height (BuildTree ne ?R)))"
    using 1(4) by (subst BuildTree.simps) (simp add: Let_def del: BuildTree.simps)
  then show ?case
    using sub [OF sizes(1) 1(1) [OF 1(4) refl refl refl 1(3)]] sub [OF sizes(2) 1(2) [OF 1(4) refl refl refl refl 1(3)]]
    by (auto simp: max_def)
qed

lemma add_all_down_cell:
  "add_all (add_downsampled ne) k ps = Some (k', n) \<Longrightarrow> downsample_size (kd_st k') = downsample_size (kd_st k)"
proof (induction ps arbitrary: k n)
  case (Cons p ps)
  then show ?case using add_downsampled_state by (fastforce split: option.splits)
qed simp

lemma Add_Points_down:
  assumes "nth_element_ok ne" "kd_ok k" "0 < downsample_size (kd_st k)" "Add_Points ne k ps True = Some (k', n)"
  shows "kd_ok k' \<and> downsample_size (kd_st k') = downsample_size (kd_st k)
    \<and> (\<forall>p \<in> set ps. size (filter_mset (in_box (voxel_box (downsample_size (kd_st k)) p)) (points_of k')) = 1)
    \<and> (\<forall>q. (\<forall>p \<in> set ps. \<not> in_box (voxel_box (downsample_size (kd_st k)) q) p) \<longrightarrow>
        filter_mset (in_box (voxel_box (downsample_size (kd_st k)) q)) (points_of k')
        = filter_mset (in_box (voxel_box (downsample_size (kd_st k)) q)) (points_of k))"
proof -
  have run: "add_all (add_downsampled ne) k ps = Some (k', n)"
    using assms(4) by (auto simp: Add_Points_def DOWNSAMPLE_SWITCH_def split: option.splits)
  note A = add_all_downsampled_spec [OF assms(1,3,2) refl run]
  have "filter_mset (in_box (voxel_box (downsample_size (kd_st k)) q)) (points_of k')
      = filter_mset (in_box (voxel_box (downsample_size (kd_st k)) q)) (points_of k)"
    if "\<forall>p \<in> set ps. \<not> in_box (voxel_box (downsample_size (kd_st k)) q) p" for q
    using A [of q] that in_voxel_iff [OF assms(3)] by auto
  moreover have "size (filter_mset (in_box (voxel_box (downsample_size (kd_st k)) p)) (points_of k')) = 1"
    if "p \<in> set ps" for p using A [of p] that by blast
  ultimately show ?thesis using A add_all_down_cell [OF run] by blast
qed

end
