(* ===== verification/KD_Rebuild.thy ===== *)
theory KD_Rebuild
  imports KD_Api
begin

text \<open>
  The rebuild thread of the ikd-Tree (\<open>multi_thread_rebuild\<close>, \<open>run_operation\<close>): it
  takes a snapshot of the subtree that \<open>Rebuild_Ptr\<close> designates, builds a balanced tree
  from it while the main thread goes on changing the old one and logs what it does, replays
  the log on the new tree, and swaps the new tree in.  The interleaving of the two threads is
  an explicit list of events; each event is what one of them does between two acquisitions of
  \<open>working_flag_mutex\<close>.
\<close>

section \<open>Replaying an operation\<close>

text \<open>
  The new tree is not linked yet: none of its nodes is the one that \<open>Rebuild_Ptr\<close>
  designates, so the comparisons against it fail.
\<close>

definition unlinked :: "(kd_state \<Rightarrow> kd_tree \<times> kd_state) \<Rightarrow> kd_state \<Rightarrow> kd_tree \<times> kd_state" where
  "unlinked f st = (let (t, st') = f (st\<lparr>Rebuild_Ptr := None\<rparr>) in (t, st'\<lparr>Rebuild_Ptr := Rebuild_Ptr st\<rparr>))"

fun push_down_root :: "bool \<Rightarrow> bool \<Rightarrow> kd_node \<Rightarrow> kd_node" where
  "push_down_root td tdd s =
     (let tdd' = tree_downsample_deleted s \<or> tdd;
          pdd' = point_downsample_deleted s \<or> tdd;
          td' = td \<or> tdd';
          pd' = td' \<or> pdd';
          ddn = (if tdd then TreeSize s else down_del_num s);
          ipn = (if td then TreeSize s else ddn)
      in s\<lparr>tree_downsample_deleted := tdd', point_downsample_deleted := pdd', tree_deleted := td',
           point_deleted := pd', down_del_num := ddn, invalid_point_num := ipn,
           need_push_down_to_left := True, need_push_down_to_right := True\<rparr>)"

fun run_operation :: "nth_fun \<Rightarrow> kd_state \<Rightarrow> kd_tree \<Rightarrow> operation_log \<Rightarrow> (kd_tree \<times> kd_state) option" where
  "run_operation ne st rt (Log_Add_Point p) =
     (case root_axis rt of
        None \<Rightarrow> None
      | Some ax \<Rightarrow> Some (unlinked (\<lambda>s. Add_by_point ne s [] rt p False ax) st))"
| "run_operation ne st rt (Log_Add_Box b) = Some (unlinked (\<lambda>s. Add_by_range ne s [] rt b False) st)"
| "run_operation ne st rt (Log_Delete_Point p) = Some (unlinked (\<lambda>s. Delete_by_point ne s [] rt p False) st)"
| "run_operation ne st rt (Log_Delete_Box b) =
     Some (unlinked (\<lambda>s. let (t, s', _) = Delete_by_range ne s [] rt b False False in (t, s')) st)"
| "run_operation ne st rt (Log_Downsample_Delete b) =
     Some (unlinked (\<lambda>s. let (t, s', _) = Delete_by_range ne s [] rt b False True in (t, s')) st)"
| "run_operation ne st rt (Log_Push_Down td tdd) =
     (case rt of Null \<Rightarrow> None | Node l s r \<Rightarrow> Some (Node l (push_down_root td tdd s) r, st))"

section \<open>The rebuild thread\<close>

fun subtree_at :: "kd_tree \<Rightarrow> path \<Rightarrow> kd_tree" where
  "subtree_at t [] = t"
| "subtree_at Null (d # p) = Null"
| "subtree_at (Node l a r) (LeftSon # p) = subtree_at l p"
| "subtree_at (Node l a r) (RightSon # p) = subtree_at r p"

fun replace_at :: "kd_tree \<Rightarrow> path \<Rightarrow> kd_tree \<Rightarrow> kd_tree" where
  "replace_at t [] s = s"
| "replace_at Null (d # p) s = Null"
| "replace_at (Node l a r) (LeftSon # p) s = Node (replace_at l p s) a r"
| "replace_at (Node l a r) (RightSon # p) s = Node l a (replace_at r p s)"

text \<open>
  The snapshot, under \<open>working_flag_mutex\<close>: the subtree is flattened in place; what comes
  back is the new tree.  \<open>rebuild_ptr_mutex_lock\<close> stays held until the swap.
\<close>

definition mt_snapshot :: "nth_fun \<Rightarrow> KD_TREE \<Rightarrow> (KD_TREE \<times> kd_tree) option" where
  "mt_snapshot ne k =
     (case Rebuild_Ptr (kd_st k) of
        None \<Rightarrow> None
      | Some (p, n) \<Rightarrow>
          let st0 = (kd_st k)\<lparr>rebuild_flag := True, rebuild_ptr_locked := True\<rparr>;
              old = subtree_at (Root_Node k) p;
              (t', st1, storage) = flatten MULTI_THREAD_REC st0 p old;
              k1 = k\<lparr>Root_Node := replace_at (Root_Node k) p t', kd_st := st1,
                     Treesize_tmp := (if p = [] then root_size old else Treesize_tmp k)\<rparr>
          in Some (k1, if storage \<noteq> [] then BuildTree ne storage else Null))"

text \<open>
  One round of the replay loop.  It is only entered when the snapshot was not empty; the
  operation is popped before it is run.
\<close>

definition mt_replay1 :: "nth_fun \<Rightarrow> KD_TREE \<times> kd_tree \<Rightarrow> (KD_TREE \<times> kd_tree) option" where
  "mt_replay1 ne s =
     (case s of (k, new_root) \<Rightarrow>
        case Rebuild_Logger (kd_st k) of
          [] \<Rightarrow> None
        | op # ops \<Rightarrow>
            map_option (\<lambda>(t, st). (k\<lparr>kd_st := st\<rparr>, t))
              (run_operation ne ((kd_st k)\<lparr>Rebuild_Logger := ops\<rparr>) new_root op))"

text \<open>
  Linking the new tree in and updating its ancestors, until one is being worked on or waits for
  a push-down; \<open>blk\<close> is the pending push-down of the father onto this node.
\<close>

fun swap_at :: "bool \<Rightarrow> kd_tree \<Rightarrow> path \<Rightarrow> kd_tree \<Rightarrow> (kd_tree \<times> bool) option" where
  "swap_at blk t [] new = Some (new, True)"
| "swap_at blk Null (d # p) new = None"
| "swap_at blk (Node l a r) (LeftSon # p) new =
     (case swap_at (need_push_down_to_left a) l p new of
        None \<Rightarrow> None
      | Some (l', go) \<Rightarrow>
          if go \<and> \<not> working_flag a \<and> \<not> blk then Some (Update (Node l' a r), True)
          else Some (Node l' a r, False))"
| "swap_at blk (Node l a r) (RightSon # p) new =
     (case swap_at (need_push_down_to_right a) r p new of
        None \<Rightarrow> None
      | Some (r', go) \<Rightarrow>
          if go \<and> \<not> working_flag a \<and> \<not> blk then Some (Update (Node l a r'), True)
          else Some (Node l a r', False))"

text \<open>
  The swap, when the log has been emptied; \<open>new_root_node->TreeSize\<close> is read first, and a
  null \<open>new_root_node\<close> has none.
\<close>

definition mt_swap :: "KD_TREE \<Rightarrow> kd_tree \<Rightarrow> KD_TREE option" where
  "mt_swap k new_root =
     (case (Rebuild_Ptr (kd_st k), root_fields new_root) of
        (Some (p, n), Some _) \<Rightarrow>
          (case swap_at False (Root_Node k) p new_root of
             None \<Rightarrow> None
           | Some (t, _) \<Rightarrow>
               Some (k\<lparr>Root_Node := t,
                       kd_st := (kd_st k)\<lparr>Rebuild_Ptr := None, rebuild_flag := False, rebuild_ptr_locked := False\<rparr>\<rparr>))
      | _ \<Rightarrow> None)"

text \<open>Replaying what is left in the log (\<open>n\<close> rounds), then the swap.\<close>

fun mt_finish :: "nth_fun \<Rightarrow> nat \<Rightarrow> KD_TREE \<times> kd_tree \<Rightarrow> KD_TREE option" where
  "mt_finish ne 0 (k, new_root) = (if Rebuild_Logger (kd_st k) = [] then mt_swap k new_root else None)"
| "mt_finish ne (Suc n) s = (case mt_replay1 ne s of None \<Rightarrow> None | Some s' \<Rightarrow> mt_finish ne n s')"

section \<open>The main thread\<close>

datatype api_op =
    Api_Add_Point point3
  | Api_Add_Downsampled point3
  | Api_Delete_Box BoxPointType
  | Api_Delete_Point point3
  | Api_Add_Box BoxPointType
  | Api_Box_Search BoxPointType

fun run_api :: "nth_fun \<Rightarrow> KD_TREE \<Rightarrow> api_op \<Rightarrow> KD_TREE option" where
  "run_api ne k (Api_Add_Point p) = map_option fst (Add_Points ne k [p] False)"
| "run_api ne k (Api_Add_Downsampled p) = map_option fst (Add_Points ne k [p] True)"
| "run_api ne k (Api_Delete_Box b) = Some (fst (Delete_Point_Boxes ne k [b]))"
| "run_api ne k (Api_Delete_Point p) = Some (Delete_Points ne k [p])"
| "run_api ne k (Api_Add_Box b) = Some (Add_Point_Boxes ne k [b])"
| "run_api ne k (Api_Box_Search b) = Some (fst (Box_Search k b))"

datatype mt_event = Main api_op | Replay

fun mt_event_step :: "nth_fun \<Rightarrow> KD_TREE \<times> kd_tree \<Rightarrow> mt_event \<Rightarrow> (KD_TREE \<times> kd_tree) option" where
  "mt_event_step ne (k, new_root) (Main op) = map_option (\<lambda>k'. (k', new_root)) (run_api ne k op)"
| "mt_event_step ne s Replay = mt_replay1 ne s"

fun mt_run :: "nth_fun \<Rightarrow> KD_TREE \<times> kd_tree \<Rightarrow> mt_event list \<Rightarrow> (KD_TREE \<times> kd_tree) option" where
  "mt_run ne s [] = Some s"
| "mt_run ne s (e # es) = (case mt_event_step ne s e of None \<Rightarrow> None | Some s' \<Rightarrow> mt_run ne s' es)"

section \<open>What the main thread does while the root is being rebuilt\<close>

text \<open>
  With \<open>Rebuild_Ptr\<close> at the root every operation runs without rebuilding: the tree keeps
  its nodes, nothing is logged below the root, and \<open>Rebuild_Ptr\<close> stays where it is.
\<close>

text \<open>The designated node lies strictly above \<open>q\<close>, if there is one.\<close>

definition away :: "kd_state \<Rightarrow> path \<Rightarrow> bool" where
  "away s q \<longleftrightarrow> (\<forall>q' n. Rebuild_Ptr s = Some (q', n) \<longrightarrow> length q' < length q)"

lemma away_at: "away s q \<Longrightarrow> \<not> at_rebuild s q"
  by (auto simp: away_def at_rebuild_def split: option.splits)

lemma away_son: "away s q \<Longrightarrow> away s (q @ [d])"
  by (auto simp: away_def less_SucI)

lemma away_son_at [simp]: "away s q \<Longrightarrow> \<not> at_rebuild s (q @ [d])"
  using away_at [OF away_son] by blast

lemma away_None: "Rebuild_Ptr s = None \<Longrightarrow> away s q"
  by (simp add: away_def)

lemma log_if_no [simp]: "log_if False op s = s"
  by (simp add: log_if_def)

lemma Push_Down_calm:
  assumes "\<And>d. \<not> at_rebuild s (q @ [d])" "Push_Down s q l a r = (l1, a1, r1, s1)"
  shows "s1 = s"
  using assms by (auto simp: Push_Down_def Let_def)

text \<open>The common tail without permission to rebuild.\<close>

lemma finish_calm:
  "finish ne s q False l a r = (clear_working (Update (Node l a r)), note_size q (Update (Node l a r)) s)"
  by (simp add: finish_def Let_def)

lemma note_size_away: "away s q \<Longrightarrow> note_size q t s = s"
  using away_at by (auto simp: note_size_def)

lemma tree_count_clear_working [simp]: "tree_count (clear_working t) = tree_count t"
  by (cases t) auto

lemma Delete_by_range_calm:
  "away s q \<Longrightarrow> Delete_by_range ne s q t b False ds = (t', s', n) \<Longrightarrow>
   s' = s \<and> tree_count t' = tree_count t"
proof (induction t arbitrary: q t' n s' rule: shape_induct)
  case (Node l a r)
  obtain l1 a1 r1 s1 where push: "Push_Down s q l (a\<lparr>working_flag := True\<rparr>) r = (l1, a1, r1, s1)"
    by (metis prod_cases4)
  note P = Push_Down_step [OF push] and s1 = Push_Down_calm [OF away_son_at [OF Node.prems(1)] push]
  obtain l2 s2 nl where dl: "Delete_by_range ne s (q @ [LeftSon]) l1 b False ds = (l2, s2, nl)" by (metis prod_cases3)
  obtain r2 s3 nr where dr: "Delete_by_range ne s (q @ [RightSon]) r1 b False ds = (r2, s3, nr)" by (metis prod_cases3)
  have L: "s2 = s \<and> tree_count l2 = tree_count l1"
    by (rule Node.IH(1) [OF P(1) away_son [OF Node.prems(1)] dl])
  have R: "s3 = s \<and> tree_count r2 = tree_count r1"
    by (rule Node.IH(2) [OF P(2) away_son [OF Node.prems(1)] dr])
  show ?case using Node.prems P(1,2) L R
    by (auto simp: push s1 Let_def dl dr finish_calm note_size_away split: if_splits)
qed simp

lemma Add_by_point_calm:
  "away s q \<Longrightarrow> Add_by_point ne s q t p False ax = (t', s') \<Longrightarrow>
   s' = s \<and> tree_count t' = tree_count t + 1"
proof (induction t arbitrary: q t' ax s' rule: shape_induct)
  case Null
  then show ?case using tree_count_Update [of "Node Null (InitTreeNode\<lparr>point := p, division_axis := (ax + 1) mod 3\<rparr>) Null"]
    by (simp del: tree_count_Update Update.simps)
next
  case (Node l a r)
  obtain l1 a1 r1 s1 where push: "Push_Down s q l (a\<lparr>working_flag := True\<rparr>) r = (l1, a1, r1, s1)"
    by (metis prod_cases4)
  note P = Push_Down_step [OF push] and s1 = Push_Down_calm [OF away_son_at [OF Node.prems(1)] push]
  obtain l2 s2 where dl: "Add_by_point ne s (q @ [LeftSon]) l1 p False (division_axis a1) = (l2, s2)" by (metis prod.collapse)
  obtain r2 s3 where dr: "Add_by_point ne s (q @ [RightSon]) r1 p False (division_axis a1) = (r2, s3)" by (metis prod.collapse)
  have L: "s2 = s \<and> tree_count l2 = tree_count l1 + 1"
    by (rule Node.IH(1) [OF P(1) away_son [OF Node.prems(1)] dl])
  have R: "s3 = s \<and> tree_count r2 = tree_count r1 + 1"
    by (rule Node.IH(2) [OF P(2) away_son [OF Node.prems(1)] dr])
  show ?case using Node.prems P(1,2) L R
    by (auto simp: push s1 Let_def dl dr finish_calm note_size_away split: if_splits)
qed

text \<open>At the root: the pointer follows the size of the root, which stays large enough.\<close>

definition root_busy :: "kd_state \<Rightarrow> bool" where
  "root_busy s \<longleftrightarrow> (\<exists>n. Rebuild_Ptr s = Some ([], n))"

definition enough :: "kd_tree \<Rightarrow> bool" where
  "enough t \<longleftrightarrow> Multi_Thread_Rebuild_Point_Num \<le> int (tree_count t)"

lemma root_busy_away: "root_busy s \<Longrightarrow> away s [d]"
  by (auto simp: root_busy_def away_def)

lemma root_busy_son [simp]: "root_busy s \<Longrightarrow> \<not> at_rebuild s [d]"
  using away_at [OF root_busy_away] by blast

lemma root_busy_at: "root_busy s \<Longrightarrow> at_rebuild s []"
  by (auto simp: root_busy_def at_rebuild_def)

lemma root_Update:
  assumes "kd_inv l" "kd_inv r"
  shows "root_size (Update (Node l a r)) = int (tree_count (Node l a r))"
proof -
  obtain b where "Update (Node l a r) = Node l b r" "TreeSize b = root_size l + root_size r + 1"
    using Update_node [of l a r] by blast
  then show ?thesis using assms by (simp add: kd_inv_root_size)
qed

lemma finish_root:
  assumes "root_busy s" "kd_inv l" "kd_inv r" "enough (Node l a r)" "finish ne s [] False l a r = (t', s')"
  shows "root_busy s'" "Rebuild_Logger s' = Rebuild_Logger s" "rebuild_flag s' = rebuild_flag s"
    "tree_count t' = tree_count (Node l a r)"
  using assms root_Update [OF assms(2,3), of a]
  by (auto simp: finish_calm note_size_def root_busy_at enough_def root_busy_def)

lemma Push_Down_root:
  "root_busy s \<Longrightarrow> Push_Down s [] l a r = (l1, a1, r1, s1) \<Longrightarrow> s1 = s"
  using Push_Down_calm [of s "[]"] by (metis append_Nil root_busy_son)

lemma Delete_by_range_root:
  assumes ne: "nth_element_ok ne" and busy: "root_busy s" and inv: "kd_inv t" and big: "enough t"
    and run: "Delete_by_range ne s [] t b False ds = (t', s', n)"
  shows "root_busy s' \<and> Rebuild_Logger s' = Rebuild_Logger s \<and> rebuild_flag s' = rebuild_flag s \<and> enough t'"
proof (cases t)
  case Null
  then show ?thesis using run busy big by simp
next
  case (Node l a r)
  obtain l1 a1 r1 s1 where push: "Push_Down s [] l (a\<lparr>working_flag := True\<rparr>) r = (l1, a1, r1, s1)"
    by (metis prod_cases4)
  note P = push_working [OF inv [unfolded Node] push] and s1 = Push_Down_root [OF busy push]
  note son = root_busy_son [OF busy]
  obtain l2 s2 nl where dl: "Delete_by_range ne s [LeftSon] l1 b False ds = (l2, s2, nl)" by (metis prod_cases3)
  obtain r2 s3 nr where dr: "Delete_by_range ne s [RightSon] r1 b False ds = (r2, s3, nr)" by (metis prod_cases3)
  have L: "s2 = s" "tree_count l2 = tree_count l1" "kd_inv l2"
    using Delete_by_range_calm [OF root_busy_away [OF busy] dl] Delete_by_range_spec [OF ne P(2) dl] by auto
  have R: "s3 = s" "tree_count r2 = tree_count r1" "kd_inv r2"
    using Delete_by_range_calm [OF root_busy_away [OF busy] dr] Delete_by_range_spec [OF ne P(3) dr] by auto
  have big2: "enough (Node l2 c r2)" "enough (Node l1 c r1)" for c
    using big L R P(5,6) by (auto simp: enough_def Node)
  obtain t6 s6 where fin: "finish ne s [] False l2 (if \<not> point_deleted a1 \<and> in_box b (point a1)
      then mark_point_deleted ds a1 else a1) r2 = (t6, s6)" by (metis prod.collapse)
  note F = finish_root [OF busy L(3) R(3) big2(1) fin]
  have "enough t6" using F(4) big2(1) by (simp add: enough_def)
  then show ?thesis
    using run big busy big2(2) F(1-3)
    by (auto simp: Node push s1 Let_def dl dr L(1) R(1) son fin [unfolded Let_def] split: if_splits)
qed

lemma Add_by_point_root:
  assumes ne: "nth_element_ok ne" and busy: "root_busy s" and inv: "kd_inv t" and big: "enough t"
    and run: "Add_by_point ne s [] t p False ax = (t', s')"
  shows "root_busy s' \<and> Rebuild_Logger s' = Rebuild_Logger s \<and> rebuild_flag s' = rebuild_flag s \<and> enough t'"
proof (cases t)
  case Null
  then show ?thesis using big by (simp add: enough_def Multi_Thread_Rebuild_Point_Num_def)
next
  case (Node l a r)
  obtain l1 a1 r1 s1 where push: "Push_Down s [] l (a\<lparr>working_flag := True\<rparr>) r = (l1, a1, r1, s1)"
    by (metis prod_cases4)
  note P = push_working [OF inv [unfolded Node] push] and s1 = Push_Down_root [OF busy push]
  note son = root_busy_son [OF busy]
  obtain l2 s2 where dl: "Add_by_point ne s [LeftSon] l1 p False (division_axis a1) = (l2, s2)" by (metis prod.collapse)
  obtain r2 s3 where dr: "Add_by_point ne s [RightSon] r1 p False (division_axis a1) = (r2, s3)" by (metis prod.collapse)
  have L: "s2 = s" "tree_count l2 = tree_count l1 + 1" "kd_inv l2"
    using Add_by_point_calm [OF root_busy_away [OF busy] dl] Add_by_point_spec [OF ne P(2) dl] by auto
  have R: "s3 = s" "tree_count r2 = tree_count r1 + 1" "kd_inv r2"
    using Add_by_point_calm [OF root_busy_away [OF busy] dr] Add_by_point_spec [OF ne P(3) dr] by auto
  have bigL: "enough (Node l2 c r1)" and bigR: "enough (Node l1 c r2)" for c
    using big L R P(5,6) by (auto simp: enough_def Node)
  obtain t6 s6 where finL: "finish ne s [] False l2 a1 r1 = (t6, s6)" by (metis prod.collapse)
  obtain t7 s7 where finR: "finish ne s [] False l1 a1 r2 = (t7, s7)" by (metis prod.collapse)
  note FL = finish_root [OF busy L(3) P(3) bigL finL] and FR = finish_root [OF busy P(2) R(3) bigR finR]
  have "enough t6" "enough t7" using FL(4) FR(4) bigL bigR by (simp_all add: enough_def)
  then show ?thesis
    using run FL(1-3) FR(1-3)
    by (auto simp: Node push s1 Let_def dl dr L(1) R(1) son finL finR split: if_splits)
qed

text \<open>The searches, whose push-downs are the only change, log nothing either.\<close>

definition below_free :: "kd_state \<Rightarrow> path \<Rightarrow> bool" where
  "below_free s q \<longleftrightarrow> (\<forall>d p. \<not> at_rebuild s (q @ d # p))"

lemma below_free_son: "below_free s q \<Longrightarrow> below_free s (q @ [d])"
  by (simp add: below_free_def)

lemma below_free_at: "below_free s q \<Longrightarrow> \<not> at_rebuild s (q @ [d])"
  by (simp add: below_free_def)

lemma root_busy_free: "root_busy s \<Longrightarrow> below_free s []"
  by (auto simp: below_free_def root_busy_def at_rebuild_def)

lemma flatten_calm:
  "below_free s q \<Longrightarrow> flatten NOT_RECORD s q t = (t', s', ps) \<Longrightarrow> s' = s"
proof (induction t arbitrary: q t' ps s' rule: shape_induct)
  case (Node l a r)
  obtain l1 a1 r1 s1 where push: "Push_Down s q l a r = (l1, a1, r1, s1)" by (metis prod_cases4)
  note P = Push_Down_step [OF push] and s1 = Push_Down_calm [OF below_free_at [OF Node.prems(1)] push]
  obtain l2 s2 ls where fl: "flatten NOT_RECORD s (q @ [LeftSon]) l1 = (l2, s2, ls)" by (metis prod_cases3)
  obtain r2 s3 rs where fr: "flatten NOT_RECORD s (q @ [RightSon]) r1 = (r2, s3, rs)" by (metis prod_cases3)
  note deep = below_free_son [OF Node.prems(1)]
  have "s2 = s" "s3 = s"
    using Node.IH(1) [OF P(1) deep fl] Node.IH(2) [OF P(2) deep fr] by auto
  then show ?case using Node.prems(2) by (auto simp: push s1 Let_def fl fr record_deleted_def)
qed simp

text \<open>Recording the deleted points leaves the log and the pointer alone.\<close>

lemma flatten_quiet:
  "below_free s q \<Longrightarrow> flatten ty s q t = (t', s', ps) \<Longrightarrow>
   Rebuild_Ptr s' = Rebuild_Ptr s \<and> Rebuild_Logger s' = Rebuild_Logger s"
proof (induction t arbitrary: s q t' ps s' rule: shape_induct)
  case (Node l a r)
  obtain l1 a1 r1 s1 where push: "Push_Down s q l a r = (l1, a1, r1, s1)" by (metis prod_cases4)
  note P = Push_Down_step [OF push] and s1 = Push_Down_calm [OF below_free_at [OF Node.prems(1)] push]
  obtain l2 s2 ls where fl: "flatten ty s (q @ [LeftSon]) l1 = (l2, s2, ls)" by (metis prod_cases3)
  obtain r2 s3 rs where fr: "flatten ty s2 (q @ [RightSon]) r1 = (r2, s3, rs)" by (metis prod_cases3)
  note L = Node.IH(1) [OF P(1) below_free_son [OF Node.prems(1)] fl]
  have "below_free s2 (q @ [RightSon])"
    using L below_free_son [OF Node.prems(1)] by (simp add: below_free_def at_rebuild_def)
  note R = Node.IH(2) [OF P(2) this fr]
  show ?case using Node.prems(2) L R
    by (auto simp: push s1 Let_def fl fr record_deleted_def split: delete_point_storage_set.splits)
qed simp

lemma Search_by_range_calm:
  "below_free s q \<Longrightarrow> Search_by_range s q t b = (t', s', ps) \<Longrightarrow> s' = s"
proof (induction t arbitrary: q t' ps s' rule: shape_induct)
  case (Node l a r)
  obtain l1 a1 r1 s1 where push: "Push_Down s q l a r = (l1, a1, r1, s1)" by (metis prod_cases4)
  note P = Push_Down_step [OF push] and s1 = Push_Down_calm [OF below_free_at [OF Node.prems(1)] push]
  obtain l2 s2 ls where fl: "Search_by_range s (q @ [LeftSon]) l1 b = (l2, s2, ls)" by (metis prod_cases3)
  obtain r2 s3 rs where fr: "Search_by_range s (q @ [RightSon]) r1 b = (r2, s3, rs)" by (metis prod_cases3)
  note deep = below_free_son [OF Node.prems(1)]
  have "s2 = s" "s3 = s"
    using Node.IH(1) [OF P(1) deep fl] Node.IH(2) [OF P(2) deep fr] by auto
  then show ?case using Node.prems flatten_calm [OF Node.prems(1)]
    by (auto simp: push s1 Let_def fl fr simp del: flatten.simps split: if_splits)
qed simp

section \<open>Replaying on the new tree\<close>

text \<open>The operations that determine the points that are left: all but the deletion of one point and re-insertion.\<close>

fun exact_op :: "operation_log \<Rightarrow> bool" where
  "exact_op (Log_Add_Point p) = True"
| "exact_op (Log_Delete_Box b) = True"
| "exact_op (Log_Downsample_Delete b) = True"
| "exact_op _ = False"

fun op_points :: "operation_log \<Rightarrow> point3 multiset \<Rightarrow> point3 multiset" where
  "op_points (Log_Add_Point p) M = add_mset p M"
| "op_points (Log_Delete_Box b) M = filter_mset (\<lambda>q. \<not> in_box b q) M"
| "op_points (Log_Downsample_Delete b) M = filter_mset (\<lambda>q. \<not> in_box b q) M"
| "op_points _ M = M"

definition log_points :: "operation_log list \<Rightarrow> point3 multiset \<Rightarrow> point3 multiset" where
  "log_points ops M = fold op_points ops M"

lemma log_points_append: "log_points (xs @ [op]) M = op_points op (log_points xs M)"
  by (simp add: log_points_def)

lemma log_points_Cons: "log_points (op # ops) M = log_points ops (op_points op M)"
  by (simp add: log_points_def)

lemma unlinked_calm:
  assumes "\<And>t s'. f (st\<lparr>Rebuild_Ptr := None\<rparr>) = (t, s') \<Longrightarrow> s' = st\<lparr>Rebuild_Ptr := None\<rparr>"
  shows "unlinked f st = (fst (f (st\<lparr>Rebuild_Ptr := None\<rparr>)), st)"
proof -
  obtain t s' where "f (st\<lparr>Rebuild_Ptr := None\<rparr>) = (t, s')" by (metis prod.collapse)
  with assms show ?thesis by (auto simp: unlinked_def)
qed

lemma run_operation_spec:
  assumes ne: "nth_element_ok ne" and inv: "kd_inv t" "t \<noteq> Null" and op: "exact_op op"
  shows "\<exists>t'. run_operation ne st t op = Some (t', st) \<and> kd_inv t' \<and> t' \<noteq> Null
    \<and> live_mset t' = op_points op (live_mset t)"
proof -
  let ?s = "st\<lparr>Rebuild_Ptr := None\<rparr>"
  have away: "away ?s []" by (simp add: away_None)
  have del: "\<exists>t'. Some (unlinked (\<lambda>s. let (t', s', _) = Delete_by_range ne s [] t b False ds in (t', s')) st) = Some (t', st)
      \<and> kd_inv t' \<and> t' \<noteq> Null \<and> live_mset t' = filter_mset (\<lambda>q. \<not> in_box b q) (live_mset t)" for b ds
  proof -
    obtain t' s' n where d: "Delete_by_range ne ?s [] t b False ds = (t', s', n)" by (metis prod_cases3)
    note C = Delete_by_range_calm [OF away d] and S = Delete_by_range_spec [OF ne inv(1) d]
    have "t' \<noteq> Null" using C inv(2) by (metis tree_count_eq_0)
    moreover have "unlinked (\<lambda>s. let (t', s', _) = Delete_by_range ne s [] t b False ds in (t', s')) st = (t', st)"
      using C d by (subst unlinked_calm) auto
    ultimately show ?thesis using S by blast
  qed
  show ?thesis
  proof (cases op)
    case (Log_Add_Point p)
    obtain ax where ax: "root_axis t = Some ax" using inv(2) by (cases t) auto
    obtain t' s' where d: "Add_by_point ne ?s [] t p False ax = (t', s')" by (metis prod.collapse)
    note C = Add_by_point_calm [OF away d] and S = Add_by_point_spec [OF ne inv(1) d]
    have "t' \<noteq> Null" using C by (metis add_is_0 one_neq_zero tree_count_eq_0)
    moreover have "unlinked (\<lambda>s. Add_by_point ne s [] t p False ax) st = (t', st)"
      using C d by (subst unlinked_calm) auto
    ultimately show ?thesis using S by (simp add: Log_Add_Point ax)
  qed (use del op in simp_all)
qed

section \<open>The main thread's side\<close>

fun exact_api :: "api_op \<Rightarrow> bool" where
  "exact_api (Api_Delete_Point p) = False"
| "exact_api (Api_Add_Box b) = False"
| "exact_api _ = True"

text \<open>While the root is being rebuilt: the state of the main thread's tree.\<close>

definition rebuilding_root :: "KD_TREE \<Rightarrow> bool" where
  "rebuilding_root k \<longleftrightarrow> root_busy (kd_st k) \<and> rebuild_flag (kd_st k) \<and> kd_ok k \<and> enough (Root_Node k)"

text \<open>An operation logs exactly what it does to the points.\<close>

definition logged :: "KD_TREE \<Rightarrow> KD_TREE \<Rightarrow> bool" where
  "logged k k' \<longleftrightarrow> rebuilding_root k' \<and>
     (\<exists>ops. Rebuild_Logger (kd_st k') = Rebuild_Logger (kd_st k) @ ops \<and> (\<forall>op \<in> set ops. exact_op op)
        \<and> points_of k' = log_points ops (points_of k))"

lemma rebuilding_busy: "rebuilding_root k \<Longrightarrow> root_rebuilding k"
  by (simp add: rebuilding_root_def root_rebuilding_def root_busy_at)

lemma logged_add_plain:
  assumes ne: "nth_element_ok ne" and k: "rebuilding_root k" and run: "add_plain ne k p = Some (k', n)"
  shows "logged k k'"
proof -
  obtain ax where ax: "root_axis (Root_Node k) = Some ax"
    using run by (auto simp: add_plain_def add_root_def Let_def split: option.splits)
  obtain t s where a: "Add_by_point ne (kd_st k) [] (Root_Node k) p False ax = (t, s)" by (metis prod.collapse)
  have k': "k' = k\<lparr>Root_Node := t, kd_st := log_if True (Log_Add_Point p) s\<rparr>"
    using run rebuilding_busy [OF k] by (auto simp: add_plain_def add_root_def Let_def ax a)
  have R: "root_busy s \<and> Rebuild_Logger s = Rebuild_Logger (kd_st k) \<and> rebuild_flag s = rebuild_flag (kd_st k) \<and> enough t"
    using Add_by_point_root [OF ne _ _ _ a] k by (simp add: rebuilding_root_def)
  have S: "kd_inv t \<and> live_mset t = add_mset p (points_of k)"
    using Add_by_point_spec [OF ne _ a] k by (simp add: rebuilding_root_def)
  show ?thesis
    using R S k by (auto simp: logged_def k' rebuilding_root_def log_if_def root_busy_def log_points_def
        intro!: exI [of _ "[Log_Add_Point p]"])
qed

lemma logged_delete_box:
  assumes ne: "nth_element_ok ne" and k: "rebuilding_root k" and run: "Delete_Point_Boxes ne k [b] = (k', n)"
  shows "logged k k'"
proof -
  obtain t s m where d: "Delete_by_range ne (kd_st k) [] (Root_Node k) b False False = (t, s, m)" by (metis prod_cases3)
  have k': "k' = k\<lparr>Root_Node := t, kd_st := log_if True (Log_Delete_Box b) s\<rparr>"
    using run rebuilding_busy [OF k] by (auto simp: Let_def d)
  have R: "root_busy s \<and> Rebuild_Logger s = Rebuild_Logger (kd_st k) \<and> rebuild_flag s = rebuild_flag (kd_st k) \<and> enough t"
    using Delete_by_range_root [OF ne _ _ _ d] k by (simp add: rebuilding_root_def)
  have S: "kd_inv t \<and> live_mset t = filter_mset (\<lambda>q. \<not> in_box b q) (points_of k)"
    using Delete_by_range_spec [OF ne _ d] k by (simp add: rebuilding_root_def)
  show ?thesis
    using R S k by (auto simp: logged_def k' rebuilding_root_def log_if_def root_busy_def log_points_def
        intro!: exI [of _ "[Log_Delete_Box b]"])
qed

lemma logged_search:
  assumes k: "rebuilding_root k" and run: "Search_by_range (kd_st k) [] (Root_Node k) b = (t, s, ps)"
  shows "s = kd_st k" "kd_inv t" "live t = live (Root_Node k)" "enough t" "ps = filter (in_box b) (live (Root_Node k))"
  using Search_by_range_calm [OF root_busy_free run] Search_by_range_spec [OF _ run] k
  by (auto simp: rebuilding_root_def enough_def)

lemma logged_downsample:
  assumes ne: "nth_element_ok ne" and k: "rebuilding_root k" and run: "add_downsampled ne k p = Some (k', n)"
  shows "logged k k'"
proof -
  let ?box = "voxel_box (downsample_size (kd_st k)) p"
  let ?mid = "voxel_mid ?box"
  obtain t1 s1 ps where s: "Search_by_range (kd_st k) [] (Root_Node k) ?box = (t1, s1, ps)" by (metis prod_cases3)
  note S = logged_search [OF k s]
  let ?res = "closest ?mid (calc_dist p ?mid) p ps"
  have busy: "root_busy s1" "at_rebuild s1 []" using k S(1) root_busy_at by (auto simp: rebuilding_root_def)
  show ?thesis
  proof (cases "length ps > 1 \<or> same_point p ?res")
    case False
    then have "k' = k\<lparr>Root_Node := t1, kd_st := s1\<rparr>"
      using run unfolding add_downsampled_def Let_def s split_conv by auto
    then show ?thesis using S k by (auto simp: logged_def rebuilding_root_def log_points_def)
  next
    case True
    obtain t2 s2 m where d: "(if length ps > 0 then Delete_by_range ne s1 [] t1 ?box False True else (t1, s1, 0)) = (t2, s2, m)"
      by (metis prod_cases3)
    have d2: "(if length ps > 0 then Delete_by_range ne s1 [] t1 ?box (\<not> at_rebuild s1 []) True else (t1, s1, 0)) = (t2, s2, m)"
      using d eqTrueI [OF busy(2)] by (simp only: not_True_eq_False)
    have D: "root_busy s2 \<and> Rebuild_Logger s2 = Rebuild_Logger s1 \<and> rebuild_flag s2 = rebuild_flag s1 \<and> enough t2
       \<and> kd_inv t2 \<and> live_mset t2 = (if length ps > 0 then filter_mset (\<lambda>q. \<not> in_box ?box q) (points_of k) else points_of k)"
      using d Delete_by_range_root [OF ne busy(1) S(2,4)] Delete_by_range_spec [OF ne S(2)] S(2-4) busy(1)
      by (cases "length ps > 0") auto
    obtain t3 s3 where a: "add_root ne s2 t2 ?res False = Some (t3, s3)"
      and k': "k' = k\<lparr>Root_Node := t3, kd_st := log_if True (Log_Add_Point ?res)
                 (log_if (length ps > 0) (Log_Downsample_Delete ?box) s3)\<rparr>"
      using run True busy(2) unfolding add_downsampled_def Let_def s split_conv d2
      by (auto split: option.splits prod.splits)
    obtain ax where a2: "Add_by_point ne s2 [] t2 ?res False ax = (t3, s3)"
      using a by (auto simp: add_root_def split: option.splits)
    have A: "root_busy s3 \<and> Rebuild_Logger s3 = Rebuild_Logger s2 \<and> rebuild_flag s3 = rebuild_flag s2 \<and> enough t3"
      "kd_inv t3 \<and> live_mset t3 = add_mset ?res (live_mset t2)"
      using Add_by_point_root [OF ne _ _ _ a2] Add_by_point_spec [OF ne _ a2] D by auto
    let ?ops = "(if length ps > 0 then [Log_Downsample_Delete ?box] else []) @ [Log_Add_Point ?res]"
    have "Rebuild_Logger (kd_st k') = Rebuild_Logger (kd_st k) @ ?ops"
      using A D S(1) k by (simp add: k' log_if_def rebuilding_root_def)
    moreover have "points_of k' = log_points ?ops (points_of k)" "\<forall>op \<in> set ?ops. exact_op op"
      using A D by (auto simp: k' log_points_def)
    moreover have "rebuilding_root k'"
      using A D S(1) k by (auto simp: k' rebuilding_root_def log_if_def root_busy_def)
    ultimately show ?thesis unfolding logged_def by blast
  qed
qed

lemma logged_run_api:
  assumes ne: "nth_element_ok ne" and k: "rebuilding_root k" and op: "exact_api op" and run: "run_api ne k op = Some k'"
  shows "logged k k'"
proof (cases op)
  case (Api_Add_Point p)
  then show ?thesis using run logged_add_plain [OF ne k] by (auto simp: Add_Points_def split: option.splits)
next
  case (Api_Add_Downsampled p)
  then show ?thesis using run logged_downsample [OF ne k]
    by (auto simp: Add_Points_def DOWNSAMPLE_SWITCH_def split: option.splits)
next
  case (Api_Delete_Box b)
  then show ?thesis using run logged_delete_box [OF ne k] by (metis option.inject prod.collapse run_api.simps(3))
next
  case (Api_Box_Search b)
  obtain t s ps where r: "Search_by_range (kd_st k) [] (Root_Node k) b = (t, s, ps)" by (metis prod_cases3)
  have "k' = k\<lparr>Root_Node := t, kd_st := s\<rparr>" using run Api_Box_Search by (simp add: Box_Search_def r)
  then show ?thesis using logged_search [OF k r] k by (auto simp: logged_def rebuilding_root_def log_points_def)
qed (use op in simp_all)

section \<open>The two threads together\<close>

text \<open>
  The simulation: replaying what is in the log on the new tree gives the points of the main
  thread's tree.
\<close>

definition mt_sim :: "KD_TREE \<times> kd_tree \<Rightarrow> bool" where
  "mt_sim s \<longleftrightarrow> (case s of (k, new_root) \<Rightarrow>
     rebuilding_root k \<and> kd_inv new_root \<and> new_root \<noteq> Null \<and> (\<forall>op \<in> set (Rebuild_Logger (kd_st k)). exact_op op)
     \<and> log_points (Rebuild_Logger (kd_st k)) (live_mset new_root) = points_of k)"

fun exact_event :: "mt_event \<Rightarrow> bool" where
  "exact_event (Main op) = exact_api op"
| "exact_event Replay = True"

lemma mt_sim_replay:
  assumes ne: "nth_element_ok ne" and sim: "mt_sim (k, t)" and log: "Rebuild_Logger (kd_st k) = op # ops"
  shows "\<exists>t'. mt_replay1 ne (k, t) = Some (k\<lparr>kd_st := (kd_st k)\<lparr>Rebuild_Logger := ops\<rparr>\<rparr>, t')
    \<and> mt_sim (k\<lparr>kd_st := (kd_st k)\<lparr>Rebuild_Logger := ops\<rparr>\<rparr>, t')"
proof -
  have "kd_inv t" "t \<noteq> Null" "exact_op op" using sim log by (auto simp: mt_sim_def)
  from run_operation_spec [OF ne this, of "(kd_st k)\<lparr>Rebuild_Logger := ops\<rparr>"] obtain t' where
    t': "run_operation ne ((kd_st k)\<lparr>Rebuild_Logger := ops\<rparr>) t op = Some (t', (kd_st k)\<lparr>Rebuild_Logger := ops\<rparr>)"
    "kd_inv t'" "t' \<noteq> Null" "live_mset t' = op_points op (live_mset t)" by blast
  have "mt_replay1 ne (k, t) = Some (k\<lparr>kd_st := (kd_st k)\<lparr>Rebuild_Logger := ops\<rparr>\<rparr>, t')"
    using t'(1) log by (simp add: mt_replay1_def)
  moreover have "mt_sim (k\<lparr>kd_st := (kd_st k)\<lparr>Rebuild_Logger := ops\<rparr>\<rparr>, t')"
    using sim t' log by (auto simp: mt_sim_def rebuilding_root_def root_busy_def log_points_Cons)
  ultimately show ?thesis by blast
qed

lemma mt_sim_step:
  assumes ne: "nth_element_ok ne" and sim: "mt_sim s" and e: "exact_event e" and step: "mt_event_step ne s e = Some s'"
  shows "mt_sim s'"
proof (cases s)
  case s: (Pair k t)
  show ?thesis
  proof (cases e)
    case (Main op)
    then obtain k' where k': "run_api ne k op = Some k'" "s' = (k', t)" using step s by auto
    have "logged k k'" using logged_run_api [OF ne _ _ k'(1)] sim e by (simp add: s mt_sim_def Main)
    then obtain ops where ops: "rebuilding_root k'" "Rebuild_Logger (kd_st k') = Rebuild_Logger (kd_st k) @ ops"
      "\<forall>op \<in> set ops. exact_op op" "points_of k' = log_points ops (points_of k)" by (auto simp: logged_def)
    have "log_points (Rebuild_Logger (kd_st k')) (live_mset t) = points_of k'"
      using sim ops(2,4) by (simp add: s mt_sim_def log_points_def)
    then show ?thesis using sim ops k'(2) by (auto simp: s mt_sim_def)
  next
    case Replay
    then show ?thesis using step mt_sim_replay [OF ne sim [unfolded s]] s
      by (cases "Rebuild_Logger (kd_st k)") (auto simp: mt_replay1_def)
  qed
qed

lemma mt_sim_run:
  "nth_element_ok ne \<Longrightarrow> mt_sim s \<Longrightarrow> \<forall>e \<in> set es. exact_event e \<Longrightarrow> mt_run ne s es = Some s' \<Longrightarrow> mt_sim s'"
  by (induction es arbitrary: s) (auto split: option.splits intro: mt_sim_step)

lemma mt_sim_finish:
  "nth_element_ok ne \<Longrightarrow> mt_sim (k, t) \<Longrightarrow> n = length (Rebuild_Logger (kd_st k)) \<Longrightarrow>
   \<exists>k'. mt_finish ne n (k, t) = Some k' \<and> kd_ok k' \<and> points_of k' = points_of k
     \<and> Rebuild_Ptr (kd_st k') = None \<and> Rebuild_Logger (kd_st k') = [] \<and> \<not> rebuild_flag (kd_st k')"
proof (induction n arbitrary: k t)
  case 0
  obtain l a r where t: "t = Node l a r" using 0 by (cases t) (auto simp: mt_sim_def)
  show ?case using 0
    by (auto simp: mt_sim_def rebuilding_root_def root_busy_def mt_swap_def t log_points_def simp del: live.simps)
next
  case (Suc n)
  obtain op ops where log: "Rebuild_Logger (kd_st k) = op # ops" using Suc.prems(3) by (cases "Rebuild_Logger (kd_st k)") auto
  obtain t' where t': "mt_replay1 ne (k, t) = Some (k\<lparr>kd_st := (kd_st k)\<lparr>Rebuild_Logger := ops\<rparr>\<rparr>, t')"
    "mt_sim (k\<lparr>kd_st := (kd_st k)\<lparr>Rebuild_Logger := ops\<rparr>\<rparr>, t')"
    using mt_sim_replay [OF Suc.prems(1,2) log] by blast
  show ?case using Suc.IH [OF Suc.prems(1) t'(2)] Suc.prems(3) log t'(1) by simp
qed

lemma mt_sim_snapshot:
  assumes ne: "nth_element_ok ne" and ok: "kd_ok k" and busy: "root_busy (kd_st k)" and big: "enough (Root_Node k)"
    and log: "Rebuild_Logger (kd_st k) = []" and some: "points_of k \<noteq> {#}" and snap: "mt_snapshot ne k = Some (k1, t)"
  shows "mt_sim (k1, t) \<and> points_of k1 = points_of k"
proof -
  obtain n where n: "Rebuild_Ptr (kd_st k) = Some ([], n)" using busy by (auto simp: root_busy_def)
  let ?st0 = "(kd_st k)\<lparr>rebuild_flag := True, rebuild_ptr_locked := True\<rparr>"
  obtain t1 s1 ps where fl: "flatten MULTI_THREAD_REC ?st0 [] (Root_Node k) = (t1, s1, ps)" by (metis prod_cases3)
  have "below_free ?st0 []" using busy by (intro root_busy_free) (simp add: root_busy_def)
  note Q = flatten_quiet [OF this fl] and S = flatten_spec [OF ok fl] and E = st_ext_flatten [OF fl]
  have "ps \<noteq> []" using S some by auto
  then have res: "Root_Node k1 = t1" "kd_st k1 = s1" "t = BuildTree ne ps"
    using snap by (auto simp: mt_snapshot_def n fl Let_def)
  have B: "kd_inv t" "live_mset t = points_of k" "tree_count t = length ps"
    using BuildTree_spec [OF ne, of ps] S res(3) by auto
  then have "t \<noteq> Null" using \<open>ps \<noteq> []\<close> by (metis length_0_conv tree_count_eq_0)
  then show ?thesis using B Q S E busy big log res
    by (auto simp: mt_sim_def rebuilding_root_def root_busy_def enough_def st_ext_def log_points_def)
qed

end
