(* ===== verification/KD_Props.thy ===== *)
theory KD_Props
  imports KD_Rebuild
begin

text \<open>
  The properties of the ikd-Tree, stated over its public operations, each with an instance at
  a concrete tree where it has hypotheses.
\<close>

section \<open>A concrete \<open>nth_element\<close> and a concrete tree\<close>

text \<open>Sorting the whole range is one implementation of \<open>std::nth_element\<close>.\<close>

definition sort_nth :: nth_fun where
  "sort_nth key n xs = sort_key key xs"

lemma sort_nth_ok: "nth_element_ok sort_nth"
proof -
  have "key (sort_key key xs ! i) \<le> key (sort_key key xs ! j)" if "i < j" "j < length xs"
    for key :: "point3 \<Rightarrow> real" and xs i j
  proof -
    have "sorted (map key (sort_key key xs))" by simp
    then have "map key (sort_key key xs) ! i \<le> map key (sort_key key xs) ! j"
      using that by (intro sorted_nth_mono) auto
    then show ?thesis using that by simp
  qed
  then show ?thesis by (auto simp: nth_element_ok_def sort_nth_def)
qed

definition pt :: "real \<Rightarrow> real \<Rightarrow> real \<Rightarrow> point3" where
  "pt x y z = \<lparr>px = x, py = y, pz = z\<rparr>"

definition demo_points :: "point3 list" where
  "demo_points = [pt 0 0 0, pt 1 0 0, pt 0 2 0, pt 3 3 3]"

definition demo :: KD_TREE where
  "demo = Build sort_nth (new_KD_TREE (1 / 2) (7 / 10) (1 / 2)) demo_points"

lemma demo_ok: "kd_ok demo" "points_of demo = mset demo_points" "tree_count (Root_Node demo) = 4"
  using Build_spec [OF sort_nth_ok, of "new_KD_TREE (1 / 2) (7 / 10) (1 / 2)" demo_points]
  by (simp_all add: demo_def demo_points_def)

lemma demo_state [simp]: "kd_st demo = init_state (1 / 2) (7 / 10) (1 / 2)"
  by (simp add: demo_def Build_def new_KD_TREE_def demo_points_def)

lemma demo_root: "Root_Node demo \<noteq> Null"
  using demo_ok(3) by auto

lemma demo_live: "set (live (Root_Node demo)) = set demo_points"
  using demo_ok(2) by (metis set_mset_mset)

section \<open>The background rebuild\<close>


definition big_demo :: KD_TREE where
  "big_demo =
     (let k = Build sort_nth (new_KD_TREE (1 / 2) (7 / 10) (1 / 2)) (replicate 1500 (pt 1 2 3))
      in k\<lparr>kd_st := (kd_st k)\<lparr>Rebuild_Ptr := Some ([], 1500)\<rparr>\<rparr>)"

lemma big_demo_ok: "kd_ok big_demo" "points_of big_demo = replicate_mset 1500 (pt 1 2 3)"
  "tree_count (Root_Node big_demo) = 1500" "Rebuild_Ptr (kd_st big_demo) = Some ([], 1500)"
  "Rebuild_Logger (kd_st big_demo) = []"
  using Build_spec [OF sort_nth_ok, of "new_KD_TREE (1 / 2) (7 / 10) (1 / 2)" "replicate 1500 (pt 1 2 3)"]
  by (simp_all add: big_demo_def Let_def) (simp add: Build_def new_KD_TREE_def init_state_def)

lemma big_demo_run:
  "\<exists>s0 k1 t1. mt_snapshot sort_nth big_demo = Some s0
     \<and> mt_run sort_nth s0 [Main (Api_Delete_Box (voxel_box 1 (pt 1 2 3))), Replay] = Some (k1, t1)"
proof -
  obtain s0 where s0: "mt_snapshot sort_nth big_demo = Some s0"
    using big_demo_ok(4) by (cases "mt_snapshot sort_nth big_demo") (auto simp: mt_snapshot_def Let_def split: prod.splits)
  obtain k t where kt: "s0 = (k, t)" by (cases s0)
  have sim: "mt_sim (k, t)"
    using mt_sim_snapshot [OF sort_nth_ok big_demo_ok(1) _ _ big_demo_ok(5)] s0 kt big_demo_ok
    by (auto simp: root_busy_def enough_def Multi_Thread_Rebuild_Point_Num_def)
  obtain k' m where d: "Delete_Point_Boxes sort_nth k [voxel_box 1 (pt 1 2 3)] = (k', m)" by (metis prod.collapse)
  have m: "mt_event_step sort_nth (k, t) (Main (Api_Delete_Box (voxel_box 1 (pt 1 2 3)))) = Some (k', t)"
    using d by simp
  have sim': "mt_sim (k', t)" by (rule mt_sim_step [OF sort_nth_ok sim _ m]) simp
  have "root_rebuilding k" using sim by (simp add: mt_sim_def rebuilding_busy)
  moreover have "rebuild_flag (kd_st k)" using sim by (simp add: mt_sim_def rebuilding_root_def)
  ultimately have "Rebuild_Logger (kd_st k') \<noteq> []"
    using d sim sort_nth_ok st_ext_Delete_by_range
    by (fastforce simp: Let_def log_if_def st_ext_def split: prod.splits if_splits)
  then obtain op ops where log: "Rebuild_Logger (kd_st k') = op # ops" by (cases "Rebuild_Logger (kd_st k')") auto
  obtain t' where "mt_replay1 sort_nth (k', t) = Some (k'\<lparr>kd_st := (kd_st k')\<lparr>Rebuild_Logger := ops\<rparr>\<rparr>, t')"
    using mt_sim_replay [OF sort_nth_ok sim' log] by blast
  then show ?thesis using s0 kt m by auto
qed


section \<open>Searching\<close>

text \<open>
  C2. \<open>Nearest_Search\<close> returns the \<open>k\<close> nearest stored points within the maximal distance
  (all of them when there are fewer), each with its squared distance, in ascending order of
  distance, and changes no stored point.  The distances from the query to the stored points
  are taken to be equal or at least \<open>1e-10\<close> apart, so that \<open>operator<\<close> orders them.
\<close>

theorem nearest_search_correct:
  assumes "kd_ok k" "1 \<le> k_nearest" "separated (calc_dist p ` set (live (Root_Node k)))"
    and "kd_Nearest_Search k p k_nearest max_dist = (k', ps, ds)"
  shows "kbest k_nearest (candidates p max_dist (Root_Node k)) (mset (map (cand p) ps))
    \<and> ds = map (\<lambda>q. Fin (calc_dist p q)) ps \<and> sorted ds \<and> kd_ok k' \<and> points_of k' = points_of k"
proof -
  obtain t s qs es where "Nearest_Search (kd_st k) (Root_Node k) p k_nearest max_dist = (t, s, qs, es)"
    by (metis prod_cases4)
  then show ?thesis using Nearest_Search_spec [OF assms(1-3)] assms(4)
    by (auto simp: kd_Nearest_Search_def)
qed

lemma nearest_search_correct_witness:
  "\<exists>k' ps ds. kd_Nearest_Search demo (pt 1 1 0) 2 Inf = (k', ps, ds)
     \<and> kbest 2 (candidates (pt 1 1 0) Inf (Root_Node demo)) (mset (map (cand (pt 1 1 0)) ps)) \<and> sorted ds"
proof -
  have dists: "calc_dist (pt 1 1 0) ` set demo_points = {2, 1, 2, 17}"
    by (simp add: demo_points_def calc_dist_def pt_def)
  have sep: "separated (calc_dist (pt 1 1 0) ` set (live (Root_Node demo)))"
    unfolding demo_live dists by (simp add: separated_def)
  obtain k' ps ds where r: "kd_Nearest_Search demo (pt 1 1 0) 2 Inf = (k', ps, ds)" by (metis prod_cases3)
  have two: "1 \<le> (2 :: nat)" by simp
  show ?thesis using nearest_search_correct [OF demo_ok(1) two sep r] r by blast
qed

text \<open>
  C5. \<open>Box_Search\<close> returns exactly the stored points in the half-open box, with their
  multiplicities, and leaves the stored points as they were.
\<close>

theorem box_search_exact:
  assumes "kd_ok k" "Box_Search k b = (k', ps)"
  shows "mset ps = filter_mset (in_box b) (points_of k) \<and> kd_ok k' \<and> points_of k' = points_of k"
  using Box_Search_spec [OF assms] by simp

lemma box_search_exact_witness:
  "mset (snd (Box_Search demo (voxel_box 2 (pt 1 1 1)))) = {#pt 0 0 0, pt 1 0 0#}"
proof -
  obtain k' ps where r: "Box_Search demo (voxel_box 2 (pt 1 1 1)) = (k', ps)" by (metis prod.collapse)
  have "mset ps = filter_mset (in_box (voxel_box 2 (pt 1 1 1))) (mset demo_points)"
    using box_search_exact [OF demo_ok(1) r] demo_ok(2) by simp
  then show ?thesis unfolding r snd_conv
    by (simp add: demo_points_def in_box_def voxel_box_def pt_def Let_def)
qed

text \<open>
  \<open>Radius_Search\<close> returns exactly the stored points within the radius, and leaves the
  stored points as they were.
\<close>

theorem radius_search_exact:
  assumes "kd_ok k" "0 \<le> radius" "Radius_Search k c radius = (k', ps)"
  shows "mset ps = filter_mset (\<lambda>q. calc_dist q c \<le> radius * radius) (points_of k)
    \<and> kd_ok k' \<and> points_of k' = points_of k"
proof -
  obtain t s qs where r: "Search_by_radius (kd_st k) [] (Root_Node k) c radius = (t, s, qs)" by (metis prod_cases3)
  show ?thesis using Search_by_radius_spec [OF assms(2,1) r] assms(3)
    by (auto simp: Radius_Search_def r in_ball_def)
qed

lemma radius_search_exact_witness:
  "mset (snd (Radius_Search demo (pt 0 1 0) 1)) = {#pt 0 0 0, pt 0 2 0#}"
proof -
  obtain k' ps where r: "Radius_Search demo (pt 0 1 0) 1 = (k', ps)" by (metis prod.collapse)
  have "mset ps = filter_mset (\<lambda>q. calc_dist q (pt 0 1 0) \<le> 1 * 1) (mset demo_points)"
    using radius_search_exact [OF demo_ok(1) _ r] demo_ok(2) by simp
  then show ?thesis unfolding r snd_conv by (simp add: demo_points_def calc_dist_def pt_def)
qed

section \<open>Changing the stored points\<close>

text \<open>
  C4. \<open>Delete_Point_Boxes\<close> removes exactly the stored points that lie in one of the boxes and
  returns how many they were, whichever subtrees are rebuilt on the way.
\<close>

theorem delete_boxes_exact:
  assumes "nth_element_ok ne" "kd_ok k" "Delete_Point_Boxes ne k bs = (k', n)"
  shows "kd_ok k' \<and> points_of k' = filter_mset (\<lambda>p. \<forall>b \<in> set bs. \<not> in_box b p) (points_of k)
    \<and> n = int (size (filter_mset (\<lambda>p. \<exists>b \<in> set bs. in_box b p) (points_of k)))"
proof -
  let ?P = "\<lambda>p. \<forall>b \<in> set bs. \<not> in_box b p"
  note D = Delete_Point_Boxes_spec [OF assms]
  have "size (filter_mset ?P (points_of k)) + size (filter_mset (\<lambda>p. \<not> ?P p) (points_of k)) = size (points_of k)"
    by (rule size_filter_split)
  then show ?thesis using D by (simp del: size_mset)
qed

lemma delete_boxes_exact_witness:
  "points_of (fst (Delete_Point_Boxes sort_nth demo [voxel_box 1 (pt 0 0 0), voxel_box 1 (pt 3 3 3)]))
   = {#pt 1 0 0, pt 0 2 0#}"
proof -
  obtain k' n where r: "Delete_Point_Boxes sort_nth demo [voxel_box 1 (pt 0 0 0), voxel_box 1 (pt 3 3 3)] = (k', n)"
    by (metis prod.collapse)
  show ?thesis using delete_boxes_exact [OF sort_nth_ok demo_ok(1) r] demo_ok(2) unfolding r fst_conv
    by (simp add: demo_points_def in_box_def voxel_box_def pt_def Let_def)
qed

text \<open>
  \<open>Add_Points\<close> without down-sampling, on a tree that has a root, never fails and adds
  exactly the given points.
\<close>

theorem add_points_total:
  assumes "nth_element_ok ne" "kd_ok k" "Root_Node k \<noteq> Null"
  shows "\<exists>k'. Add_Points ne k ps False = Some (k', 0) \<and> kd_ok k' \<and> points_of k' = points_of k + mset ps"
proof -
  have "kd_size k \<noteq> None"
    using assms(3) by (cases "Root_Node k") (auto simp: kd_size_def)
  then show ?thesis using add_all_plain_spec [OF assms, of ps] by (auto simp: Add_Points_def)
qed

lemma add_points_total_witness:
  "\<exists>k'. Add_Points sort_nth demo [pt 7 7 7, pt 0 0 0] False = Some (k', 0)
     \<and> size (points_of k') = 6"
  using add_points_total [OF sort_nth_ok demo_ok(1) demo_root, of "[pt 7 7 7, pt 0 0 0]"] demo_ok(2)
  by (auto simp: demo_points_def simp del: size_mset)

text \<open>
  C3. \<open>Add_Points\<close> with down-sampling keeps one point per voxel: afterwards the voxel of every
  given point holds exactly one stored point, and a voxel of the grid that none of the given
  points falls into holds what it held.
\<close>

theorem downsampling_keeps_one:
  assumes "nth_element_ok ne" "kd_ok k" "0 < downsample_size (kd_st k)" "Add_Points ne k ps True = Some (k', n)"
  shows "kd_ok k'
    \<and> (\<forall>p \<in> set ps. size (filter_mset (in_box (voxel_box (downsample_size (kd_st k)) p)) (points_of k')) = 1)
    \<and> (\<forall>q. (\<forall>p \<in> set ps. \<not> in_box (voxel_box (downsample_size (kd_st k)) q) p) \<longrightarrow>
        filter_mset (in_box (voxel_box (downsample_size (kd_st k)) q)) (points_of k')
        = filter_mset (in_box (voxel_box (downsample_size (kd_st k)) q)) (points_of k))"
  using Add_Points_down [OF assms] by blast

lemma demo_down: "\<exists>k' n. Add_Points sort_nth demo [pt (1 / 10) 0 0] True = Some (k', n)"
proof -
  have "Add_Points sort_nth demo [pt (1 / 10) 0 0] True \<noteq> None" by code_simp
  then show ?thesis by auto
qed

lemma downsampling_keeps_one_witness:
  "\<exists>k' n. Add_Points sort_nth demo [pt (1 / 10) 0 0] True = Some (k', n) \<and> kd_ok k'
     \<and> size (filter_mset (in_box (voxel_box (1 / 2) (pt (1 / 10) 0 0))) (points_of k')) = 1"
proof -
  obtain k' n where r: "Add_Points sort_nth demo [pt (1 / 10) 0 0] True = Some (k', n)" using demo_down by blast
  have ds: "0 < downsample_size (kd_st demo)" "downsample_size (kd_st demo) = 1 / 2" by (simp_all add: init_state_def)
  have "pt (1 / 10) 0 0 \<in> set [pt (1 / 10) 0 0]" by simp
  then show ?thesis
    using downsampling_keeps_one [OF sort_nth_ok demo_ok(1) ds(1) r] r unfolding ds(2) by blast
qed

text \<open>
  \<open>Build\<close> stores exactly the given points, whatever was in the tree before, in a tree whose
  height is at most the binary logarithm of twice their number.
\<close>

theorem build_correct:
  assumes "nth_element_ok ne" "ps \<noteq> []"
  shows "kd_ok (Build ne k ps) \<and> points_of (Build ne k ps) = mset ps
    \<and> 2 ^ kd_height (Root_Node (Build ne k ps)) \<le> 2 * length ps"
  using Build_spec [OF assms(1), of k ps] BuildTree_height [OF assms] assms(2)
  by (simp add: Build_def split: prod.splits)

lemma build_correct_witness:
  "kd_ok demo \<and> 2 ^ kd_height (Root_Node demo) \<le> (8 :: nat)"
proof -
  have "demo_points \<noteq> []" by (simp add: demo_points_def)
  from build_correct [OF sort_nth_ok this, of "new_KD_TREE (1 / 2) (7 / 10) (1 / 2)"]
  show ?thesis by (simp add: demo_def [symmetric]) (simp add: demo_points_def)
qed

text \<open>
  \<open>Delete_Points\<close> only ever removes a stored point that coincides with one of the given
  points up to \<open>EPSS\<close>, and at most one for each of them.
\<close>

theorem delete_points_sound:
  assumes "nth_element_ok ne" "kd_ok k"
  shows "kd_ok (Delete_Points ne k qs) \<and> points_of (Delete_Points ne k qs) \<subseteq># points_of k
    \<and> size (points_of k) \<le> size (points_of (Delete_Points ne k qs)) + length qs
    \<and> (\<forall>x \<in># points_of k - points_of (Delete_Points ne k qs). \<exists>q \<in> set qs. same_point x q)"
  by (rule Delete_Points_spec [OF assms])

lemma delete_points_sound_witness:
  "points_of (Delete_Points sort_nth demo [pt 0 2 0]) \<subseteq># mset demo_points
   \<and> points_of (Delete_Points sort_nth demo [pt 0 2 0]) = {#pt 0 0 0, pt 1 0 0, pt 3 3 3#}"
proof
  show "points_of (Delete_Points sort_nth demo [pt 0 2 0]) \<subseteq># mset demo_points"
    using delete_points_sound [OF sort_nth_ok demo_ok(1), of "[pt 0 2 0]"] demo_ok(2) by simp
  show "points_of (Delete_Points sort_nth demo [pt 0 2 0]) = {#pt 0 0 0, pt 1 0 0, pt 3 3 3#}" by code_simp
qed

text \<open>
  When no rebuild of the root is under way, \<open>size\<close> counts the nodes, \<open>validnum\<close> counts
  the stored points, and every stored point lies in \<open>tree_range\<close>.
\<close>

theorem queries_correct:
  assumes "kd_ok k" "\<not> root_rebuilding k" "Root_Node k \<noteq> Null"
  shows "kd_size k = Some (int (tree_count (Root_Node k))) \<and> validnum k = Some (int (size (points_of k)))
    \<and> (\<exists>r. kd_tree_range k = Some r \<and> (\<forall>p \<in># points_of k. in_range r p))"
proof -
  obtain l a r where t: "Root_Node k = Node l a r" using assms(3) by (cases "Root_Node k") auto
  have "\<forall>p \<in># points_of k. in_range (node_range a) p"
    using live_in_range assms(1) unfolding t by blast
  then show ?thesis using validnum_spec [OF assms(1,2)] assms(2) by (simp add: kd_tree_range_def t)
qed

lemma queries_correct_witness:
  "validnum demo = Some 4 \<and> kd_size demo = Some 4"
proof -
  have idle: "\<not> root_rebuilding demo" by (simp add: root_rebuilding_def at_rebuild_def init_state_def)
  show ?thesis using queries_correct [OF demo_ok(1) idle demo_root] demo_ok(2,3) by (simp add: demo_points_def)
qed

section \<open>Limits of the code\<close>

definition tie_demo :: KD_TREE where
  "tie_demo = Build sort_nth (new_KD_TREE (1 / 2) (7 / 10) (1 / 2)) [pt 1 0 0, pt 1 1 0, pt 2 0 0]"

text \<open>
  \<open>Delete_Points\<close> can miss a point that is stored: \<open>nth_element\<close> may leave a point whose
  coordinate equals the pivot's in the left subtree, while the descent goes right on equality.
\<close>

theorem delete_misses_tie:
  "pt 1 0 0 \<in># points_of tie_demo \<and> pt 1 0 0 \<in># points_of (Delete_Points sort_nth tie_demo [pt 1 0 0])"
  by code_simp

definition revive_demo :: "KD_TREE \<times> point3 list" where
  "revive_demo =
     (let k0 = Build sort_nth (new_KD_TREE (1 / 2) (7 / 10) (1 / 2)) [pt 0 0 0, pt 5 0 0, pt 6 0 0];
          k1 = fst (Delete_Point_Boxes sort_nth k0 [voxel_box 1 (pt 0 0 0)]);
          k2 = Add_Point_Boxes sort_nth k1 [voxel_box 4 (pt 5 0 0)]
      in (k1, snd (Box_Search k2 (voxel_box 8 (pt 0 0 0)))))"

text \<open>
  \<open>Add_Point_Boxes\<close> can bring back a point outside its box: a deleted subtree is left out
  of its father's range, so the box covers that range, and the father's flags, pushed down
  later, undelete the subtree.
\<close>

theorem add_boxes_revives_outside:
  "pt 0 0 0 \<notin># points_of (fst revive_demo) \<and> \<not> in_box (voxel_box 4 (pt 5 0 0)) (pt 0 0 0)
   \<and> pt 0 0 0 \<in> set (snd revive_demo)"
  by code_simp

text \<open>
  The order on heap elements is not transitive in its equivalence: three candidates whose
  distances are closer than \<open>1e-10\<close> step by step form a cycle, so the order the
  nearest-neighbour search relies on is only a weak order for separated distances.
\<close>

theorem cmp_less_cycle:
  "let a = \<lparr>cmp_point = pt 2 0 0, cmp_dist = Fin 0\<rparr>;
       b = \<lparr>cmp_point = pt 1 0 0, cmp_dist = Fin (7 / 10 ^ 11)\<rparr>;
       c = \<lparr>cmp_point = pt 0 0 0, cmp_dist = Fin (14 / 10 ^ 11)\<rparr>
   in cmp_less a c \<and> cmp_less c b \<and> cmp_less b a"
  by (simp add: Let_def cmp_less_def pt_def)

text \<open>
  An insertion into a tree without a root is an access through a null pointer: after
  \<open>Build\<close> of an empty cloud no point can be added, with or without down-sampling.
\<close>

theorem add_to_empty_fails:
  "Add_Points ne (Build ne (new_KD_TREE d b ds) []) (p # ps) down = None"
  by (auto simp: Add_Points_def Build_def new_KD_TREE_def kd_size_def root_rebuilding_def at_rebuild_def
      init_state_def add_plain_def add_root_def add_downsampled_def Let_def)

end
