(* ===== verification/Queues.thy ===== *)
theory Queues
  imports KD_Types "HOL-Library.Word"
begin

unbundle bit_operations_syntax

text \<open>
  The queues between the threads of the system: the ring of logged operations of the ikd-Tree
  (\<open>MANUAL_Q\<close>), the driver's ring of point packets with its free-running 32-bit indices
  (ldq.cpp, ldq.h) and its list of IMU samples (lidar_imu_data_queue.cpp).  What their users
  rely on is one interface, the locale \<open>fifo_queue\<close>; each queue interprets it.
\<close>

section \<open>The interface\<close>

text \<open>The loop that empties a queue, as the rebuild thread and the publishers run it.\<close>

fun drain_queue :: "('s \<Rightarrow> ('a \<times> 's) option) \<Rightarrow> nat \<Rightarrow> 's \<Rightarrow> 'a list \<times> 's" where
  "drain_queue pop 0 q = ([], q)"
| "drain_queue pop (Suc n) q =
     (case pop q of
        None \<Rightarrow> ([], q)
      | Some (x, q1) \<Rightarrow> (let (xs, q2) = drain_queue pop n q1 in (x # xs, q2)))"

locale fifo_queue =
  fixes inv :: "'s \<Rightarrow> bool"
    and contents :: "'s \<Rightarrow> 'a list"
    and room :: "'s \<Rightarrow> 'a \<Rightarrow> bool"
    and push :: "'s \<Rightarrow> 'a \<Rightarrow> 's"
    and pop :: "'s \<Rightarrow> ('a \<times> 's) option"
  assumes push_inv: "inv q \<Longrightarrow> room q x \<Longrightarrow> inv (push q x)"
    and push_contents: "inv q \<Longrightarrow> room q x \<Longrightarrow> contents (push q x) = contents q @ [x]"
    and pop_none: "inv q \<Longrightarrow> pop q = None \<longleftrightarrow> contents q = []"
    and pop_some: "inv q \<Longrightarrow> pop q = Some (x, q') \<Longrightarrow> inv q' \<and> contents q = x # contents q'"
begin

lemma pop_cons:
  assumes "inv q" "contents q = x # xs"
  shows "\<exists>q'. pop q = Some (x, q') \<and> inv q' \<and> contents q' = xs"
proof (cases "pop q")
  case None
  then show ?thesis using pop_none [OF assms(1)] assms(2) by simp
next
  case (Some r)
  obtain y q' where "r = (y, q')" by (cases r)
  then show ?thesis using pop_some [OF assms(1)] Some assms(2) by auto
qed

text \<open>Draining with enough rounds yields the elements in the order they were pushed.\<close>

lemma drain_contents:
  "inv q \<Longrightarrow> length (contents q) \<le> n \<Longrightarrow>
   \<exists>q'. drain_queue pop n q = (contents q, q') \<and> inv q' \<and> contents q' = []"
proof (induction n arbitrary: q)
  case (Suc n)
  show ?case
  proof (cases "contents q")
    case Nil
    then show ?thesis using pop_none [OF Suc.prems(1)] Suc.prems(1) by simp
  next
    case (Cons x xs)
    then obtain q1 where q1: "pop q = Some (x, q1)" "inv q1" "contents q1 = xs"
      using pop_cons [OF Suc.prems(1)] by blast
    then show ?thesis using Suc.IH [OF q1(2)] Suc.prems(2) Cons by auto
  qed
qed simp

lemma push_then_drain:
  assumes "inv q" "room q x" "contents q = xs" "length xs < n"
  shows "fst (drain_queue pop n (push q x)) = xs @ [x]"
proof -
  have "length (contents (push q x)) \<le> n" using push_contents [OF assms(1,2)] assms(3,4) by simp
  then obtain q' where "drain_queue pop n (push q x) = (contents (push q x), q')"
    using drain_contents [OF push_inv [OF assms(1,2)]] by blast
  then show ?thesis using push_contents [OF assms(1,2)] assms(3) by simp
qed

end

section \<open>The operation log of the ikd-Tree\<close>

definition Q_LEN :: nat where "Q_LEN = 1000000"

record MANUAL_Q =
  mq_head :: nat
  mq_tail :: nat
  mq_counter :: nat
  mq_q :: "nat \<Rightarrow> operation_log"
  mq_is_empty :: bool

definition mq_clear :: "MANUAL_Q \<Rightarrow> MANUAL_Q" where
  "mq_clear q = q\<lparr>mq_head := 0, mq_tail := 0, mq_counter := 0, mq_is_empty := True\<rparr>"

definition mq_pop :: "MANUAL_Q \<Rightarrow> MANUAL_Q" where
  "mq_pop q =
     (if mq_counter q = 0 then q
      else let q1 = q\<lparr>mq_head := (mq_head q + 1) mod Q_LEN, mq_counter := mq_counter q - 1\<rparr>
           in if mq_counter q1 = 0 then q1\<lparr>mq_is_empty := True\<rparr> else q1)"

definition mq_front :: "MANUAL_Q \<Rightarrow> operation_log" where
  "mq_front q = mq_q q (mq_head q)"

definition mq_back :: "MANUAL_Q \<Rightarrow> operation_log" where
  "mq_back q = mq_q q (mq_tail q)"

definition mq_push :: "MANUAL_Q \<Rightarrow> operation_log \<Rightarrow> MANUAL_Q" where
  "mq_push q op =
     q\<lparr>mq_q := (mq_q q)(mq_tail q := op), mq_counter := mq_counter q + 1, mq_is_empty := False,
       mq_tail := (mq_tail q + 1) mod Q_LEN\<rparr>"

definition mq_empty :: "MANUAL_Q \<Rightarrow> bool" where
  "mq_empty q = mq_is_empty q"

definition mq_size :: "MANUAL_Q \<Rightarrow> nat" where
  "mq_size q = mq_counter q"

text \<open>The guarded access of the replay loop: \<open>front\<close> and \<open>pop\<close> when not \<open>empty\<close>.\<close>

definition mq_take :: "MANUAL_Q \<Rightarrow> (operation_log \<times> MANUAL_Q) option" where
  "mq_take q = (if mq_empty q then None else Some (mq_front q, mq_pop q))"

definition mq_inv :: "MANUAL_Q \<Rightarrow> bool" where
  "mq_inv q \<longleftrightarrow> mq_head q < Q_LEN \<and> mq_counter q \<le> Q_LEN \<and> mq_tail q = (mq_head q + mq_counter q) mod Q_LEN
     \<and> (mq_is_empty q \<longleftrightarrow> mq_counter q = 0)"

definition mq_list :: "MANUAL_Q \<Rightarrow> operation_log list" where
  "mq_list q = map (\<lambda>i. mq_q q ((mq_head q + i) mod Q_LEN)) [0..<mq_counter q]"

definition mq_room :: "MANUAL_Q \<Rightarrow> operation_log \<Rightarrow> bool" where
  "mq_room q op \<longleftrightarrow> mq_counter q < Q_LEN"

lemma Q_LEN_pos: "0 < Q_LEN"
  by (simp add: Q_LEN_def)

lemma mod_add_inj_le:
  assumes "(h + i) mod n = (h + j) mod n" "i \<le> j" "j < (n :: nat)"
  shows "i = j"
proof -
  have "n dvd (h + j) - (h + i)" using assms(1,2) mod_eq_dvd_iff_nat [of "h + i" "h + j" n] by auto
  then have "n dvd j - i" by simp
  then show ?thesis using assms(2,3) by (metis diff_is_0_eq diff_less_mono2 dvd_imp_le leD le_antisym less_imp_diff_less not_gr0)
qed

lemma mod_add_inj: "(h + i) mod n = (h + j) mod n \<Longrightarrow> i < n \<Longrightarrow> j < (n :: nat) \<Longrightarrow> i = j"
  by (metis mod_add_inj_le nle_le)

lemma mq_push_list:
  assumes "mq_inv q" "mq_room q op"
  shows "mq_list (mq_push q op) = mq_list q @ [op]"
proof -
  have "(mq_head q + i) mod Q_LEN \<noteq> mq_tail q" if "i < mq_counter q" for i
    using assms that mod_add_inj [of "mq_head q" i Q_LEN "mq_counter q"]
    by (auto simp: mq_inv_def mq_room_def)
  then show ?thesis using assms
    by (auto simp: mq_list_def mq_push_def mq_inv_def)
qed

lemma mq_take_list:
  assumes "mq_inv q" "mq_take q = Some (x, q')"
  shows "mq_inv q' \<and> mq_list q = x # mq_list q'"
proof -
  have c: "mq_counter q > 0" and q': "x = mq_q q (mq_head q)" "q' = mq_pop q"
    using assms by (auto simp: mq_take_def mq_empty_def mq_inv_def mq_front_def split: if_splits)
  have "mq_list q = map (\<lambda>i. mq_q q ((mq_head q + i) mod Q_LEN)) (0 # [1..<mq_counter q])"
    using c unfolding mq_list_def by (metis One_nat_def upt_conv_Cons)
  moreover have "mq_list q' = map (\<lambda>i. mq_q q ((mq_head q + i) mod Q_LEN)) [1..<mq_counter q]"
  proof -
    have "[1..<mq_counter q] = map Suc [0..<mq_counter q - 1]" using c by (simp add: map_Suc_upt)
    then show ?thesis using c by (simp add: q'(2) mq_list_def mq_pop_def Let_def comp_def mod_add_left_eq)
  qed
  ultimately have "mq_list q = x # mq_list q'" using assms(1) q'(1) by (simp add: mq_inv_def)
  moreover have "mq_inv q'"
  proof -
    obtain m where m: "mq_counter q = Suc m" using c by (cases "mq_counter q") auto
    have "((mq_head q + 1) mod Q_LEN + m) mod Q_LEN = (mq_head q + Suc m) mod Q_LEN"
      by (simp add: mod_add_left_eq)
    then show ?thesis using assms(1) Q_LEN_pos
      by (auto simp: q'(2) mq_inv_def mq_pop_def Let_def m)
  qed
  ultimately show ?thesis by blast
qed

interpretation op_log: fifo_queue mq_inv mq_list mq_room mq_push mq_take
proof
  show "mq_inv (mq_push q op)" if "mq_inv q" "mq_room q op" for q op
    using that by (auto simp: mq_inv_def mq_push_def mq_room_def mod_Suc_eq)
  show "mq_list (mq_push q op) = mq_list q @ [op]" if "mq_inv q" "mq_room q op" for q op
    by (rule mq_push_list [OF that])
  show "(mq_take q = None) = (mq_list q = [])" if "mq_inv q" for q
    using that by (auto simp: mq_take_def mq_empty_def mq_list_def mq_inv_def)
  show "mq_inv q' \<and> mq_list q = x # mq_list q'" if "mq_inv q" "mq_take q = Some (x, q')" for q x q'
    by (rule mq_take_list [OF that])
qed

section \<open>The driver's packet queue\<close>

record PointXyzlt =
  pt_x :: real
  pt_y :: real
  pt_z :: real
  intensity :: real
  tag :: "8 word"
  line :: "8 word"
  offset_time :: "64 word"

record StoragePacket =
  sp_lidar_type :: nat
  sp_handle :: "32 word"
  base_time :: "64 word"
  points_num :: "32 word"
  points :: "PointXyzlt list"

record PointPacket =
  pp_handle :: "32 word"
  pp_lidar_type :: "8 word"
  pp_points_num :: "32 word"
  pp_points :: "PointXyzlt list"

text \<open>The storage pointer: null, an array, or an array that has been deleted but not forgotten.\<close>

datatype packet_store = NullPtr | Live "StoragePacket list" | Freed

record LidarDataQueue =
  storage_packet :: packet_store
  rd_idx :: "32 word"
  wr_idx :: "32 word"
  q_mask :: "32 word"
  q_size :: "32 word"

definition IsPowerOf2 :: "32 word \<Rightarrow> bool" where
  "IsPowerOf2 sz \<longleftrightarrow> sz \<noteq> 0 \<and> sz AND (sz - 1) = 0"

text \<open>The loop \<open>for (i = 0; i < 32; i++)\<close> with its \<open>break\<close>; the last value is returned.\<close>

fun roundup_loop :: "32 word \<Rightarrow> nat list \<Rightarrow> 32 word \<Rightarrow> 32 word" where
  "roundup_loop sz [] power2_val = power2_val"
| "roundup_loop sz (i # js) power2_val =
     (let v = push_bit i 1 in if sz \<le> v then v else roundup_loop sz js v)"

definition RoundupPowerOf2 :: "32 word \<Rightarrow> 32 word" where
  "RoundupPowerOf2 sz = roundup_loop sz [0..<32] 0"

definition empty_packet :: StoragePacket where
  "empty_packet = \<lparr>sp_lidar_type = 0, sp_handle = 0, base_time = 0, points_num = 0, points = []\<rparr>"

text \<open>\<open>None\<close> is a second \<open>delete[]\<close> of the same array.\<close>

definition InitQueue :: "LidarDataQueue \<Rightarrow> 32 word \<Rightarrow> LidarDataQueue option" where
  "InitQueue queue queue_size =
     (let sz = (if \<not> IsPowerOf2 queue_size then RoundupPowerOf2 queue_size else queue_size)
      in if storage_packet queue = Freed then None
         else Some (queue\<lparr>storage_packet := Live (replicate (unat sz) empty_packet), rd_idx := 0, wr_idx := 0,
               q_size := sz, q_mask := sz - 1\<rparr>))"

definition DeInitQueue :: "LidarDataQueue \<Rightarrow> LidarDataQueue option" where
  "DeInitQueue queue =
     (let st = (case storage_packet queue of NullPtr \<Rightarrow> Some NullPtr | Live ps \<Rightarrow> Some Freed | Freed \<Rightarrow> None)
      in map_option (\<lambda>s. queue\<lparr>storage_packet := s, rd_idx := 0, wr_idx := 0, q_size := 0, q_mask := 0\<rparr>) st)"

text \<open>The array, for a queue that has one.\<close>

definition cells :: "LidarDataQueue \<Rightarrow> StoragePacket list" where
  "cells queue = (case storage_packet queue of Live ps \<Rightarrow> ps | _ \<Rightarrow> [])"

lemma cells_update [simp]:
  "cells (q\<lparr>rd_idx := x\<rparr>) = cells q" "cells (q\<lparr>wr_idx := x\<rparr>) = cells q"
  "cells (q\<lparr>storage_packet := Live ps\<rparr>) = ps"
  by (simp_all add: cells_def)

definition ResetQueue :: "LidarDataQueue \<Rightarrow> LidarDataQueue" where
  "ResetQueue queue = queue\<lparr>rd_idx := 0, wr_idx := 0\<rparr>"

definition QueueIsEmpty :: "LidarDataQueue \<Rightarrow> bool" where
  "QueueIsEmpty queue \<longleftrightarrow> rd_idx queue = wr_idx queue"

definition QueueUsedSize :: "LidarDataQueue \<Rightarrow> 32 word" where
  "QueueUsedSize queue = wr_idx queue - rd_idx queue"

definition QueueUnusedSize :: "LidarDataQueue \<Rightarrow> 32 word" where
  "QueueUnusedSize queue = q_size queue - QueueUsedSize queue"

definition QueueIsFull :: "LidarDataQueue \<Rightarrow> bool" where
  "QueueIsFull queue \<longleftrightarrow> wr_idx queue - rd_idx queue > q_mask queue"

text \<open>What is copied out: not the lidar type nor the handle of the destination.\<close>

definition QueuePrePop :: "LidarDataQueue \<Rightarrow> StoragePacket \<Rightarrow> StoragePacket option" where
  "QueuePrePop queue dst =
     (if QueueIsEmpty queue then None
      else let p = cells queue ! unat (rd_idx queue AND q_mask queue)
           in Some (dst\<lparr>base_time := base_time p, points_num := points_num p,
                        points := take (unat (points_num p)) (points p)\<rparr>))"

definition QueuePopUpdate :: "LidarDataQueue \<Rightarrow> LidarDataQueue" where
  "QueuePopUpdate queue = queue\<lparr>rd_idx := rd_idx queue + 1\<rparr>"

definition QueuePop :: "LidarDataQueue \<Rightarrow> StoragePacket \<Rightarrow> (StoragePacket \<times> LidarDataQueue) option" where
  "QueuePop queue dst =
     (case QueuePrePop queue dst of None \<Rightarrow> None | Some p \<Rightarrow> Some (p, QueuePopUpdate queue))"

definition QueuePushAny :: "LidarDataQueue \<Rightarrow> PointPacket \<Rightarrow> 64 word \<Rightarrow> LidarDataQueue" where
  "QueuePushAny queue data bt =
     (let i = unat (wr_idx queue AND q_mask queue); p = cells queue ! i
      in queue\<lparr>storage_packet := Live ((cells queue)[i := p\<lparr>base_time := bt, points_num := pp_points_num data,
                   points := take (unat (pp_points_num data)) (pp_points data)\<rparr>]),
               wr_idx := wr_idx queue + 1\<rparr>)"

text \<open>
  What a queue holds, oldest first: the base time and points of the packets between the two
  free-running indices.
\<close>

definition ldq_cell :: "LidarDataQueue \<Rightarrow> 32 word \<Rightarrow> StoragePacket" where
  "ldq_cell queue w = cells queue ! unat (w AND q_mask queue)"

definition packet_data :: "StoragePacket \<Rightarrow> 64 word \<times> PointXyzlt list" where
  "packet_data p = (base_time p, points p)"

definition ldq_list :: "LidarDataQueue \<Rightarrow> (64 word \<times> PointXyzlt list) list" where
  "ldq_list queue = map (\<lambda>i. packet_data (ldq_cell queue (rd_idx queue + of_nat i))) [0..<unat (QueueUsedSize queue)]"

definition ldq_inv :: "LidarDataQueue \<Rightarrow> bool" where
  "ldq_inv queue \<longleftrightarrow> (\<exists>k < 32. q_size queue = 2 ^ k) \<and> q_mask queue = q_size queue - 1
     \<and> length (cells queue) = unat (q_size queue) \<and> QueueUsedSize queue \<le> q_size queue \<and> storage_packet queue = Live (cells queue)
     \<and> (\<forall>p \<in> set (cells queue). length (points p) \<le> unat (points_num p))"

text \<open>The packet that a caller hands over for a base time and a vector of points.\<close>

definition as_packet :: "64 word \<times> PointXyzlt list \<Rightarrow> PointPacket" where
  "as_packet x = \<lparr>pp_handle = 0, pp_lidar_type = 8, pp_points_num = of_nat (length (snd x)), pp_points = snd x\<rparr>"

definition ldq_push :: "LidarDataQueue \<Rightarrow> 64 word \<times> PointXyzlt list \<Rightarrow> LidarDataQueue" where
  "ldq_push queue x = QueuePushAny queue (as_packet x) (fst x)"

definition ldq_take :: "LidarDataQueue \<Rightarrow> ((64 word \<times> PointXyzlt list) \<times> LidarDataQueue) option" where
  "ldq_take queue = map_option (\<lambda>(p, q). (packet_data p, q)) (QueuePop queue empty_packet)"

definition ldq_room :: "LidarDataQueue \<Rightarrow> 64 word \<times> PointXyzlt list \<Rightarrow> bool" where
  "ldq_room queue x \<longleftrightarrow> \<not> QueueIsFull queue \<and> length (snd x) < 2 ^ 32"

lemma mask_index:
  fixes w :: "32 word"
  assumes "k < 32"
  shows "unat (w AND (2 ^ k - 1)) = unat w mod 2 ^ k"
proof -
  have "w AND (2 ^ k - 1) = take_bit k w" by (simp add: take_bit_eq_mask mask_eq_exp_minus_1)
  moreover have "unat (take_bit k w) = take_bit k (unat w)" by (rule unsigned_take_bit_eq)
  ultimately show ?thesis by (simp only: take_bit_eq_mod)
qed

lemma unat_pow2: "k < 32 \<Longrightarrow> unat (2 ^ k :: 32 word) = 2 ^ k"
proof -
  assume "k < 32"
  then have "(2 :: nat) ^ k < 2 ^ 32" by (intro power_strict_increasing) auto
  then have "unat (of_nat (2 ^ k) :: 32 word) = 2 ^ k" unfolding unat_of_nat by simp
  then show ?thesis by simp
qed

lemma index_add:
  fixes r :: "32 word"
  assumes "k < 32" "i < 2 ^ 32"
  shows "unat ((r + of_nat i) AND (2 ^ k - 1)) = (unat r + i) mod 2 ^ k"
proof -
  have "unat (r + of_nat i) = (unat r + i) mod 2 ^ 32"
    using assms(2) by (simp add: unat_word_ariths unat_of_nat mod_add_right_eq)
  moreover have "(2 :: nat) ^ k dvd 2 ^ 32" using assms(1) by (intro le_imp_power_dvd) simp
  ultimately show ?thesis by (simp add: mask_index [OF assms(1)] mod_mod_cancel)
qed

text \<open>Within one lap of the ring, different positions are different cells.\<close>

lemma ldq_cells_distinct:
  fixes r :: "32 word"
  assumes "k < 32" "i < 2 ^ k" "j < 2 ^ k" "(r + of_nat i) AND (2 ^ k - 1) = (r + of_nat j) AND (2 ^ k - 1)"
  shows "i = j"
proof -
  have "(2 :: nat) ^ k < 2 ^ 32" using assms(1) by (intro power_strict_increasing) auto
  then have "(unat r + i) mod 2 ^ k = (unat r + j) mod 2 ^ k"
    using index_add [OF assms(1), of i r] index_add [OF assms(1), of j r] assms by auto
  then show ?thesis using mod_add_inj assms(2,3) by blast
qed

lemma used_succ:
  fixes r w :: "32 word"
  assumes "unat (w - r) < 2 ^ k" "k < 32"
  shows "unat (w + 1 - r) = Suc (unat (w - r))"
proof -
  have small: "(2 :: nat) ^ k \<le> 2 ^ 31" using assms(2) by (intro power_increasing) auto
  have eq: "w + 1 - r = (w - r) + 1" by (simp add: algebra_simps)
  have "unat ((w - r) + 1) = (unat (w - r) + 1) mod 2 ^ 32" by (simp add: unat_word_ariths)
  then show ?thesis unfolding eq using assms(1) small by simp
qed

lemma unat_mask: "k < 32 \<Longrightarrow> unat (2 ^ k - 1 :: 32 word) = 2 ^ k - 1"
proof -
  assume k: "k < 32"
  have "(2 ^ k :: 32 word) \<noteq> 0" using unat_pow2 [OF k] by (metis unat_0 power_not_zero zero_neq_numeral)
  then show ?thesis using unat_pow2 [OF k] by (simp add: unat_minus_one)
qed

lemma ldq_push_spec:
  assumes inv: "ldq_inv q" and room: "\<not> QueueIsFull q"
  shows "ldq_inv (QueuePushAny q d bt)"
    and "ldq_list (QueuePushAny q d bt) = ldq_list q @ [(bt, take (unat (pp_points_num d)) (pp_points d))]"
proof -
  obtain k where k: "k < 32" "q_size q = 2 ^ k" and m: "q_mask q = 2 ^ k - 1"
    and len: "length (cells q) = 2 ^ k"
    using inv by (auto simp: ldq_inv_def unat_pow2)
  let ?n = "unat (wr_idx q - rd_idx q)"
  have "?n \<le> 2 ^ k - 1"
    using room unat_mask [OF k(1)] by (simp add: QueueIsFull_def m word_less_nat_alt not_less)
  then have n: "?n < 2 ^ k" by (metis Suc_pred' less_Suc_eq_le zero_less_numeral zero_less_power)
  note U = used_succ [OF n k(1)]
  have w: "wr_idx q = rd_idx q + of_nat ?n" by simp
  let ?i = "unat (wr_idx q AND q_mask q)"
  have i: "?i < 2 ^ k" using mask_index [OF k(1)] m by simp
  have other: "unat ((rd_idx q + of_nat j) AND q_mask q) \<noteq> ?i" if "j < ?n" for j
  proof
    assume "unat ((rd_idx q + of_nat j) AND q_mask q) = ?i"
    then have "(rd_idx q + of_nat j) AND q_mask q = (rd_idx q + of_nat ?n) AND q_mask q"
      using w by (metis word_unat_eq_iff)
    then show False using ldq_cells_distinct [OF k(1), of j ?n "rd_idx q"] n that m by simp
  qed
  show "ldq_list (QueuePushAny q d bt) = ldq_list q @ [(bt, take (unat (pp_points_num d)) (pp_points d))]"
    using U not_sym [OF other] i len
    by (simp add: ldq_list_def QueuePushAny_def QueueUsedSize_def Let_def ldq_cell_def packet_data_def cells_def cong: map_cong)
  have "unat (wr_idx q + 1 - rd_idx q) \<le> unat (2 ^ k :: 32 word)" using U n unat_pow2 [OF k(1)] by simp
  then show "ldq_inv (QueuePushAny q d bt)"
    using inv m k by (auto simp: ldq_inv_def QueuePushAny_def QueueUsedSize_def Let_def word_le_nat_alt
        dest!: set_update_subset_insert [THEN subsetD])
qed

lemma ldq_pop_spec:
  assumes inv: "ldq_inv q" and run: "QueuePop q dst = Some (p, q')"
  shows "ldq_inv q' \<and> ldq_list q = packet_data p # ldq_list q'"
proof -
  obtain k where k: "k < 32" "q_size q = 2 ^ k" and m: "q_mask q = 2 ^ k - 1"
    and len: "length (cells q) = 2 ^ k" and used: "unat (wr_idx q - rd_idx q) \<le> 2 ^ k"
    using inv by (auto simp: ldq_inv_def unat_pow2 QueueUsedSize_def word_le_nat_alt)
  have ne: "rd_idx q \<noteq> wr_idx q" and q': "q' = q\<lparr>rd_idx := rd_idx q + 1\<rparr>"
    and p: "packet_data p = (base_time (ldq_cell q (rd_idx q)),
      take (unat (points_num (ldq_cell q (rd_idx q)))) (points (ldq_cell q (rd_idx q))))"
    using run by (auto simp: QueuePop_def QueuePrePop_def QueueIsEmpty_def QueuePopUpdate_def packet_data_def ldq_cell_def Let_def
        split: if_splits)
  have "unat (rd_idx q AND q_mask q) < 2 ^ k" using mask_index [OF k(1)] m by simp
  then have "length (points (ldq_cell q (rd_idx q))) \<le> unat (points_num (ldq_cell q (rd_idx q)))"
    using inv len by (auto simp: ldq_inv_def ldq_cell_def)
  then have p': "packet_data p = packet_data (ldq_cell q (rd_idx q))" using p by (simp add: packet_data_def)
  have "wr_idx q - rd_idx q \<noteq> 0" using ne by simp
  then have n: "unat (wr_idx q - rd_idx q) = Suc (unat (wr_idx q - (rd_idx q + 1)))"
  proof -
    have "unat (wr_idx q - rd_idx q - 1) = unat (wr_idx q - rd_idx q) - 1"
      using \<open>wr_idx q - rd_idx q \<noteq> 0\<close> by (rule unat_minus_one)
    moreover have "unat (wr_idx q - rd_idx q) > 0" using \<open>wr_idx q - rd_idx q \<noteq> 0\<close> by (simp add: unat_gt_0)
    ultimately show ?thesis by (simp add: diff_diff_eq)
  qed
  have "ldq_list q = packet_data (ldq_cell q (rd_idx q)) # ldq_list q'"
    by (simp add: ldq_list_def QueueUsedSize_def n q' upt_conv_Cons map_Suc_upt [symmetric] ldq_cell_def comp_def add.assoc del: upt_Suc)
  moreover have "ldq_inv q'"
    using inv n used k m by (auto simp: q' ldq_inv_def QueueUsedSize_def word_le_nat_alt)
  ultimately show ?thesis using p' by simp
qed

interpretation packet_queue: fifo_queue ldq_inv ldq_list ldq_room ldq_push ldq_take
proof
  fix q :: LidarDataQueue and x :: "64 word \<times> PointXyzlt list"
  assume q: "ldq_inv q" "ldq_room q x"
  then have full: "\<not> QueueIsFull q" and "length (snd x) < 2 ^ 32" by (auto simp: ldq_room_def)
  then have "unat (of_nat (length (snd x)) :: 32 word) = length (snd x)" unfolding unat_of_nat by simp
  then show "ldq_list (ldq_push q x) = ldq_list q @ [x]"
    using ldq_push_spec(2) [OF q(1) full, of "as_packet x" "fst x"] by (simp add: ldq_push_def as_packet_def)
  show "ldq_inv (ldq_push q x)" unfolding ldq_push_def by (rule ldq_push_spec(1) [OF q(1) full])
next
  fix q :: LidarDataQueue
  assume "ldq_inv q"
  have "(rd_idx q = wr_idx q) = (unat (wr_idx q - rd_idx q) = 0)" by (auto simp: unat_eq_zero)
  then show "(ldq_take q = None) = (ldq_list q = [])"
    by (auto simp: ldq_take_def QueuePop_def QueuePrePop_def QueueIsEmpty_def ldq_list_def QueueUsedSize_def Let_def)
next
  fix q q' :: LidarDataQueue and x :: "64 word \<times> PointXyzlt list"
  assume "ldq_inv q" "ldq_take q = Some (x, q')"
  then show "ldq_inv q' \<and> ldq_list q = x # ldq_list q'"
    using ldq_pop_spec by (auto simp: ldq_take_def)
qed

section \<open>Initialising the packet queue\<close>

lemma pow2_and: "k < 32 \<Longrightarrow> IsPowerOf2 (2 ^ k)"
proof -
  assume k: "k < 32"
  have "(2 ^ k :: 32 word) \<noteq> 0" using unat_pow2 [OF k] by (metis unat_0 power_not_zero zero_neq_numeral)
  moreover have "unat ((2 ^ k :: 32 word) AND (2 ^ k - 1)) = 0" using mask_index [OF k] unat_pow2 [OF k] by simp
  ultimately show ?thesis by (simp add: IsPowerOf2_def unat_eq_zero)
qed

lemma roundup_loop_spec:
  "js = [i..<32] \<Longrightarrow> i < 32 \<Longrightarrow> sz \<le> 2 ^ 31 \<Longrightarrow> (i > 0 \<Longrightarrow> 2 ^ (i - 1) < sz) \<Longrightarrow>
   \<exists>k < 32. roundup_loop sz js v = 2 ^ k \<and> sz \<le> 2 ^ k \<and> (k > 0 \<longrightarrow> 2 ^ (k - 1) < sz)"
proof (induction "32 - i" arbitrary: i js v)
  case (Suc n)
  then have js: "js = i # [Suc i..<32]" by (simp add: upt_conv_Cons)
  have v: "push_bit i (1 :: 32 word) = 2 ^ i" by (simp add: push_bit_of_1)
  have r: "roundup_loop sz js v = (if sz \<le> 2 ^ i then 2 ^ i else roundup_loop sz [Suc i..<32] (2 ^ i))"
    unfolding js by (simp add: v Let_def)
  show ?case
  proof (cases "sz \<le> 2 ^ i")
    case True
    then show ?thesis using Suc.prems(2,4) r by auto
  next
    case False
    then have "i \<noteq> 31" using Suc.prems(3) by auto
    then have "Suc i < 32" using Suc.prems(2) by simp
    then show ?thesis using Suc.hyps(1) [of "Suc i" "[Suc i..<32]" "2 ^ i"] Suc.hyps(2) False r Suc.prems(3)
      by (auto simp: not_le)
  qed
qed simp

lemma RoundupPowerOf2_spec:
  assumes "sz \<le> 2 ^ 31"
  shows "\<exists>k < 32. RoundupPowerOf2 sz = 2 ^ k \<and> sz \<le> 2 ^ k \<and> (k > 0 \<longrightarrow> 2 ^ (k - 1) < sz)"
  unfolding RoundupPowerOf2_def by (rule roundup_loop_spec [OF refl _ assms]) auto

lemma top_bit:
  fixes w :: "32 word"
  assumes "2 ^ m \<le> unat w" "unat w < 2 ^ Suc m"
  shows "Bit_Operations.bit w m"
proof -
  have "unat w div 2 ^ m = 1" using assms by (intro div_nat_eqI) auto
  then have "Bit_Operations.bit (unat w) m" by (simp add: bit_iff_odd)
  then show ?thesis by (simp add: bit_unsigned_iff)
qed

lemma IsPowerOf2_pow:
  assumes "IsPowerOf2 sz"
  shows "\<exists>k < 32. sz = 2 ^ k"
proof (cases "sz \<le> 2 ^ 31")
  case True
  obtain k where k: "k < 32" "sz \<le> 2 ^ k" "k > 0 \<longrightarrow> 2 ^ (k - 1) < sz"
    using RoundupPowerOf2_spec [OF True] by blast
  show ?thesis
  proof (rule ccontr)
    assume no: "\<not> ?thesis"
    then have lt: "unat sz < 2 ^ k" using k(1,2) unat_pow2 [OF k(1)] by (metis order.not_eq_order_implies_strict word_less_nat_alt)
    have pos: "unat sz > 0" using assms by (simp add: IsPowerOf2_def unat_gt_0)
    then obtain m where m: "k = Suc m" using lt by (cases k) auto
    have gt: "2 ^ m < unat sz" using k m unat_pow2 [of m] by (simp add: word_less_nat_alt)
    have s1: "unat (sz - 1) = unat sz - 1" using pos by (intro unat_minus_one) (simp add: unat_gt_0)
    have "Bit_Operations.bit sz m" "Bit_Operations.bit (sz - 1) m"
      using lt gt s1 m by (auto intro!: top_bit)
    then have "Bit_Operations.bit (sz AND (sz - 1)) m" by (simp add: bit_and_iff)
    then show False using assms by (simp add: IsPowerOf2_def)
  qed
next
  case False
  then have gt: "2 ^ 31 < unat sz" using unat_pow2 [of 31] by (simp add: not_le word_less_nat_alt)
  have lt: "unat sz < 2 ^ Suc 31" by (rule order_less_le_trans [OF unsigned_less]) simp
  have s1: "unat (sz - 1) = unat sz - 1" using gt by (intro unat_minus_one) auto
  have "Bit_Operations.bit sz 31" "Bit_Operations.bit (sz - 1) 31"
    using lt gt s1 by (auto intro!: top_bit)
  then have "Bit_Operations.bit (sz AND (sz - 1)) 31" by (simp add: bit_and_iff)
  then show ?thesis using assms by (simp add: IsPowerOf2_def)
qed

lemma InitQueue_inv:
  assumes "sz \<le> 2 ^ 31" "storage_packet q \<noteq> Freed"
  shows "\<exists>q'. InitQueue q sz = Some q' \<and> ldq_inv q' \<and> ldq_list q' = [] \<and> sz \<le> q_size q'"
proof -
  obtain k where k: "k < 32" "(if \<not> IsPowerOf2 sz then RoundupPowerOf2 sz else sz) = 2 ^ k" "sz \<le> 2 ^ k"
  proof (cases "IsPowerOf2 sz")
    case False
    then show ?thesis using RoundupPowerOf2_spec [OF assms(1)] that by auto
  next
    case True
    then obtain k where "k < 32" "sz = 2 ^ k" using IsPowerOf2_pow by blast
    then show ?thesis using that True by auto
  qed
  show ?thesis
    unfolding InitQueue_def k(2) using k(1,3) unat_pow2 [OF k(1)] assms(2)
    by (auto simp: Let_def ldq_inv_def ldq_list_def QueueUsedSize_def empty_packet_def cells_def)
qed

section \<open>The IMU queue\<close>

text \<open>
  \<open>slot\<close> is never set nor read and is left out.  The readings are floats that the driver
  only copies, so they are kept as their bit patterns.
\<close>

type_synonym float_bits = "32 word"

record ImuData =
  imu_lidar_type :: "8 word"
  imu_handle :: "32 word"
  imu_time_stamp :: "64 word"
  gyro_x :: float_bits
  gyro_y :: float_bits
  gyro_z :: float_bits
  acc_x :: float_bits
  acc_y :: float_bits
  acc_z :: float_bits

definition imu_push :: "ImuData list \<Rightarrow> ImuData \<Rightarrow> ImuData list" where
  "imu_push q imu_data =
     q @ [\<lparr>imu_lidar_type = imu_lidar_type imu_data, imu_handle = imu_handle imu_data,
           imu_time_stamp = imu_time_stamp imu_data, gyro_x = gyro_x imu_data, gyro_y = gyro_y imu_data,
           gyro_z = gyro_z imu_data, acc_x = acc_x imu_data, acc_y = acc_y imu_data, acc_z = acc_z imu_data\<rparr>]"

definition imu_pop :: "ImuData list \<Rightarrow> (ImuData \<times> ImuData list) option" where
  "imu_pop q = (case q of [] \<Rightarrow> None | d # ds \<Rightarrow> Some (d, ds))"

definition imu_empty :: "ImuData list \<Rightarrow> bool" where
  "imu_empty q \<longleftrightarrow> q = []"

definition imu_clear :: "ImuData list \<Rightarrow> ImuData list" where
  "imu_clear q = []"

interpretation imu_queue: fifo_queue "\<lambda>q. True" "\<lambda>q. q" "\<lambda>q x. True" imu_push imu_pop
  by unfold_locales (auto simp: imu_push_def imu_pop_def split: list.splits)

end
