(* ===== verification/Cache_Index.thy ===== *)
theory Cache_Index
  imports LIO_Prelude "HOL-Library.Word"
begin

text \<open>
  \<open>CacheIndex\<close> (cache_index.cpp): the driver's table of lidar slots.  A device is known by a
  string key made from its handle; a slot is claimed for it once and looked up for every
  packet.
\<close>

section \<open>The key of a device\<close>

definition kLivoxLidarType :: nat where "kLivoxLidarType = 8"
definition kMaxSourceLidar :: nat where "kMaxSourceLidar = 32"

fun of_digits :: "string \<Rightarrow> nat" where
  "of_digits cs = foldl (\<lambda>n c. 10 * n + (of_char c - 48)) 0 cs"

lemma of_digits_snoc: "of_digits (cs @ [c]) = 10 * of_digits cs + (of_char c - 48)"
  by simp

lemma of_char_digit: "d < 10 \<Longrightarrow> of_char (char_of (48 + d) :: char) = (48 + d :: nat)"
  by (simp add: of_char_of)

lemma of_digits_to_string: "of_digits (to_string n) = n"
proof (induction n rule: to_string.induct)
  case (1 n)
  show ?case
  proof (cases "n < 10")
    case True
    then show ?thesis by (subst to_string.simps) (simp add: of_char_digit)
  next
    case False
    then have "of_digits (to_string n) = 10 * of_digits (to_string (n div 10)) + (48 + n mod 10 - 48)"
      by (subst to_string.simps) (simp add: of_digits_snoc of_char_digit del: of_digits.simps)
    then show ?thesis using 1 False by simp
  qed
qed

lemma to_string_inj: "to_string m = to_string n \<Longrightarrow> m = n"
  by (metis of_digits_to_string)

definition GenerateIndexKey :: "nat \<Rightarrow> 32 word \<Rightarrow> string option" where
  "GenerateIndexKey livox_lidar_type handle =
     (if livox_lidar_type = kLivoxLidarType then Some (''livox_lidar_'' @ to_string (unat handle)) else None)"

lemma GenerateIndexKey_inj:
  "GenerateIndexKey t h = Some key \<Longrightarrow> GenerateIndexKey t' h' = Some key \<Longrightarrow> h = h'"
  by (auto simp: GenerateIndexKey_def word_unat_eq_iff split: if_splits dest!: to_string_inj)

section \<open>The table\<close>

record CacheIndex =
  map_index :: "string \<Rightarrow> nat option"
  index_cache :: "bool list"

definition new_CacheIndex :: CacheIndex where
  "new_CacheIndex = \<lparr>map_index = Map.empty, index_cache = replicate kMaxSourceLidar False\<rparr>"

fun first_free :: "bool list \<Rightarrow> nat \<Rightarrow> nat option" where
  "first_free [] i = None"
| "first_free (b # bs) i = (if \<not> b then Some i else first_free bs (Suc i))"

text \<open>The two critical sections of \<open>GetFreeIndex\<close>, each under the mutex.\<close>

definition gfi_lookup :: "CacheIndex \<Rightarrow> string \<Rightarrow> nat option" where
  "gfi_lookup c key = map_index c key"

definition gfi_claim :: "CacheIndex \<Rightarrow> string \<Rightarrow> nat option \<times> CacheIndex" where
  "gfi_claim c key =
     (case first_free (index_cache c) 0 of
        None \<Rightarrow> (None, c)
      | Some i \<Rightarrow> (Some i, c\<lparr>index_cache := (index_cache c)[i := True], map_index := (map_index c)(key \<mapsto> i)\<rparr>))"

text \<open>\<open>None\<close> is the return value \<open>-1\<close>, \<open>Some i\<close> is \<open>0\<close> with \<open>index = i\<close>.\<close>

definition GetFreeIndex :: "CacheIndex \<Rightarrow> nat \<Rightarrow> 32 word \<Rightarrow> nat option \<times> CacheIndex" where
  "GetFreeIndex c livox_lidar_type handle =
     (case GenerateIndexKey livox_lidar_type handle of
        None \<Rightarrow> (None, c)
      | Some key \<Rightarrow> (case gfi_lookup c key of Some i \<Rightarrow> (Some i, c) | None \<Rightarrow> gfi_claim c key))"

definition GetIndex :: "CacheIndex \<Rightarrow> nat \<Rightarrow> 32 word \<Rightarrow> nat option" where
  "GetIndex c livox_lidar_type handle =
     (case GenerateIndexKey livox_lidar_type handle of None \<Rightarrow> None | Some key \<Rightarrow> map_index c key)"

definition LvxGetIndex :: "CacheIndex \<Rightarrow> nat \<Rightarrow> 32 word \<Rightarrow> nat option \<times> CacheIndex" where
  "LvxGetIndex c livox_lidar_type handle =
     (case GenerateIndexKey livox_lidar_type handle of
        None \<Rightarrow> (None, c)
      | Some key \<Rightarrow>
          (case map_index c key of Some i \<Rightarrow> (Some i, c) | None \<Rightarrow> GetFreeIndex c livox_lidar_type handle))"

definition ResetIndex :: "CacheIndex \<Rightarrow> nat \<Rightarrow> 32 word \<Rightarrow> CacheIndex" where
  "ResetIndex c lidar_type handle =
     (case GenerateIndexKey lidar_type handle of
        None \<Rightarrow> c
      | Some key \<Rightarrow>
          (case map_index c key of
             None \<Rightarrow> c
           | Some i \<Rightarrow> c\<lparr>map_index := (map_index c)(key := None), index_cache := (index_cache c)[i := False]\<rparr>))"

section \<open>The invariant\<close>

text \<open>A slot is taken exactly when one device maps to it, and no two devices share one.\<close>

definition ci_inv :: "CacheIndex \<Rightarrow> bool" where
  "ci_inv c \<longleftrightarrow> length (index_cache c) = kMaxSourceLidar
     \<and> (\<forall>k i. map_index c k = Some i \<longrightarrow> i < kMaxSourceLidar)
     \<and> inj_on (map_index c) (dom (map_index c))
     \<and> (\<forall>i < kMaxSourceLidar. index_cache c ! i \<longleftrightarrow> (\<exists>k. map_index c k = Some i))"

lemma ci_inv_new [simp]: "ci_inv new_CacheIndex"
  by (simp add: ci_inv_def new_CacheIndex_def)

lemma first_free_some:
  "first_free bs i = Some j \<Longrightarrow> i \<le> j \<and> j < i + length bs \<and> \<not> bs ! (j - i)"
  by (induction bs i rule: first_free.induct) (auto split: if_splits simp: nth_Cons' Suc_diff_le)

lemma first_free_none: "first_free bs i = None \<Longrightarrow> \<forall>b \<in> set bs. b"
  by (induction bs i rule: first_free.induct) (auto split: if_splits)

lemma gfi_claim_inv:
  assumes inv: "ci_inv c" and new: "map_index c key = None" and run: "gfi_claim c key = (r, c')"
  shows "ci_inv c' \<and> (\<forall>i. r = Some i \<longrightarrow> map_index c' key = Some i \<and> \<not> index_cache c ! i
       \<and> (\<forall>k. k \<noteq> key \<longrightarrow> map_index c' k = map_index c k))
     \<and> (r = None \<longrightarrow> c' = c \<and> (\<forall>i < kMaxSourceLidar. index_cache c ! i))"
proof (cases "first_free (index_cache c) 0")
  case None
  then have "r = None" "c' = c" using run by (simp_all add: gfi_claim_def)
  moreover have "index_cache c ! i" if "i < kMaxSourceLidar" for i
  proof -
    have "i < length (index_cache c)" using that inv unfolding ci_inv_def by simp
    then show ?thesis using first_free_none [OF None] nth_mem by blast
  qed
  ultimately show ?thesis using inv by blast
next
  case (Some i)
  then have i: "i < kMaxSourceLidar" "\<not> index_cache c ! i"
    using first_free_some [OF Some] inv by (auto simp: ci_inv_def)
  have fresh: "map_index c k \<noteq> Some i" for k using i inv by (auto simp: ci_inv_def)
  have c': "r = Some i" "c' = c\<lparr>index_cache := (index_cache c)[i := True], map_index := (map_index c)(key \<mapsto> i)\<rparr>"
    using run Some by (auto simp: gfi_claim_def)
  have inj: "inj_on (map_index c) (dom (map_index c))" and len: "length (index_cache c) = kMaxSourceLidar"
    and used: "\<And>j. j < kMaxSourceLidar \<Longrightarrow> index_cache c ! j \<longleftrightarrow> (\<exists>k. map_index c k = Some j)"
    and lt: "\<And>k j. map_index c k = Some j \<Longrightarrow> j < kMaxSourceLidar"
    using inv unfolding ci_inv_def by blast+
  have "inj_on ((map_index c)(key \<mapsto> i)) (dom ((map_index c)(key \<mapsto> i)))"
    unfolding inj_on_def
  proof (intro ballI impI)
    fix x y assume "x \<in> dom ((map_index c)(key \<mapsto> i))" "y \<in> dom ((map_index c)(key \<mapsto> i))"
      "((map_index c)(key \<mapsto> i)) x = ((map_index c)(key \<mapsto> i)) y"
    then show "x = y" using inj fresh [of x] fresh [of y]
      by (cases "x = key"; cases "y = key") (auto simp: inj_on_def)
  qed
  moreover have "(index_cache c)[i := True] ! j \<longleftrightarrow> (\<exists>k. ((map_index c)(key \<mapsto> i)) k = Some j)"
    if j: "j < kMaxSourceLidar" for j
  proof (cases "j = i")
    case True
    then show ?thesis using i(1) len by (auto intro: exI [of _ key])
  next
    case False
    then show ?thesis using used [OF j] new by (auto simp: fun_upd_def) (metis option.distinct(1))
  qed
  ultimately have "ci_inv c'" using len lt i(1) by (auto simp: ci_inv_def c' split: if_splits)
  then show ?thesis using c' i by auto
qed

lemma GetFreeIndex_spec:
  assumes inv: "ci_inv c" and run: "GetFreeIndex c t h = (r, c')"
  shows "ci_inv c' \<and> GetIndex c' t h = r \<and> (\<forall>t' h'. GetIndex c t' h' \<noteq> None \<longrightarrow> GetIndex c' t' h' = GetIndex c t' h')"
proof (cases "GenerateIndexKey t h")
  case None
  then show ?thesis using run inv by (simp add: GetFreeIndex_def GetIndex_def)
next
  case (Some key)
  show ?thesis
  proof (cases "map_index c key")
    case None
    then have claim: "gfi_claim c key = (r, c')" using run Some by (simp add: GetFreeIndex_def gfi_lookup_def)
    note C = gfi_claim_inv [OF inv None claim]
    show ?thesis
    proof (cases r)
      case None
      then have "c' = c" using C by simp
      then show ?thesis using inv Some None \<open>map_index c key = None\<close> by (simp add: GetIndex_def)
    next
      case (Some i)
      then show ?thesis using C \<open>GenerateIndexKey t h = Some key\<close> \<open>map_index c key = None\<close>
        by (auto simp: GetIndex_def split: option.splits) (metis option.distinct(1))
    qed
  next
    case (Some i)
    then show ?thesis using run inv \<open>GenerateIndexKey t h = Some key\<close>
      by (simp add: GetFreeIndex_def gfi_lookup_def GetIndex_def)
  qed
qed

lemma GetIndex_distinct:
  assumes "ci_inv c" "GetIndex c t h = Some i" "GetIndex c t' h' = Some i"
  shows "h = h'"
proof -
  obtain k k' where k: "GenerateIndexKey t h = Some k" "map_index c k = Some i"
    "GenerateIndexKey t' h' = Some k'" "map_index c k' = Some i"
    using assms(2,3) by (auto simp: GetIndex_def split: option.splits)
  then have "k = k'" using assms(1) by (auto simp: ci_inv_def inj_on_def dom_def)
  then show ?thesis using k GenerateIndexKey_inj by metis
qed

lemma ResetIndex_inv:
  assumes inv: "ci_inv c"
  shows "ci_inv (ResetIndex c t h) \<and> GetIndex (ResetIndex c t h) t h = None"
proof (cases "GetIndex c t h")
  case None
  then have "ResetIndex c t h = c" by (auto simp: ResetIndex_def GetIndex_def split: option.splits)
  then show ?thesis using inv None by simp
next
  case (Some i)
  then obtain key where key: "GenerateIndexKey t h = Some key" "map_index c key = Some i"
    by (auto simp: GetIndex_def split: option.splits)
  have c': "ResetIndex c t h = c\<lparr>map_index := (map_index c)(key := None), index_cache := (index_cache c)[i := False]\<rparr>"
    using key by (simp add: ResetIndex_def)
  have i: "i < kMaxSourceLidar" using inv key by (auto simp: ci_inv_def)
  have uniq: "k = key" if "map_index c k = Some i" for k
    using inv key that by (auto simp: ci_inv_def inj_on_def dom_def)
  have inj: "inj_on (map_index c) (dom (map_index c))" and len: "length (index_cache c) = kMaxSourceLidar"
    and used: "\<And>j. j < kMaxSourceLidar \<Longrightarrow> index_cache c ! j \<longleftrightarrow> (\<exists>k. map_index c k = Some j)"
    and lt: "\<And>k j. map_index c k = Some j \<Longrightarrow> j < kMaxSourceLidar"
    using inv unfolding ci_inv_def by blast+
  have "inj_on ((map_index c)(key := None)) (dom ((map_index c)(key := None)))"
    using inj unfolding inj_on_def by (auto split: if_splits)
  moreover have "(index_cache c)[i := False] ! j \<longleftrightarrow> (\<exists>k. ((map_index c)(key := None)) k = Some j)"
    if j: "j < kMaxSourceLidar" for j
  proof (cases "j = i")
    case True
    then show ?thesis using i len uniq by auto
  next
    case False
    have "(\<exists>k. ((map_index c)(key := None)) k = Some j) \<longleftrightarrow> (\<exists>k. map_index c k = Some j)"
      using False key(2) by (auto split: if_splits) (metis option.inject)
    then show ?thesis using used [OF j] False by simp
  qed
  ultimately have "ci_inv (ResetIndex c t h)"
    using len lt unfolding c' by (auto simp: ci_inv_def split: if_splits)
  then show ?thesis using key by (simp add: c' GetIndex_def)
qed

end
