(* ===== verification/Driver.thy ===== *)
theory Driver
  imports Queues Cache_Index
begin

text \<open>
  The ROS driver's data path and its start-up handshake: the lidar data source \<open>Lds\<close>
  (lds.cpp) that files packets and IMU samples into per-lidar queues, the callbacks that
  configure a lidar until it samples (livox_lidar_callback.cpp), and the distribution of the
  queues to ROS messages (lddc.cpp).
\<close>

section \<open>Devices and the data source\<close>

datatype LidarConnectState = kConnectStateOff | kConnectStateOn | kConnectStateConfig | kConnectStateSampling

record ExtParameter =
  ext_roll :: real
  ext_pitch :: real
  ext_yaw :: real
  ext_x :: int
  ext_y :: int
  ext_z :: int

record UserLivoxLidarConfig =
  cfg_handle :: "32 word"
  pcl_data_type :: int
  pattern_mode :: int
  blind_spot_set :: int
  dual_emit_en :: int
  extrinsic_param :: ExtParameter
  set_bits :: "32 word"
  get_bits :: "32 word"

record LidarDevice =
  dev_lidar_type :: nat
  dev_handle :: "32 word"
  data_src :: nat
  connect_state :: LidarConnectState
  dev_data :: LidarDataQueue
  dev_imu_data :: "ImuData list"
  livox_config :: UserLivoxLidarConfig

record Lds =
  lidar_count :: nat
  lidars :: "LidarDevice list"
  pcd_semaphore :: nat
  imu_semaphore :: nat
  cache_index :: CacheIndex
  publish_freq :: real
  request_exit :: bool

record PointFrame =
  frame_base_time :: "64 word list"
  frame_lidar_num :: nat
  frame_lidar_point :: "PointPacket list"

text \<open>\<open>Semaphore::Signal\<close>, and \<open>Wait\<close> once it can proceed.\<close>

definition sem_signal :: "nat \<Rightarrow> nat" where
  "sem_signal n = n + 1"

definition sem_wait :: "nat \<Rightarrow> nat option" where
  "sem_wait n = (if n > 0 then Some (n - 1) else None)"

definition CalculatePacketQueueSize :: "real \<Rightarrow> 32 word" where
  "CalculatePacketQueueSize freq = (if freq > 10 then of_int \<lfloor>freq\<rfloor> + 1 else 10)"

definition ResetLidar :: "LidarDevice \<Rightarrow> nat \<Rightarrow> LidarDevice option" where
  "ResetLidar lidar src =
     map_option (\<lambda>q. lidar\<lparr>dev_data := q, dev_imu_data := imu_clear (dev_imu_data lidar), data_src := src,
                          connect_state := kConnectStateOff\<rparr>)
       (DeInitQueue (dev_data lidar))"

fun reset_all :: "LidarDevice list \<Rightarrow> nat \<Rightarrow> LidarDevice list option" where
  "reset_all [] src = Some []"
| "reset_all (d # ds) src =
     (case ResetLidar d src of
        None \<Rightarrow> None
      | Some d' \<Rightarrow> map_option (Cons d') (reset_all ds src))"

definition ResetLds :: "Lds \<Rightarrow> nat \<Rightarrow> Lds option" where
  "ResetLds lds src =
     map_option (\<lambda>ds. lds\<lparr>lidar_count := kMaxSourceLidar, lidars := ds\<rparr>) (reset_all (lidars lds) src)"

definition IsAllQueueEmpty :: "Lds \<Rightarrow> bool" where
  "IsAllQueueEmpty lds \<longleftrightarrow> list_all (\<lambda>d. QueueIsEmpty (dev_data d)) (take (lidar_count lds) (lidars lds))"

definition IsAllQueueReadStop :: "Lds \<Rightarrow> bool" where
  "IsAllQueueReadStop lds \<longleftrightarrow> list_all (\<lambda>d. QueueUsedSize (dev_data d) = 0) (take (lidar_count lds) (lidars lds))"

definition set_dev :: "Lds \<Rightarrow> nat \<Rightarrow> LidarDevice \<Rightarrow> Lds" where
  "set_dev lds i d = lds\<lparr>lidars := (lidars lds)[i := d]\<rparr>"

section \<open>Filing packets\<close>

text \<open>
  \<open>None\<close> is an access to a deleted queue array.  A packet that finds its queue full is
  dropped; the readers are signalled in both cases.
\<close>

definition signal_if_idle :: "nat \<Rightarrow> nat" where
  "signal_if_idle n = (if n = 0 then sem_signal n else n)"

definition PushLidarData :: "Lds \<Rightarrow> PointPacket \<Rightarrow> nat \<Rightarrow> 64 word \<Rightarrow> Lds option" where
  "PushLidarData lds lidar_data index bt =
     (let d = lidars lds ! index;
          q1 = (if storage_packet (dev_data d) = NullPtr
                then InitQueue (dev_data d) (CalculatePacketQueueSize (publish_freq lds))
                else Some (dev_data d))
      in case q1 of
           None \<Rightarrow> None
         | Some q \<Rightarrow>
             if \<not> QueueIsFull q then
               (if storage_packet q = Freed then None
                else let q2 = QueuePushAny q lidar_data bt;
                         lds2 = set_dev lds index (d\<lparr>dev_data := q2\<rparr>)
                     in Some (if \<not> QueueIsEmpty q2
                              then lds2\<lparr>pcd_semaphore := signal_if_idle (pcd_semaphore lds2)\<rparr> else lds2))
             else let lds2 = set_dev lds index (d\<lparr>dev_data := q\<rparr>)
                  in Some (lds2\<lparr>pcd_semaphore := signal_if_idle (pcd_semaphore lds2)\<rparr>))"

fun storage_points :: "PointFrame \<Rightarrow> nat list \<Rightarrow> Lds \<Rightarrow> Lds option" where
  "storage_points frame [] lds = Some lds"
| "storage_points frame (i # js) lds =
     (let p = frame_lidar_point frame ! i in
      case GetIndex (cache_index lds) (unat (pp_lidar_type p)) (pp_handle p) of
        None \<Rightarrow> storage_points frame js lds
      | Some index \<Rightarrow>
          (case PushLidarData lds p index (frame_base_time frame ! i) of
             None \<Rightarrow> None
           | Some lds1 \<Rightarrow> storage_points frame js lds1))"

definition StoragePointData :: "Lds \<Rightarrow> PointFrame \<Rightarrow> Lds option" where
  "StoragePointData lds frame = storage_points frame [0..<frame_lidar_num frame] lds"

fun storage_lvx_points :: "PointFrame \<Rightarrow> nat list \<Rightarrow> Lds \<Rightarrow> Lds option" where
  "storage_lvx_points frame [] lds = Some lds"
| "storage_lvx_points frame (i # js) lds =
     (let p = frame_lidar_point frame ! i in
      case LvxGetIndex (cache_index lds) (unat (pp_lidar_type p)) (pp_handle p) of
        (None, c) \<Rightarrow> storage_lvx_points frame js (lds\<lparr>cache_index := c\<rparr>)
      | (Some index, c) \<Rightarrow>
          (let lds1 = set_dev (lds\<lparr>cache_index := c\<rparr>) index
                        ((lidars lds ! index)\<lparr>connect_state := kConnectStateSampling\<rparr>)
           in case PushLidarData lds1 p index (frame_base_time frame ! i) of
                None \<Rightarrow> None
              | Some lds2 \<Rightarrow> storage_lvx_points frame js lds2))"

definition StorageLvxPointData :: "Lds \<Rightarrow> PointFrame \<Rightarrow> Lds option" where
  "StorageLvxPointData lds frame = storage_lvx_points frame [0..<frame_lidar_num frame] lds"

definition StorageImuData :: "Lds \<Rightarrow> ImuData \<Rightarrow> Lds" where
  "StorageImuData lds imu =
     (if unat (imu_lidar_type imu) = kLivoxLidarType then
        (case GetIndex (cache_index lds) (unat (imu_lidar_type imu)) (imu_handle imu) of
           None \<Rightarrow> lds
         | Some index \<Rightarrow>
             let d = lidars lds ! index;
                 q = imu_push (dev_imu_data d) imu;
                 lds1 = set_dev lds index (d\<lparr>dev_imu_data := q\<rparr>)
             in if \<not> imu_empty q then lds1\<lparr>imu_semaphore := signal_if_idle (imu_semaphore lds1)\<rparr> else lds1)
      else lds)"

text \<open>\<open>LidarCommonCallback::OnLidarPointClounCb\<close>.\<close>

definition OnLidarPointClounCb :: "Lds \<Rightarrow> PointFrame \<Rightarrow> Lds option" where
  "OnLidarPointClounCb lds frame = (if frame_lidar_num frame = 0 then Some lds else StoragePointData lds frame)"

section \<open>The configuration handshake\<close>

text \<open>The four settings that a lidar has to acknowledge before it samples, with their bits.\<close>

datatype config_code = kConfigDataType | kConfigScanPattern | kConfigBlindSpot | kConfigDualEmit

fun config_bit :: "config_code \<Rightarrow> nat" where
  "config_bit kConfigDataType = 0"
| "config_bit kConfigScanPattern = 1"
| "config_bit kConfigBlindSpot = 2"
| "config_bit kConfigDualEmit = 3"

definition config_mask :: "config_code \<Rightarrow> 32 word" where
  "config_mask c = push_bit (config_bit c) 1"

datatype sdk_call =
    SetLivoxLidarPclDataType "32 word" int
  | SetLivoxLidarScanPattern "32 word" int
  | SetLivoxLidarBlindSpot "32 word" int
  | SetLivoxLidarDualEmit "32 word" bool
  | SetLivoxLidarInstallAttitude "32 word" ExtParameter
  | SetLivoxLidarWorkMode "32 word"
  | EnableLivoxLidarImuData "32 word"

datatype livox_status = kLivoxLidarStatusSuccess | kLivoxLidarStatusTimeout | kLivoxLidarStatusFailure

definition GetLidarDevice :: "Lds \<Rightarrow> 32 word \<Rightarrow> nat option" where
  "GetLidarDevice lds handle = GetIndex (cache_index lds) kLivoxLidarType handle"

definition config_value :: "UserLivoxLidarConfig \<Rightarrow> config_code \<Rightarrow> int" where
  "config_value cfg c =
     (case c of kConfigDataType \<Rightarrow> pcl_data_type cfg | kConfigScanPattern \<Rightarrow> pattern_mode cfg
      | kConfigBlindSpot \<Rightarrow> blind_spot_set cfg | kConfigDualEmit \<Rightarrow> dual_emit_en cfg)"

definition config_call :: "32 word \<Rightarrow> UserLivoxLidarConfig \<Rightarrow> config_code \<Rightarrow> sdk_call" where
  "config_call handle cfg c =
     (case c of
        kConfigDataType \<Rightarrow> SetLivoxLidarPclDataType handle (pcl_data_type cfg)
      | kConfigScanPattern \<Rightarrow> SetLivoxLidarScanPattern handle (pattern_mode cfg)
      | kConfigBlindSpot \<Rightarrow> SetLivoxLidarBlindSpot handle (blind_spot_set cfg)
      | kConfigDualEmit \<Rightarrow> SetLivoxLidarDualEmit handle (dual_emit_en cfg \<noteq> 0))"

definition all_codes :: "config_code list" where
  "all_codes = [kConfigDataType, kConfigScanPattern, kConfigBlindSpot, kConfigDualEmit]"

definition wanted :: "UserLivoxLidarConfig \<Rightarrow> config_code list" where
  "wanted cfg = filter (\<lambda>c. config_value cfg c \<noteq> - 1) all_codes"

definition or_set_bits :: "config_code list \<Rightarrow> 32 word \<Rightarrow> 32 word" where
  "or_set_bits cs b = fold (\<lambda>c acc. acc OR config_mask c) cs b"

definition LidarInfoChangeCallback :: "Lds \<Rightarrow> 32 word \<Rightarrow> Lds \<times> sdk_call list" where
  "LidarInfoChangeCallback lds handle =
     (let normal = [SetLivoxLidarWorkMode handle, EnableLivoxLidarImuData handle] in
      case GetLidarDevice lds handle of
        None \<Rightarrow>
          (case GetFreeIndex (cache_index lds) kLivoxLidarType handle of
             (None, c) \<Rightarrow> (lds\<lparr>cache_index := c\<rparr>, [])
           | (Some index, c) \<Rightarrow>
               (set_dev (lds\<lparr>cache_index := c\<rparr>) index ((lidars lds ! index)\<lparr>dev_lidar_type := kLivoxLidarType\<rparr>), normal))
      | Some index \<Rightarrow>
          let d = lidars lds ! index; cfg = livox_config d;
              cfg1 = cfg\<lparr>set_bits := or_set_bits (wanted cfg) (set_bits cfg)\<rparr>
          in (set_dev lds index (d\<lparr>livox_config := cfg1\<rparr>),
              map (config_call handle cfg) (wanted cfg)
              @ [SetLivoxLidarInstallAttitude (cfg_handle cfg) (extrinsic_param cfg)] @ normal))"

text \<open>
  The callbacks of the four settings (\<open>SetDataTypeCallback\<close>, \<open>SetPatternModeCallback\<close>,
  \<open>SetBlindSpotCallback\<close>, \<open>SetDualEmitCallback\<close>), which differ in the bit they clear and
  the call they repeat.
\<close>

definition SetConfigCallback :: "config_code \<Rightarrow> Lds \<Rightarrow> livox_status \<Rightarrow> 32 word \<Rightarrow> Lds \<times> sdk_call list" where
  "SetConfigCallback c lds status handle =
     (case GetLidarDevice lds handle of
        None \<Rightarrow> (lds, [])
      | Some index \<Rightarrow>
          let d = lidars lds ! index; cfg = livox_config d in
          (case status of
             kLivoxLidarStatusSuccess \<Rightarrow>
               let b = set_bits cfg AND NOT (config_mask c);
                   d1 = d\<lparr>livox_config := cfg\<lparr>set_bits := b\<rparr>\<rparr>;
                   d2 = (if b = 0 then d1\<lparr>connect_state := kConnectStateSampling\<rparr> else d1)
               in (set_dev lds index d2, [])
           | kLivoxLidarStatusTimeout \<Rightarrow> (lds, [config_call handle cfg c])
           | kLivoxLidarStatusFailure \<Rightarrow> (lds, [])))"

definition SetAttitudeCallback :: "Lds \<Rightarrow> livox_status \<Rightarrow> 32 word \<Rightarrow> Lds \<times> sdk_call list" where
  "SetAttitudeCallback lds status handle =
     (case GetLidarDevice lds handle of
        None \<Rightarrow> (lds, [])
      | Some index \<Rightarrow>
          let cfg = livox_config (lidars lds ! index) in
          (case status of
             kLivoxLidarStatusTimeout \<Rightarrow> (lds, [SetLivoxLidarInstallAttitude (cfg_handle cfg) (extrinsic_param cfg)])
           | _ \<Rightarrow> (lds, [])))"

definition WorkModeChangedCallback :: "livox_status \<Rightarrow> 32 word \<Rightarrow> sdk_call list" where
  "WorkModeChangedCallback status handle =
     (if status \<noteq> kLivoxLidarStatusSuccess then [SetLivoxLidarWorkMode handle] else [])"

text \<open>\<open>has_response\<close> says whether \<open>response\<close> is not null.\<close>

definition EnableLivoxLidarImuDataCallback ::
  "Lds \<Rightarrow> livox_status \<Rightarrow> 32 word \<Rightarrow> bool \<Rightarrow> sdk_call list" where
  "EnableLivoxLidarImuDataCallback lds status handle has_response =
     (if GetLidarDevice lds handle = None \<or> \<not> has_response then []
      else if status = kLivoxLidarStatusTimeout then [EnableLivoxLidarImuData handle] else [])"

section \<open>Distribution to ROS\<close>

datatype TransferType = kPointCloud2Msg | kLivoxCustomMsg | kPclPxyziMsg | kLivoxImuMsg

record CustomPoint =
  cp_offset_time :: "32 word"
  cp_x :: real
  cp_y :: real
  cp_z :: real
  cp_reflectivity :: real
  cp_tag :: "8 word"
  cp_line :: "8 word"

datatype ros_msg =
    PointCloud2Data "64 word" "(real \<times> real \<times> real \<times> real \<times> 8 word \<times> 8 word \<times> 64 word) list"
  | CustomPointData "64 word" "32 word" "8 word" "CustomPoint list"

definition InitPointcloud2Msg :: "StoragePacket \<Rightarrow> ros_msg" where
  "InitPointcloud2Msg pkg =
     PointCloud2Data (if points pkg \<noteq> [] then base_time pkg else 0)
       (map (\<lambda>i. let p = points pkg ! i in
               (pt_x p, pt_y p, pt_z p, intensity p, tag p, line p, offset_time p)) [0..<unat (points_num pkg)])"

definition FillPointsToCustomMsg :: "StoragePacket \<Rightarrow> CustomPoint list" where
  "FillPointsToCustomMsg pkg =
     map (\<lambda>i. let p = points pkg ! i in
           \<lparr>cp_offset_time = ucast (offset_time p - base_time pkg), cp_x = pt_x p, cp_y = pt_y p, cp_z = pt_z p,
            cp_reflectivity = intensity p, cp_tag = tag p, cp_line = line p\<rparr>) [0..<unat (points_num pkg)]"

text \<open>The message's \<open>lidar_id\<close> is a \<open>uint8\<close>: the handle is cut off.\<close>

definition InitCustomMsg :: "Lds \<Rightarrow> StoragePacket \<Rightarrow> nat \<Rightarrow> ros_msg" where
  "InitCustomMsg lds pkg index =
     CustomPointData (if points pkg \<noteq> [] then base_time pkg else 0) (points_num pkg)
       (let d = lidars lds ! index in if dev_lidar_type d = kLivoxLidarType then ucast (dev_handle d) else 0)
       (FillPointsToCustomMsg pkg)"

text \<open>
  The loops \<open>while (!QueueIsEmpty(queue))\<close>, with a bound on the number of rounds; what they
  publish, and the queue they leave.
\<close>

fun publish_loop :: "(StoragePacket \<Rightarrow> ros_msg) \<Rightarrow> nat \<Rightarrow> LidarDataQueue \<Rightarrow> ros_msg list \<times> LidarDataQueue" where
  "publish_loop mk 0 q = ([], q)"
| "publish_loop mk (Suc n) q =
     (if QueueIsEmpty q then ([], q)
      else case QueuePop q empty_packet of
             None \<Rightarrow> ([], q)
           | Some (pkg, q1) \<Rightarrow>
               let (ms, q2) = publish_loop mk n q1
               in ((if points pkg = [] then [] else [mk pkg]) @ ms, q2))"

text \<open>Under ROS 2 the PCL format only prints a warning.\<close>

definition publish_packets :: "TransferType \<Rightarrow> Lds \<Rightarrow> nat \<Rightarrow> LidarDataQueue \<Rightarrow> ros_msg list \<times> LidarDataQueue" where
  "publish_packets fmt lds index q =
     (case fmt of
        kPointCloud2Msg \<Rightarrow> publish_loop InitPointcloud2Msg (unat (QueueUsedSize q)) q
      | kLivoxCustomMsg \<Rightarrow> publish_loop (\<lambda>pkg. InitCustomMsg lds pkg index) (unat (QueueUsedSize q)) q
      | _ \<Rightarrow> ([], q))"

text \<open>
  The polling loop may run forever: \<open>None\<close> says that it is still going after the given number
  of rounds.
\<close>

fun polling_loop :: "TransferType \<Rightarrow> Lds \<Rightarrow> nat \<Rightarrow> nat \<Rightarrow> LidarDataQueue \<Rightarrow> (ros_msg list \<times> LidarDataQueue) option" where
  "polling_loop fmt lds index 0 q = None"
| "polling_loop fmt lds index (Suc n) q =
     (if request_exit lds \<or> QueueIsEmpty q then Some ([], q)
      else let (ms, q1) = publish_packets fmt lds index q
           in map_option (\<lambda>(ms', q2). (ms @ ms', q2)) (polling_loop fmt lds index n q1))"

definition PollingLidarPointCloudData ::
  "TransferType \<Rightarrow> nat \<Rightarrow> Lds \<Rightarrow> nat \<Rightarrow> (ros_msg list \<times> Lds) option" where
  "PollingLidarPointCloudData fmt fuel lds index =
     (let d = lidars lds ! index in
      if storage_packet (dev_data d) = NullPtr then Some ([], lds)
      else map_option (\<lambda>(ms, q). (ms, set_dev lds index (d\<lparr>dev_data := q\<rparr>)))
             (polling_loop fmt lds index fuel (dev_data d)))"

fun distribute_points :: "TransferType \<Rightarrow> nat \<Rightarrow> nat list \<Rightarrow> Lds \<Rightarrow> (ros_msg list \<times> Lds) option" where
  "distribute_points fmt fuel [] lds = Some ([], lds)"
| "distribute_points fmt fuel (i # js) lds =
     (if connect_state (lidars lds ! i) \<noteq> kConnectStateSampling then distribute_points fmt fuel js lds
      else case PollingLidarPointCloudData fmt fuel lds i of
             None \<Rightarrow> None
           | Some (ms, lds1) \<Rightarrow>
               map_option (\<lambda>(ms', lds2). (ms @ ms', lds2)) (distribute_points fmt fuel js lds1))"

text \<open>After \<open>pcd_semaphore_.Wait()\<close>; \<open>None\<close> also when the wait blocks.\<close>

definition DistributePointCloudData :: "TransferType \<Rightarrow> nat \<Rightarrow> Lds \<Rightarrow> (ros_msg list \<times> Lds) option" where
  "DistributePointCloudData fmt fuel lds =
     (if request_exit lds then Some ([], lds)
      else case sem_wait (pcd_semaphore lds) of
             None \<Rightarrow> None
           | Some n \<Rightarrow> distribute_points fmt fuel [0..<lidar_count lds] (lds\<lparr>pcd_semaphore := n\<rparr>))"

text \<open>The IMU side.\<close>

record ImuMsg =
  msg_stamp :: "64 word"
  angular_velocity :: "float_bits \<times> float_bits \<times> float_bits"
  linear_acceleration :: "float_bits \<times> float_bits \<times> float_bits"

definition InitImuMsg :: "ImuData \<Rightarrow> ImuMsg" where
  "InitImuMsg d =
     \<lparr>msg_stamp = imu_time_stamp d, angular_velocity = (gyro_x d, gyro_y d, gyro_z d),
      linear_acceleration = (acc_x d, acc_y d, acc_z d)\<rparr>"

fun polling_imu :: "nat \<Rightarrow> ImuData list \<Rightarrow> ImuMsg list \<times> ImuData list" where
  "polling_imu 0 q = ([], q)"
| "polling_imu (Suc n) q =
     (if imu_empty q then ([], q)
      else case imu_pop q of
             None \<Rightarrow> ([], q)
           | Some (d, q1) \<Rightarrow> let (ms, q2) = polling_imu n q1 in (InitImuMsg d # ms, q2))"

definition PollingLidarImuData :: "Lds \<Rightarrow> nat \<Rightarrow> ImuMsg list \<times> Lds" where
  "PollingLidarImuData lds index =
     (let d = lidars lds ! index in
      if request_exit lds then ([], lds)
      else let (ms, q) = polling_imu (length (dev_imu_data d)) (dev_imu_data d)
           in (ms, set_dev lds index (d\<lparr>dev_imu_data := q\<rparr>)))"

fun distribute_imu :: "nat list \<Rightarrow> Lds \<Rightarrow> ImuMsg list \<times> Lds" where
  "distribute_imu [] lds = ([], lds)"
| "distribute_imu (i # js) lds =
     (if connect_state (lidars lds ! i) \<noteq> kConnectStateSampling then distribute_imu js lds
      else let (ms, lds1) = PollingLidarImuData lds i; (ms', lds2) = distribute_imu js lds1
           in (ms @ ms', lds2))"

definition DistributeImuData :: "Lds \<Rightarrow> (ImuMsg list \<times> Lds) option" where
  "DistributeImuData lds =
     (if request_exit lds then Some ([], lds)
      else case sem_wait (imu_semaphore lds) of
             None \<Rightarrow> None
           | Some n \<Rightarrow> Some (distribute_imu [0..<lidar_count lds] (lds\<lparr>imu_semaphore := n\<rparr>)))"

section \<open>What the data path guarantees\<close>

lemma QueuePop_empty: "QueuePop q dst = None \<longleftrightarrow> QueueIsEmpty q"
  by (simp add: QueuePop_def QueuePrePop_def Let_def)

lemma QueueIsEmpty_list:
  assumes "ldq_inv q"
  shows "QueueIsEmpty q \<longleftrightarrow> ldq_list q = []"
proof -
  have "(ldq_take q = None) = (ldq_list q = [])" by (rule packet_queue.pop_none [OF assms])
  then show ?thesis by (simp add: ldq_take_def QueuePop_empty)
qed

lemma length_ldq_list: "length (ldq_list q) = unat (QueueUsedSize q)"
  by (simp add: ldq_list_def)

lemma publish_loop_spec:
  "ldq_inv q \<Longrightarrow> length (ldq_list q) \<le> n \<Longrightarrow>
   \<exists>pkgs q'. publish_loop mk n q = (map mk (filter (\<lambda>p. points p \<noteq> []) pkgs), q')
     \<and> map packet_data pkgs = ldq_list q \<and> ldq_inv q' \<and> ldq_list q' = []"
proof (induction n arbitrary: q)
  case 0
  then show ?case by (auto intro!: exI [of _ "[]"])
next
  case (Suc n)
  show ?case
  proof (cases "ldq_list q")
    case Nil
    then show ?thesis using Suc.prems QueueIsEmpty_list by (auto intro!: exI [of _ "[]"])
  next
    case (Cons x xs)
    then obtain pkg q1 where pop: "QueuePop q empty_packet = Some (pkg, q1)"
      using QueuePop_empty QueueIsEmpty_list [OF Suc.prems(1)] by (cases "QueuePop q empty_packet") auto
    note P = ldq_pop_spec [OF Suc.prems(1) pop]
    have "length (ldq_list q1) \<le> n" using P Suc.prems(2) by simp
    then obtain pkgs q' where R: "publish_loop mk n q1 = (map mk (filter (\<lambda>p. points p \<noteq> []) pkgs), q')"
      "map packet_data pkgs = ldq_list q1" "ldq_inv q'" "ldq_list q' = []"
      using Suc.IH [of q1] P by blast
    have "\<not> QueueIsEmpty q" using QueueIsEmpty_list [OF Suc.prems(1)] Cons by simp
    then have "publish_loop mk (Suc n) q = (map mk (filter (\<lambda>p. points p \<noteq> []) (pkg # pkgs)), q')"
      using R(1) by (simp add: pop)
    moreover have "map packet_data (pkg # pkgs) = ldq_list q" using R(2) P by simp
    ultimately show ?thesis using R(3,4) by blast
  qed
qed

lemma polling_publishes:
  assumes q: "dev_data (lidars lds ! index) = q" "ldq_inv q" "\<not> request_exit lds"
    and mk: "publish_packets fmt lds index q = publish_loop mk (unat (QueueUsedSize q)) q"
  shows "\<exists>pkgs q'. PollingLidarPointCloudData fmt (Suc (Suc n)) lds index
      = Some (map mk (filter (\<lambda>p. points p \<noteq> []) pkgs), set_dev lds index ((lidars lds ! index)\<lparr>dev_data := q'\<rparr>))
    \<and> map packet_data pkgs = ldq_list q \<and> ldq_inv q' \<and> ldq_list q' = []"
proof -
  have live: "storage_packet q \<noteq> NullPtr" using q(2) unfolding ldq_inv_def by auto
  show ?thesis
  proof (cases "ldq_list q")
    case Nil
    then have "QueueIsEmpty q" using QueueIsEmpty_list [OF q(2)] by simp
    then show ?thesis using q live Nil
      by (intro exI [of _ "[]"] exI [of _ q]) (simp add: PollingLidarPointCloudData_def Let_def)
  next
    case (Cons x xs)
    then have ne: "\<not> QueueIsEmpty q" using QueueIsEmpty_list [OF q(2)] by simp
    obtain pkgs q' where R: "publish_loop mk (unat (QueueUsedSize q)) q = (map mk (filter (\<lambda>p. points p \<noteq> []) pkgs), q')"
      "map packet_data pkgs = ldq_list q" "ldq_inv q'" "ldq_list q' = []"
      using publish_loop_spec [OF q(2), of "unat (QueueUsedSize q)" mk] length_ldq_list by auto
    have "QueueIsEmpty q'" using QueueIsEmpty_list [OF R(3)] R(4) by simp
    then have "polling_loop fmt lds index (Suc (Suc n)) q = Some (map mk (filter (\<lambda>p. points p \<noteq> []) pkgs), q')"
      using q(3) ne mk R(1) by simp
    then have "PollingLidarPointCloudData fmt (Suc (Suc n)) lds index
      = Some (map mk (filter (\<lambda>p. points p \<noteq> []) pkgs), set_dev lds index ((lidars lds ! index)\<lparr>dev_data := q'\<rparr>))"
      using live by (simp add: PollingLidarPointCloudData_def Let_def q(1) del: polling_loop.simps)
    then show ?thesis using R by blast
  qed
qed

lemma polling_stuck:
  assumes "\<not> request_exit lds" "\<not> QueueIsEmpty q" "\<And>q. publish_packets fmt lds index q = ([], q)"
  shows "polling_loop fmt lds index fuel q = None"
  using assms by (induction fuel) simp_all

text \<open>Filing one packet.\<close>

definition dev_ok :: "LidarDevice \<Rightarrow> bool" where
  "dev_ok d \<longleftrightarrow> storage_packet (dev_data d) = NullPtr \<or> ldq_inv (dev_data d)"

definition dev_list :: "LidarDevice \<Rightarrow> (64 word \<times> PointXyzlt list) list" where
  "dev_list d = (if storage_packet (dev_data d) = NullPtr then [] else ldq_list (dev_data d))"

lemma queue_size_small:
  assumes "0 < f" "f < 2 ^ 30"
  shows "CalculatePacketQueueSize f \<le> 2 ^ 31"
proof (cases "f > 10")
  case True
  then have "\<lfloor>f\<rfloor> < 2 ^ 30" "0 \<le> \<lfloor>f\<rfloor>" using assms by (auto simp: floor_less_iff)
  then have "uint (of_int \<lfloor>f\<rfloor> + 1 :: 32 word) = \<lfloor>f\<rfloor> + 1"
    by (simp add: uint_word_ariths uint_word_of_int)
  then show ?thesis using True \<open>\<lfloor>f\<rfloor> < 2 ^ 30\<close> by (simp add: CalculatePacketQueueSize_def word_le_def)
qed (simp add: CalculatePacketQueueSize_def)

lemma PushLidarData_spec:
  assumes i: "index < length (lidars lds)" and ok: "dev_ok (lidars lds ! index)"
    and freq: "0 < publish_freq lds" "publish_freq lds < 2 ^ 30"
  shows "\<exists>lds'. PushLidarData lds p index bt = Some lds' \<and> dev_ok (lidars lds' ! index)
    \<and> (\<forall>j. j \<noteq> index \<longrightarrow> lidars lds' ! j = lidars lds ! j) \<and> length (lidars lds') = length (lidars lds)
    \<and> (dev_list (lidars lds' ! index) = dev_list (lidars lds ! index) @ [(bt, take (unat (pp_points_num p)) (pp_points p))]
       \<or> dev_list (lidars lds' ! index) = dev_list (lidars lds ! index)
         \<and> QueueIsFull (dev_data (lidars lds ! index)))
    \<and> cache_index lds' = cache_index lds \<and> publish_freq lds' = publish_freq lds \<and> pcd_semaphore lds' > 0
    \<and> (\<forall>q. dev_data (lidars lds' ! index) = q \<longrightarrow> lidars lds' ! index = (lidars lds ! index)\<lparr>dev_data := q\<rparr>)"
proof -
  let ?d = "lidars lds ! index"
  define q1 where "q1 = (if storage_packet (dev_data ?d) = NullPtr
    then InitQueue (dev_data ?d) (CalculatePacketQueueSize (publish_freq lds)) else Some (dev_data ?d))"
  obtain q where q: "q1 = Some q" "ldq_inv q" "ldq_list q = dev_list ?d"
    "QueueIsFull q \<Longrightarrow> QueueIsFull (dev_data ?d) \<and> q = dev_data ?d"
  proof (cases "storage_packet (dev_data ?d) = NullPtr")
    case True
    obtain q where Q: "InitQueue (dev_data ?d) (CalculatePacketQueueSize (publish_freq lds)) = Some q"
      "ldq_inv q" "ldq_list q = []"
      using InitQueue_inv [OF queue_size_small [OF freq], of "dev_data ?d"] True by auto
    then have "wr_idx q - rd_idx q = 0" by (auto simp: InitQueue_def Let_def split: if_splits)
    then have "\<not> QueueIsFull q" by (simp add: QueueIsFull_def)
    then show ?thesis using that [of q] Q True by (simp add: q1_def dev_list_def)
  next
    case False
    then show ?thesis using that [of "dev_data ?d"] ok by (simp add: q1_def dev_list_def dev_ok_def)
  qed
  have live: "storage_packet q \<noteq> NullPtr" "storage_packet q \<noteq> Freed" using q(2) unfolding ldq_inv_def by auto
  have run: "PushLidarData lds p index bt =
     (if \<not> QueueIsFull q then
        (if storage_packet q = Freed then None
         else let q2 = QueuePushAny q p bt; lds2 = set_dev lds index (?d\<lparr>dev_data := q2\<rparr>)
              in Some (if \<not> QueueIsEmpty q2
                       then lds2\<lparr>pcd_semaphore := signal_if_idle (pcd_semaphore lds2)\<rparr> else lds2))
      else let lds2 = set_dev lds index (?d\<lparr>dev_data := q\<rparr>)
           in Some (lds2\<lparr>pcd_semaphore := signal_if_idle (pcd_semaphore lds2)\<rparr>))"
    using q(1) unfolding PushLidarData_def q1_def Let_def by simp
  show ?thesis
  proof (cases "QueueIsFull q")
    case True
    then show ?thesis using q live i run
      by (auto simp: Let_def set_dev_def dev_ok_def dev_list_def signal_if_idle_def sem_signal_def)
  next
    case False
    note P = ldq_push_spec [OF q(2) False, of p bt]
    have live2: "storage_packet (QueuePushAny q p bt) \<noteq> NullPtr" using P(1) unfolding ldq_inv_def by auto
    have "\<not> QueueIsEmpty (QueuePushAny q p bt)" using QueueIsEmpty_list [OF P(1)] P(2) by simp
    then show ?thesis using q live live2 i run P False
      by (auto simp: Let_def set_dev_def dev_ok_def dev_list_def signal_if_idle_def sem_signal_def)
  qed
qed

section \<open>What the handshake guarantees\<close>

text \<open>\<open>set_bits\<close> as the set of settings that are not acknowledged yet.\<close>

definition pending :: "config_code set \<Rightarrow> 32 word \<Rightarrow> bool" where
  "pending S b \<longleftrightarrow> (\<forall>n < 32. Bit_Operations.bit b n \<longleftrightarrow> n \<in> config_bit ` S)"

lemma config_bit_small: "config_bit c < 32"
  by (cases c) auto

lemma config_bit_inj: "config_bit c = config_bit c' \<longleftrightarrow> c = c'"
  by (cases c; cases c') auto

lemma bit_config_mask: "Bit_Operations.bit (config_mask c) n \<longleftrightarrow> n = config_bit c"
  using config_bit_small [of c] by (auto simp: config_mask_def push_bit_of_1 bit_exp_iff possible_bit_word)

lemma pending_empty: "pending {} b \<longleftrightarrow> b = 0"
  by (auto simp: pending_def bit_eq_iff)

lemma pending_zero: "pending S b \<Longrightarrow> b = 0 \<longleftrightarrow> S = {}"
  using config_bit_small by (force simp: pending_def bit_eq_iff)

lemma pending_or: "pending S b \<Longrightarrow> pending (insert c S) (b OR config_mask c)"
  by (auto simp: pending_def bit_or_iff bit_config_mask)

lemma pending_clear: "pending S b \<Longrightarrow> pending (S - {c}) (b AND NOT (config_mask c))"
  using config_bit_small config_bit_inj
  by (auto simp: pending_def bit_and_iff bit_not_iff bit_config_mask possible_bit_word image_iff)

lemma pending_or_set_bits: "pending S b \<Longrightarrow> pending (set cs \<union> S) (or_set_bits cs b)"
proof (induction cs arbitrary: S b)
  case (Cons c cs)
  have "pending (set cs \<union> insert c S) (or_set_bits cs (b OR config_mask c))"
    by (rule Cons.IH [OF pending_or [OF Cons.prems]])
  then show ?case by (simp add: or_set_bits_def)
qed (simp add: or_set_bits_def)

definition ack :: "32 word \<Rightarrow> config_code \<Rightarrow> Lds \<Rightarrow> Lds" where
  "ack handle c lds = fst (SetConfigCallback c lds kLivoxLidarStatusSuccess handle)"

definition acked :: "32 word \<Rightarrow> nat \<Rightarrow> Lds \<Rightarrow> bool" where
  "acked handle i lds \<longleftrightarrow> GetLidarDevice lds handle = Some i \<and> i < length (lidars lds)"

lemma ack_dev:
  assumes "acked handle i lds" "pending S (set_bits (livox_config (lidars lds ! i)))"
  shows "acked handle i (ack handle c lds)"
    and "pending (S - {c}) (set_bits (livox_config (lidars (ack handle c lds) ! i)))"
    and "connect_state (lidars (ack handle c lds) ! i)
       = (if S - {c} = {} then kConnectStateSampling else connect_state (lidars lds ! i))"
  using assms pending_clear [OF assms(2), of c] pending_zero [OF pending_clear [OF assms(2), of c]]
  by (auto simp: acked_def ack_def SetConfigCallback_def Let_def set_dev_def GetLidarDevice_def)

lemma acks_dev:
  "acked handle i lds \<Longrightarrow> pending S (set_bits (livox_config (lidars lds ! i))) \<Longrightarrow> distinct cs \<Longrightarrow> set cs \<subseteq> S \<Longrightarrow>
   acked handle i (fold (ack handle) cs lds)
   \<and> pending (S - set cs) (set_bits (livox_config (lidars (fold (ack handle) cs lds) ! i)))
   \<and> connect_state (lidars (fold (ack handle) cs lds) ! i)
     = (if cs \<noteq> [] \<and> S - set cs = {} then kConnectStateSampling else connect_state (lidars lds ! i))"
proof (induction cs arbitrary: lds S)
  case (Cons c cs)
  note A = ack_dev [OF Cons.prems(1,2), of c]
  have sub: "set cs \<subseteq> S - {c}" and d: "distinct cs" using Cons.prems(3,4) by auto
  note IH = Cons.IH [OF A(1,2) d sub]
  have diff: "S - {c} - set cs = S - set (c # cs)" by auto
  show ?case
  proof (cases "cs = []")
    case True
    then show ?thesis using IH A(3) diff by simp
  next
    case False
    then have "S - {c} \<noteq> {}" using sub by (metis set_empty subset_empty)
    then show ?thesis using IH A(3) diff False by simp
  qed
qed simp

lemma wanted_distinct: "distinct (wanted cfg)"
  by (simp add: wanted_def all_codes_def)

lemma info_change_known:
  assumes "GetLidarDevice lds handle = Some i" "i < length (lidars lds)"
    and "set_bits (livox_config (lidars lds ! i)) = 0"
  defines "lds1 \<equiv> fst (LidarInfoChangeCallback lds handle)"
  shows "acked handle i lds1"
    and "pending (set (wanted (livox_config (lidars lds ! i)))) (set_bits (livox_config (lidars lds1 ! i)))"
    and "connect_state (lidars lds1 ! i) = connect_state (lidars lds ! i)"
  using assms(1-3) pending_or_set_bits [of "{}" 0 "wanted (livox_config (lidars lds ! i))"] pending_empty
  by (auto simp: lds1_def LidarInfoChangeCallback_def Let_def set_dev_def acked_def GetLidarDevice_def)

end
