(* ===== verification/Driver_Props.thy ===== *)
theory Driver_Props
  imports Driver
begin

text \<open>
  What the driver's data path and its configuration handshake guarantee, and where the code
  falls short of it.
\<close>

section \<open>A small instance\<close>

definition demo_cfg :: UserLivoxLidarConfig where
  "demo_cfg =
     \<lparr>cfg_handle = 5, pcl_data_type = 1, pattern_mode = 0, blind_spot_set = - 1, dual_emit_en = - 1,
      extrinsic_param = \<lparr>ext_roll = 0, ext_pitch = 0, ext_yaw = 0, ext_x = 0, ext_y = 0, ext_z = 0\<rparr>,
      set_bits = 0, get_bits = 0\<rparr>"

definition demo_dev :: LidarDevice where
  "demo_dev =
     \<lparr>dev_lidar_type = 8, dev_handle = 5, data_src = 0, connect_state = kConnectStateOff,
      dev_data = \<lparr>storage_packet = NullPtr, rd_idx = 0, wr_idx = 0, q_mask = 0, q_size = 0\<rparr>,
      dev_imu_data = [], livox_config = demo_cfg\<rparr>"

definition demo_lds :: Lds where
  "demo_lds =
     \<lparr>lidar_count = 32, lidars = replicate 32 demo_dev, pcd_semaphore = 0, imu_semaphore = 0,
      cache_index = snd (GetFreeIndex new_CacheIndex kLivoxLidarType 5), publish_freq = 10, request_exit = False\<rparr>"

definition demo_pp :: PointPacket where
  "demo_pp =
     \<lparr>pp_handle = 5, pp_lidar_type = 8, pp_points_num = 1,
      pp_points = [\<lparr>pt_x = 1, pt_y = 2, pt_z = 3, intensity = 9, tag = 0, line = 0, offset_time = 77\<rparr>]\<rparr>"

lemma demo_lookup: "GetLidarDevice demo_lds 5 = Some 0"
  by (simp add: GetLidarDevice_def demo_lds_def GetFreeIndex_def GetIndex_def GenerateIndexKey_def gfi_lookup_def
      gfi_claim_def new_CacheIndex_def kMaxSourceLidar_def numeral_eq_Suc)

lemma demo_dev_facts: "dev_ok (lidars demo_lds ! 0)" "0 < length (lidars demo_lds)" "0 < publish_freq demo_lds"
  "publish_freq demo_lds < 2 ^ 30" "\<not> QueueIsFull (dev_data (lidars demo_lds ! 0))" "\<not> request_exit demo_lds"
  "livox_config (lidars demo_lds ! 0) = demo_cfg"
  by (simp_all add: demo_lds_def demo_dev_def dev_ok_def QueueIsFull_def)

section \<open>Properties\<close>



text \<open>
  Filing a packet never fails for a device in a good state: it is appended to the device's
  queue or, only when the queue is full, dropped; no other device changes, the good state is
  kept and the reader's semaphore is raised.
\<close>

theorem filing_appends_or_drops:
  assumes "index < length (lidars lds)" "dev_ok (lidars lds ! index)" "0 < publish_freq lds" "publish_freq lds < 2 ^ 30"
  shows "\<exists>lds'. PushLidarData lds p index bt = Some lds' \<and> dev_ok (lidars lds' ! index)
    \<and> (\<forall>j. j \<noteq> index \<longrightarrow> lidars lds' ! j = lidars lds ! j) \<and> pcd_semaphore lds' > 0
    \<and> (dev_list (lidars lds' ! index) = dev_list (lidars lds ! index) @ [(bt, take (unat (pp_points_num p)) (pp_points p))]
       \<or> QueueIsFull (dev_data (lidars lds ! index)) \<and> dev_list (lidars lds' ! index) = dev_list (lidars lds ! index))"
  using PushLidarData_spec [OF assms, of p bt] by blast

theorem filing_appends_or_drops_witness:
  "\<exists>lds'. PushLidarData demo_lds demo_pp 0 42 = Some lds' \<and> dev_ok (lidars lds' ! 0)"
  using filing_appends_or_drops [OF demo_dev_facts(2,1,3,4), of demo_pp 42] by blast

text \<open>
  C7. The handshake of a configured lidar completes exactly with the last acknowledgement: once
  the lidar has announced itself, success replies for all its wanted settings, in any order,
  bring it to sampling, and no proper prefix of the replies does.
\<close>

theorem handshake_completes:
  assumes "GetLidarDevice lds handle = Some i" "i < length (lidars lds)" "set_bits (livox_config (lidars lds ! i)) = 0"
    and "distinct cs" "set cs = set (wanted (livox_config (lidars lds ! i)))" "cs \<noteq> []"
  defines "lds1 \<equiv> fst (LidarInfoChangeCallback lds handle)"
  shows "connect_state (lidars (fold (ack handle) cs lds1) ! i) = kConnectStateSampling
    \<and> (\<forall>n < length cs. connect_state (lidars (fold (ack handle) (take n cs) lds1) ! i) = connect_state (lidars lds ! i))"
proof -
  note K = info_change_known [OF assms(1-3), folded lds1_def]
  have all: "connect_state (lidars (fold (ack handle) cs lds1) ! i) = kConnectStateSampling"
    using acks_dev [OF K(1,2) assms(4)] assms(5,6) by simp
  have "connect_state (lidars (fold (ack handle) (take n cs) lds1) ! i) = connect_state (lidars lds ! i)"
    if n: "n < length cs" for n
  proof -
    have sub: "set (take n cs) \<subseteq> set (wanted (livox_config (lidars lds ! i)))" using assms(5) set_take_subset by fast
    have "cs ! n \<in> set cs" "cs ! n \<notin> set (take n cs)"
      using n assms(4) by (auto simp: in_set_conv_nth nth_eq_iff_index_eq)
    then have "set (wanted (livox_config (lidars lds ! i))) - set (take n cs) \<noteq> {}" using assms(5) by blast
    then show ?thesis using acks_dev [OF K(1,2) distinct_take [OF assms(4)] sub] K(3) by simp
  qed
  then show ?thesis using all by blast
qed

theorem handshake_completes_witness:
  "connect_state (lidars (fold (ack 5) [kConfigScanPattern, kConfigDataType] (fst (LidarInfoChangeCallback demo_lds 5))) ! 0)
     = kConnectStateSampling"
proof -
  have "set_bits (livox_config (lidars demo_lds ! 0)) = 0"
    "set [kConfigScanPattern, kConfigDataType] = set (wanted (livox_config (lidars demo_lds ! 0)))"
    unfolding demo_dev_facts(7) by (auto simp: demo_cfg_def wanted_def all_codes_def config_value_def)
  then show ?thesis using handshake_completes [OF demo_lookup demo_dev_facts(2), of "[kConfigScanPattern, kConfigDataType]"] by simp
qed

text \<open>
  A lidar that is not registered beforehand is never made to sample: its first announcement
  only claims a free slot, where neither the handle nor the connection state is set, and sends
  none of the configuration whose acknowledgements would start the sampling.
\<close>

theorem unknown_lidar_never_configured:
  assumes "GetLidarDevice lds handle = None" "LidarInfoChangeCallback lds handle = (lds', calls)"
  shows "map dev_handle (lidars lds') = map dev_handle (lidars lds)
    \<and> map connect_state (lidars lds') = map connect_state (lidars lds)
    \<and> set calls \<subseteq> {SetLivoxLidarWorkMode handle, EnableLivoxLidarImuData handle}"
  using assms
  by (auto simp: LidarInfoChangeCallback_def set_dev_def Let_def map_update list_update_same_conv
      split: option.splits prod.splits intro!: nth_equalityI)
     (metis (no_types, lifting) list_update_beyond list_update_id map_update not_le_imp_less nth_map length_map
        LidarDevice.select_convs LidarDevice.update_convs(1))+

theorem unknown_lidar_never_configured_witness:
  "map connect_state (lidars (fst (LidarInfoChangeCallback (demo_lds\<lparr>cache_index := new_CacheIndex\<rparr>) 6)))
     = map connect_state (lidars demo_lds)"
proof -
  have "GetLidarDevice (demo_lds\<lparr>cache_index := new_CacheIndex\<rparr>) 6 = None"
    by (simp add: GetLidarDevice_def GetIndex_def GenerateIndexKey_def new_CacheIndex_def)
  then show ?thesis using unknown_lidar_never_configured [of "demo_lds\<lparr>cache_index := new_CacheIndex\<rparr>" 6]
    by (metis prod.collapse Lds.select_convs(2) Lds.surjective Lds.update_convs(5))
qed

text \<open>
  A configured lidar for which none of the four settings is given is never made to sample
  either: its announcement leaves no bit to acknowledge, sends no setting and does not change
  its connection state.
\<close>

theorem nothing_to_acknowledge:
  assumes "GetLidarDevice lds handle = Some i" "i < length (lidars lds)" "wanted (livox_config (lidars lds ! i)) = []"
  shows "\<exists>lds' calls. LidarInfoChangeCallback lds handle = (lds', calls)
    \<and> connect_state (lidars lds' ! i) = connect_state (lidars lds ! i)
    \<and> set_bits (livox_config (lidars lds' ! i)) = set_bits (livox_config (lidars lds ! i))
    \<and> (\<forall>c. config_call handle (livox_config (lidars lds ! i)) c \<notin> set calls)"
  using assms by (auto simp: LidarInfoChangeCallback_def Let_def set_dev_def or_set_bits_def config_call_def split: config_code.splits)

theorem nothing_to_acknowledge_witness:
  "\<exists>lds' calls. LidarInfoChangeCallback
      (demo_lds\<lparr>lidars := replicate 32 (demo_dev\<lparr>livox_config := demo_cfg\<lparr>pcl_data_type := - 1, pattern_mode := - 1\<rparr>\<rparr>)\<rparr>) 5
    = (lds', calls) \<and> connect_state (lidars lds' ! 0) = kConnectStateOff"
  (is "\<exists>lds' calls. LidarInfoChangeCallback ?lds 5 = _ \<and> _")
proof -
  have "GetLidarDevice ?lds 5 = Some 0" using demo_lookup by (simp add: GetLidarDevice_def)
  moreover have "wanted (livox_config (lidars ?lds ! 0)) = []"
    by (simp add: wanted_def all_codes_def config_value_def demo_cfg_def)
  moreover have "connect_state (lidars ?lds ! 0) = kConnectStateOff" by (simp add: demo_dev_def)
  ultimately show ?thesis using nothing_to_acknowledge [of ?lds 5 0] by fastforce
qed

text \<open>
  Slots of the device table: claiming one keeps the table consistent, gives the lidar the
  slot it is found under from then on, leaves every other lidar where it was, and two lidars
  never share a slot.
\<close>

theorem device_slots_consistent:
  assumes "ci_inv c" "GetFreeIndex c t h = (r, c')"
  shows "ci_inv c' \<and> GetIndex c' t h = r
    \<and> (\<forall>t' h'. GetIndex c t' h' \<noteq> None \<longrightarrow> GetIndex c' t' h' = GetIndex c t' h')
    \<and> (\<forall>t1 h1 t2 h2 i. GetIndex c' t1 h1 = Some i \<longrightarrow> GetIndex c' t2 h2 = Some i \<longrightarrow> h1 = h2)"
  using GetFreeIndex_spec [OF assms] GetIndex_distinct by blast

theorem device_slots_consistent_witness:
  "GetIndex (snd (GetFreeIndex new_CacheIndex 8 77)) 8 77 = fst (GetFreeIndex new_CacheIndex 8 77)"
  using device_slots_consistent [OF ci_inv_new, of 8 77] by (metis prod.collapse)

text \<open>
  The two critical sections of \<open>GetFreeIndex\<close> are not one: when two threads both look the
  same lidar up before either claims, it gets two slots and the first stays taken for ever,
  although no lidar maps to it.
\<close>

theorem get_free_index_race:
  "gfi_lookup new_CacheIndex key = None
   \<and> (let (r1, c1) = gfi_claim new_CacheIndex key; (r2, c2) = gfi_claim c1 key
      in r1 = Some 0 \<and> r2 = Some 1 \<and> index_cache c2 ! 0 \<and> (\<forall>k. map_index c2 k \<noteq> Some 0) \<and> \<not> ci_inv c2)"
proof -
  define c1 where "c1 = new_CacheIndex\<lparr>index_cache := (index_cache new_CacheIndex)[0 := True], map_index := [key \<mapsto> 0]\<rparr>"
  define c2 where "c2 = c1\<lparr>index_cache := (index_cache c1)[1 := True], map_index := [key \<mapsto> 1]\<rparr>"
  have e1: "gfi_claim new_CacheIndex key = (Some 0, c1)"
    by (simp add: gfi_claim_def new_CacheIndex_def kMaxSourceLidar_def numeral_eq_Suc c1_def)
  have e2: "gfi_claim c1 key = (Some 1, c2)"
    by (simp add: gfi_claim_def new_CacheIndex_def kMaxSourceLidar_def numeral_eq_Suc c1_def c2_def)
  have u: "index_cache c2 ! 0" "\<forall>k. map_index c2 k \<noteq> Some 0"
    by (simp_all add: c2_def c1_def new_CacheIndex_def kMaxSourceLidar_def)
  have "\<not> ci_inv c2" using u unfolding ci_inv_def kMaxSourceLidar_def by (metis zero_less_numeral)
  moreover have "gfi_lookup new_CacheIndex key = None" by (simp add: gfi_lookup_def new_CacheIndex_def)
  ultimately show ?thesis using u by (simp add: e1 e2)
qed

text \<open>
  The PCL format is not implemented under ROS 2 and its publisher takes nothing from the
  queue: with a packet waiting, the polling loop publishes nothing and never ends, whatever the
  number of rounds, until the exit is requested.
\<close>

theorem pcl_format_hangs:
  assumes "\<not> request_exit lds" "storage_packet (dev_data (lidars lds ! index)) \<noteq> NullPtr"
    and "\<not> QueueIsEmpty (dev_data (lidars lds ! index))"
  shows "PollingLidarPointCloudData kPclPxyziMsg fuel lds index = None"
  using polling_stuck [OF assms(1,3), of kPclPxyziMsg index fuel] assms(2)
  by (simp add: PollingLidarPointCloudData_def publish_packets_def Let_def)

theorem pcl_format_hangs_witness:
  "PollingLidarPointCloudData kPclPxyziMsg 1000
     (demo_lds\<lparr>lidars := [demo_dev\<lparr>dev_data := \<lparr>storage_packet = Live [empty_packet], rd_idx = 0, wr_idx = 1, q_mask = 0, q_size = 1\<rparr>\<rparr>]\<rparr>) 0
   = None"
  by (rule pcl_format_hangs) (simp_all add: demo_lds_def QueueIsEmpty_def)

text \<open>
  The identifier in a custom message is only the low byte of the lidar's handle, which is
  the first octet of its IP address: all lidars of one network share it.
\<close>

theorem custom_msg_id_is_first_octet:
  assumes "dev_lidar_type (lidars lds ! index) = kLivoxLidarType"
    and "dev_handle (lidars lds ! index) = of_nat (o1 + 256 * o2 + 65536 * o3 + 16777216 * o4)" "o1 < 256"
  shows "\<exists>ts n pts. InitCustomMsg lds pkg index = CustomPointData ts n (of_nat o1) pts"
proof -
  have "(ucast (of_nat (o1 + 256 * (o2 + 256 * o3 + 65536 * o4)) :: 32 word) :: 8 word) = of_nat o1"
  proof -
    have "(o1 + 256 * (o2 + 256 * o3 + 65536 * o4)) mod 2 ^ 32 mod 2 ^ 8 = o1 mod 2 ^ 8"
    proof -
      have "o1 + 256 * (o2 + 256 * o3 + 65536 * o4) = o1 + (o2 + 256 * o3 + 65536 * o4) * 2 ^ 8" by simp
      then show ?thesis by (simp only: mod_mod_cancel [of "2 ^ 8" "2 ^ 32"] le_imp_power_dvd mod_mult_self1)
    qed
    then show ?thesis
      unfolding word_unat_eq_iff unsigned_ucast_eq unat_of_nat by (simp add: take_bit_eq_mod unat_of_nat)
  qed
  then show ?thesis using assms by (simp add: InitCustomMsg_def Let_def algebra_simps)
qed

theorem custom_msg_id_is_first_octet_witness:
  "\<exists>ts n pts. InitCustomMsg (demo_lds\<lparr>lidars := [demo_dev\<lparr>dev_handle := 0x6401A8C0\<rparr>]\<rparr>) empty_packet 0 = CustomPointData ts n 192 pts"
  using custom_msg_id_is_first_octet [of "demo_lds\<lparr>lidars := [demo_dev\<lparr>dev_handle := 0x6401A8C0\<rparr>]\<rparr>" 0 192 168 1 100 empty_packet]
  by (simp add: demo_dev_def kLivoxLidarType_def)

text \<open>
  C10. The packet ring is a queue at any position of its free-running 32-bit indices, wrap-around
  included: a packet pushed onto a ring that is not full comes out last when the ring is
  drained, after the packets that were there, in order.
\<close>

theorem packet_ring_fifo:
  assumes "ldq_inv q" "\<not> QueueIsFull q" "length pts < 2 ^ 32" "length (ldq_list q) < n"
  shows "fst (drain_queue ldq_take n (ldq_push q (bt, pts))) = ldq_list q @ [(bt, pts)]"
  using packet_queue.push_then_drain [of q "(bt, pts)" "ldq_list q" n] assms by (simp add: ldq_room_def)

text \<open>A ring of two cells whose write index has wrapped around while the read index has not.\<close>

definition demo_ring :: LidarDataQueue where
  "demo_ring =
     \<lparr>storage_packet = Live [empty_packet, empty_packet\<lparr>base_time := 9\<rparr>], rd_idx = - 1, wr_idx = 0, q_mask = 1, q_size = 2\<rparr>"

lemma demo_ring_ok: "ldq_inv demo_ring" "\<not> QueueIsFull demo_ring" "ldq_list demo_ring = [(9, [])]"
proof -
  have "\<exists>k < 32. (2 :: 32 word) = 2 ^ k" by (intro exI [of _ 1]) simp
  then show "ldq_inv demo_ring"
    by (simp add: demo_ring_def ldq_inv_def cells_def QueueUsedSize_def empty_packet_def)
qed (simp_all add: demo_ring_def QueueIsFull_def ldq_list_def QueueUsedSize_def ldq_cell_def cells_def packet_data_def empty_packet_def)

theorem packet_ring_fifo_witness:
  "fst (drain_queue ldq_take 5 (ldq_push demo_ring (10, []))) = [(9, []), (10, [])]"
  using packet_ring_fifo [OF demo_ring_ok(1,2), of "[]" 5 10] by (simp add: demo_ring_ok(3))

text \<open>
  The operation log of the tree is a queue of a million operations and no more: below that
  a pushed operation goes last and the log stays in a good state; at that length the push
  overwrites the oldest operation, the new one is what comes out first, and the length runs
  past the capacity.
\<close>

theorem operation_log_capacity:
  assumes "mq_inv q"
  shows "if mq_counter q < Q_LEN
    then mq_inv (mq_push q op) \<and> mq_list (mq_push q op) = mq_list q @ [op]
    else mq_front (mq_push q op) = op \<and> mq_counter (mq_push q op) = Q_LEN + 1"
proof (cases "mq_counter q < Q_LEN")
  case True
  then show ?thesis using op_log.push_inv [OF assms, of op] op_log.push_contents [OF assms, of op] by (simp add: mq_room_def)
next
  case False
  then show ?thesis using assms Q_LEN_pos by (simp add: mq_inv_def mq_front_def mq_push_def)
qed

theorem operation_log_capacity_witness:
  "\<forall>op0 op1. mq_front (mq_push \<lparr>mq_head = 3, mq_tail = 3, mq_counter = Q_LEN, mq_q = (\<lambda>i. op0), mq_is_empty = False\<rparr> op1) = op1"
proof (intro allI)
  fix op0 op1 :: operation_log
  show "mq_front (mq_push \<lparr>mq_head = 3, mq_tail = 3, mq_counter = Q_LEN, mq_q = (\<lambda>i. op0), mq_is_empty = False\<rparr> op1) = op1"
    using operation_log_capacity [of "\<lparr>mq_head = 3, mq_tail = 3, mq_counter = Q_LEN, mq_q = (\<lambda>i. op0), mq_is_empty = False\<rparr>" op1]
    by (simp add: mq_inv_def Q_LEN_def)
qed

text \<open>
  A queue that has been torn down cannot be set up again: \<open>DeInitQueue\<close> frees the array but
  keeps the pointer, so \<open>InitQueue\<close> frees it a second time, and so does tearing down twice.
\<close>

theorem queue_double_free:
  assumes "storage_packet q = Live ps"
  shows "\<exists>q'. DeInitQueue q = Some q' \<and> InitQueue q' n = None \<and> DeInitQueue q' = None"
  using assms by (simp add: DeInitQueue_def InitQueue_def Let_def)

theorem queue_double_free_witness:
  "\<exists>q'. DeInitQueue demo_ring = Some q' \<and> InitQueue q' 16 = None"
proof -
  have "storage_packet demo_ring = Live [empty_packet, empty_packet\<lparr>base_time := 9\<rparr>]" by (simp add: demo_ring_def)
  from queue_double_free [OF this, of 16] show ?thesis by blast
qed

text \<open>
  A queue set up for any size up to \<open>2 ^ 31\<close> is empty, in a good state, and has the least
  power of two of cells that holds that many packets.
\<close>

theorem queue_setup:
  assumes "n \<le> 2 ^ 31" "0 < n" "storage_packet queue \<noteq> Freed"
  shows "\<exists>q k. InitQueue queue n = Some q \<and> ldq_inv q \<and> ldq_list q = []
    \<and> k < 32 \<and> q_size q = 2 ^ k \<and> n \<le> 2 ^ k \<and> (k > 0 \<longrightarrow> 2 ^ (k - 1) < n)"
proof -
  obtain q where q: "InitQueue queue n = Some q" "ldq_inv q" "ldq_list q = []"
    using InitQueue_inv [OF assms(1,3)] by blast
  show ?thesis
  proof (cases "IsPowerOf2 n")
    case True
    obtain k where k: "k < 32" "n = 2 ^ k" using IsPowerOf2_pow [OF True] by blast
    have "q_size q = n" using q(1) True assms(3) by (auto simp: InitQueue_def Let_def)
    moreover have "(2 :: 32 word) ^ (k - 1) < 2 ^ k" if "k > 0"
      using k(1) that by (simp add: word_less_nat_alt unat_pow2)
    ultimately show ?thesis using q k by (intro exI [of _ q] exI [of _ k]) simp
  next
    case False
    obtain k where k: "k < 32" "RoundupPowerOf2 n = 2 ^ k" "n \<le> 2 ^ k" "k > 0 \<longrightarrow> 2 ^ (k - 1) < n"
      using RoundupPowerOf2_spec [OF assms(1)] by blast
    have "q_size q = 2 ^ k" using q(1) False assms(3) k(2) by (auto simp: InitQueue_def Let_def)
    then show ?thesis using q k by (intro exI [of _ q] exI [of _ k]) simp
  qed
qed

theorem queue_setup_witness:
  "\<exists>q. InitQueue \<lparr>storage_packet = NullPtr, rd_idx = 0, wr_idx = 0, q_mask = 0, q_size = 0\<rparr> 11 = Some q \<and> ldq_inv q"
  using queue_setup [of 11 "\<lparr>storage_packet = NullPtr, rd_idx = 0, wr_idx = 0, q_mask = 0, q_size = 0\<rparr>"] by auto

end
