(* ===== verification/Byte_Codec.thy ===== *)
theory Byte_Codec
  imports LIO_Prelude "HOL-Library.Word"
begin

text \<open>
  Little-endian fields in byte buffers, as the packed structures of the Livox protocol are laid
  out in memory: reading a field at an offset fails when the buffer ends before it.
\<close>

type_synonym byte = "8 word"

fun le_bytes :: "nat \<Rightarrow> nat \<Rightarrow> byte list" where
  "le_bytes 0 v = []"
| "le_bytes (Suc n) v = of_nat v # le_bytes n (v div 256)"

fun le_val :: "byte list \<Rightarrow> nat" where
  "le_val [] = 0"
| "le_val (b # bs) = unat b + 256 * le_val bs"

lemma length_le_bytes [simp]: "length (le_bytes n v) = n"
  by (induction n arbitrary: v) auto

lemma le_val_less: "le_val bs < 256 ^ length bs"
proof (induction bs)
  case (Cons b bs)
  have "unat b < 256" using unsigned_less [of b, where 'a = nat] by simp
  then show ?case using Cons.IH by simp
qed simp

lemma le_val_le_bytes: "le_val (le_bytes n v) = v mod 256 ^ n"
proof (induction n arbitrary: v)
  case (Suc n)
  have "unat (of_nat v :: byte) = v mod 256" unfolding unat_of_nat by simp
  then show ?case using Suc.IH [of "v div 256"] by (simp add: mod_mult2_eq)
qed simp

lemma le_val_round [simp]: "v < 256 ^ n \<Longrightarrow> le_val (le_bytes n v) = v"
  by (simp add: le_val_le_bytes)

lemma le_bytes_le_val: "le_bytes (length bs) (le_val bs) = bs"
proof (induction bs)
  case (Cons b bs)
  have b: "unat b < 256" using unsigned_less [of b, where 'a = nat] by simp
  have "(of_nat (unat b + 256 * le_val bs) :: byte) = b"
    by (rule word_unat_eq_iff [THEN iffD2]) (unfold unat_of_nat, use b in simp)
  then show ?case using Cons.IH b by simp
qed simp

text \<open>The field of \<open>n\<close> bytes at offset \<open>off\<close>.\<close>

definition field :: "nat \<Rightarrow> nat \<Rightarrow> byte list \<Rightarrow> nat option" where
  "field off n bs = (if off + n \<le> length bs then Some (le_val (take n (drop off bs))) else None)"

definition slice :: "nat \<Rightarrow> nat \<Rightarrow> byte list \<Rightarrow> byte list option" where
  "slice off n bs = (if off + n \<le> length bs then Some (take n (drop off bs)) else None)"

text \<open>Two's complement.\<close>

definition signed_val :: "nat \<Rightarrow> nat \<Rightarrow> int" where
  "signed_val n v = (if v < 2 ^ (8 * n - 1) then int v else int v - 2 ^ (8 * n))"

lemma field_append: "length xs = off \<Longrightarrow> field off n (xs @ le_bytes n v @ ys) = Some (v mod 256 ^ n)"
  by (simp add: field_def le_val_le_bytes)

end
