(* ===== verification/Pub_Handler.thy ===== *)
theory Pub_Handler
  imports Driver Byte_Codec
begin

text \<open>
  The driver's point pipeline (pub_handler.cpp): ethernet packets are queued by the SDK's
  callback, decoded by the processing thread into points in the vehicle frame, and handed out
  as frames when the publish timer says so.
\<close>

section \<open>Raw packets\<close>

record RawPacket =
  rp_lidar_type :: nat
  rp_handle :: "32 word"
  extrinsic_enable :: bool
  point_num :: "32 word"
  rp_data_type :: nat
  line_num :: nat
  time_stamp :: "64 word"
  point_interval :: "64 word"
  raw_data :: "byte list"

text \<open>\<open>LivoxLidarEthernetPacket\<close>; \<open>eth_data\<close> is what follows its 36-byte header.\<close>

record EthernetPacket =
  eth_length :: "16 word"
  eth_time_interval :: "16 word"
  eth_dot_num :: "16 word"
  eth_data_type :: nat
  eth_time_type :: nat
  eth_timestamp :: "byte list"
  eth_data :: "byte list"

definition kTimestampTypeNoSync :: nat where "kTimestampTypeNoSync = 0"
definition kTimestampTypeGptpOrPtp :: nat where "kTimestampTypeGptpOrPtp = 1"
definition kTimestampTypeGps :: nat where "kTimestampTypeGps = 2"

definition GetEthPacketTimestamp :: "nat \<Rightarrow> byte list \<Rightarrow> 64 word \<Rightarrow> 64 word" where
  "GetEthPacketTimestamp timestamp_type bytes now =
     (if timestamp_type = kTimestampTypeGptpOrPtp \<or> timestamp_type = kTimestampTypeGps
      then of_nat (le_val bytes) else now)"

definition line_count :: "nat \<Rightarrow> nat" where
  "line_count dev_type = (if dev_type = 10 then 6 else if dev_type = 9 then 4 else 1)"

section \<open>Extrinsic parameters\<close>

type_synonym vec3 = "real \<times> real \<times> real"

record ExtParameterDetailed =
  trans :: vec3
  row0 :: vec3
  row1 :: vec3
  row2 :: vec3

fun dot :: "vec3 \<Rightarrow> vec3 \<Rightarrow> real" where
  "dot (a, b, c) (x, y, z) = x * a + y * b + z * c"

text \<open>The member initialiser of \<open>extrinsic_\<close>, entry by entry.\<close>

definition default_extrinsic :: ExtParameterDetailed where
  "default_extrinsic = \<lparr>trans = (0, 0, 0), row0 = (1, 0, 0), row1 = (0, 1, 1), row2 = (0, 0, 1)\<rparr>"

fun rotate :: "ExtParameterDetailed \<Rightarrow> vec3 \<Rightarrow> vec3" where
  "rotate e v = (dot (row0 e) v, dot (row1 e) v, dot (row2 e) v)"

definition ext_apply :: "ExtParameterDetailed \<Rightarrow> real \<Rightarrow> vec3 \<Rightarrow> vec3" where
  "ext_apply e scale v =
     (case (rotate e v, trans e) of ((a, b, c), (t0, t1, t2)) \<Rightarrow> ((a + t0) / scale, (b + t1) / scale, (c + t2) / scale))"

record LidarPubHandler =
  points_clouds :: "PointXyzlt list"
  extrinsic :: ExtParameterDetailed
  is_set_extrinsic_params :: bool

definition new_LidarPubHandler :: LidarPubHandler where
  "new_LidarPubHandler =
     \<lparr>points_clouds = [], extrinsic = default_extrinsic, is_set_extrinsic_params = False\<rparr>"

definition SetLidarsExtParam :: "ExtParameter \<Rightarrow> LidarPubHandler \<Rightarrow> LidarPubHandler" where
  "SetLidarsExtParam p h =
     (if is_set_extrinsic_params h then h
      else
        let rad = (\<lambda>deg. deg * pi / 180);
            cos_roll = cos (rad (ext_roll p)); cos_pitch = cos (rad (ext_pitch p)); cos_yaw = cos (rad (ext_yaw p));
            sin_roll = sin (rad (ext_roll p)); sin_pitch = sin (rad (ext_pitch p)); sin_yaw = sin (rad (ext_yaw p))
        in h\<lparr>extrinsic :=
               \<lparr>trans = (real_of_int (ext_x p), real_of_int (ext_y p), real_of_int (ext_z p)),
                row0 = (cos_pitch * cos_yaw,
                        sin_roll * sin_pitch * cos_yaw - cos_roll * sin_yaw,
                        cos_roll * sin_pitch * cos_yaw + sin_roll * sin_yaw),
                row1 = (cos_pitch * sin_yaw,
                        sin_roll * sin_pitch * sin_yaw + cos_roll * cos_yaw,
                        cos_roll * sin_pitch * sin_yaw - sin_roll * cos_yaw),
                row2 = (- sin_pitch, sin_roll * cos_pitch, cos_roll * cos_pitch)\<rparr>,
             is_set_extrinsic_params := True\<rparr>)"

definition GetLidarBaseTime :: "LidarPubHandler \<Rightarrow> 64 word" where
  "GetLidarBaseTime h = (case points_clouds h of [] \<Rightarrow> 0 | p # ps \<Rightarrow> offset_time p)"

definition GetRecentTimeStamp :: "LidarPubHandler \<Rightarrow> 64 word" where
  "GetRecentTimeStamp h = (if points_clouds h = [] then 0 else offset_time (last (points_clouds h)))"

text \<open>The caller's vector was cleared just before, so the swap leaves the handler empty.\<close>

definition GetLidarPointClouds :: "LidarPubHandler \<Rightarrow> PointXyzlt list \<times> LidarPubHandler" where
  "GetLidarPointClouds h = (points_clouds h, h\<lparr>points_clouds := []\<rparr>)"

section \<open>Decoding\<close>

text \<open>A raw point: coordinates, reflectivity and tag; \<open>None\<close> when the buffer ends before it.\<close>

type_synonym raw_point = "vec3 \<times> nat \<times> nat"

definition raw_high :: "byte list \<Rightarrow> nat \<Rightarrow> raw_point option" where
  "raw_high bs i =
     (case (field (14 * i) 4 bs, field (14 * i + 4) 4 bs, field (14 * i + 8) 4 bs, field (14 * i + 12) 1 bs, field (14 * i + 13) 1 bs) of
        (Some x, Some y, Some z, Some r, Some t) \<Rightarrow>
          Some ((real_of_int (signed_val 4 x), real_of_int (signed_val 4 y), real_of_int (signed_val 4 z)), r, t)
      | _ \<Rightarrow> None)"

definition raw_low :: "byte list \<Rightarrow> nat \<Rightarrow> raw_point option" where
  "raw_low bs i =
     (case (field (8 * i) 2 bs, field (8 * i + 2) 2 bs, field (8 * i + 4) 2 bs, field (8 * i + 6) 1 bs, field (8 * i + 7) 1 bs) of
        (Some x, Some y, Some z, Some r, Some t) \<Rightarrow>
          Some ((real_of_int (signed_val 2 x), real_of_int (signed_val 2 y), real_of_int (signed_val 2 z)), r, t)
      | _ \<Rightarrow> None)"

text \<open>Depth, zenith and azimuth, converted to the sensor's cartesian frame.\<close>

definition raw_spherical :: "byte list \<Rightarrow> nat \<Rightarrow> raw_point option" where
  "raw_spherical bs i =
     (case (field (10 * i) 4 bs, field (10 * i + 4) 2 bs, field (10 * i + 6) 2 bs, field (10 * i + 8) 1 bs, field (10 * i + 9) 1 bs) of
        (Some d, Some th, Some ph, Some r, Some t) \<Rightarrow>
          let radius = real d / 1000; theta = real th / 100 / 180 * pi; phi = real ph / 100 / 180 * pi
          in Some ((radius * sin theta * cos phi, radius * sin theta * sin phi, radius * cos theta), r, t)
      | _ \<Rightarrow> None)"

definition mk_point :: "RawPacket \<Rightarrow> nat \<Rightarrow> vec3 \<Rightarrow> nat \<Rightarrow> nat \<Rightarrow> PointXyzlt" where
  "mk_point pkt i v rf tg =
     (case v of (x, y, z) \<Rightarrow>
        \<lparr>pt_x = x, pt_y = y, pt_z = z, intensity = real rf, tag = of_nat tg,
         line = of_nat (i mod line_num pkt), offset_time = time_stamp pkt + of_nat i * point_interval pkt\<rparr>)"

text \<open>Millimetres or centimetres to metres, with the extrinsic transform unless it is applied elsewhere.\<close>

definition cartesian_point :: "real \<Rightarrow> (byte list \<Rightarrow> nat \<Rightarrow> raw_point option) \<Rightarrow> LidarPubHandler \<Rightarrow> RawPacket \<Rightarrow> nat \<Rightarrow> PointXyzlt option" where
  "cartesian_point scale raw h pkt i =
     (case raw (raw_data pkt) i of
        None \<Rightarrow> None
      | Some ((x, y, z), r, t) \<Rightarrow>
          if line_num pkt = 0 then None
          else Some (mk_point pkt i (if extrinsic_enable pkt then (x / scale, y / scale, z / scale)
                                     else ext_apply (extrinsic h) scale (x, y, z)) r t))"

definition spherical_point :: "LidarPubHandler \<Rightarrow> RawPacket \<Rightarrow> nat \<Rightarrow> PointXyzlt option" where
  "spherical_point h pkt i =
     (case raw_spherical (raw_data pkt) i of
        None \<Rightarrow> None
      | Some (v, r, t) \<Rightarrow>
          if line_num pkt = 0 then None
          else Some (mk_point pkt i
                 (if extrinsic_enable pkt then v
                  else case (rotate (extrinsic h) v, trans (extrinsic h)) of
                         ((a, b, c), (t0, t1, t2)) \<Rightarrow> (a + t0 / 1000, b + t1 / 1000, c + t2 / 1000)) r t))"

fun push_points :: "(nat \<Rightarrow> PointXyzlt option) \<Rightarrow> nat list \<Rightarrow> LidarPubHandler \<Rightarrow> LidarPubHandler option" where
  "push_points f [] h = Some h"
| "push_points f (i # js) h =
     (case f i of None \<Rightarrow> None | Some p \<Rightarrow> push_points f js (h\<lparr>points_clouds := points_clouds h @ [p]\<rparr>))"

definition ProcessCartesianHighPoint :: "RawPacket \<Rightarrow> LidarPubHandler \<Rightarrow> LidarPubHandler option" where
  "ProcessCartesianHighPoint pkt h = push_points (cartesian_point 1000 raw_high h pkt) [0..<unat (point_num pkt)] h"

definition ProcessCartesianLowPoint :: "RawPacket \<Rightarrow> LidarPubHandler \<Rightarrow> LidarPubHandler option" where
  "ProcessCartesianLowPoint pkt h = push_points (cartesian_point 100 raw_low h pkt) [0..<unat (point_num pkt)] h"

definition ProcessSphericalPoint :: "RawPacket \<Rightarrow> LidarPubHandler \<Rightarrow> LidarPubHandler option" where
  "ProcessSphericalPoint pkt h = push_points (spherical_point h pkt) [0..<unat (point_num pkt)] h"

definition LivoxLidarPointCloudProcess :: "RawPacket \<Rightarrow> LidarPubHandler \<Rightarrow> LidarPubHandler option" where
  "LivoxLidarPointCloudProcess pkt h =
     (if rp_data_type pkt = 1 then ProcessCartesianHighPoint pkt h
      else if rp_data_type pkt = 2 then ProcessCartesianLowPoint pkt h
      else if rp_data_type pkt = 3 then ProcessSphericalPoint pkt h
      else Some h)"

definition PointCloudProcess :: "RawPacket \<Rightarrow> LidarPubHandler \<Rightarrow> LidarPubHandler option" where
  "PointCloudProcess pkt h =
     (if rp_lidar_type pkt = kLivoxLidarType then LivoxLidarPointCloudProcess pkt h else Some h)"

section \<open>The publisher\<close>

record PubHandler =
  is_timestamp_sync :: bool
  publish_interval :: nat
  publish_interval_tolerance :: "64 word"
  publish_interval_ms :: nat
  first_check :: bool
  last_pub_time :: nat
  handlers :: "(32 word \<times> LidarPubHandler) list"
  lidar_extrinsics :: "32 word \<Rightarrow> ExtParameter option"
  raw_packet_queue :: "RawPacket list"
  imu_callback_set :: bool

definition kNsPerSecond :: nat where "kNsPerSecond = 1000000000"
definition kRatioOfMsToNs :: nat where "kRatioOfMsToNs = 1000000"

definition SetPointCloudConfig :: "real \<Rightarrow> PubHandler \<Rightarrow> PubHandler" where
  "SetPointCloudConfig freq h =
     (let i = nat \<lfloor>real kNsPerSecond / (freq * 10) * 10\<rfloor>
      in h\<lparr>publish_interval := i, publish_interval_tolerance := of_nat i - 1000000,
           publish_interval_ms := i div kRatioOfMsToNs\<rparr>)"

definition AddLidarsExtParam :: "nat \<Rightarrow> 32 word \<Rightarrow> ExtParameter \<Rightarrow> PubHandler \<Rightarrow> PubHandler" where
  "AddLidarsExtParam lidar_type handle p h =
     h\<lparr>lidar_extrinsics := (lidar_extrinsics h)((if lidar_type = kLivoxLidarType then handle else 0) \<mapsto> p)\<rparr>"

text \<open>\<open>std::map\<close> with its ascending iteration order.\<close>

fun find_handler :: "32 word \<Rightarrow> (32 word \<times> LidarPubHandler) list \<Rightarrow> LidarPubHandler option" where
  "find_handler k [] = None"
| "find_handler k ((j, h) # hs) = (if j = k then Some h else find_handler k hs)"

fun put_handler :: "32 word \<Rightarrow> LidarPubHandler \<Rightarrow> (32 word \<times> LidarPubHandler) list \<Rightarrow> (32 word \<times> LidarPubHandler) list" where
  "put_handler k h [] = [(k, h)]"
| "put_handler k h ((j, g) # hs) =
     (if k < j then (k, h) # (j, g) # hs else if k = j then (k, h) # hs else (j, g) # put_handler k h hs)"

text \<open>A published frame: base time, lidar and points of each entry.\<close>

type_synonym pub_frame = "(64 word \<times> 32 word \<times> PointXyzlt list) list"

text \<open>
  The SDK's callback.  A point packet without points divides by zero and a length beyond the
  buffer reads past it (\<open>None\<close>); an IMU packet goes to the IMU callback, the second
  component of the result.
\<close>

definition raw_of_eth :: "32 word \<Rightarrow> nat \<Rightarrow> EthernetPacket \<Rightarrow> 64 word \<Rightarrow> RawPacket option" where
  "raw_of_eth handle dev_type d now =
     (if eth_dot_num d = 0 then None
      else map_option (\<lambda>raw.
             \<lparr>rp_lidar_type = kLivoxLidarType, rp_handle = handle, extrinsic_enable = False,
              point_num = ucast (eth_dot_num d), rp_data_type = eth_data_type d, line_num = line_count dev_type,
              time_stamp = GetEthPacketTimestamp (eth_time_type d) (eth_timestamp d) now,
              point_interval = of_nat (unat (eth_time_interval d) * 100 div unat (eth_dot_num d)),
              raw_data = raw\<rparr>)
             (slice 0 (unat (ucast (eth_length d) - 37 + 1 :: 32 word)) (eth_data d)))"

definition imu_of_eth :: "32 word \<Rightarrow> EthernetPacket \<Rightarrow> 64 word \<Rightarrow> ImuData option" where
  "imu_of_eth handle d now =
     (case (field 0 4 (eth_data d), field 4 4 (eth_data d), field 8 4 (eth_data d),
            field 12 4 (eth_data d), field 16 4 (eth_data d), field 20 4 (eth_data d)) of
        (Some gx, Some gy, Some gz, Some ax, Some ay, Some az) \<Rightarrow>
          Some \<lparr>imu_lidar_type = of_nat kLivoxLidarType, imu_handle = handle,
                imu_time_stamp = GetEthPacketTimestamp (eth_time_type d) (eth_timestamp d) now,
                gyro_x = of_nat gx, gyro_y = of_nat gy, gyro_z = of_nat gz,
                acc_x = of_nat ax, acc_y = of_nat ay, acc_z = of_nat az\<rparr>
      | _ \<Rightarrow> None)"

definition OnLivoxLidarPointCloudCallback ::
  "32 word \<Rightarrow> nat \<Rightarrow> EthernetPacket \<Rightarrow> 64 word \<Rightarrow> PubHandler \<Rightarrow> (PubHandler \<times> ImuData option) option" where
  "OnLivoxLidarPointCloudCallback handle dev_type d now h =
     (let h1 = h\<lparr>is_timestamp_sync := (eth_time_type d \<noteq> kTimestampTypeNoSync)\<rparr> in
      if eth_data_type d = 0 then
        (if imu_callback_set h then map_option (\<lambda>i. (h1, Some i)) (imu_of_eth handle d now) else Some (h1, None))
      else map_option (\<lambda>p. (h1\<lparr>raw_packet_queue := raw_packet_queue h1 @ [p]\<rparr>, None)) (raw_of_eth handle dev_type d now))"

text \<open>The timer when the lidar's clock is synchronised.\<close>

definition check_timer_sync :: "32 word \<Rightarrow> PubHandler \<Rightarrow> (PubHandler \<times> pub_frame list) option" where
  "check_timer_sync lid h =
     (case find_handler lid (handlers h) of
        None \<Rightarrow> None
      | Some p \<Rightarrow>
          let recent_time_ms = unat (GetRecentTimeStamp p) div kRatioOfMsToNs in
          if publish_interval_ms h = 0 then None
          else if recent_time_ms mod publish_interval_ms h \<noteq> 0 \<or> recent_time_ms = 0 then Some (h, [])
          else if GetRecentTimeStamp p - GetLidarBaseTime p < publish_interval_tolerance h then Some (h, [])
          else
            let (pts, p1) = GetLidarPointClouds p; h1 = h\<lparr>handlers := put_handler lid p1 (handlers h)\<rparr>
            in if pts = [] then Some (h1, [])
               else Some (h1, [[(GetLidarBaseTime p, lid, pts)]]))"

text \<open>The timer without synchronisation: all lidars in one frame of at most 32 entries.\<close>

fun collect_frame :: "(32 word \<times> LidarPubHandler) list \<Rightarrow> pub_frame \<Rightarrow> (pub_frame \<times> (32 word \<times> LidarPubHandler) list) option" where
  "collect_frame [] fr = Some (fr, [])"
| "collect_frame ((k, p) # hs) fr =
     (if length fr \<ge> kMaxSourceLidar then None
      else
        let (pts, p1) = GetLidarPointClouds p in
        map_option (\<lambda>(fr', hs'). (fr', (k, p1) # hs'))
          (collect_frame hs (if pts = [] then fr else fr @ [(GetLidarBaseTime p, k, pts)])))"

definition check_timer_free :: "nat \<Rightarrow> PubHandler \<Rightarrow> (PubHandler \<times> pub_frame list) option" where
  "check_timer_free now h =
     (if first_check h then Some (h\<lparr>last_pub_time := now, first_check := False\<rparr>, [])
      else if int now - int (last_pub_time h) < int (publish_interval h) then Some (h, [])
      else
        let h1 = h\<lparr>last_pub_time := last_pub_time h + publish_interval h\<rparr> in
        map_option (\<lambda>(fr, hs). (h1\<lparr>handlers := hs\<rparr>, [fr])) (collect_frame (handlers h1) []))"

definition CheckTimer :: "32 word \<Rightarrow> nat \<Rightarrow> PubHandler \<Rightarrow> (PubHandler \<times> pub_frame list) option" where
  "CheckTimer lid now h = (if is_timestamp_sync h then check_timer_sync lid h else check_timer_free now h)"

text \<open>
  One round of \<open>RawDataProcess\<close>: take the oldest packet, find or make its lidar's handler, give
  it its extrinsic parameters, decode, check the timer.  An empty queue goes round again.
\<close>

definition packet_lidar :: "RawPacket \<Rightarrow> 32 word" where
  "packet_lidar raw = (if rp_lidar_type raw = kLivoxLidarType then rp_handle raw else 0)"

definition round_handler :: "RawPacket \<Rightarrow> PubHandler \<Rightarrow> LidarPubHandler" where
  "round_handler raw h =
     (let p = (case find_handler (packet_lidar raw) (handlers h) of None \<Rightarrow> new_LidarPubHandler | Some p \<Rightarrow> p)
      in case lidar_extrinsics h (packet_lidar raw) of None \<Rightarrow> p | Some e \<Rightarrow> SetLidarsExtParam e p)"

definition raw_data_round :: "nat \<Rightarrow> PubHandler \<Rightarrow> (PubHandler \<times> pub_frame list) option" where
  "raw_data_round now h =
     (case raw_packet_queue h of
        [] \<Rightarrow> Some (h, [])
      | raw # rest \<Rightarrow>
          (case PointCloudProcess raw (round_handler raw h) of
             None \<Rightarrow> None
           | Some p \<Rightarrow>
               CheckTimer (packet_lidar raw) now
                 (h\<lparr>raw_packet_queue := rest, handlers := put_handler (packet_lidar raw) p (handlers h)\<rparr>)))"

fun RawDataProcess :: "nat list \<Rightarrow> PubHandler \<Rightarrow> (PubHandler \<times> pub_frame list) option" where
  "RawDataProcess [] h = Some (h, [])"
| "RawDataProcess (now # ts) h =
     (case raw_data_round now h of
        None \<Rightarrow> None
      | Some (h1, fs) \<Rightarrow> map_option (\<lambda>(h2, gs). (h2, fs @ gs)) (RawDataProcess ts h1))"

section \<open>Decoding, proved\<close>

lemma push_points_spec:
  assumes "\<And>i. i \<in> set js \<Longrightarrow> f i \<noteq> None"
  shows "push_points f js h = Some (h\<lparr>points_clouds := points_clouds h @ map (\<lambda>i. the (f i)) js\<rparr>)"
  using assms
proof (induction js arbitrary: h)
  case (Cons i js)
  then obtain p where "f i = Some p" by fastforce
  then show ?case using Cons.IH [of "h\<lparr>points_clouds := points_clouds h @ [p]\<rparr>"] Cons.prems by simp
qed simp

lemma push_points_Some:
  "push_points f js h = Some h' \<Longrightarrow>
     h' = h\<lparr>points_clouds := points_clouds h @ map (\<lambda>i. the (f i)) js\<rparr>"
proof (induction js arbitrary: h)
  case (Cons i js)
  then obtain p where p: "f i = Some p" by (auto split: option.splits)
  show ?case using Cons.IH [of "h\<lparr>points_clouds := points_clouds h @ [p]\<rparr>"] Cons.prems p by simp
qed simp

lemma mk_point_stamps [simp]:
  "line (mk_point pkt i v r t) = of_nat (i mod line_num pkt)"
  "offset_time (mk_point pkt i v r t) = time_stamp pkt + of_nat i * point_interval pkt"
  "intensity (mk_point pkt i v r t) = real r" "tag (mk_point pkt i v r t) = of_nat t"
  by (auto simp: mk_point_def split: prod.splits)

definition point_bytes :: "nat \<Rightarrow> nat" where
  "point_bytes data_type = (if data_type = 1 then 14 else if data_type = 2 then 8 else 10)"

lemma field_bound: "off + n \<le> length bs \<Longrightarrow> \<exists>v. field off n bs = Some v"
  by (simp add: field_def)

lemma scaled_bound: "i < n \<Longrightarrow> n * c \<le> l \<Longrightarrow> c * i + c \<le> (l::nat)"
  by (metis add.commute le_trans mult.commute mult_Suc mult_le_mono1 Suc_leI)

lemma raw_high_defined:
  assumes "i < n" "n * 14 \<le> length bs"
  shows "raw_high bs i \<noteq> None"
proof -
  have "14 * i + 14 \<le> length bs" by (rule scaled_bound [OF assms])
  then show ?thesis by (simp add: raw_high_def field_def)
qed

lemma raw_low_defined:
  assumes "i < n" "n * 8 \<le> length bs"
  shows "raw_low bs i \<noteq> None"
proof -
  have "8 * i + 8 \<le> length bs" by (rule scaled_bound [OF assms])
  then show ?thesis by (simp add: raw_low_def field_def)
qed

lemma raw_spherical_defined:
  assumes "i < n" "n * 10 \<le> length bs"
  shows "raw_spherical bs i \<noteq> None"
proof -
  have "10 * i + 10 \<le> length bs" by (rule scaled_bound [OF assms])
  then show ?thesis by (simp add: raw_spherical_def field_def Let_def)
qed

definition decode_point :: "LidarPubHandler \<Rightarrow> RawPacket \<Rightarrow> nat \<Rightarrow> PointXyzlt option" where
  "decode_point h pkt =
     (if rp_data_type pkt = 1 then cartesian_point 1000 raw_high h pkt
      else if rp_data_type pkt = 2 then cartesian_point 100 raw_low h pkt else spherical_point h pkt)"

lemma decode_point_defined:
  assumes "i < n" "n * point_bytes (rp_data_type pkt) \<le> length (raw_data pkt)" "line_num pkt > 0"
  obtains p where "decode_point h pkt i = Some p" "line p = of_nat (i mod line_num pkt)"
    "offset_time p = time_stamp pkt + of_nat i * point_interval pkt"
proof -
  consider "rp_data_type pkt = 1" | "rp_data_type pkt = 2" | "rp_data_type pkt \<noteq> 1" "rp_data_type pkt \<noteq> 2" by blast
  then have "\<exists>p. decode_point h pkt i = Some p \<and> line p = of_nat (i mod line_num pkt)
      \<and> offset_time p = time_stamp pkt + of_nat i * point_interval pkt"
  proof cases
    case 1
    then obtain v r t where "raw_high (raw_data pkt) i = Some (v, r, t)"
      using raw_high_defined [of i n] assms by (fastforce simp: point_bytes_def)
    then show ?thesis using 1 assms(3) by (cases v) (simp add: decode_point_def cartesian_point_def)
  next
    case 2
    then obtain v r t where "raw_low (raw_data pkt) i = Some (v, r, t)"
      using raw_low_defined [of i n] assms by (fastforce simp: point_bytes_def)
    then show ?thesis using 2 assms(3) by (cases v) (simp add: decode_point_def cartesian_point_def)
  next
    case 3
    then obtain v r t where "raw_spherical (raw_data pkt) i = Some (v, r, t)"
      using raw_spherical_defined [of i n] assms by (fastforce simp: point_bytes_def)
    then show ?thesis using 3 assms(3) by (simp add: decode_point_def spherical_point_def)
  qed
  then show thesis using that by blast
qed

lemma process_is_push:
  assumes "rp_lidar_type pkt = kLivoxLidarType" "rp_data_type pkt \<in> {1, 2, 3}"
  shows "PointCloudProcess pkt h = push_points (decode_point h pkt) [0..<unat (point_num pkt)] h"
  using assms by (auto simp: PointCloudProcess_def LivoxLidarPointCloudProcess_def ProcessCartesianHighPoint_def
      ProcessCartesianLowPoint_def ProcessSphericalPoint_def decode_point_def)

lemma process_appends:
  "PointCloudProcess pkt h = Some h' \<Longrightarrow> \<exists>ps. h' = h\<lparr>points_clouds := points_clouds h @ ps\<rparr>"
  by (auto simp: PointCloudProcess_def LivoxLidarPointCloudProcess_def ProcessCartesianHighPoint_def
      ProcessCartesianLowPoint_def ProcessSphericalPoint_def split: if_splits dest!: push_points_Some)
     (metis append.right_neutral LidarPubHandler.surjective LidarPubHandler.update_convs(1))+

lemma PointCloudProcess_good:
  assumes "rp_lidar_type pkt = kLivoxLidarType" "rp_data_type pkt \<in> {1, 2, 3}" "line_num pkt > 0"
    "unat (point_num pkt) * point_bytes (rp_data_type pkt) \<le> length (raw_data pkt)"
  shows "PointCloudProcess pkt h
    = Some (h\<lparr>points_clouds := points_clouds h @ map (\<lambda>i. the (decode_point h pkt i)) [0..<unat (point_num pkt)]\<rparr>)"
  unfolding process_is_push [OF assms(1,2)]
proof (rule push_points_spec)
  fix i assume "i \<in> set [0..<unat (point_num pkt)]"
  then have "i < unat (point_num pkt)" by simp
  then show "decode_point h pkt i \<noteq> None"
    using decode_point_defined [OF _ assms(4,3)] by (metis option.distinct(1))
qed

end
