(* ===== verification/Pub_Props.thy ===== *)
theory Pub_Props
  imports Pub_Handler
begin

text \<open>
  What the point pipeline guarantees: decoding appends one point per announced dot with its
  line and time, the extrinsic transform is a rigid motion, and the publish timer hands every
  stored point out exactly once, in order.
\<close>

section \<open>The handler map\<close>

lemma find_put_handler [simp]:
  "find_handler k (put_handler j h hs) = (if k = j then Some h else find_handler k hs)"
  by (induction hs) auto

definition stored :: "32 word \<Rightarrow> PubHandler \<Rightarrow> PointXyzlt list" where
  "stored k h = (case find_handler k (handlers h) of None \<Rightarrow> [] | Some p \<Rightarrow> points_clouds p)"

definition entries_of :: "32 word \<Rightarrow> pub_frame \<Rightarrow> PointXyzlt list" where
  "entries_of k fr = concat (map (\<lambda>(b, j, pts). if j = k then pts else []) fr)"

definition published :: "32 word \<Rightarrow> pub_frame list \<Rightarrow> PointXyzlt list" where
  "published k frs = concat (map (entries_of k) frs)"

lemma entries_of_append [simp]: "entries_of k (fr @ gr) = entries_of k fr @ entries_of k gr"
  by (simp add: entries_of_def)

lemma entries_of_Nil [simp]: "entries_of k [] = []"
  by (simp add: entries_of_def)

lemma published_simps [simp]: "published k [] = []" "published k (fr # frs) = entries_of k fr @ published k frs"
  "published k (frs @ grs) = published k frs @ published k grs"
  by (simp_all add: published_def)

definition keys_ok :: "PubHandler \<Rightarrow> bool" where
  "keys_ok h \<longleftrightarrow> sorted_wrt (<) (map fst (handlers h))"

lemma put_handler_keys: "set (map fst (put_handler k h hs)) = insert k (set (map fst hs))"
proof (induction hs)
  case (Cons x hs)
  then show ?case by (cases x) (simp, metis insert_commute)
qed simp

lemma put_handler_sorted: "sorted_wrt (<) (map fst hs) \<Longrightarrow> sorted_wrt (<) (map fst (put_handler k h hs))"
proof (induction hs)
  case (Cons x hs)
  obtain j g where x: "x = (j, g)" by (cases x)
  consider "k < j" | "k = j" | "j < k" by fastforce
  then show ?case
  proof cases
    case 1
    then show ?thesis using Cons.prems x by auto
  next
    case 2
    then show ?thesis using Cons.prems x by auto
  next
    case 3
    have "\<And>y. y \<in> set (map fst (put_handler k h hs)) \<Longrightarrow> j < y"
      unfolding put_handler_keys using Cons.prems x 3 by auto
    then show ?thesis using Cons 3 x by (auto dest: less_not_sym)
  qed
qed simp

lemma find_handler_notin: "k \<notin> set (map fst hs) \<Longrightarrow> find_handler k hs = None"
  by (induction hs) auto

section \<open>Publishing\<close>

lemma collect_frame_spec:
  assumes "collect_frame hs fr = Some (fr', hs')" "sorted_wrt (<) (map fst hs)"
  shows "map fst hs' = map fst hs
    \<and> entries_of k fr' = entries_of k fr @ (case find_handler k hs of None \<Rightarrow> [] | Some p \<Rightarrow> points_clouds p)
    \<and> (\<forall>p. find_handler k hs' = Some p \<longrightarrow> points_clouds p = [])"
  using assms
proof (induction hs arbitrary: fr fr' hs')
  case (Cons x hs)
  obtain j g where x: "x = (j, g)" by (cases x)
  define fr1 where "fr1 = (if points_clouds g = [] then fr else fr @ [(GetLidarBaseTime g, j, points_clouds g)])"
  obtain gs where gs: "collect_frame hs fr1 = Some (fr', gs)" "hs' = (j, g\<lparr>points_clouds := []\<rparr>) # gs"
    using Cons.prems(1) by (auto simp: x fr1_def GetLidarPointClouds_def Let_def split: if_splits)
  have fr1: "entries_of k fr1 = entries_of k fr @ (if j = k then points_clouds g else [])"
    by (simp add: fr1_def entries_of_def)
  have notin: "j = k \<Longrightarrow> find_handler k hs = None"
    using Cons.prems(2) x by (intro find_handler_notin) auto
  show ?case using Cons.IH [OF gs(1)] Cons.prems(2) fr1 notin by (auto simp: x gs(2))
qed auto

lemma CheckTimer_conserves:
  assumes "CheckTimer lid now h = Some (h', frs)" "keys_ok h"
  shows "keys_ok h' \<and> published k frs @ stored k h' = stored k h \<and> raw_packet_queue h' = raw_packet_queue h"
proof (cases "is_timestamp_sync h")
  case True
  then have "check_timer_sync lid h = Some (h', frs)" using assms(1) by (simp add: CheckTimer_def)
  then show ?thesis using assms(2)
    by (auto simp: check_timer_sync_def Let_def GetLidarPointClouds_def stored_def keys_ok_def entries_of_def
        put_handler_sorted split: option.splits if_splits)
next
  case False
  then have c: "check_timer_free now h = Some (h', frs)" using assms(1) by (simp add: CheckTimer_def)
  show ?thesis
  proof (cases "first_check h \<or> int now - int (last_pub_time h) < int (publish_interval h)")
    case True
    then show ?thesis using c assms(2) by (auto simp: check_timer_free_def stored_def keys_ok_def split: if_splits)
  next
    case False
    then obtain fr hs where f: "collect_frame (handlers h) [] = Some (fr, hs)" "frs = [fr]"
      "h' = h\<lparr>last_pub_time := last_pub_time h + publish_interval h, handlers := hs\<rparr>"
      using c by (auto simp: check_timer_free_def)
    note spec = collect_frame_spec [OF f(1) assms(2) [unfolded keys_ok_def], of k]
    then show ?thesis using assms(2) by (auto simp: f keys_ok_def stored_def split: option.splits)
  qed
qed

text \<open>What the packet at the head of the queue contributes to lidar \<open>k\<close>, and all packets of a run.\<close>

definition arrived :: "32 word \<Rightarrow> PubHandler \<Rightarrow> PointXyzlt list" where
  "arrived k h =
     (case raw_packet_queue h of
        [] \<Rightarrow> []
      | raw # rest \<Rightarrow>
          if packet_lidar raw = k \<and> rp_lidar_type raw = kLivoxLidarType \<and> rp_data_type raw \<in> {1, 2, 3}
          then map (\<lambda>i. the (decode_point (round_handler raw h) raw i)) [0..<unat (point_num raw)] else [])"

fun all_arrived :: "32 word \<Rightarrow> nat list \<Rightarrow> PubHandler \<Rightarrow> PointXyzlt list" where
  "all_arrived k [] h = []"
| "all_arrived k (now # ts) h =
     arrived k h @ (case raw_data_round now h of None \<Rightarrow> [] | Some (h1, fs) \<Rightarrow> all_arrived k ts h1)"

lemma round_handler_points:
  "points_clouds (round_handler raw h) = stored (packet_lidar raw) h"
  by (auto simp: round_handler_def stored_def new_LidarPubHandler_def SetLidarsExtParam_def Let_def split: option.splits)

lemma process_any:
  assumes "PointCloudProcess raw p = Some p'"
  shows "points_clouds p' = points_clouds p @
    (if rp_lidar_type raw = kLivoxLidarType \<and> rp_data_type raw \<in> {1, 2, 3}
     then map (\<lambda>i. the (decode_point p raw i)) [0..<unat (point_num raw)] else [])"
proof (cases "rp_lidar_type raw = kLivoxLidarType \<and> rp_data_type raw \<in> {1, 2, 3}")
  case True
  then have "push_points (decode_point p raw) [0..<unat (point_num raw)] p = Some p'"
    using assms process_is_push by auto
  then have "p' = p\<lparr>points_clouds := points_clouds p @ map (\<lambda>i. the (decode_point p raw i)) [0..<unat (point_num raw)]\<rparr>"
    by (rule push_points_Some)
  then show ?thesis using True by simp
next
  case False
  then have "p' = p" using assms by (auto simp: PointCloudProcess_def LivoxLidarPointCloudProcess_def split: if_splits)
  then show ?thesis using False by auto
qed

lemma round_conserves_one:
  assumes "raw_data_round now h = Some (h', frs)" "keys_ok h"
  shows "keys_ok h' \<and> published k frs @ stored k h' = stored k h @ arrived k h"
proof (cases "raw_packet_queue h")
  case Nil
  then show ?thesis using assms by (simp add: raw_data_round_def arrived_def)
next
  case (Cons raw rest)
  then obtain p where p: "PointCloudProcess raw (round_handler raw h) = Some p"
    and c: "CheckTimer (packet_lidar raw) now
      (h\<lparr>raw_packet_queue := rest, handlers := put_handler (packet_lidar raw) p (handlers h)\<rparr>) = Some (h', frs)"
    using assms(1) by (auto simp: raw_data_round_def split: option.splits)
  let ?h = "h\<lparr>raw_packet_queue := rest, handlers := put_handler (packet_lidar raw) p (handlers h)\<rparr>"
  have "keys_ok ?h" using assms(2) by (simp add: keys_ok_def put_handler_sorted)
  note conserved = CheckTimer_conserves [OF c this]
  have "stored k ?h = stored k h @ arrived k h"
    using process_any [OF p] round_handler_points [of raw h] Cons by (auto simp: stored_def arrived_def)
  then show ?thesis using conserved by simp
qed

section \<open>Properties\<close>

definition demo_packet :: RawPacket where
  "demo_packet =
     \<lparr>rp_lidar_type = kLivoxLidarType, rp_handle = 7, extrinsic_enable = False, point_num = 2, rp_data_type = 2,
      line_num = 4, time_stamp = 100000000, point_interval = 10000,
      raw_data = le_bytes 2 100 @ le_bytes 2 200 @ le_bytes 2 300 @ [9, 0] @ le_bytes 2 65436 @ le_bytes 2 0 @ le_bytes 2 50 @ [8, 0]\<rparr>"

definition demo_pub :: PubHandler where
  "demo_pub =
     \<lparr>is_timestamp_sync = False, publish_interval = 100000000, publish_interval_tolerance = 99000000,
      publish_interval_ms = 100, first_check = False, last_pub_time = 0, handlers = [], lidar_extrinsics = Map.empty,
      raw_packet_queue = [demo_packet], imu_callback_set = True\<rparr>"

text \<open>
  C8. Whatever the timer decides, no point is lost, duplicated or reordered: over any number of
  rounds of the processing thread, the points of a lidar handed out in frames, followed by
  those still stored, are those stored at the start followed by those decoded from its packets
  in the order the packets were queued.
\<close>

theorem pipeline_conserves_points:
  assumes "RawDataProcess ts h = Some (h', frs)" "keys_ok h"
  shows "published k frs @ stored k h' = stored k h @ all_arrived k ts h"
  using assms
proof (induction ts arbitrary: h h' frs)
  case (Cons now ts)
  then obtain h1 fs gs where r: "raw_data_round now h = Some (h1, fs)"
    and s: "RawDataProcess ts h1 = Some (h', gs)" "frs = fs @ gs"
    by (auto split: option.splits)
  note one = round_conserves_one [OF r Cons.prems(2), of k]
  have "published k frs @ stored k h' = published k fs @ stored k h1 @ all_arrived k ts h1"
    using Cons.IH [OF s(1)] one s(2) by simp
  also have "\<dots> = stored k h @ arrived k h @ all_arrived k ts h1" using one by simp
  finally show ?case using r by simp
qed simp

lemma demo_packet_good:
  "rp_lidar_type demo_packet = kLivoxLidarType" "rp_data_type demo_packet \<in> {1, 2, 3}" "line_num demo_packet > 0"
  "unat (point_num demo_packet) * point_bytes (rp_data_type demo_packet) \<le> length (raw_data demo_packet)"
  by (simp_all add: demo_packet_def point_bytes_def)

lemma demo_round:
  "\<exists>h' fr. RawDataProcess [100000000] demo_pub = Some (h', [fr])"
proof -
  obtain p where "PointCloudProcess demo_packet (round_handler demo_packet demo_pub) = Some p"
    using PointCloudProcess_good [OF demo_packet_good] by blast
  then show ?thesis
    by (simp add: raw_data_round_def demo_pub_def CheckTimer_def check_timer_free_def kMaxSourceLidar_def GetLidarPointClouds_def)
qed

theorem pipeline_conserves_points_witness:
  "\<exists>h' fr. published 7 [fr] @ stored 7 h' = stored 7 demo_pub @ all_arrived 7 [100000000] demo_pub"
proof -
  obtain h' fr where r: "RawDataProcess [100000000] demo_pub = Some (h', [fr])" using demo_round by blast
  have "keys_ok demo_pub" by (simp add: keys_ok_def demo_pub_def)
  then show ?thesis using pipeline_conserves_points [OF r] by blast
qed

text \<open>
  C9. A packet of any of the three point formats whose buffer holds the announced number of
  points is decoded completely: exactly that many points are appended to its lidar's cloud,
  the \<open>i\<close>-th on scan line \<open>i mod line_num\<close> and stamped \<open>time_stamp + i * point_interval\<close>.
\<close>

theorem packets_decoded_completely:
  assumes "rp_lidar_type pkt = kLivoxLidarType" "rp_data_type pkt \<in> {1, 2, 3}" "line_num pkt > 0"
    and "unat (point_num pkt) * point_bytes (rp_data_type pkt) \<le> length (raw_data pkt)"
  shows "\<exists>ps. PointCloudProcess pkt h = Some (h\<lparr>points_clouds := points_clouds h @ ps\<rparr>)
    \<and> length ps = unat (point_num pkt)
    \<and> (\<forall>i < length ps. line (ps ! i) = of_nat (i mod line_num pkt)
         \<and> offset_time (ps ! i) = time_stamp pkt + of_nat i * point_interval pkt)"
proof (intro exI conjI allI impI)
  show "PointCloudProcess pkt h
      = Some (h\<lparr>points_clouds := points_clouds h @ map (\<lambda>i. the (decode_point h pkt i)) [0..<unat (point_num pkt)]\<rparr>)"
    by (rule PointCloudProcess_good [OF assms])
  fix i assume "i < length (map (\<lambda>i. the (decode_point h pkt i)) [0..<unat (point_num pkt)])"
  then have i: "i < unat (point_num pkt)" by simp
  obtain p where "decode_point h pkt i = Some p" "line p = of_nat (i mod line_num pkt)"
    "offset_time p = time_stamp pkt + of_nat i * point_interval pkt"
    using decode_point_defined [OF i assms(4,3)] by blast
  then show "line (map (\<lambda>i. the (decode_point h pkt i)) [0..<unat (point_num pkt)] ! i) = of_nat (i mod line_num pkt)"
    "offset_time (map (\<lambda>i. the (decode_point h pkt i)) [0..<unat (point_num pkt)] ! i)
      = time_stamp pkt + of_nat i * point_interval pkt"
    using i by simp_all
qed simp

theorem packets_decoded_completely_witness:
  "\<exists>ps. PointCloudProcess demo_packet new_LidarPubHandler
      = Some (new_LidarPubHandler\<lparr>points_clouds := points_clouds new_LidarPubHandler @ ps\<rparr>) \<and> length ps = 2"
  using packets_decoded_completely [OF demo_packet_good, of new_LidarPubHandler] by (auto simp: demo_packet_def)

text \<open>
  The configured extrinsic transform is a rigid motion: whatever the roll, pitch and yaw,
  the rotation it stores preserves dot products, hence distances and angles between points.
\<close>

theorem extrinsic_is_rotation:
  assumes "\<not> is_set_extrinsic_params h"
  shows "dot (rotate (extrinsic (SetLidarsExtParam p h)) u) (rotate (extrinsic (SetLidarsExtParam p h)) v) = dot u v"
proof -
  obtain u1 u2 u3 v1 v2 v3 where uv: "u = (u1, u2, u3)" "v = (v1, v2, v3)" by (metis prod_cases3)
  define cr cp cy sr sp sy where trig:
    "cr = cos (ext_roll p * pi / 180)" "cp = cos (ext_pitch p * pi / 180)" "cy = cos (ext_yaw p * pi / 180)"
    "sr = sin (ext_roll p * pi / 180)" "sp = sin (ext_pitch p * pi / 180)" "sy = sin (ext_yaw p * pi / 180)"
  have unit: "sr^2 + cr^2 = 1" "sp^2 + cp^2 = 1" "sy^2 + cy^2 = 1" by (simp_all add: trig)
  have c12: "cp*cy*(sr*sp*cy - cr*sy) + cp*sy*(sr*sp*sy + cr*cy) - sp*(sr*cp) = 0"
    and c13: "cp*cy*(cr*sp*cy + sr*sy) + cp*sy*(cr*sp*sy - sr*cy) - sp*(cr*cp) = 0"
    and c23: "(sr*sp*cy - cr*sy)*(cr*sp*cy + sr*sy) + (sr*sp*sy + cr*cy)*(cr*sp*sy - sr*cy) + sr*cp*(cr*cp) = 0"
    and c11: "(cp*cy)^2 + (cp*sy)^2 + sp^2 = 1"
    and c22: "(sr*sp*cy - cr*sy)^2 + (sr*sp*sy + cr*cy)^2 + (sr*cp)^2 = 1"
    and c33: "(cr*sp*cy + sr*sy)^2 + (cr*sp*sy - sr*cy)^2 + (cr*cp)^2 = 1"
    using unit by algebra+
  have "dot (rotate (extrinsic (SetLidarsExtParam p h)) u) (rotate (extrinsic (SetLidarsExtParam p h)) v)
    = u1*v1 * ((cp*cy)^2 + (cp*sy)^2 + sp^2)
    + u2*v2 * ((sr*sp*cy - cr*sy)^2 + (sr*sp*sy + cr*cy)^2 + (sr*cp)^2)
    + u3*v3 * ((cr*sp*cy + sr*sy)^2 + (cr*sp*sy - sr*cy)^2 + (cr*cp)^2)
    + (u1*v2 + u2*v1) * (cp*cy*(sr*sp*cy - cr*sy) + cp*sy*(sr*sp*sy + cr*cy) - sp*(sr*cp))
    + (u1*v3 + u3*v1) * (cp*cy*(cr*sp*cy + sr*sy) + cp*sy*(cr*sp*sy - sr*cy) - sp*(cr*cp))
    + (u2*v3 + u3*v2) * ((sr*sp*cy - cr*sy)*(cr*sp*cy + sr*sy) + (sr*sp*sy + cr*cy)*(cr*sp*sy - sr*cy) + sr*cp*(cr*cp))"
    using assms unfolding uv SetLidarsExtParam_def Let_def trig by (simp add: algebra_simps power2_eq_square)
  also have "\<dots> = u1*v1 + u2*v2 + u3*v3" unfolding c11 c22 c33 c12 c13 c23 by simp
  finally show ?thesis by (simp add: uv algebra_simps)
qed

theorem extrinsic_is_rotation_witness:
  "dot (rotate (extrinsic (SetLidarsExtParam
        \<lparr>ext_roll = 90, ext_pitch = 0, ext_yaw = 45, ext_x = 10, ext_y = 0, ext_z = 5\<rparr> new_LidarPubHandler)) (1, 2, 3))
     (rotate (extrinsic (SetLidarsExtParam
        \<lparr>ext_roll = 90, ext_pitch = 0, ext_yaw = 45, ext_x = 10, ext_y = 0, ext_z = 5\<rparr> new_LidarPubHandler)) (3, 2, 1)) = 10"
  using extrinsic_is_rotation [of new_LidarPubHandler _ "(1, 2, 3)" "(3, 2, 1)"] by (simp add: new_LidarPubHandler_def)

text \<open>
  With clock synchronisation the timer publishes single-lidar frames cut at the configured
  rhythm: the frame starts at its first point's stamp, spans at least the tolerated interval,
  and its last point falls on a whole multiple of the publish interval in milliseconds.
\<close>

theorem sync_frames_are_cut:
  assumes "is_timestamp_sync h" "CheckTimer lid now h = Some (h', frs)" "fr \<in> set frs"
  shows "\<exists>pts. fr = [(offset_time (hd pts), lid, pts)] \<and> pts = stored lid h \<and> pts \<noteq> []
    \<and> publish_interval_tolerance h \<le> offset_time (last pts) - offset_time (hd pts)
    \<and> unat (offset_time (last pts)) div kRatioOfMsToNs mod publish_interval_ms h = 0"
  using assms
  by (auto simp: CheckTimer_def check_timer_sync_def GetLidarPointClouds_def GetRecentTimeStamp_def GetLidarBaseTime_def
      stored_def Let_def not_less split: option.splits if_splits list.splits)

theorem sync_frames_are_cut_witness:
  "\<exists>pts. [(100000000 :: 64 word, 7 :: 32 word, [\<lparr>pt_x = 0, pt_y = 0, pt_z = 0, intensity = 1, tag = 0, line = 0, offset_time = 100000000\<rparr>,
           \<lparr>pt_x = 0, pt_y = 0, pt_z = 0, intensity = 1, tag = 0, line = 1, offset_time = 200000000\<rparr>])]
     = [(offset_time (hd pts), 7, pts)]"
proof -
  define pts where "pts = [\<lparr>pt_x = 0, pt_y = 0, pt_z = 0, intensity = 1, tag = 0, line = 0, offset_time = 100000000\<rparr>,
    \<lparr>pt_x = 0, pt_y = 0, pt_z = 0, intensity = 1, tag = 0, line = 1, offset_time = 200000000\<rparr>]"
  define h where "h = demo_pub\<lparr>is_timestamp_sync := True, handlers := [(7, new_LidarPubHandler\<lparr>points_clouds := pts\<rparr>)]\<rparr>"
  have "is_timestamp_sync h" by (simp add: h_def)
  moreover have "\<exists>h'. CheckTimer 7 0 h = Some (h', [[(100000000, 7, pts)]])"
    by (simp add: h_def demo_pub_def pts_def CheckTimer_def check_timer_sync_def GetLidarPointClouds_def GetRecentTimeStamp_def
        GetLidarBaseTime_def kRatioOfMsToNs_def)
  ultimately obtain qs where "[(100000000, 7, pts)] = [(offset_time (hd qs), 7 :: 32 word, qs)]"
    using sync_frames_are_cut by (metis list.set_intros(1))
  then show ?thesis unfolding pts_def by blast
qed

lemma collect_frame_None:
  "collect_frame hs fr = None \<longleftrightarrow>
     hs \<noteq> [] \<and> length fr + length (filter (\<lambda>(k, p). points_clouds p \<noteq> []) (butlast hs)) \<ge> kMaxSourceLidar"
  by (induction hs arbitrary: fr) (auto simp: GetLidarPointClouds_def split: if_splits)

text \<open>
  The 32-entry frame overflows exactly when 32 lidars with points precede a further
  lidar's handler (nothing limits the handlers to 32): otherwise the unsynchronised timer
  always returns, and in the overflow case it writes past the end of the frame's arrays.
\<close>

theorem frame_overflow_exactly:
  "check_timer_free now h = None \<longleftrightarrow>
     \<not> first_check h \<and> int (publish_interval h) \<le> int now - int (last_pub_time h) \<and> handlers h \<noteq> []
     \<and> length (filter (\<lambda>(k, p). points_clouds p \<noteq> []) (butlast (handlers h))) \<ge> kMaxSourceLidar"
  by (auto simp: check_timer_free_def collect_frame_None)

text \<open>
  A lidar without configured extrinsics is not left in its own frame: the built-in default
  transform adds the z coordinate to y.
\<close>

theorem default_extrinsic_shears:
  "rotate (extrinsic new_LidarPubHandler) (x, y, z) = (x, y + z, z)"
  by (simp add: new_LidarPubHandler_def default_extrinsic_def)

text \<open>
  For every publish frequency the node lets through (0.5 to 100 Hz) the timer's
  parameters are sound: the interval in milliseconds is between 10 and 2000, so the timer's
  modulo never divides by zero, and the tolerance does not wrap around.
\<close>

theorem publish_config_bounds:
  assumes "1/2 \<le> freq" "freq \<le> 100"
  shows "publish_interval_ms (SetPointCloudConfig freq h) \<in> {10..2000}
    \<and> unat (publish_interval_tolerance (SetPointCloudConfig freq h)) + 1000000 = publish_interval (SetPointCloudConfig freq h)"
proof -
  define x where "x = real kNsPerSecond / (freq * 10) * 10"
  define i where "i = nat \<lfloor>x\<rfloor>"
  have "10000000 \<le> x" "x \<le> 2000000000"
    using assms by (simp_all add: x_def kNsPerSecond_def field_simps)
  then have i: "10000000 \<le> i" "i \<le> 2000000000" unfolding i_def by linarith+
  have "(10000000::nat) div 1000000 \<le> i div 1000000" using i(1) by (intro div_le_mono) simp
  moreover have "i div 1000000 \<le> 2000000000 div 1000000" using i(2) by (intro div_le_mono)
  moreover have "unat (of_nat i - 1000000 :: 64 word) = i - 1000000"
  proof -
    have e: "(of_nat i - 1000000 :: 64 word) = of_nat (i - 1000000)" using i by (simp add: of_nat_diff)
    show ?thesis unfolding e unat_of_nat using i by simp
  qed
  ultimately show ?thesis
    unfolding SetPointCloudConfig_def x_def [symmetric] i_def [symmetric] using i
    by (simp add: Let_def kRatioOfMsToNs_def)
qed

theorem publish_config_bounds_witness:
  "publish_interval_ms (SetPointCloudConfig 10 demo_pub) \<in> {10..2000}"
  using publish_config_bounds [of 10 demo_pub] by simp

end
