(* ===== verification/Lio_Sync.thy ===== *)
theory Lio_Sync
  imports KD_Types
begin

text \<open>
  The input side of FAST-LIO (laserMapping.cpp): the scan and IMU callbacks fill three buffers,
  and \<open>sync_packages\<close> cuts them into packages of one scan and the IMU samples up to its end.
\<close>

section \<open>Data\<close>

text \<open>A point of a scan; \<open>curvature\<close> carries its time offset in milliseconds.\<close>

record PointType =
  pxyz :: point3
  pt_intensity :: real
  curvature :: real

type_synonym scan = "PointType list"

record imu_msg =
  stamp :: real
  imu_acc :: point3
  imu_gyr :: point3

record MeasureGroup =
  lidar_beg_time :: real
  meas_lidar_end_time :: real
  meas_lidar :: scan
  meas_imu :: "imu_msg list"

record lio_input =
  lidar_buffer :: "scan list"
  time_buffer :: "real list"
  imu_buffer :: "imu_msg list"
  last_timestamp_lidar :: real
  last_timestamp_imu :: real
  is_first_lidar :: bool
  lidar_pushed :: bool
  lidar_end_time :: real
  lidar_mean_scantime :: real
  scan_num :: nat
  timediff_lidar_wrt_imu :: real
  timediff_set_flg :: bool
  time_sync_en :: bool
  time_diff_lidar_to_imu :: real
  Measures :: MeasureGroup

definition init_input :: "bool \<Rightarrow> real \<Rightarrow> lio_input" where
  "init_input sync_en diff =
     \<lparr>lidar_buffer = [], time_buffer = [], imu_buffer = [], last_timestamp_lidar = 0, last_timestamp_imu = - 1,
      is_first_lidar = True, lidar_pushed = False, lidar_end_time = 0, lidar_mean_scantime = 0, scan_num = 0,
      timediff_lidar_wrt_imu = 0, timediff_set_flg = False, time_sync_en = sync_en, time_diff_lidar_to_imu = diff,
      Measures = \<lparr>lidar_beg_time = 0, meas_lidar_end_time = 0, meas_lidar = [], meas_imu = []\<rparr>\<rparr>"

text \<open>A time in seconds through the ROS message and back: whole nanoseconds, rounded down.\<close>

definition get_ros_time :: "real \<Rightarrow> real" where
  "get_ros_time t = of_int \<lfloor>t\<rfloor> + of_int \<lfloor>(t - of_int \<lfloor>t\<rfloor>) * 10 ^ 9\<rfloor> / 10 ^ 9"

section \<open>The callbacks\<close>

text \<open>
  A scan that is older than the last one empties the scan buffer; \<open>ptr\<close> is the scan after
  preprocessing.
\<close>

definition loop_back :: "real \<Rightarrow> lio_input \<Rightarrow> lio_input" where
  "loop_back cur_time s =
     (if \<not> is_first_lidar s \<and> cur_time < last_timestamp_lidar s then s\<lparr>lidar_buffer := []\<rparr> else s)
       \<lparr>is_first_lidar := False\<rparr>"

definition standard_pcl_cbk :: "real \<Rightarrow> scan \<Rightarrow> lio_input \<Rightarrow> lio_input" where
  "standard_pcl_cbk cur_time ptr s =
     (let s1 = loop_back cur_time s
      in s1\<lparr>lidar_buffer := lidar_buffer s1 @ [ptr], time_buffer := time_buffer s1 @ [cur_time],
            last_timestamp_lidar := cur_time\<rparr>)"

definition self_sync :: "lio_input \<Rightarrow> lio_input" where
  "self_sync s =
     (if time_sync_en s \<and> \<not> timediff_set_flg s \<and> \<bar>last_timestamp_lidar s - last_timestamp_imu s\<bar> > 1 \<and> imu_buffer s \<noteq> []
      then s\<lparr>timediff_set_flg := True,
             timediff_lidar_wrt_imu := last_timestamp_lidar s + 1 / 10 - last_timestamp_imu s\<rparr>
      else s)"

definition livox_pcl_cbk :: "real \<Rightarrow> scan \<Rightarrow> lio_input \<Rightarrow> lio_input" where
  "livox_pcl_cbk cur_time ptr s =
     (let s1 = self_sync ((loop_back cur_time s)\<lparr>last_timestamp_lidar := cur_time\<rparr>)
      in s1\<lparr>lidar_buffer := lidar_buffer s1 @ [ptr], time_buffer := time_buffer s1 @ [last_timestamp_lidar s1]\<rparr>)"

text \<open>\<open>rclcpp::Time\<close> of a real number takes it for whole nanoseconds; here its value in seconds again.\<close>

definition ros_time_of_double :: "real \<Rightarrow> real" where
  "ros_time_of_double x = of_int (if x < 0 then \<lceil>x\<rceil> else \<lfloor>x\<rfloor>) / 10 ^ 9"

definition imu_stamp :: "lio_input \<Rightarrow> real \<Rightarrow> real" where
  "imu_stamp s t =
     (if \<bar>timediff_lidar_wrt_imu s\<bar> > 1 / 10 \<and> time_sync_en s then ros_time_of_double (timediff_lidar_wrt_imu s + t)
      else get_ros_time (t - time_diff_lidar_to_imu s))"

definition imu_cbk :: "imu_msg \<Rightarrow> lio_input \<Rightarrow> lio_input" where
  "imu_cbk msg_in s =
     (let msg = msg_in\<lparr>stamp := imu_stamp s (stamp msg_in)\<rparr>;
          s1 = (if stamp msg < last_timestamp_imu s then s\<lparr>imu_buffer := []\<rparr> else s)
      in s1\<lparr>last_timestamp_imu := stamp msg, imu_buffer := imu_buffer s1 @ [msg]\<rparr>)"

section \<open>Packages\<close>

text \<open>The first part of \<open>sync_packages\<close>; \<open>None\<close> is a front access to an empty buffer.\<close>

definition push_scan :: "lio_input \<Rightarrow> lio_input option" where
  "push_scan s =
     (case (lidar_buffer s, time_buffer s) of
        (sc # scs, t # ts) \<Rightarrow>
          let m = (Measures s)\<lparr>meas_lidar := sc, lidar_beg_time := t\<rparr>;
              s1 = (if length sc \<le> 1 \<or> curvature (last sc) / 1000 < 1 / 2 * lidar_mean_scantime s
                    then s\<lparr>lidar_end_time := t + lidar_mean_scantime s\<rparr>
                    else let d = curvature (last sc) / 1000
                         in s\<lparr>scan_num := scan_num s + 1, lidar_end_time := t + d,
                              lidar_mean_scantime := lidar_mean_scantime s + (d - lidar_mean_scantime s) / real (scan_num s + 1)\<rparr>)
          in Some (s1\<lparr>Measures := m\<lparr>meas_lidar_end_time := lidar_end_time s1\<rparr>, lidar_pushed := True\<rparr>)
      | _ \<Rightarrow> None)"

text \<open>
  The loop that moves IMU samples: \<open>imu_time\<close> is the stamp of the sample moved last, at first
  that of the front.  What is moved, and what stays.
\<close>

fun take_imu :: "real \<Rightarrow> real \<Rightarrow> imu_msg list \<Rightarrow> imu_msg list \<times> imu_msg list" where
  "take_imu end_time imu_time [] = ([], [])"
| "take_imu end_time imu_time (m # ms) =
     (if imu_time < end_time then
        (if stamp m > end_time then ([], m # ms)
         else let (xs, ys) = take_imu end_time (stamp m) ms in (m # xs, ys))
      else ([], m # ms))"

text \<open>\<open>Some (s, ready)\<close>: the state after the call and whether a package is in \<open>Measures\<close>.\<close>

definition sync_packages :: "lio_input \<Rightarrow> (lio_input \<times> bool) option" where
  "sync_packages s =
     (if lidar_buffer s = [] \<or> imu_buffer s = [] then Some (s, False)
      else case (if lidar_pushed s then Some s else push_scan s) of
             None \<Rightarrow> None
           | Some s1 \<Rightarrow>
               if last_timestamp_imu s1 < lidar_end_time s1 then Some (s1, False)
               else if time_buffer s1 = [] then None
               else let (xs, ys) = take_imu (lidar_end_time s1) (stamp (hd (imu_buffer s1))) (imu_buffer s1)
                    in Some (s1\<lparr>Measures := (Measures s1)\<lparr>meas_imu := xs\<rparr>, imu_buffer := ys,
                                lidar_buffer := tl (lidar_buffer s1), time_buffer := tl (time_buffer s1),
                                lidar_pushed := False\<rparr>, True))"

section \<open>Runs\<close>

datatype input_event = Standard_Scan real scan | Livox_Scan real scan | Imu_Sample imu_msg | Sync

type_synonym package = "real \<times> scan"

fun input_step :: "input_event \<Rightarrow> lio_input \<Rightarrow> (lio_input \<times> package list) option" where
  "input_step (Standard_Scan t sc) s = Some (standard_pcl_cbk t sc s, [])"
| "input_step (Livox_Scan t sc) s = Some (livox_pcl_cbk t sc s, [])"
| "input_step (Imu_Sample m) s = Some (imu_cbk m s, [])"
| "input_step Sync s =
     (case sync_packages s of
        None \<Rightarrow> None
      | Some (s1, ready) \<Rightarrow> Some (s1, if ready then [(lidar_beg_time (Measures s1), meas_lidar (Measures s1))] else []))"

fun input_run :: "input_event list \<Rightarrow> lio_input \<Rightarrow> (lio_input \<times> package list) option" where
  "input_run [] s = Some (s, [])"
| "input_run (e # es) s =
     (case input_step e s of
        None \<Rightarrow> None
      | Some (s1, ps) \<Rightarrow> map_option (\<lambda>(s2, qs). (s2, ps @ qs)) (input_run es s1))"

text \<open>The scans of a run, with the times they came with.\<close>

fun scans_of :: "input_event list \<Rightarrow> package list" where
  "scans_of [] = []"
| "scans_of (Standard_Scan t sc # es) = (t, sc) # scans_of es"
| "scans_of (Livox_Scan t sc # es) = (t, sc) # scans_of es"
| "scans_of (Imu_Sample m # es) = scans_of es"
| "scans_of (Sync # es) = scans_of es"

section \<open>What the input side guarantees\<close>

lemma self_sync_simps [simp]:
  "lidar_buffer (self_sync s) = lidar_buffer s" "time_buffer (self_sync s) = time_buffer s"
  "last_timestamp_lidar (self_sync s) = last_timestamp_lidar s" "is_first_lidar (self_sync s) = is_first_lidar s"
  "lidar_pushed (self_sync s) = lidar_pushed s" "Measures (self_sync s) = Measures s" "imu_buffer (self_sync s) = imu_buffer s"
  by (simp_all add: self_sync_def)

lemma push_scan_spec:
  assumes "push_scan s = Some s1"
  shows "lidar_buffer s1 = lidar_buffer s" "time_buffer s1 = time_buffer s" "imu_buffer s1 = imu_buffer s"
    "last_timestamp_imu s1 = last_timestamp_imu s" "last_timestamp_lidar s1 = last_timestamp_lidar s"
    "is_first_lidar s1 = is_first_lidar s" "lidar_pushed s1"
    "meas_lidar (Measures s1) = hd (lidar_buffer s)" "lidar_beg_time (Measures s1) = hd (time_buffer s)"
  using assms by (auto simp: push_scan_def Let_def split: list.splits if_splits)

lemma push_scan_some: "lidar_buffer s \<noteq> [] \<Longrightarrow> time_buffer s \<noteq> [] \<Longrightarrow> \<exists>s1. push_scan s = Some s1"
  by (auto simp: push_scan_def neq_Nil_conv Let_def)

text \<open>The state from which \<open>sync_packages\<close> decides: the front scan is in \<open>Measures\<close>.\<close>

definition pushed :: "lio_input \<Rightarrow> lio_input option" where
  "pushed s = (if lidar_pushed s then Some s else push_scan s)"

lemma sync_cases:
  assumes "sync_packages s = Some (s', ready)"
  obtains (idle) "s' = s" "\<not> ready" "lidar_buffer s = [] \<or> imu_buffer s = []"
  | (wait) "pushed s = Some s'" "\<not> ready" "lidar_buffer s \<noteq> []"
  | (full) s1 xs ys where "pushed s = Some s1" "ready" "lidar_buffer s \<noteq> []" "imu_buffer s1 \<noteq> []" "time_buffer s1 \<noteq> []"
      "lidar_end_time s1 \<le> last_timestamp_imu s1"
      "take_imu (lidar_end_time s1) (stamp (hd (imu_buffer s1))) (imu_buffer s1) = (xs, ys)"
      "s' = s1\<lparr>Measures := (Measures s1)\<lparr>meas_imu := xs\<rparr>, imu_buffer := ys,
              lidar_buffer := tl (lidar_buffer s1), time_buffer := tl (time_buffer s1), lidar_pushed := False\<rparr>"
  using assms push_scan_spec(3)
  by (fastforce simp: sync_packages_def pushed_def Let_def split: if_splits option.splits prod.splits)

text \<open>The buffers hold the scans \<open>pend\<close>, and a pushed scan is the first of them.\<close>

definition holds :: "lio_input \<Rightarrow> package list \<Rightarrow> bool" where
  "holds s pend \<longleftrightarrow> lidar_buffer s = map snd pend \<and> time_buffer s = map fst pend
     \<and> (lidar_pushed s \<longrightarrow> pend \<noteq> [] \<and> (lidar_beg_time (Measures s), meas_lidar (Measures s)) = hd pend)"

definition in_order :: "lio_input \<Rightarrow> input_event list \<Rightarrow> bool" where
  "in_order s es \<longleftrightarrow> sorted (map fst (scans_of es))
     \<and> (is_first_lidar s \<or> (\<forall>p \<in> set (scans_of es). last_timestamp_lidar s \<le> fst p))"

lemma in_order_back: "in_order s (Standard_Scan t sc # es) \<Longrightarrow> loop_back t s = s\<lparr>is_first_lidar := False\<rparr>"
  "in_order s (Livox_Scan t sc # es) \<Longrightarrow> loop_back t s = s\<lparr>is_first_lidar := False\<rparr>"
  by (auto simp: in_order_def loop_back_def)

lemma holds_append:
  "holds s pend \<Longrightarrow> lidar_buffer s' = lidar_buffer s @ [sc] \<Longrightarrow> time_buffer s' = time_buffer s @ [t] \<Longrightarrow>
   lidar_pushed s' = lidar_pushed s \<Longrightarrow> Measures s' = Measures s \<Longrightarrow> holds s' (pend @ [(t, sc)])"
  by (auto simp: holds_def)

lemma pushed_holds:
  assumes "pushed s = Some s1" "holds s pend" "lidar_buffer s \<noteq> []"
  shows "holds s1 pend" "(lidar_beg_time (Measures s1), meas_lidar (Measures s1)) = hd pend"
    "is_first_lidar s1 = is_first_lidar s" "last_timestamp_lidar s1 = last_timestamp_lidar s"
  using assms push_scan_spec [of s s1]
  by (auto simp: pushed_def holds_def hd_map prod_eq_iff split: if_splits)

lemma sync_holds:
  assumes "sync_packages s = Some (s', ready)" "holds s pend"
  shows "\<exists>pend'. holds s' pend'
      \<and> (if ready then [(lidar_beg_time (Measures s'), meas_lidar (Measures s'))] else []) @ pend' = pend
      \<and> is_first_lidar s' = is_first_lidar s \<and> last_timestamp_lidar s' = last_timestamp_lidar s"
  using assms(1)
proof (cases rule: sync_cases)
  case idle
  then show ?thesis using assms(2) by auto
next
  case wait
  then show ?thesis using pushed_holds [OF wait(1) assms(2) wait(3)] by auto
next
  case (full s1 xs ys)
  note P = pushed_holds [OF full(1) assms(2) full(3)]
  have "pend \<noteq> []" using full(3) assms(2) by (auto simp: holds_def)
  then have "holds s' (tl pend)" "(lidar_beg_time (Measures s'), meas_lidar (Measures s')) # tl pend = pend"
    using P(1,2) unfolding full(8) by (auto simp: holds_def map_tl)
  then show ?thesis using P(3,4) full(2) unfolding full(8) by auto
qed

lemma step_in_order:
  assumes "input_step e s = Some (s1, ps)" "holds s pend" "in_order s (e # es)"
  shows "\<exists>pend1. holds s1 pend1 \<and> ps @ pend1 = pend @ scans_of [e] \<and> in_order s1 es"
proof (cases e)
  case (Standard_Scan t sc)
  then have s1: "s1 = s\<lparr>is_first_lidar := False, lidar_buffer := lidar_buffer s @ [sc], time_buffer := time_buffer s @ [t],
      last_timestamp_lidar := t\<rparr>" "ps = []"
    using assms(1) in_order_back(1) [of s t sc es] assms(3) by (auto simp: standard_pcl_cbk_def Let_def)
  have "holds s1 (pend @ [(t, sc)])" by (rule holds_append [OF assms(2)]) (simp_all add: s1)
  moreover have "in_order s1 es" using assms(3) Standard_Scan by (auto simp: in_order_def s1)
  ultimately show ?thesis using Standard_Scan s1(2) by auto
next
  case (Livox_Scan t sc)
  then have s1: "s1 = livox_pcl_cbk t sc s" "ps = []" using assms(1) by auto
  have b: "loop_back t s = s\<lparr>is_first_lidar := False\<rparr>" using in_order_back(2) assms(3) Livox_Scan by blast
  have "holds s1 (pend @ [(t, sc)])"
    by (rule holds_append [OF assms(2)]) (simp_all add: s1 livox_pcl_cbk_def b Let_def)
  moreover have "in_order s1 es"
    using assms(3) Livox_Scan by (auto simp: in_order_def s1 livox_pcl_cbk_def b Let_def)
  ultimately show ?thesis using Livox_Scan s1(2) by auto
next
  case (Imu_Sample m)
  then have "s1 = imu_cbk m s" "ps = []" using assms(1) by auto
  then show ?thesis using assms(2,3) Imu_Sample by (auto simp: imu_cbk_def Let_def holds_def in_order_def)
next
  case Sync
  obtain ready where r: "sync_packages s = Some (s1, ready)"
    "ps = (if ready then [(lidar_beg_time (Measures s1), meas_lidar (Measures s1))] else [])"
    using assms(1) Sync by (auto split: option.splits prod.splits)
  obtain pend' where "holds s1 pend'" "ps @ pend' = pend" "is_first_lidar s1 = is_first_lidar s"
    "last_timestamp_lidar s1 = last_timestamp_lidar s"
    using sync_holds [OF r(1) assms(2)] r(2) by auto
  then show ?thesis using assms(3) Sync by (auto simp: in_order_def)
qed

lemma run_in_order:
  "input_run es s = Some (s', outs) \<Longrightarrow> holds s pend \<Longrightarrow> in_order s es \<Longrightarrow>
   \<exists>pend'. holds s' pend' \<and> outs @ pend' = pend @ scans_of es"
proof (induction es arbitrary: s s' outs pend)
  case (Cons e es)
  obtain s1 ps qs where r: "input_step e s = Some (s1, ps)" "input_run es s1 = Some (s', qs)" "outs = ps @ qs"
    using Cons.prems(1) by (auto split: option.splits prod.splits)
  obtain pend1 where p1: "holds s1 pend1" "ps @ pend1 = pend @ scans_of [e]" "in_order s1 es"
    using step_in_order [OF r(1) Cons.prems(2,3)] by blast
  obtain pend' where p': "holds s' pend'" "qs @ pend' = pend1 @ scans_of es"
    using Cons.IH [OF r(2) p1(1,3)] by blast
  have "outs @ pend' = pend @ scans_of [e] @ scans_of es" using r(3) p1(2) p'(2) by (metis append.assoc)
  also have "scans_of [e] @ scans_of es = scans_of (e # es)" by (cases e) auto
  finally show ?case using p'(1) by blast
qed auto

text \<open>The time buffer is never shorter than the scan buffer, loop-backs included.\<close>

definition times_cover :: "lio_input \<Rightarrow> bool" where
  "times_cover s \<longleftrightarrow> length (lidar_buffer s) \<le> length (time_buffer s)"

lemma step_total:
  assumes "times_cover s"
  shows "\<exists>s1 ps. input_step e s = Some (s1, ps) \<and> times_cover s1"
proof (cases e)
  case Sync
  show ?thesis
  proof (cases "lidar_buffer s = [] \<or> imu_buffer s = []")
    case True
    then show ?thesis using assms Sync by (auto simp: sync_packages_def)
  next
    case False
    then have "time_buffer s \<noteq> []" using assms by (auto simp: times_cover_def)
    then obtain s1 where s1: "pushed s = Some s1" "lidar_buffer s1 = lidar_buffer s" "time_buffer s1 = time_buffer s"
      using push_scan_some [of s] push_scan_spec(1,2) [of s] False unfolding pushed_def by metis
    show ?thesis
    proof (cases "last_timestamp_imu s1 < lidar_end_time s1")
      case True
      then show ?thesis using s1 False Sync assms by (simp add: sync_packages_def pushed_def [symmetric] times_cover_def)
    next
      case False
      then show ?thesis using s1 \<open>\<not> (lidar_buffer s = [] \<or> imu_buffer s = [])\<close> \<open>time_buffer s \<noteq> []\<close> Sync assms
        by (auto simp: sync_packages_def pushed_def [symmetric] times_cover_def split: prod.splits)
    qed
  qed
qed (use assms in \<open>auto simp: standard_pcl_cbk_def livox_pcl_cbk_def imu_cbk_def loop_back_def times_cover_def Let_def\<close>)

lemma run_total: "times_cover s \<Longrightarrow> \<exists>s' outs. input_run es s = Some (s', outs)"
proof (induction es arbitrary: s)
  case (Cons e es)
  then show ?case using step_total [OF Cons.prems, of e] by fastforce
qed simp

section \<open>Properties\<close>

text \<open>
  C20. The input side of FAST-LIO never reads an empty buffer, and as long as the scans come in
  order of time it delivers every scan exactly once, in order and with its own time stamp: the
  packages delivered, followed by what is still buffered, are the scans received.
\<close>

theorem packages_are_the_scans:
  "\<exists>s outs. input_run es (init_input en diff) = Some (s, outs)
     \<and> (sorted (map fst (scans_of es)) \<longrightarrow> outs @ zip (time_buffer s) (lidar_buffer s) = scans_of es)"
proof -
  obtain s outs where r: "input_run es (init_input en diff) = Some (s, outs)"
    using run_total [of "init_input en diff" es] by (auto simp: times_cover_def init_input_def)
  have "outs @ zip (time_buffer s) (lidar_buffer s) = scans_of es" if "sorted (map fst (scans_of es))"
  proof -
    have "in_order (init_input en diff) es" using that by (simp add: in_order_def init_input_def)
    then obtain pend where "holds s pend" "outs @ pend = scans_of es"
      using run_in_order [OF r, of "[]"] by (auto simp: holds_def init_input_def)
    then show ?thesis by (simp add: holds_def zip_map_fst_snd)
  qed
  then show ?thesis using r by blast
qed

definition demo_pt :: "real \<Rightarrow> PointType" where
  "demo_pt c = \<lparr>pxyz = \<lparr>px = 1, py = 0, pz = 0\<rparr>, pt_intensity = 0, curvature = c\<rparr>"

definition demo_imu :: "real \<Rightarrow> imu_msg" where
  "demo_imu t = \<lparr>stamp = t, imu_acc = \<lparr>px = 0, py = 0, pz = 1\<rparr>, imu_gyr = \<lparr>px = 0, py = 0, pz = 0\<rparr>\<rparr>"

definition scan_a :: scan where "scan_a = [demo_pt 0, demo_pt 100]"
definition scan_b :: scan where "scan_b = [demo_pt 0, demo_pt 50, demo_pt 100]"

theorem packages_are_the_scans_witness:
  "\<exists>s outs. input_run [Standard_Scan 1 scan_a, Imu_Sample (demo_imu 2), Sync, Livox_Scan 2 scan_b] (init_input False 0) = Some (s, outs)
     \<and> outs @ zip (time_buffer s) (lidar_buffer s) = [(1, scan_a), (2, scan_b)]"
  using packages_are_the_scans [of "[Standard_Scan 1 scan_a, Imu_Sample (demo_imu 2), Sync, Livox_Scan 2 scan_b]" False 0] by auto

text \<open>
  A scan that is older than its predecessor breaks the pairing for good: the scan buffer is
  emptied but the time buffer is not, so the next package carries the time of a scan that was
  thrown away.
\<close>

theorem loop_back_shifts_times:
  "\<exists>s. input_run [Standard_Scan 10 scan_a, Standard_Scan 5 scan_b, Imu_Sample (demo_imu 30), Sync] (init_input False 0)
     = Some (s, [(10, scan_b)]) \<and> lidar_buffer s = [] \<and> time_buffer s = [5]"
  by (simp add: init_input_def standard_pcl_cbk_def loop_back_def imu_cbk_def imu_stamp_def get_ros_time_def sync_packages_def
      push_scan_def scan_a_def scan_b_def demo_pt_def demo_imu_def Let_def)

lemma take_imu_sorted:
  assumes "sorted_wrt (<) (map stamp ms)" "\<forall>m \<in> set ms. t \<le> stamp m" "t < e"
  shows "take_imu e t ms = (filter (\<lambda>m. stamp m \<le> e) ms, filter (\<lambda>m. stamp m > e) ms)"
  using assms
proof (induction ms arbitrary: t)
  case (Cons m ms)
  consider "stamp m > e" | "stamp m = e" | "stamp m < e" by linarith
  then show ?case
  proof cases
    case 1
    then have "\<forall>x \<in> set ms. stamp x > e" using Cons.prems(1) by auto
    then show ?thesis using 1 Cons.prems(3) by (auto simp: filter_empty_conv filter_id_conv not_le)
  next
    case 2
    then have "\<forall>x \<in> set ms. stamp x > e" using Cons.prems(1) by auto
    then have "filter (\<lambda>x. stamp x \<le> e) ms = []" "filter (\<lambda>x. e < stamp x) ms = ms"
      by (auto simp: filter_empty_conv filter_id_conv not_le)
    moreover have "take_imu e (stamp m) ms = ([], ms)" using 2 by (cases ms) auto
    ultimately show ?thesis using 2 Cons.prems(3) by simp
  next
    case 3
    have "take_imu e (stamp m) ms = (filter (\<lambda>x. stamp x \<le> e) ms, filter (\<lambda>x. e < stamp x) ms)"
      by (rule Cons.IH) (use Cons.prems 3 in auto)
    then show ?thesis using 3 Cons.prems(3) by simp
  qed
qed simp

text \<open>
  The IMU samples of a package: when the buffered samples are in order and the first is
  older than the scan's end, the package gets exactly the samples up to the end of its scan,
  the later ones stay, and the last sample received covers the end of the scan.
\<close>

theorem package_imu_exact:
  assumes "sync_packages s = Some (s', True)" "sorted_wrt (<) (map stamp (imu_buffer s))"
    and "stamp (hd (imu_buffer s)) < lidar_end_time s'"
  shows "meas_imu (Measures s') = filter (\<lambda>m. stamp m \<le> lidar_end_time s') (imu_buffer s)
    \<and> imu_buffer s' = filter (\<lambda>m. stamp m > lidar_end_time s') (imu_buffer s)
    \<and> lidar_end_time s' \<le> last_timestamp_imu s"
  using assms(1)
proof (cases rule: sync_cases)
  case (full s1 xs ys)
  have same: "imu_buffer s1 = imu_buffer s" "last_timestamp_imu s1 = last_timestamp_imu s"
    using full(1) push_scan_spec(3,4) by (auto simp: pushed_def split: if_splits)
  have ends: "lidar_end_time s' = lidar_end_time s1" by (simp add: full(8))
  have "\<forall>m \<in> set (imu_buffer s). stamp (hd (imu_buffer s)) \<le> stamp m"
    using assms(2) full(4) same by (cases "imu_buffer s") auto
  then have "take_imu (lidar_end_time s1) (stamp (hd (imu_buffer s))) (imu_buffer s)
      = (filter (\<lambda>m. stamp m \<le> lidar_end_time s1) (imu_buffer s), filter (\<lambda>m. stamp m > lidar_end_time s1) (imu_buffer s))"
    by (rule take_imu_sorted [OF assms(2)]) (use assms(3) ends in simp)
  then show ?thesis using full(6,7) unfolding full(8) same by simp
qed auto

definition demo_ready :: lio_input where
  "demo_ready =
     (init_input False 0)\<lparr>lidar_buffer := [scan_a], time_buffer := [1], last_timestamp_imu := 2,
        imu_buffer := [demo_imu 1, demo_imu (21/20), demo_imu 2]\<rparr>"

theorem package_imu_exact_witness:
  "\<exists>s'. sync_packages demo_ready = Some (s', True) \<and> meas_imu (Measures s') = [demo_imu 1, demo_imu (21/20)]"
proof -
  obtain s' where s': "sync_packages demo_ready = Some (s', True)" "lidar_end_time s' = 11/10"
    by (auto simp: demo_ready_def init_input_def sync_packages_def push_scan_def scan_a_def demo_pt_def demo_imu_def Let_def)
  have "sorted_wrt (<) (map stamp (imu_buffer demo_ready))" "stamp (hd (imu_buffer demo_ready)) < lidar_end_time s'"
    by (simp_all add: demo_ready_def demo_imu_def s'(2))
  then show ?thesis using package_imu_exact [OF s'(1)] s' by (auto simp: demo_ready_def demo_imu_def)
qed

section \<open>Self synchronisation\<close>

text \<open>
  A state after the self synchronisation: \<open>E\<close> bounds the IMU stamps from above and the scan
  times from below.
\<close>

definition starved :: "real \<Rightarrow> lio_input \<Rightarrow> bool" where
  "starved E s \<longleftrightarrow> time_sync_en s \<and> timediff_set_flg s \<and> \<bar>timediff_lidar_wrt_imu s\<bar> > 1 / 10
     \<and> last_timestamp_imu s < E \<and> (\<forall>t \<in> set (time_buffer s). E \<le> t) \<and> 0 \<le> lidar_mean_scantime s
     \<and> (lidar_pushed s \<longrightarrow> E \<le> lidar_end_time s)"

fun late_event :: "real \<Rightarrow> real \<Rightarrow> input_event \<Rightarrow> bool" where
  "late_event E diff (Standard_Scan t sc) = (E \<le> t)"
| "late_event E diff (Livox_Scan t sc) = (E \<le> t)"
| "late_event E diff (Imu_Sample m) = (0 \<le> diff + stamp m \<and> diff + stamp m < E * 10 ^ 9)"
| "late_event E diff Sync = True"

lemma push_scan_starved:
  assumes "push_scan s = Some s1" "starved E s"
  shows "starved E s1" "E \<le> lidar_end_time s1" "timediff_lidar_wrt_imu s1 = timediff_lidar_wrt_imu s"
proof -
  obtain sc scs t ts where b: "lidar_buffer s = sc # scs" "time_buffer s = t # ts"
    using assms(1) by (auto simp: push_scan_def split: list.splits)
  let ?d = "curvature (last sc) / 1000" and ?m = "lidar_mean_scantime s" and ?n = "real (scan_num s + 1)"
  have st: "E \<le> t" "0 \<le> ?m" using assms(2) b by (auto simp: starved_def)
  have mean: "0 \<le> ?m + (d - ?m) / n" if "0 \<le> d" "1 \<le> n" for d n :: real
  proof -
    have "?m / n \<le> ?m" using st(2) that(2) mult_left_mono [of 1 n ?m] by (simp add: divide_le_eq)
    moreover have "0 \<le> d / n" using that by simp
    ultimately show ?thesis by (simp add: diff_divide_distrib)
  qed
  have "starved E s1 \<and> E \<le> lidar_end_time s1 \<and> timediff_lidar_wrt_imu s1 = timediff_lidar_wrt_imu s"
  proof (cases "length sc \<le> 1 \<or> ?d < 1 / 2 * ?m")
    case True
    then show ?thesis using assms b st by (auto simp: push_scan_def Let_def starved_def)
  next
    case False
    then have "0 \<le> ?d" using st(2) by simp
    then show ?thesis using False assms b st mean [of ?d ?n] by (auto simp: push_scan_def Let_def starved_def)
  qed
  then show "starved E s1" "E \<le> lidar_end_time s1" "timediff_lidar_wrt_imu s1 = timediff_lidar_wrt_imu s" by auto
qed

lemma step_starved:
  assumes "input_step e s = Some (s1, ps)" "starved E s" "late_event E (timediff_lidar_wrt_imu s) e"
  shows "starved E s1 \<and> ps = [] \<and> timediff_lidar_wrt_imu s1 = timediff_lidar_wrt_imu s"
proof (cases e)
  case (Standard_Scan t sc)
  then show ?thesis using assms by (auto simp: standard_pcl_cbk_def loop_back_def starved_def Let_def split: if_splits)
next
  case (Livox_Scan t sc)
  then show ?thesis using assms by (auto simp: livox_pcl_cbk_def self_sync_def loop_back_def starved_def Let_def split: if_splits)
next
  case (Imu_Sample m)
  let ?x = "timediff_lidar_wrt_imu s + stamp m"
  have x: "0 \<le> ?x" "?x < E * 10 ^ 9" using assms(3) Imu_Sample by auto
  have "real_of_int \<lfloor>?x\<rfloor> < E * 10 ^ 9" using x(2) of_int_floor_le [of ?x] by (rule order.strict_trans1 [rotated])
  then have "real_of_int \<lfloor>?x\<rfloor> / 10 ^ 9 < E" by (simp add: divide_less_eq)
  then have "imu_stamp s (stamp m) < E" using assms(2) x(1) by (simp add: imu_stamp_def starved_def ros_time_of_double_def)
  then show ?thesis using Imu_Sample assms(1,2) by (auto simp: imu_cbk_def starved_def Let_def split: if_splits)
next
  case Sync
  then obtain ready where r: "sync_packages s = Some (s1, ready)" "ps = [] \<or> ready"
    using assms(1) by (auto split: option.splits prod.splits if_splits)
  show ?thesis using r(1)
  proof (cases rule: sync_cases)
    case idle
    then show ?thesis using r assms(2) by auto
  next
    case wait
    then show ?thesis using r assms(2) push_scan_starved [of s s1 E] by (auto simp: pushed_def split: if_splits)
  next
    case (full s2 xs ys)
    have "starved E s2 \<and> E \<le> lidar_end_time s2"
      using full(1) assms(2) push_scan_starved [of s s2 E] by (auto simp: pushed_def starved_def split: if_splits)
    then show ?thesis using full(6) by (simp add: starved_def)
  qed
qed

text \<open>
  Once the self synchronisation has set in, no package is ever formed again: the shifted
  stamp of an IMU sample is read as nanoseconds, so the IMU clock stays behind every scan, as
  long as the scans are later than \<open>E\<close> seconds and the shifted samples earlier than \<open>10^9 E\<close>.
\<close>

theorem self_sync_starves:
  assumes "input_run es s = Some (s', outs)" "starved E s" "\<forall>e \<in> set es. late_event E (timediff_lidar_wrt_imu s) e"
  shows "outs = []"
  using assms
proof (induction es arbitrary: s outs)
  case (Cons e es)
  obtain s1 ps qs where r: "input_step e s = Some (s1, ps)" "input_run es s1 = Some (s', qs)" "outs = ps @ qs"
    using Cons.prems(1) by (auto split: option.splits prod.splits)
  note S = step_starved [OF r(1) Cons.prems(2)]
  then show ?case using Cons.IH [OF r(2)] S Cons.prems(3) r(3) by auto
qed simp

definition demo_synced :: lio_input where
  "demo_synced = livox_pcl_cbk 1000 scan_a ((init_input True 0)\<lparr>imu_buffer := [demo_imu 1], last_timestamp_imu := 1\<rparr>)"

theorem self_sync_starves_witness:
  "\<exists>s. input_run [Imu_Sample (demo_imu 2), Sync, Livox_Scan 1001 scan_a, Imu_Sample (demo_imu 3), Sync] demo_synced = Some (s, [])"
proof -
  let ?es = "[Imu_Sample (demo_imu 2), Sync, Livox_Scan 1001 scan_a, Imu_Sample (demo_imu 3), Sync]"
  have st: "starved 2 demo_synced"
    by (simp add: starved_def demo_synced_def init_input_def livox_pcl_cbk_def loop_back_def self_sync_def Let_def)
  have diff: "timediff_lidar_wrt_imu demo_synced = 999 + 1 / 10"
    by (simp add: demo_synced_def init_input_def livox_pcl_cbk_def loop_back_def self_sync_def Let_def)
  have "times_cover demo_synced"
    by (simp add: times_cover_def demo_synced_def init_input_def livox_pcl_cbk_def loop_back_def self_sync_def Let_def)
  then obtain s outs where r: "input_run ?es demo_synced = Some (s, outs)" using run_total by blast
  have "outs = []" by (rule self_sync_starves [OF r st]) (simp add: diff demo_imu_def)
  then show ?thesis using r by blast
qed

end
