(* ===== verification/Lio_Geometry.thy ===== *)
theory Lio_Geometry
  imports Lio_Sync
begin

text \<open>
  The geometry of FAST-LIO: vectors and matrices, the exponential and the logarithm of rotations
  (so3\_math.h), the quaternion exponential of the IKFoM toolkit (mtkmath.hpp, SOn.hpp) and the
  state of the filter with its motion model (use-ikfom.hpp).  Doubles are reals.
\<close>

section \<open>Vectors and matrices\<close>

record mat3 =
  mrow0 :: point3
  mrow1 :: point3
  mrow2 :: point3

definition vec3 :: "real \<Rightarrow> real \<Rightarrow> real \<Rightarrow> point3" where
  "vec3 x y z = \<lparr>px = x, py = y, pz = z\<rparr>"

definition vadd :: "point3 \<Rightarrow> point3 \<Rightarrow> point3" where
  "vadd a b = \<lparr>px = px a + px b, py = py a + py b, pz = pz a + pz b\<rparr>"

definition vscale :: "real \<Rightarrow> point3 \<Rightarrow> point3" where
  "vscale k a = \<lparr>px = k * px a, py = k * py a, pz = k * pz a\<rparr>"

definition vsub :: "point3 \<Rightarrow> point3 \<Rightarrow> point3" where
  "vsub a b = vadd a (vscale (- 1) b)"

definition vdot :: "point3 \<Rightarrow> point3 \<Rightarrow> real" where
  "vdot a b = px a * px b + py a * py b + pz a * pz b"

definition vnorm :: "point3 \<Rightarrow> real" where
  "vnorm a = sqrt (vdot a a)"

definition mvec :: "mat3 \<Rightarrow> point3 \<Rightarrow> point3" where
  "mvec m v = \<lparr>px = vdot (mrow0 m) v, py = vdot (mrow1 m) v, pz = vdot (mrow2 m) v\<rparr>"

definition mat3_of :: "real \<Rightarrow> real \<Rightarrow> real \<Rightarrow> real \<Rightarrow> real \<Rightarrow> real \<Rightarrow> real \<Rightarrow> real \<Rightarrow> real \<Rightarrow> mat3" where
  "mat3_of a b c d e f g h i = \<lparr>mrow0 = vec3 a b c, mrow1 = vec3 d e f, mrow2 = vec3 g h i\<rparr>"

definition eye3 :: mat3 where
  "eye3 = mat3_of 1 0 0 0 1 0 0 0 1"

definition transp :: "mat3 \<Rightarrow> mat3" where
  "transp m = mat3_of (px (mrow0 m)) (px (mrow1 m)) (px (mrow2 m)) (py (mrow0 m)) (py (mrow1 m)) (py (mrow2 m))
     (pz (mrow0 m)) (pz (mrow1 m)) (pz (mrow2 m))"

definition mmul :: "mat3 \<Rightarrow> mat3 \<Rightarrow> mat3" where
  "mmul a b =
     (let t = transp b; row = (\<lambda>r. vec3 (vdot r (mrow0 t)) (vdot r (mrow1 t)) (vdot r (mrow2 t)))
      in \<lparr>mrow0 = row (mrow0 a), mrow1 = row (mrow1 a), mrow2 = row (mrow2 a)\<rparr>)"

definition madd :: "mat3 \<Rightarrow> mat3 \<Rightarrow> mat3" where
  "madd a b = \<lparr>mrow0 = vadd (mrow0 a) (mrow0 b), mrow1 = vadd (mrow1 a) (mrow1 b), mrow2 = vadd (mrow2 a) (mrow2 b)\<rparr>"

definition mscale :: "real \<Rightarrow> mat3 \<Rightarrow> mat3" where
  "mscale k a = \<lparr>mrow0 = vscale k (mrow0 a), mrow1 = vscale k (mrow1 a), mrow2 = vscale k (mrow2 a)\<rparr>"

definition mtrace :: "mat3 \<Rightarrow> real" where
  "mtrace m = px (mrow0 m) + py (mrow1 m) + pz (mrow2 m)"

definition mdet :: "mat3 \<Rightarrow> real" where
  "mdet m =
     px (mrow0 m) * (py (mrow1 m) * pz (mrow2 m) - pz (mrow1 m) * py (mrow2 m))
   - py (mrow0 m) * (px (mrow1 m) * pz (mrow2 m) - pz (mrow1 m) * px (mrow2 m))
   + pz (mrow0 m) * (px (mrow1 m) * py (mrow2 m) - py (mrow1 m) * px (mrow2 m))"

definition atan2 :: "real \<Rightarrow> real \<Rightarrow> real" where
  "atan2 y x =
     (if x > 0 then arctan (y / x)
      else if x < 0 then (if y \<ge> 0 then arctan (y / x) + pi else arctan (y / x) - pi)
      else if y > 0 then pi / 2 else if y < 0 then - (pi / 2) else 0)"

lemmas vec_defs = vec3_def vadd_def vscale_def vsub_def vdot_def
lemmas mat_defs = mat3_of_def eye3_def transp_def mmul_def madd_def mscale_def mvec_def Let_def

definition rotation :: "mat3 \<Rightarrow> bool" where
  "rotation m \<longleftrightarrow> mmul (transp m) m = eye3 \<and> mmul m (transp m) = eye3 \<and> mdet m = 1"

lemma mvec_add: "mvec m (vadd a b) = vadd (mvec m a) (mvec m b)"
  by (simp add: mvec_def vec_defs algebra_simps)

lemma mvec_mmul: "mvec (mmul a b) v = mvec a (mvec b v)"
  by (simp add: mat_defs vec_defs algebra_simps)

lemma mvec_eye: "mvec eye3 v = v"
  by (simp add: mat_defs vec_defs)

lemma rotation_back: "rotation m \<Longrightarrow> mvec m (mvec (transp m) v) = v"
  by (metis mvec_mmul mvec_eye rotation_def)

lemma vadd_cancel: "vadd (vadd a (vscale (- 1) b)) b = a"
  by (simp add: vec_defs)

section \<open>Exponential and logarithm of rotations\<close>

definition skew_sym_mat :: "point3 \<Rightarrow> mat3" where
  "skew_sym_mat v = mat3_of 0 (- pz v) (py v) (pz v) 0 (- px v) (- py v) (px v) 0"

definition rodrigues :: "point3 \<Rightarrow> real \<Rightarrow> mat3" where
  "rodrigues axis t =
     (let K = skew_sym_mat axis
      in madd (madd eye3 (mscale (sin t) K)) (mscale (1 - cos t) (mmul K K)))"

definition Exp_ang :: "point3 \<Rightarrow> mat3" where
  "Exp_ang ang =
     (let n = vnorm ang in if n > 1 / 10 ^ 7 then rodrigues (vscale (1 / n) ang) n else eye3)"

definition Exp_vel :: "point3 \<Rightarrow> real \<Rightarrow> mat3" where
  "Exp_vel ang_vel dt =
     (let n = vnorm ang_vel in if n > 1 / 10 ^ 7 then rodrigues (vscale (1 / n) ang_vel) (n * dt) else eye3)"

definition Exp_xyz :: "real \<Rightarrow> real \<Rightarrow> real \<Rightarrow> mat3" where
  "Exp_xyz v1 v2 v3 =
     (let n = sqrt (v1 * v1 + v2 * v2 + v3 * v3)
      in if n > 1 / 10 ^ 5 then rodrigues (vec3 (v1 / n) (v2 / n) (v3 / n)) n else eye3)"

definition Log :: "mat3 \<Rightarrow> point3" where
  "Log R =
     (let theta = (if mtrace R > 3 - 1 / 10 ^ 6 then 0 else arccos ((mtrace R - 1) / 2));
          K = vec3 (py (mrow2 R) - pz (mrow1 R)) (pz (mrow0 R) - px (mrow2 R)) (px (mrow1 R) - py (mrow0 R))
      in if \<bar>theta\<bar> < 1 / 1000 then vscale (1 / 2) K else vscale (theta / 2 / sin theta) K)"

text \<open>With a unit axis the entries are those of the rotation about it.\<close>

lemma rodrigues_entries:
  assumes "vdot a a = 1"
  shows "rodrigues a t =
     (let x = px a; y = py a; z = pz a; s = sin t; k = cos t in
      mat3_of (k + (1 - k) * x * x) ((1 - k) * x * y - s * z) ((1 - k) * x * z + s * y)
              ((1 - k) * x * y + s * z) (k + (1 - k) * y * y) ((1 - k) * y * z - s * x)
              ((1 - k) * x * z - s * y) ((1 - k) * y * z + s * x) (k + (1 - k) * z * z))"
  using assms by (simp add: rodrigues_def skew_sym_mat_def mat_defs vec_defs) (intro conjI; algebra)

lemma rotation_entries:
  fixes x y z s k :: real
  assumes "x * x + y * y + z * z = 1" "s * s + k * k = 1"
  shows "rotation (mat3_of (k + (1 - k) * x * x) ((1 - k) * x * y - s * z) ((1 - k) * x * z + s * y)
              ((1 - k) * x * y + s * z) (k + (1 - k) * y * y) ((1 - k) * y * z - s * x)
              ((1 - k) * x * z - s * y) ((1 - k) * y * z + s * x) (k + (1 - k) * z * z))"
  unfolding rotation_def
  apply (intro conjI)
  subgoal using assms by (simp add: mat_defs vec_defs) (intro conjI; algebra)
  subgoal using assms by (simp add: mat_defs vec_defs) (intro conjI; algebra)
  subgoal using assms by (simp add: mdet_def mat_defs vec_defs) algebra
  done

lemma rodrigues_rotation: "vdot a a = 1 \<Longrightarrow> rotation (rodrigues a t)"
  unfolding rodrigues_entries Let_def
  by (rule rotation_entries) (simp_all add: vdot_def flip: power2_eq_square)

lemma rodrigues_add:
  assumes "vdot a a = 1"
  shows "mmul (rodrigues a s) (rodrigues a t) = rodrigues a (s + t)"
proof -
  have "sin s * sin s + cos s * cos s = 1" "sin t * sin t + cos t * cos t = 1" by (simp_all flip: power2_eq_square)
  moreover have "px a * px a + py a * py a + pz a * pz a = 1" using assms by (simp add: vdot_def)
  ultimately show ?thesis
    unfolding rodrigues_entries [OF assms] Let_def sin_add cos_add
    by (simp add: mat_defs vec_defs) (intro conjI; algebra)
qed

lemma rodrigues_zero: "rodrigues a 0 = eye3"
  by (simp add: rodrigues_def mat_defs vec_defs)

lemma vnorm_nonneg: "0 \<le> vnorm v"
  by (simp add: vnorm_def vdot_def)

lemma vnorm_pos: "vnorm v \<noteq> 0 \<Longrightarrow> 0 < vnorm v"
  using vnorm_nonneg [of v] by linarith

lemma vnorm_square: "vnorm v * vnorm v = vdot v v"
  by (simp add: vnorm_def vdot_def)

lemma unit_axis: "vnorm v \<noteq> 0 \<Longrightarrow> vdot (vscale (1 / vnorm v) v) (vscale (1 / vnorm v) v) = 1"
proof -
  assume "vnorm v \<noteq> 0"
  moreover have "vdot (vscale k v) (vscale k v) = k * k * (vnorm v * vnorm v)" for k
    unfolding vnorm_square by (simp add: vec_defs algebra_simps)
  ultimately show ?thesis by simp
qed

lemma rotation_eye: "rotation eye3"
  by (simp add: rotation_def mdet_def mat_defs vec_defs)

lemma Exp_xyz_ang: "Exp_xyz v1 v2 v3 = (if vnorm (vec3 v1 v2 v3) > 1 / 10 ^ 5 then Exp_ang (vec3 v1 v2 v3) else eye3)"
  by (auto simp: Exp_xyz_def Exp_ang_def Let_def vnorm_def vec_defs)

lemma Exp_vel_rotation: "rotation (Exp_vel w dt)"
  by (auto simp: Exp_vel_def Let_def rotation_eye intro!: rodrigues_rotation unit_axis)

lemma Exp_ang_rotation: "rotation (Exp_ang v)"
  by (auto simp: Exp_ang_def Let_def rotation_eye intro!: rodrigues_rotation unit_axis)

lemma mtrace_rodrigues: "vdot a a = 1 \<Longrightarrow> mtrace (rodrigues a t) = 1 + 2 * cos t"
proof -
  assume a: "vdot a a = 1"
  have n: "px a * px a + py a * py a + pz a * pz a = 1" using a by (simp add: vdot_def)
  show ?thesis unfolding rodrigues_entries [OF a] Let_def mtrace_def
    using n by (simp add: mat3_of_def vec3_def) algebra
qed

lemma Log_rodrigues:
  assumes a: "vdot a a = 1" and t: "1 / 1000 \<le> t" "t < pi" "mtrace (rodrigues a t) \<le> 3 - 1 / 10 ^ 6"
  shows "Log (rodrigues a t) = vscale t a"
proof -
  have th: "arccos ((mtrace (rodrigues a t) - 1) / 2) = t"
    using t by (simp add: mtrace_rodrigues [OF a] arccos_cos)
  have "sin t \<noteq> 0" using t sin_gt_zero [of t] by simp
  then show ?thesis
    using t th unfolding Log_def Let_def
    by (simp add: rodrigues_entries [OF a] Let_def mat3_of_def vec_defs field_simps)
qed

section \<open>Quaternions of the toolkit\<close>

record quat =
  qw :: real
  qvec :: point3

definition taylor_n_bound :: real where "taylor_n_bound = 1 / 2 ^ 13"

text \<open>Three terms of the series below the bound.\<close>

definition cos_sinc_sqrt :: "real \<Rightarrow> real \<times> real" where
  "cos_sinc_sqrt x2 =
     (if x2 \<ge> taylor_n_bound then (cos (sqrt x2), sin (sqrt x2) / sqrt x2)
      else
        let t0 = - 1 / 2 * x2; t1 = t0 * (1 / 3) * (- (1 / 4)) * x2; t2 = t1 * (1 / 5) * (- (1 / 6)) * x2
        in (1 + t0 + t1 + t2, 1 + t0 * (1 / 3) + t1 * (1 / 5) + t2 * (1 / 7)))"

definition mtk_exp :: "point3 \<Rightarrow> real \<Rightarrow> quat" where
  "mtk_exp v scale =
     (let (c, sinc) = cos_sinc_sqrt (scale * scale * vdot v v) in \<lparr>qw = c, qvec = vscale (sinc * scale) v\<rparr>)"

definition SO3_exp :: "point3 \<Rightarrow> real \<Rightarrow> quat" where
  "SO3_exp dvec scale = mtk_exp dvec (scale / 2)"

definition toRotationMatrix :: "quat \<Rightarrow> mat3" where
  "toRotationMatrix q =
     (let w = qw q; x = px (qvec q); y = py (qvec q); z = pz (qvec q) in
      mat3_of (1 - (2 * y * y + 2 * z * z)) (2 * x * y - 2 * w * z) (2 * x * z + 2 * w * y)
              (2 * x * y + 2 * w * z) (1 - (2 * x * x + 2 * z * z)) (2 * y * z - 2 * w * x)
              (2 * x * z - 2 * w * y) (2 * y * z + 2 * w * x) (1 - (2 * x * x + 2 * y * y)))"

lemma half_angle_entries:
  fixes x y z s k :: real
  assumes "x * x + y * y + z * z = 1" "s * s + k * k = 1"
  shows "toRotationMatrix \<lparr>qw = k, qvec = vec3 (s * x) (s * y) (s * z)\<rparr> =
    (let K = 1 - 2 * s * s; S = 2 * s * k in
      mat3_of (K + (1 - K) * x * x) ((1 - K) * x * y - S * z) ((1 - K) * x * z + S * y)
              ((1 - K) * x * y + S * z) (K + (1 - K) * y * y) ((1 - K) * y * z - S * x)
              ((1 - K) * x * z - S * y) ((1 - K) * y * z + S * x) (K + (1 - K) * z * z))"
  using assms by (simp add: toRotationMatrix_def mat3_of_def vec3_def Let_def) (intro conjI; algebra)

lemma SO3_exp_rodrigues:
  assumes "taylor_n_bound \<le> (scale / 2) * (scale / 2) * vdot v v" and "0 \<le> scale"
  shows "toRotationMatrix (SO3_exp v scale) = rodrigues (vscale (1 / vnorm v) v) (vnorm v * scale)"
proof -
  let ?n = "vnorm v" and ?h = "vnorm v * scale / 2"
  have pos: "0 < (scale / 2) * (scale / 2) * vdot v v" using assms by (simp add: taylor_n_bound_def)
  then have n: "?n \<noteq> 0" "scale \<noteq> 0" by (auto simp: vnorm_square [symmetric])
  have h: "sqrt ((scale / 2) * (scale / 2) * vdot v v) = ?h"
    unfolding vnorm_square [symmetric] using assms(2)
    by (metis (no_types, opaque_lifting) abs_of_nonneg divide_nonneg_pos less_eq_real_def mult.assoc mult.commute
        mult_nonneg_nonneg n(1) real_sqrt_abs2 times_divide_eq_right vnorm_pos zero_less_numeral)
  let ?a = "vscale (1 / ?n) v"
  have a: "vdot ?a ?a = 1" by (rule unit_axis [OF n(1)])
  have q: "SO3_exp v scale = \<lparr>qw = cos ?h, qvec = vec3 (sin ?h * px ?a) (sin ?h * py ?a) (sin ?h * pz ?a)\<rparr>"
    using assms(1) n unfolding SO3_exp_def mtk_exp_def cos_sinc_sqrt_def h by (simp add: vec_defs)
  have "cos (?n * scale) = 1 - 2 * sin ?h * sin ?h" "sin (?n * scale) = 2 * sin ?h * cos ?h"
    using cos_double_sin [of ?h] sin_double [of ?h] by (simp_all add: power2_eq_square)
  then show ?thesis
    unfolding q rodrigues_entries [OF a] Let_def
    using half_angle_entries [of "px ?a" "py ?a" "pz ?a" "sin ?h" "cos ?h"] a
    by (simp add: vdot_def Let_def flip: power2_eq_square)
qed

section \<open>State and motion model\<close>

text \<open>The state of the filter; its rotations as matrices.\<close>

record state_ikfom =
  st_pos :: point3
  st_rot :: mat3
  offset_R_L_I :: mat3
  offset_T_L_I :: point3
  st_vel :: point3
  st_bg :: point3
  st_ba :: point3
  st_grav :: point3

definition body_to_world :: "state_ikfom \<Rightarrow> point3 \<Rightarrow> point3" where
  "body_to_world s p = vadd (mvec (st_rot s) (vadd (mvec (offset_R_L_I s) p) (offset_T_L_I s))) (st_pos s)"

record input_ikfom =
  in_acc :: point3
  in_gyro :: point3

text \<open>The derivative of the state, one vector per component.\<close>

record flatted_state =
  d_pos :: point3
  d_rot :: point3
  d_offset_R :: point3
  d_offset_T :: point3
  d_vel :: point3
  d_bg :: point3
  d_ba :: point3
  d_grav :: point3

definition vzero :: point3 where "vzero = vec3 0 0 0"

definition get_f :: "state_ikfom \<Rightarrow> input_ikfom \<Rightarrow> flatted_state" where
  "get_f s i =
     \<lparr>d_pos = st_vel s, d_rot = vsub (in_gyro i) (st_bg s), d_offset_R = vzero, d_offset_T = vzero,
      d_vel = vadd (mvec (st_rot s) (vsub (in_acc i) (st_ba s))) (st_grav s), d_bg = vzero, d_ba = vzero, d_grav = vzero\<rparr>"

definition SO3_oplus :: "mat3 \<Rightarrow> point3 \<Rightarrow> real \<Rightarrow> mat3" where
  "SO3_oplus r v scale = mmul r (toRotationMatrix (SO3_exp v scale))"

text \<open>Gravity has the length of its type.\<close>

definition S2_length :: real where "S2_length = 98090 / 10000"

definition S2_oplus :: "point3 \<Rightarrow> point3 \<Rightarrow> real \<Rightarrow> point3" where
  "S2_oplus g v scale = mvec (toRotationMatrix (mtk_exp v (scale / 2))) g"

definition vect_oplus :: "point3 \<Rightarrow> point3 \<Rightarrow> real \<Rightarrow> point3" where
  "vect_oplus a v scale = vadd a (vscale scale v)"

definition oplus :: "state_ikfom \<Rightarrow> flatted_state \<Rightarrow> real \<Rightarrow> state_ikfom" where
  "oplus s f scale =
     \<lparr>st_pos = vect_oplus (st_pos s) (d_pos f) scale, st_rot = SO3_oplus (st_rot s) (d_rot f) scale,
      offset_R_L_I = SO3_oplus (offset_R_L_I s) (d_offset_R f) scale,
      offset_T_L_I = vect_oplus (offset_T_L_I s) (d_offset_T f) scale, st_vel = vect_oplus (st_vel s) (d_vel f) scale,
      st_bg = vect_oplus (st_bg s) (d_bg f) scale, st_ba = vect_oplus (st_ba s) (d_ba f) scale,
      st_grav = S2_oplus (st_grav s) (d_grav f) scale\<rparr>"

text \<open>The state part of \<open>esekf::predict\<close>.\<close>

definition predict :: "real \<Rightarrow> input_ikfom \<Rightarrow> state_ikfom \<Rightarrow> state_ikfom" where
  "predict dt i s = oplus s (get_f s i) dt"

text \<open>
  The rotation block of the state transition in the covariance propagation: the scale is the
  integer quotient \<open>1/2\<close>.
\<close>

definition F_x1_rotation :: "state_ikfom \<Rightarrow> input_ikfom \<Rightarrow> real \<Rightarrow> mat3" where
  "F_x1_rotation s i dt = toRotationMatrix (mtk_exp (vscale (- 1 * dt) (d_rot (get_f s i))) (of_int (1 div 2)))"

lemma exp_zero: "toRotationMatrix (mtk_exp v 0) = eye3" "toRotationMatrix (mtk_exp vzero s) = eye3"
  by (simp_all add: mtk_exp_def cos_sinc_sqrt_def taylor_n_bound_def toRotationMatrix_def vzero_def vec_defs mat_defs)

lemma mmul_eye: "mmul m eye3 = m"
  by (simp add: mat_defs vec_defs)

text \<open>So the covariance is propagated as if the body did not turn, whatever its angular velocity.\<close>

lemma F_x1_rotation_identity: "F_x1_rotation s i dt = eye3"
  by (simp add: F_x1_rotation_def exp_zero)

lemma predict_fields:
  "st_pos (predict dt i s) = vadd (st_pos s) (vscale dt (st_vel s))"
  "st_vel (predict dt i s) = vadd (st_vel s) (vscale dt (vadd (mvec (st_rot s) (vsub (in_acc i) (st_ba s))) (st_grav s)))"
  "st_rot (predict dt i s) = mmul (st_rot s) (toRotationMatrix (SO3_exp (vsub (in_gyro i) (st_bg s)) dt))"
  "offset_R_L_I (predict dt i s) = offset_R_L_I s" "offset_T_L_I (predict dt i s) = offset_T_L_I s"
  "st_bg (predict dt i s) = st_bg s" "st_ba (predict dt i s) = st_ba s" "st_grav (predict dt i s) = st_grav s"
  by (simp_all add: predict_def oplus_def get_f_def SO3_oplus_def S2_oplus_def vect_oplus_def SO3_exp_def exp_zero mmul_eye mvec_eye)
    (simp_all add: vzero_def vec_defs)

end
