(* ===== verification/Lio_Map.thy ===== *)
theory Lio_Map
  imports Lio_Geometry KD_Props
begin

text \<open>
  The mapping side of FAST-LIO (laserMapping.cpp): the cube of the local map that follows the
  sensor and the deletion of what falls out of it, the insertion of a registered scan into the
  ikd-Tree, and one round of the node's timer, which composes them with the filter.
\<close>

section \<open>Poses\<close>

definition pointBodyToWorld :: "state_ikfom \<Rightarrow> PointType \<Rightarrow> PointType \<Rightarrow> PointType" where
  "pointBodyToWorld s p po = po\<lparr>pxyz := body_to_world s (pxyz p), pt_intensity := pt_intensity p\<rparr>"

definition RGBpointBodyLidarToIMU :: "state_ikfom \<Rightarrow> PointType \<Rightarrow> PointType \<Rightarrow> PointType" where
  "RGBpointBodyLidarToIMU s p po =
     po\<lparr>pxyz := vadd (mvec (offset_R_L_I s) (pxyz p)) (offset_T_L_I s), pt_intensity := pt_intensity p\<rparr>"

section \<open>The local map\<close>

fun vget :: "nat \<Rightarrow> point3 \<Rightarrow> real" where
  "vget 0 p = px p"
| "vget (Suc 0) p = py p"
| "vget (Suc (Suc i)) p = pz p"

fun vset :: "nat \<Rightarrow> real \<Rightarrow> point3 \<Rightarrow> point3" where
  "vset 0 x p = p\<lparr>px := x\<rparr>"
| "vset (Suc 0) x p = p\<lparr>py := x\<rparr>"
| "vset (Suc (Suc i)) x p = p\<lparr>pz := x\<rparr>"

definition MOV_THRESHOLD :: real where "MOV_THRESHOLD = 3 / 2"

record local_map =
  LocalMap_Points :: BoxPointType
  Localmap_Initialized :: bool
  cub_needrm :: "BoxPointType list"
  kdtree_delete_counter :: int
  cube_len :: real
  DET_RANGE :: real

definition near_min :: "real \<Rightarrow> BoxPointType \<Rightarrow> point3 \<Rightarrow> nat \<Rightarrow> bool" where
  "near_min det b pos i \<longleftrightarrow> \<bar>vget i pos - vget i (vertex_min b)\<bar> \<le> MOV_THRESHOLD * det"

definition near_max :: "real \<Rightarrow> BoxPointType \<Rightarrow> point3 \<Rightarrow> nat \<Rightarrow> bool" where
  "near_max det b pos i \<longleftrightarrow> \<bar>vget i pos - vget i (vertex_max b)\<bar> \<le> MOV_THRESHOLD * det"

definition need_move :: "real \<Rightarrow> BoxPointType \<Rightarrow> point3 \<Rightarrow> bool" where
  "need_move det b pos \<longleftrightarrow> list_ex (\<lambda>i. near_min det b pos i \<or> near_max det b pos i) [0..<3]"

definition mov_dist :: "real \<Rightarrow> real \<Rightarrow> real" where
  "mov_dist cube det = max ((cube - 2 * MOV_THRESHOLD * det) * (1 / 2) * (9 / 10)) (det * (MOV_THRESHOLD - 1))"

text \<open>One turn of the second loop: \<open>New_LocalMap_Points\<close> and \<open>cub_needrm\<close>.\<close>

definition move_axis ::
  "real \<Rightarrow> real \<Rightarrow> BoxPointType \<Rightarrow> point3 \<Rightarrow> nat \<Rightarrow> BoxPointType \<times> BoxPointType list \<Rightarrow> BoxPointType \<times> BoxPointType list" where
  "move_axis det mov old pos i =
     (\<lambda>(new, cub).
        if near_min det old pos i then
          (new\<lparr>vertex_max := vset i (vget i (vertex_max new) - mov) (vertex_max new),
               vertex_min := vset i (vget i (vertex_min new) - mov) (vertex_min new)\<rparr>,
           cub @ [old\<lparr>vertex_min := vset i (vget i (vertex_max old) - mov) (vertex_min old)\<rparr>])
        else if near_max det old pos i then
          (new\<lparr>vertex_max := vset i (vget i (vertex_max new) + mov) (vertex_max new),
               vertex_min := vset i (vget i (vertex_min new) + mov) (vertex_min new)\<rparr>,
           cub @ [old\<lparr>vertex_max := vset i (vget i (vertex_min old) + mov) (vertex_max old)\<rparr>])
        else (new, cub))"

definition move_map :: "real \<Rightarrow> real \<Rightarrow> BoxPointType \<Rightarrow> point3 \<Rightarrow> BoxPointType \<times> BoxPointType list" where
  "move_map det mov old pos = fold (move_axis det mov old pos) [0..<3] (old, [])"

definition initial_map :: "real \<Rightarrow> point3 \<Rightarrow> BoxPointType" where
  "initial_map cube pos =
     \<lparr>vertex_min = \<lparr>px = px pos - cube / 2, py = py pos - cube / 2, pz = pz pos - cube / 2\<rparr>,
      vertex_max = \<lparr>px = px pos + cube / 2, py = py pos + cube / 2, pz = pz pos + cube / 2\<rparr>\<rparr>"

definition lasermap_fov_segment :: "nth_fun \<Rightarrow> point3 \<Rightarrow> local_map \<times> KD_TREE \<Rightarrow> local_map \<times> KD_TREE" where
  "lasermap_fov_segment ne pos_LiD =
     (\<lambda>(m, k).
        let m0 = m\<lparr>cub_needrm := [], kdtree_delete_counter := 0\<rparr> in
        if \<not> Localmap_Initialized m0 then
          (m0\<lparr>LocalMap_Points := initial_map (cube_len m0) pos_LiD, Localmap_Initialized := True\<rparr>, k)
        else if \<not> need_move (DET_RANGE m0) (LocalMap_Points m0) pos_LiD then (m0, k)
        else
          let (new, cub) = move_map (DET_RANGE m0) (mov_dist (cube_len m0) (DET_RANGE m0)) (LocalMap_Points m0) pos_LiD;
              m1 = m0\<lparr>LocalMap_Points := new, cub_needrm := cub\<rparr>;
              k1 = fst (acquire_removed_points k [])
          in if length cub > 0
             then (case Delete_Point_Boxes ne k1 cub of (k2, n) \<Rightarrow> (m1\<lparr>kdtree_delete_counter := n\<rparr>, k2))
             else (m1, k1))"

section \<open>Inserting a scan\<close>

definition NUM_MATCH_POINTS :: nat where "NUM_MATCH_POINTS = 5"

datatype increment = Skip | With_Downsample | No_Downsample

definition voxel_mid_point :: "real \<Rightarrow> point3 \<Rightarrow> point3" where
  "voxel_mid_point fs p =
     \<lparr>px = real_of_int \<lfloor>px p / fs\<rfloor> * fs + 1 / 2 * fs, py = real_of_int \<lfloor>py p / fs\<rfloor> * fs + 1 / 2 * fs,
      pz = real_of_int \<lfloor>pz p / fs\<rfloor> * fs + 1 / 2 * fs\<rparr>"

text \<open>What becomes of one point, from its nearest points in the map.\<close>

definition need_add :: "real \<Rightarrow> bool \<Rightarrow> point3 list \<Rightarrow> point3 \<Rightarrow> increment" where
  "need_add fs inited points_near p =
     (if points_near \<noteq> [] \<and> inited then
        let mid = voxel_mid_point fs p; dist = calc_dist p mid; q = hd points_near in
        if \<bar>px q - px mid\<bar> > 1 / 2 * fs \<and> \<bar>py q - py mid\<bar> > 1 / 2 * fs \<and> \<bar>pz q - pz mid\<bar> > 1 / 2 * fs
        then No_Downsample
        else if \<not> length points_near < NUM_MATCH_POINTS
                \<and> list_ex (\<lambda>i. calc_dist (points_near ! i) mid < dist) [0..<NUM_MATCH_POINTS] then Skip
        else With_Downsample
      else With_Downsample)"

definition points_with :: "increment \<Rightarrow> real \<Rightarrow> bool \<Rightarrow> point3 list list \<Rightarrow> point3 list \<Rightarrow> point3 list" where
  "points_with c fs inited near world =
     map (\<lambda>i. world ! i) (filter (\<lambda>i. need_add fs inited (near ! i) (world ! i) = c) [0..<length world])"

definition map_incremental ::
  "nth_fun \<Rightarrow> state_ikfom \<Rightarrow> real \<Rightarrow> bool \<Rightarrow> point3 list list \<Rightarrow> scan \<Rightarrow> KD_TREE \<Rightarrow> KD_TREE option" where
  "map_incremental ne s fs inited Nearest_Points feats_down_body k =
     (let world = map (\<lambda>p. body_to_world s (pxyz p)) feats_down_body in
      if length Nearest_Points < length world then None
      else case Add_Points ne k (points_with With_Downsample fs inited Nearest_Points world) True of
             None \<Rightarrow> None
           | Some (k1, _) \<Rightarrow>
               map_option fst (Add_Points ne k1 (points_with No_Downsample fs inited Nearest_Points world) False))"

section \<open>What the mapping side asks of the map\<close>

text \<open>
  The interface between the mapping node and its map: boxes are deleted exactly, points are
  added exactly, and adding with down-sampling leaves one point in the voxel of each given
  point and other voxels alone.
\<close>

locale point_store =
  fixes inv :: "'s \<Rightarrow> bool"
    and contents :: "'s \<Rightarrow> point3 multiset"
    and cell :: "'s \<Rightarrow> real"
    and delete_boxes :: "'s \<Rightarrow> BoxPointType list \<Rightarrow> 's \<times> int"
    and add_points :: "'s \<Rightarrow> point3 list \<Rightarrow> bool \<Rightarrow> ('s \<times> int) option"
  assumes delete_exact: "inv s \<Longrightarrow> delete_boxes s bs = (s', n) \<Longrightarrow>
      inv s' \<and> contents s' = filter_mset (\<lambda>p. \<forall>b \<in> set bs. \<not> in_box b p) (contents s)"
    and add_exact: "inv s \<Longrightarrow> add_points s ps False = Some (s', n) \<Longrightarrow>
      inv s' \<and> contents s' = contents s + mset ps"
    and add_down: "inv s \<Longrightarrow> 0 < cell s \<Longrightarrow> add_points s ps True = Some (s', n) \<Longrightarrow>
      inv s' \<and> cell s' = cell s
      \<and> (\<forall>p \<in> set ps. size (filter_mset (in_box (voxel_box (cell s) p)) (contents s')) = 1)
      \<and> (\<forall>q. (\<forall>p \<in> set ps. \<not> in_box (voxel_box (cell s) q) p) \<longrightarrow>
           filter_mset (in_box (voxel_box (cell s) q)) (contents s') = filter_mset (in_box (voxel_box (cell s) q)) (contents s))"
begin

text \<open>Deleting boxes that together make up \<open>old\<close> without \<open>new\<close> keeps exactly the rest.\<close>

lemma delete_difference:
  assumes "inv s" "delete_boxes s bs = (s', n)" "\<And>p. (\<exists>b \<in> set bs. in_box b p) \<longleftrightarrow> in_box old p \<and> \<not> in_box new p"
  shows "inv s' \<and> contents s' = filter_mset (\<lambda>p. in_box old p \<longrightarrow> in_box new p) (contents s)"
proof -
  have "(\<forall>b \<in> set bs. \<not> in_box b p) \<longleftrightarrow> (in_box old p \<longrightarrow> in_box new p)" for p using assms(3) [of p] by blast
  then show ?thesis using delete_exact [OF assms(1,2)] by simp
qed

text \<open>Adding some points with down-sampling and then others without covers the voxels of all.\<close>

lemma add_both:
  assumes "inv s" "0 < cell s" "add_points s ps True = Some (s1, n)" "add_points s1 qs False = Some (s2, m)"
  shows "inv s2 \<and> (\<forall>q \<in> set qs. q \<in># contents s2)
    \<and> (\<forall>p \<in> set ps. \<exists>q \<in># contents s2. in_box (voxel_box (cell s) p) q)"
proof -
  note D = add_down [OF assms(1,2,3)]
  note E = add_exact [OF _ assms(4)]
  have "\<exists>q \<in># contents s2. in_box (voxel_box (cell s) p) q" if "p \<in> set ps" for p
  proof -
    have "size (filter_mset (in_box (voxel_box (cell s) p)) (contents s1)) = 1" using D that by blast
    then obtain q where "q \<in># filter_mset (in_box (voxel_box (cell s) p)) (contents s1)"
      by (metis multiset_nonemptyE size_empty zero_neq_one)
    then show ?thesis using D E by auto
  qed
  then show ?thesis using D E by auto
qed

end

lemma Add_Points_plain:
  assumes "nth_element_ok ne" "kd_ok k" "Add_Points ne k ps False = Some (k', n)"
  shows "kd_ok k' \<and> points_of k' = points_of k + mset ps"
proof (cases "Root_Node k = Null")
  case True
  then have "ps = []"
    using assms(3) by (cases ps) (auto simp: Add_Points_def add_plain_def add_root_def Let_def split: option.splits)
  then show ?thesis using assms by (auto simp: Add_Points_def split: option.splits)
next
  case False
  then show ?thesis using add_all_plain_spec [OF assms(1,2) False, of ps] assms(3)
    by (auto simp: Add_Points_def split: option.splits)
qed

lemma ikd_point_store:
  assumes "nth_element_ok ne"
  shows "point_store kd_ok points_of (\<lambda>k. downsample_size (kd_st k)) (Delete_Point_Boxes ne) (Add_Points ne)"
proof unfold_locales
  show "kd_ok k' \<and> points_of k' = filter_mset (\<lambda>p. \<forall>b \<in> set bs. \<not> in_box b p) (points_of k)"
    if "kd_ok k" "Delete_Point_Boxes ne k bs = (k', n)" for k bs k' n
    using Delete_Point_Boxes_spec [OF assms that] by blast
  show "kd_ok k' \<and> points_of k' = points_of k + mset ps"
    if "kd_ok k" "Add_Points ne k ps False = Some (k', n)" for k ps k' n
    by (rule Add_Points_plain [OF assms that])
  show "kd_ok k' \<and> downsample_size (kd_st k') = downsample_size (kd_st k)
    \<and> (\<forall>p \<in> set ps. size (filter_mset (in_box (voxel_box (downsample_size (kd_st k)) p)) (points_of k')) = 1)
    \<and> (\<forall>q. (\<forall>p \<in> set ps. \<not> in_box (voxel_box (downsample_size (kd_st k)) q) p) \<longrightarrow>
        filter_mset (in_box (voxel_box (downsample_size (kd_st k)) q)) (points_of k')
        = filter_mset (in_box (voxel_box (downsample_size (kd_st k)) q)) (points_of k))"
    if "kd_ok k" "0 < downsample_size (kd_st k)" "Add_Points ne k ps True = Some (k', n)" for k ps k' n
    by (rule Add_Points_down [OF assms that])
qed

interpretation ikd_map: point_store kd_ok points_of "\<lambda>k. downsample_size (kd_st k)"
    "Delete_Point_Boxes sort_nth" "Add_Points sort_nth"
  by (rule ikd_point_store [OF sort_nth_ok])

section \<open>Moving the local map\<close>

definition cube_box :: "real \<Rightarrow> BoxPointType \<Rightarrow> bool" where
  "cube_box c b \<longleftrightarrow> xmax b - xmin b = c \<and> ymax b - ymin b = c \<and> zmax b - zmin b = c"

lemma fold_axes: "fold f [0..<3] s = f 2 (f 1 (f 0 s))" for f :: "nat \<Rightarrow> 'a \<Rightarrow> 'a"
  by (simp add: numeral_3_eq_3 numeral_2_eq_2)

lemma axis_z: "vget 2 q = pz q" "vset 2 x q = q\<lparr>pz := x\<rparr>"
  by (simp_all add: numeral_2_eq_2)

text \<open>The boxes to delete are together the old box without the new one.\<close>

lemma fov_slabs:
  assumes "move_map det mov old pos = (new, cub)" "0 \<le> mov" "mov \<le> c" "cube_box c old"
  shows "(\<exists>b \<in> set cub. in_box b p) \<longleftrightarrow> in_box old p \<and> \<not> in_box new p"
  using assms(1) [unfolded move_map_def fold_axes, symmetric] assms(2-4)
  apply (cases "near_min det old pos 0"; cases "near_max det old pos 0"; cases "near_min det old pos 1";
      cases "near_max det old pos 1"; cases "near_min det old pos 2"; cases "near_max det old pos 2")
  apply (simp_all add: move_axis_def axis_z in_box_def cube_box_def)
  apply linarith+
  done

lemma move_map_cube:
  assumes "move_map det mov old pos = (new, cub)" "cube_box c old"
  shows "cube_box c new"
  using assms(1) [unfolded move_map_def fold_axes, symmetric] assms(2)
  by (cases "near_min det old pos 0"; cases "near_max det old pos 0"; cases "near_min det old pos 1";
      cases "near_max det old pos 1"; cases "near_min det old pos 2"; cases "near_max det old pos 2")
     (simp_all add: move_axis_def axis_z cube_box_def)

text \<open>How far each axis moves.\<close>

lemma move_map_axis:
  assumes "move_map det mov old pos = (new, cub)" "i < 3"
  defines "d \<equiv> (if near_min det old pos i then - mov else if near_max det old pos i then mov else 0)"
  shows "vget i (vertex_min new) = vget i (vertex_min old) + d \<and> vget i (vertex_max new) = vget i (vertex_max old) + d"
proof -
  consider "i = 0" | "i = 1" | "i = 2" using assms(2) by linarith
  then show ?thesis
    using assms(1) [unfolded move_map_def fold_axes, symmetric]
    by cases (simp_all add: move_axis_def axis_z d_def split: if_splits prod.splits)
qed

lemma mov_dist_bounds:
  assumes "0 \<le> det" "det \<le> 2 * c"
  shows "0 \<le> mov_dist c det" "mov_dist c det \<le> c"
  using assms by (simp_all add: mov_dist_def MOV_THRESHOLD_def max_def field_simps)

section \<open>A round of the node's timer\<close>

text \<open>
  The inertial filter and the scan filter are arguments: \<open>imu_process\<close> is \<open>ImuProcess::Process\<close> (the
  filter state and \<open>feats_undistort\<close> after it), \<open>voxel_filter\<close> PCL's voxel grid, \<open>update\<close> the iterated
  update of the filter, which searches the map and fills \<open>Nearest_Points\<close>, or is \<open>None\<close> where it leaves its arrays.
\<close>

definition INIT_TIME :: real where "INIT_TIME = 1 / 10"

record 'kf lio_node =
  node_input :: lio_input
  node_kf :: 'kf
  node_map :: local_map
  ikdtree :: KD_TREE
  flg_first_scan :: bool
  first_lidar_time :: real
  flg_EKF_inited :: bool
  feats_undistort :: scan
  filter_size_map_min :: real

definition set_downsample_param :: "real \<Rightarrow> KD_TREE \<Rightarrow> KD_TREE" where
  "set_downsample_param ds k = k\<lparr>kd_st := (kd_st k)\<lparr>downsample_size := ds\<rparr>\<rparr>"

definition lidar_position :: "state_ikfom \<Rightarrow> point3" where
  "lidar_position s = vadd (st_pos s) (mvec (st_rot s) (offset_T_L_I s))"

definition timer_callback ::
  "nth_fun \<Rightarrow> (MeasureGroup \<Rightarrow> 'kf \<Rightarrow> scan \<Rightarrow> 'kf \<times> scan) \<Rightarrow> ('kf \<Rightarrow> state_ikfom) \<Rightarrow> (scan \<Rightarrow> scan)
   \<Rightarrow> ('kf \<Rightarrow> scan \<Rightarrow> KD_TREE \<Rightarrow> ('kf \<times> point3 list list \<times> KD_TREE) option) \<Rightarrow> 'kf lio_node \<Rightarrow> 'kf lio_node option" where
  "timer_callback ne imu_process get_x voxel_filter update n =
     (case sync_packages (node_input n) of
        None \<Rightarrow> None
      | Some (inp, ready) \<Rightarrow>
          let n0 = n\<lparr>node_input := inp\<rparr>; meas = Measures inp in
          if \<not> ready then Some n0
          else if flg_first_scan n0 then Some (n0\<lparr>first_lidar_time := lidar_beg_time meas, flg_first_scan := False\<rparr>)
          else
            let (kf1, undist) = imu_process meas (node_kf n0) (feats_undistort n0);
                n1 = n0\<lparr>node_kf := kf1, feats_undistort := undist\<rparr>
            in if undist = [] then Some n1
               else
                 let inited = (\<not> lidar_beg_time meas - first_lidar_time n1 < INIT_TIME);
                     (m1, k1) = lasermap_fov_segment ne (lidar_position (get_x kf1)) (node_map n1, ikdtree n1);
                     n2 = n1\<lparr>flg_EKF_inited := inited, node_map := m1, ikdtree := k1\<rparr>;
                     body = voxel_filter undist
                 in if Root_Node k1 = Null then
                      Some (if length body > 5
                            then n2\<lparr>ikdtree := Build ne (set_downsample_param (filter_size_map_min n2) k1)
                                                 (map (\<lambda>p. body_to_world (get_x kf1) (pxyz p)) body)\<rparr>
                            else n2)
                    else if length body < 5 then Some n2
                    else case update kf1 body k1 of
                      None \<Rightarrow> None
                    | Some (kf2, near, k2) \<Rightarrow>
                        map_option (\<lambda>k3. n2\<lparr>node_kf := kf2, ikdtree := k3\<rparr>)
                          (map_incremental ne (get_x kf2) (filter_size_map_min n2) inited near body k2))"

end
