(* ===== verification/Lio_Measure.thy ===== *)
theory Lio_Measure
  imports Lio_Map
begin

text \<open>
  The measurement of the filter (\<open>h_share_model\<close> of laserMapping.cpp, \<open>esti_plane\<close> of common\_lib.h):
  every point of the scan is matched with a plane through its five nearest points of the map, and
  the distances to the planes with their derivatives are handed to the filter.
\<close>

section \<open>Planes\<close>

text \<open>
  What \<open>esti_plane\<close> delivers.  The least squares solution may be zero; then the coefficients are
  not numbers, every comparison with them is false, and the plane is accepted.
\<close>

datatype plane = No_Plane | Plane point3 real | Plane_NaN

definition plane_dist :: "point3 \<Rightarrow> real \<Rightarrow> point3 \<Rightarrow> real" where
  "plane_dist nv d q = px nv * px q + py nv * py q + pz nv * pz q + d"

text \<open>\<open>solve\<close> stands for \<open>colPivHouseholderQr().solve(b)\<close>, where every component of \<open>b\<close> is -1.\<close>

definition esti_plane :: "(point3 list \<Rightarrow> point3) \<Rightarrow> point3 list \<Rightarrow> real \<Rightarrow> plane option" where
  "esti_plane solve points threshold =
     (if length points < NUM_MATCH_POINTS then None
      else
        let ps = take NUM_MATCH_POINTS points; normvec = solve ps; n = vnorm normvec in
        if n = 0 then Some Plane_NaN
        else
          let nv = vscale (1 / n) normvec; d = 1 / n
          in if list_all (\<lambda>q. \<not> \<bar>plane_dist nv d q\<bar> > threshold) ps then Some (Plane nv d) else Some No_Plane)"

section \<open>Matching\<close>

text \<open>The elements of \<open>Nearest_Points\<close>, \<open>point_selected_surf\<close>, \<open>normvec\<close> and \<open>res_last\<close> for one point.\<close>

record slot =
  points_near :: "point3 list"
  selected_surf :: bool
  norm_xyz :: point3
  norm_dist :: real
  res_last :: real

text \<open>A point at the origin of the lidar divides by zero and is not taken.\<close>

definition close_to_plane :: "real \<Rightarrow> point3 \<Rightarrow> bool" where
  "close_to_plane pd2 p_body \<longleftrightarrow> vnorm p_body \<noteq> 0 \<and> 1 - 9 / 10 * \<bar>pd2\<bar> / sqrt (vnorm p_body) > 9 / 10"

definition fit_plane :: "(point3 list \<Rightarrow> point3) \<Rightarrow> point3 \<Rightarrow> point3 \<Rightarrow> slot \<Rightarrow> slot option" where
  "fit_plane solve p_body p_world c =
     (if \<not> selected_surf c then Some c
      else case esti_plane solve (points_near c) (1 / 10) of
        None \<Rightarrow> None
      | Some (Plane nv d) \<Rightarrow>
          let pd2 = plane_dist nv d p_world in
          Some (if close_to_plane pd2 p_body
                then c\<lparr>selected_surf := True, norm_xyz := nv, norm_dist := pd2, res_last := \<bar>pd2\<bar>\<rparr>
                else c\<lparr>selected_surf := False\<rparr>)
      | Some _ \<Rightarrow> Some (c\<lparr>selected_surf := False\<rparr>))"

text \<open>Only where the filter has converged the nearest points are searched again.\<close>

definition search_near :: "bool \<Rightarrow> point3 \<Rightarrow> slot \<Rightarrow> KD_TREE \<Rightarrow> slot \<times> KD_TREE" where
  "search_near converge p_world c k =
     (if converge then
        case kd_Nearest_Search k p_world NUM_MATCH_POINTS Inf of
          (k', near, dists) \<Rightarrow>
            (c\<lparr>points_near := near,
               selected_surf := (\<not> length near < NUM_MATCH_POINTS \<and> \<not> dists ! (NUM_MATCH_POINTS - 1) > Fin 5)\<rparr>, k')
      else (c, k))"

definition match_point ::
  "(point3 list \<Rightarrow> point3) \<Rightarrow> bool \<Rightarrow> state_ikfom \<Rightarrow> point3 \<Rightarrow> slot \<Rightarrow> KD_TREE \<Rightarrow> (slot \<times> KD_TREE) option" where
  "match_point solve converge s p_body c k =
     (let p_world = body_to_world s p_body; (c1, k1) = search_near converge p_world c k
      in map_option (\<lambda>c2. (c2, k1)) (fit_plane solve p_body p_world c1))"

fun match_points ::
  "(point3 list \<Rightarrow> point3) \<Rightarrow> bool \<Rightarrow> state_ikfom \<Rightarrow> point3 list \<Rightarrow> slot list \<Rightarrow> KD_TREE \<Rightarrow> (slot list \<times> KD_TREE) option" where
  "match_points solve converge s [] cs k = Some (cs, k)"
| "match_points solve converge s (p # ps) [] k = None"
| "match_points solve converge s (p # ps) (c # cs) k =
     Option.bind (match_point solve converge s p c k) (\<lambda>(c', k1).
       map_option (\<lambda>(cs', k2). (c' # cs', k2)) (match_points solve converge s ps cs k1))"

section \<open>The measurement\<close>

text \<open>One row of the twelve columns of \<open>h_x\<close>, and the measurement with its mean residual.\<close>

record h_row =
  row_pos :: point3
  row_rot :: point3
  row_offset_R :: point3
  row_offset_T :: point3

record measurement =
  h_x :: "h_row list"
  h_vec :: "real list"
  res_mean_last :: real

definition jacobian_row :: "bool \<Rightarrow> state_ikfom \<Rightarrow> point3 \<Rightarrow> point3 \<Rightarrow> h_row" where
  "jacobian_row extrinsic_est_en s p_body norm_vec =
     (let point_this = vadd (mvec (offset_R_L_I s) p_body) (offset_T_L_I s);
          C = mvec (transp (st_rot s)) norm_vec;
          A = mvec (skew_sym_mat point_this) C
      in if extrinsic_est_en
         then \<lparr>row_pos = norm_vec, row_rot = A,
               row_offset_R = mvec (mmul (skew_sym_mat p_body) (transp (offset_R_L_I s))) C, row_offset_T = C\<rparr>
         else \<lparr>row_pos = norm_vec, row_rot = A, row_offset_R = vzero, row_offset_T = vzero\<rparr>)"

text \<open>The arrays have 100000 elements; \<open>laserCloudOri\<close> and \<open>corr_normvect\<close> are the selected pairs.\<close>

definition kMaxFeats :: nat where "kMaxFeats = 100000"

definition effective :: "point3 list \<Rightarrow> slot list \<Rightarrow> (point3 \<times> slot) list" where
  "effective ps cs = filter (\<lambda>(p, c). selected_surf c) (zip ps cs)"

definition build_measurement :: "bool \<Rightarrow> state_ikfom \<Rightarrow> (point3 \<times> slot) list \<Rightarrow> measurement option" where
  "build_measurement extrinsic_est_en s eff =
     (if length eff < 1 then None
      else Some \<lparr>h_x = map (\<lambda>(p, c). jacobian_row extrinsic_est_en s p (norm_xyz c)) eff,
                 h_vec = map (\<lambda>(p, c). - norm_dist c) eff,
                 res_mean_last = sum_list (map (\<lambda>(p, c). res_last c) eff) / real (length eff)\<rparr>)"

text \<open>The result is the arrays, the map, and the measurement unless it is not valid.\<close>

definition h_share_model ::
  "(point3 list \<Rightarrow> point3) \<Rightarrow> bool \<Rightarrow> point3 list \<Rightarrow> bool \<Rightarrow> state_ikfom \<Rightarrow> slot list \<times> KD_TREE
   \<Rightarrow> ((slot list \<times> KD_TREE) \<times> measurement option) option" where
  "h_share_model solve extrinsic_est_en feats_down_body converge s =
     (\<lambda>(cs, k).
        if length feats_down_body > kMaxFeats then None
        else map_option (\<lambda>(cs', k'). ((cs', k'), build_measurement extrinsic_est_en s (effective feats_down_body cs')))
               (match_points solve converge s feats_down_body cs k))"

end
