(* ===== verification/Matrices.thy ===== *)
theory Matrices
  imports LIO_Prelude
begin

text \<open>
  Matrices of any size, as the filter uses them (Eigen): a matrix is a function of row and column
  that is zero outside its size, a vector is a function of the index.  The inverse is a parameter
  of the users; what is known of it is \<open>inverse_of\<close>.
\<close>

type_synonym mat = "nat \<Rightarrow> nat \<Rightarrow> real"
type_synonym vec = "nat \<Rightarrow> real"

definition fits :: "nat \<Rightarrow> nat \<Rightarrow> mat \<Rightarrow> bool" where
  "fits r c A \<longleftrightarrow> (\<forall>i j. r \<le> i \<or> c \<le> j \<longrightarrow> A i j = 0)"

definition idm :: "nat \<Rightarrow> mat" where
  "idm n = (\<lambda>i j. if i = j \<and> i < n then 1 else 0)"

text \<open>The product over an inner size, the transpose, sums and multiples.\<close>

definition mm :: "nat \<Rightarrow> mat \<Rightarrow> mat \<Rightarrow> mat" where
  "mm n A B = (\<lambda>i j. \<Sum>k<n. A i k * B k j)"

definition tr :: "mat \<Rightarrow> mat" where
  "tr A = (\<lambda>i j. A j i)"

definition ma :: "mat \<Rightarrow> mat \<Rightarrow> mat" where
  "ma A B = (\<lambda>i j. A i j + B i j)"

definition msc :: "real \<Rightarrow> mat \<Rightarrow> mat" where
  "msc c A = (\<lambda>i j. c * A i j)"

definition mv :: "nat \<Rightarrow> mat \<Rightarrow> vec \<Rightarrow> vec" where
  "mv n A v = (\<lambda>i. \<Sum>k<n. A i k * v k)"

definition msub :: "mat \<Rightarrow> mat \<Rightarrow> mat" where
  "msub A B = ma A (msc (- 1) B)"

section \<open>Algebra\<close>

lemma mm_assoc: "mm n (mm m A B) C = mm m A (mm n B C)"
proof (intro ext)
  fix i j
  have "(\<Sum>k<n. (\<Sum>l<m. A i l * B l k) * C k j) = (\<Sum>k<n. \<Sum>l<m. A i l * (B l k * C k j))"
    by (simp add: sum_distrib_right mult.assoc)
  also have "\<dots> = (\<Sum>l<m. \<Sum>k<n. A i l * (B l k * C k j))" by (rule sum.swap)
  also have "\<dots> = (\<Sum>l<m. A i l * (\<Sum>k<n. B l k * C k j))" by (simp add: sum_distrib_left)
  finally show "mm n (mm m A B) C i j = mm m A (mm n B C) i j" by (simp add: mm_def)
qed

lemma mm_mv: "mv n (mm m A B) v = mv m A (mv n B v)"
proof
  fix i
  have "(\<Sum>k<n. (\<Sum>l<m. A i l * B l k) * v k) = (\<Sum>k<n. \<Sum>l<m. A i l * (B l k * v k))"
    by (simp add: sum_distrib_right mult.assoc)
  also have "\<dots> = (\<Sum>l<m. \<Sum>k<n. A i l * (B l k * v k))" by (rule sum.swap)
  finally show "mv n (mm m A B) v i = mv m A (mv n B v) i" by (simp add: mv_def mm_def sum_distrib_left)
qed

lemma mm_ma: "mm n (ma A B) C = ma (mm n A C) (mm n B C)" "mm n C (ma A B) = ma (mm n C A) (mm n C B)"
  by (intro ext; simp add: mm_def ma_def sum.distrib algebra_simps)+

lemma mm_msc: "mm n (msc c A) B = msc c (mm n A B)" "mm n A (msc c B) = msc c (mm n A B)"
  by (intro ext; simp add: mm_def msc_def sum_distrib_left algebra_simps)+

lemma tr_mm: "tr (mm n A B) = mm n (tr B) (tr A)"
  by (intro ext) (simp add: mm_def tr_def mult.commute)

lemma tr_simps [simp]: "tr (tr A) = A" "tr (ma A B) = ma (tr A) (tr B)" "tr (msc c A) = msc c (tr A)" "tr (idm n) = idm n"
  by (intro ext; simp add: tr_def ma_def msc_def idm_def)+

lemma msc_msc [simp]: "msc a (msc b A) = msc (a * b) A" "msc 1 A = A"
  by (intro ext; simp add: msc_def)+

lemma ma_comm: "ma A B = ma B A"
  by (intro ext) (simp add: ma_def)

lemma ma_assoc: "ma (ma A B) C = ma A (ma B C)"
  by (intro ext) (simp add: ma_def)

lemma msub_cancel [simp]: "ma (msub A B) B = A" "msub (ma A B) B = A" "msub (ma A B) A = B"
  by (intro ext; simp add: ma_def msub_def msc_def)+

lemma mm_msub: "mm n (msub A B) C = msub (mm n A C) (mm n B C)" "mm n C (msub A B) = msub (mm n C A) (mm n C B)"
  by (simp_all add: msub_def mm_ma mm_msc)

lemma tr_msub [simp]: "tr (msub A B) = msub (tr A) (tr B)"
  by (simp add: msub_def)

lemma mm_idm: "fits n c A \<Longrightarrow> mm n (idm n) A = A" "fits r n A \<Longrightarrow> mm n A (idm n) = A"
proof -
  assume a: "fits n c A"
  show "mm n (idm n) A = A"
  proof (intro ext)
    fix i j
    have "(\<Sum>k<n. idm n i k * A k j) = (\<Sum>k<n. if i = k then A k j else 0)"
      by (intro sum.cong refl) (auto simp: idm_def)
    also have "\<dots> = A i j" using a by (auto simp: fits_def)
    finally show "mm n (idm n) A i j = A i j" by (simp add: mm_def)
  qed
next
  assume a: "fits r n A"
  show "mm n A (idm n) = A"
  proof (intro ext)
    fix i j
    have "(\<Sum>k<n. A i k * idm n k j) = (\<Sum>k<n. if k = j then A i k else 0)"
      by (intro sum.cong refl) (auto simp: idm_def)
    also have "\<dots> = A i j" using a by (auto simp: fits_def)
    finally show "mm n A (idm n) i j = A i j" by (simp add: mm_def)
  qed
qed

lemma fits_idm [simp]: "fits n n (idm n)"
  by (simp add: fits_def idm_def)

lemma fits_mm: "fits r n A \<Longrightarrow> fits n c B \<Longrightarrow> fits r c (mm n A B)"
  by (auto simp: fits_def mm_def intro!: sum.neutral)

lemma fits_tr: "fits r c A \<Longrightarrow> fits c r (tr A)"
  by (auto simp: fits_def tr_def)

lemma fits_ma: "fits r c A \<Longrightarrow> fits r c B \<Longrightarrow> fits r c (ma A B)"
  by (auto simp: fits_def ma_def)

lemma fits_msc: "fits r c A \<Longrightarrow> fits r c (msc k A)"
  by (auto simp: fits_def msc_def)

lemma fits_msub: "fits r c A \<Longrightarrow> fits r c B \<Longrightarrow> fits r c (msub A B)"
  by (simp add: msub_def fits_ma fits_msc)

lemmas fits_intros = fits_mm fits_tr fits_ma fits_msc fits_msub fits_idm

section \<open>Inverses\<close>

definition inverse_of :: "nat \<Rightarrow> mat \<Rightarrow> mat \<Rightarrow> bool" where
  "inverse_of n A B \<longleftrightarrow> fits n n A \<and> fits n n B \<and> mm n A B = idm n \<and> mm n B A = idm n"

text \<open>What is documented of \<open>inverse()\<close>: it inverts what can be inverted.\<close>

definition inverse_ok :: "(nat \<Rightarrow> mat \<Rightarrow> mat) \<Rightarrow> bool" where
  "inverse_ok invm \<longleftrightarrow> (\<forall>n A. (\<exists>B. inverse_of n A B) \<longrightarrow> inverse_of n A (invm n A))"

lemma inverse_unique: "inverse_of n A B \<Longrightarrow> inverse_of n A C \<Longrightarrow> B = C"
  unfolding inverse_of_def by (metis mm_assoc mm_idm)

lemma inverse_of_sym: "inverse_of n A B \<Longrightarrow> inverse_of n B A"
  by (simp add: inverse_of_def)

lemma inverse_of_tr: "inverse_of n A B \<Longrightarrow> inverse_of n (tr A) (tr B)"
  unfolding inverse_of_def by (metis fits_tr tr_mm tr_simps(4))

lemma inverse_of_scale: "inverse_of n A B \<Longrightarrow> c \<noteq> 0 \<Longrightarrow> inverse_of n (msc c A) (msc (1 / c) B)"
  by (auto simp: inverse_of_def mm_msc intro: fits_msc)

text \<open>An equation \<open>T X = Y S\<close> solved for both sides.\<close>

lemma exchange_inverses:
  assumes "inverse_of n T T'" "inverse_of m S S'" "fits n m X" "fits n m Y" "mm n T X = mm m Y S"
  shows "mm m X S' = mm n T' Y"
proof -
  have "mm n T' (mm n T X) = X" using assms(1,3) by (simp add: inverse_of_def mm_idm flip: mm_assoc)
  then have "X = mm n T' (mm m Y S)" using assms(5) by simp
  then have "mm m X S' = mm n T' (mm m (mm m Y S) S')" by (simp add: mm_assoc)
  also have "mm m (mm m Y S) S' = Y" using assms(2,4) by (simp add: inverse_of_def mm_idm mm_assoc)
  finally show ?thesis .
qed

section \<open>Symmetric and positive semidefinite matrices\<close>

definition inner_prod :: "nat \<Rightarrow> vec \<Rightarrow> vec \<Rightarrow> real" where
  "inner_prod n v w = (\<Sum>i<n. v i * w i)"

definition psd :: "nat \<Rightarrow> mat \<Rightarrow> bool" where
  "psd n A \<longleftrightarrow> tr A = A \<and> (\<forall>v. 0 \<le> inner_prod n v (mv n A v))"

lemma inner_prod_tr: "inner_prod n v (mv m A w) = inner_prod m (mv n (tr A) v) w"
proof -
  have "(\<Sum>i<n. v i * (\<Sum>k<m. A i k * w k)) = (\<Sum>i<n. \<Sum>k<m. A i k * v i * w k)" by (simp add: sum_distrib_left algebra_simps)
  also have "\<dots> = (\<Sum>k<m. \<Sum>i<n. A i k * v i * w k)" by (rule sum.swap)
  finally show ?thesis by (simp add: inner_prod_def mv_def tr_def sum_distrib_right)
qed

lemma inner_prod_self: "0 \<le> inner_prod n v v"
  by (simp add: inner_prod_def sum_nonneg)

lemma mv_ma: "inner_prod n v (mv m (ma A B) w) = inner_prod n v (mv m A w) + inner_prod n v (mv m B w)"
  by (simp add: inner_prod_def mv_def ma_def sum.distrib algebra_simps)

lemma mv_msc: "inner_prod n v (mv m (msc c A) w) = c * inner_prod n v (mv m A w)"
  by (simp add: inner_prod_def mv_def msc_def sum_distrib_left algebra_simps)

lemma psd_ma: "psd n A \<Longrightarrow> psd n B \<Longrightarrow> psd n (ma A B)"
  by (simp add: psd_def mv_ma)

lemma psd_msc: "psd n A \<Longrightarrow> 0 \<le> c \<Longrightarrow> psd n (msc c A)"
  by (simp add: psd_def mv_msc)

lemma psd_congruence: "psd n P \<Longrightarrow> psd m (mm n (mm n F P) (tr F))"
proof -
  assume p: "psd n P"
  have "inner_prod m v (mv m (mm n (mm n F P) (tr F)) v) = inner_prod n (mv m (tr F) v) (mv n P (mv m (tr F) v))" for v
    unfolding mm_mv by (rule inner_prod_tr)
  then show ?thesis using p by (simp add: psd_def tr_mm mm_assoc)
qed

lemma psd_square: "psd n (mm m (tr H) H)"
proof -
  have "inner_prod n v (mv n (mm m (tr H) H) v) = inner_prod m (mv n H v) (mv n H v)" for v
    unfolding mm_mv using inner_prod_tr [of n v m "tr H"] by simp
  then show ?thesis by (simp add: psd_def tr_mm inner_prod_self)
qed

lemma psd_inverse: "psd n A \<Longrightarrow> inverse_of n A B \<Longrightarrow> psd n B"
proof -
  assume a: "psd n A" and b: "inverse_of n A B"
  have "inverse_of n A (tr B)" using inverse_of_tr [OF b] a by (simp add: psd_def)
  from inverse_unique [OF b this] have t: "tr B = B" by (rule sym)
  have "mm n (mm n B A) (tr B) = B" using b t by (simp add: inverse_of_def mm_idm(1) [of n n])
  then show ?thesis using psd_congruence [OF a, of n B] by simp
qed

section \<open>Positive definite matrices have an inverse\<close>

definition pd :: "nat \<Rightarrow> mat \<Rightarrow> bool" where
  "pd n A \<longleftrightarrow> fits n n A \<and> tr A = A \<and> (\<forall>v. (\<exists>i<n. v i \<noteq> 0) \<longrightarrow> 0 < inner_prod n v (mv n A v))"

text \<open>The Schur complement of the last diagonal element.\<close>

definition schur :: "nat \<Rightarrow> mat \<Rightarrow> mat" where
  "schur n A = (\<lambda>i j. if i < n \<and> j < n then A i j - A i n * A j n / A n n else 0)"

lemma pd_pos: "pd n A \<Longrightarrow> i < n \<Longrightarrow> v i \<noteq> 0 \<Longrightarrow> 0 < inner_prod n v (mv n A v)"
  unfolding pd_def by blast

lemma pd_corner: "pd (Suc n) A \<Longrightarrow> 0 < A n n"
proof -
  let ?e = "\<lambda>i. if i = n then 1 else 0 :: real"
  assume "pd (Suc n) A"
  then have "0 < inner_prod (Suc n) ?e (mv (Suc n) A ?e)" by (rule pd_pos [where i = n]) simp_all
  then show ?thesis by (simp add: inner_prod_def mv_def)
qed

lemma sym_entry: "tr A = A \<Longrightarrow> A i j = A j i"
  by (metis tr_def)

lemma pd_schur:
  assumes A: "pd (Suc n) A"
  shows "pd n (schur n A)"
proof -
  have a: "0 < A n n" using pd_corner [OF A] .
  have s: "A i j = A j i" for i j by (rule sym_entry) (use A in \<open>simp add: pd_def\<close>)
  have "0 < inner_prod n v (mv n (schur n A) v)" if v: "\<exists>i<n. v i \<noteq> 0" for v
  proof -
    let ?t = "\<Sum>k<n. A n k * v k" and ?w = "\<lambda>i. if i = n then - (\<Sum>k<n. A n k * v k) / A n n else v i"
    obtain i where "i < n" "v i \<noteq> 0" using v by blast
    then have "0 < inner_prod (Suc n) ?w (mv (Suc n) A ?w)" by (intro pd_pos [OF A, where i = i]) simp_all
    also have "inner_prod (Suc n) ?w (mv (Suc n) A ?w) =
        (\<Sum>i<n. v i * ((\<Sum>k<n. A i k * v k) - A i n * ?t / A n n)) + (- ?t / A n n) * (?t - A n n * ?t / A n n)"
      by (simp add: inner_prod_def mv_def)
    also have "\<dots> = (\<Sum>i<n. v i * ((\<Sum>k<n. A i k * v k) - A i n * ?t / A n n))" using a by simp
    also have "\<dots> = inner_prod n v (mv n (schur n A) v)"
    proof -
      have "(\<Sum>k<n. A i k * v k) - A i n * ?t / A n n = (\<Sum>k<n. schur n A i k * v k)" if i: "i < n" for i
      proof -
        have "A i n * ?t / A n n = (\<Sum>k<n. A i n * (A n k * v k) / A n n)" by (simp only: sum_distrib_left sum_divide_distrib)
        also have "\<dots> = (\<Sum>k<n. A i n * A k n / A n n * v k)"
        proof (intro sum.cong refl)
          fix k show "A i n * (A n k * v k) / A n n = A i n * A k n / A n n * v k" using s [of n k] by simp
        qed
        finally have "A i n * ?t / A n n = (\<Sum>k<n. A i n * A k n / A n n * v k)" .
        then show ?thesis using i by (simp add: schur_def sum_subtractf left_diff_distrib)
      qed
      then show ?thesis by (simp add: inner_prod_def mv_def)
    qed
    finally show ?thesis .
  qed
  moreover have "tr (schur n A) = schur n A" using s by (intro ext) (auto simp: tr_def schur_def)
  ultimately show ?thesis by (auto simp: pd_def fits_def schur_def)
qed

lemma sum_idm: "i < n \<Longrightarrow> (\<Sum>k<n. idm n i k * f k) = f i"
proof -
  assume i: "i < n"
  have "(\<Sum>k<n. idm n i k * f k) = (\<Sum>k<n. if i = k then f k else 0)" by (intro sum.cong refl) (auto simp: idm_def)
  then show ?thesis using i by simp
qed

lemma pd_inverse: "pd n A \<Longrightarrow> \<exists>B. inverse_of n A B"
proof (induction n arbitrary: A)
  case 0
  then have "A = (\<lambda>i j. 0)" by (auto simp: pd_def fits_def)
  then show ?case by (intro exI [of _ A]) (auto simp: inverse_of_def fits_def mm_def idm_def)
next
  case (Suc n)
  let ?a = "A n n"
  have a: "0 < ?a" using pd_corner [OF Suc.prems] .
  have s: "A i j = A j i" for i j by (rule sym_entry) (use Suc.prems in \<open>simp add: pd_def\<close>)
  have z: "Suc n \<le> i \<or> Suc n \<le> j \<Longrightarrow> A i j = 0" for i j using Suc.prems unfolding pd_def fits_def by blast
  obtain T where T: "inverse_of n (schur n A) T" using Suc.IH [OF pd_schur [OF Suc.prems]] by blast
  have tT: "tr T = T"
    using inverse_unique [OF T] inverse_of_tr [OF T] pd_schur [OF Suc.prems] unfolding pd_def by metis
  have sT: "T i j = T j i" for i j using tT by (rule sym_entry)
  define c where "c = (\<lambda>i. \<Sum>k<n. T i k * A k n)"
  define B where "B = (\<lambda>i j. if i < n \<and> j < n then T i j else if i < n \<and> j = n then - c i / ?a else if i = n \<and> j < n then - c j / ?a
      else if i = n \<and> j = n then 1 / ?a + (\<Sum>k<n. A n k * c k) / (?a * ?a) else 0)"
  have fB: "fits (Suc n) (Suc n) B" by (auto simp: fits_def B_def)
  have sB: "B j i = B i j" for i j
  proof (cases "i < n \<and> j < n")
    case True
    then have "B j i = T j i" "B i j = T i j" by (simp_all add: B_def)
    then show ?thesis using sT by metis
  next
    case False then show ?thesis by (cases "i < n"; cases "j < n"; cases "i = n"; cases "j = n") (simp_all add: B_def)
  qed
  have tB: "tr B = B" unfolding tr_def by (intro ext, rule sB)
  have ST: "(\<Sum>k<n. schur n A i k * T k j) = idm n i j" for i j
    using T unfolding inverse_of_def mm_def by (elim conjE) (drule fun_cong [where x = i], drule fun_cong [where x = j], assumption)
  have AT: "(\<Sum>k<n. A i k * T k j) = idm n i j + A i n * c j / ?a" if i: "i < n" for i j
  proof -
    have "(\<Sum>k<n. A i k * T k j) = (\<Sum>k<n. schur n A i k * T k j) + (\<Sum>k<n. A i n * A k n / ?a * T k j)"
      unfolding sum.distrib [symmetric] using i by (intro sum.cong refl) (simp add: schur_def algebra_simps)
    also have "(\<Sum>k<n. A i n * A k n / ?a * T k j) = A i n * c j / ?a"
      by (simp add: c_def sum_distrib_left sum_divide_distrib sT [of _ j] algebra_simps)
    finally show ?thesis by (simp add: ST)
  qed
  have Ac: "(\<Sum>k<n. A i k * c k) = A i n + A i n * (\<Sum>k<n. A n k * c k) / ?a" if i: "i < n" for i
  proof -
    have "(\<Sum>k<n. A i k * c k) = (\<Sum>k<n. \<Sum>l<n. A i k * T k l * A l n)" by (simp add: c_def sum_distrib_left algebra_simps)
    also have "\<dots> = (\<Sum>l<n. \<Sum>k<n. A i k * T k l * A l n)" by (rule sum.swap)
    also have "\<dots> = (\<Sum>l<n. (idm n i l + A i n * c l / ?a) * A l n)" using AT [OF i] by (simp flip: sum_distrib_right)
    also have "\<dots> = (\<Sum>l<n. idm n i l * A l n) + (\<Sum>l<n. A i n * (A n l * c l) / ?a)"
      unfolding sum.distrib [symmetric]
    proof (intro sum.cong refl)
      fix l show "(idm n i l + A i n * c l / ?a) * A l n = idm n i l * A l n + A i n * (A n l * c l) / ?a"
        unfolding s [of l n] by (simp add: distrib_right)
    qed
    also have "(\<Sum>l<n. A i n * (A n l * c l) / ?a) = A i n * (\<Sum>l<n. A n l * c l) / ?a"
      by (simp only: sum_distrib_left sum_divide_distrib)
    also have "(\<Sum>l<n. idm n i l * A l n) = A i n" using i by (rule sum_idm)
    finally show ?thesis .
  qed
  have AB: "mm (Suc n) A B i j = idm (Suc n) i j" for i j
  proof -
    consider "Suc n \<le> i" | "Suc n \<le> j" "i < Suc n" | "i < n" "j < n" | "i < n" "j = n" | "i = n" "j < n" | "i = n" "j = n" by linarith
    then show ?thesis
    proof cases
      case 3 then show ?thesis using AT [of i j] a by (simp add: mm_def B_def idm_def)
    next
      case 4
      have "(\<Sum>k<n. A i k * (- c k / ?a)) = - (\<Sum>k<n. A i k * c k) / ?a" by (simp add: sum_divide_distrib sum_negf)
      then show ?thesis using Ac [of i] a 4 by (simp add: mm_def B_def idm_def field_simps)
    next
      case 5
      have "(\<Sum>k<n. A n k * T k j) = c j" using s [of n] sT [of j] by (simp add: c_def mult.commute)
      then show ?thesis using a 5 by (simp add: mm_def B_def idm_def)
    next
      case 6
      have "(\<Sum>k<n. A n k * (- c k / ?a)) = - (\<Sum>k<n. A n k * c k) / ?a" by (simp add: sum_divide_distrib sum_negf)
      then show ?thesis using a 6 by (simp add: mm_def B_def idm_def field_simps)
    qed (use z fB in \<open>auto simp: mm_def idm_def fits_def\<close>)
  qed
  then have "mm (Suc n) A B = idm (Suc n)" by (intro ext)
  moreover from this have "mm (Suc n) B A = idm (Suc n)"
    using tr_mm [of "Suc n" A B] tB Suc.prems by (simp add: pd_def)
  ultimately show ?case using fB Suc.prems by (auto simp: inverse_of_def pd_def)
qed

lemma pd_identity: "psd n A \<Longrightarrow> fits n n A \<Longrightarrow> pd n (ma A (idm n))"
proof -
  assume a: "psd n A" "fits n n A"
  have "0 < inner_prod n v v" if v: "\<exists>i<n. v i \<noteq> 0" for v
  proof -
    obtain i where i: "i < n" "v i \<noteq> 0" using v by blast
    have "0 < v i * v i" using i(2) by (metis not_square_less_zero mult_eq_0_iff linorder_neqE_linordered_idom)
    also have "\<dots> \<le> inner_prod n v v" unfolding inner_prod_def using i(1) by (intro member_le_sum) auto
    finally show ?thesis .
  qed
  moreover have "inner_prod n v (mv n (idm n) v) = inner_prod n v v" for v
    by (simp add: inner_prod_def mv_def sum_idm)
  ultimately show ?thesis using a by (auto simp: pd_def psd_def mv_ma fits_ma intro!: add_nonneg_pos)
qed

lemma inverse_pd: "inverse_ok invm \<Longrightarrow> pd n A \<Longrightarrow> inverse_of n A (invm n A)"
  using pd_inverse by (auto simp: inverse_ok_def)

end
