(* ===== verification/Lio_Kalman.thy ===== *)
theory Lio_Kalman
  imports Lio_Measure Matrices
begin

text \<open>
  The iterated extended Kalman filter of the toolkit for the state of FAST-LIO (esekfom.hpp,
  use-ikfom.hpp, S2.hpp, mtkmath.hpp): the propagation of state and covariance, and the update with
  the measurement of the scan.  The state has 23 degrees of freedom and 24 dimensions: position 0,
  rotation 3, extrinsic rotation 6 and translation 9, velocity 12, gyroscope bias 15, accelerometer
  bias 18, gravity 21.  Matrices are those of the theory of matrices; \<open>invm\<close> stands for \<open>inverse()\<close>.
\<close>

section \<open>Vectors of three in matrices\<close>

definition m3 :: "mat3 \<Rightarrow> mat" where
  "m3 M = (\<lambda>i j. if 3 \<le> i \<or> 3 \<le> j then 0 else vget j (if i = 0 then mrow0 M else if i = 1 then mrow1 M else mrow2 M))"

text \<open>\<open>seg\<close> reads three entries, \<open>at3\<close> puts a vector at an offset, \<open>block\<close> a block into a matrix.\<close>

definition seg :: "vec \<Rightarrow> nat \<Rightarrow> point3" where
  "seg v idx = vec3 (v idx) (v (idx + 1)) (v (idx + 2))"

definition at3 :: "nat \<Rightarrow> point3 \<Rightarrow> vec" where
  "at3 idx p = (\<lambda>i. if idx \<le> i \<and> i < idx + 3 then vget (i - idx) p else 0)"

definition vplus :: "vec \<Rightarrow> vec \<Rightarrow> vec" where
  "vplus v w = (\<lambda>i. v i + w i)"

definition set_block :: "nat \<Rightarrow> nat \<Rightarrow> nat \<Rightarrow> nat \<Rightarrow> mat \<Rightarrow> mat \<Rightarrow> mat" where
  "set_block r c i0 j0 B A = (\<lambda>i j. if i0 \<le> i \<and> i < i0 + r \<and> j0 \<le> j \<and> j < j0 + c then B (i - i0) (j - j0) else A i j)"

text \<open>\<open>A.block(idx, i) = B * A.block(idx, i)\<close> for all columns, and \<open>A.block(i, idx) = A.block(i, idx) * B.transpose()\<close> for all rows.\<close>

definition left_block :: "nat \<Rightarrow> nat \<Rightarrow> mat \<Rightarrow> mat \<Rightarrow> mat" where
  "left_block idx k B A = (\<lambda>i j. if idx \<le> i \<and> i < idx + k then \<Sum>l<k. B (i - idx) l * A (idx + l) j else A i j)"

definition right_block :: "nat \<Rightarrow> nat \<Rightarrow> mat \<Rightarrow> mat \<Rightarrow> mat" where
  "right_block idx k B A = (\<lambda>i j. if idx \<le> j \<and> j < idx + k then \<Sum>l<k. A i (idx + l) * B (j - idx) l else A i j)"

definition left_vec :: "nat \<Rightarrow> nat \<Rightarrow> mat \<Rightarrow> vec \<Rightarrow> vec" where
  "left_vec idx k B v = (\<lambda>i. if idx \<le> i \<and> i < idx + k then \<Sum>l<k. B (i - idx) l * v (idx + l) else v i)"

section \<open>Manifolds\<close>

definition tolerance :: real where "tolerance = 1 / 10 ^ 11"

definition hat :: "point3 \<Rightarrow> mat" where
  "hat v = m3 (skew_sym_mat v)"

definition A_matrix :: "point3 \<Rightarrow> mat" where
  "A_matrix v =
     (let sq = px v * px v + py v * py v + pz v * pz v; n = sqrt sq in
      if n < tolerance then idm 3
      else ma (ma (idm 3) (msc ((1 - cos n) / sq) (hat v))) (msc ((1 - sin n / n) / sq) (mm 3 (hat v) (hat v))))"

text \<open>
  Rotations are matrices here, the code keeps quaternions.  \<open>to_quat\<close> is the quaternion of a
  rotation, up to its sign, which the logarithm does not see; the quotient by zero is infinite.
\<close>

definition to_quat :: "mat3 \<Rightarrow> quat" where
  "to_quat M =
     (if mtrace M > - 1 then
        let w = sqrt (1 + mtrace M) / 2
        in \<lparr>qw = w, qvec = vscale (1 / (4 * w)) (vec3 (pz (mrow1 (transp M)) - pz (mrow1 M)) (px (mrow2 (transp M)) - px (mrow2 M))
             (py (mrow0 (transp M)) - py (mrow0 M)))\<rparr>
      else
        let x = sqrt ((1 + px (mrow0 M)) / 2); y = sqrt ((1 + py (mrow1 M)) / 2); z = sqrt ((1 + pz (mrow2 M)) / 2);
            sy = (if x > 0 then sgn (py (mrow0 M)) else 1); sz = (if x > 0 then sgn (pz (mrow0 M)) else sgn (pz (mrow1 M)))
        in \<lparr>qw = 0, qvec = vec3 x (sy * y) (sz * z)\<rparr>)"

definition mtk_log :: "quat \<Rightarrow> point3" where
  "mtk_log q =
     (let n = vnorm (qvec q); nv = (if n < tolerance then tolerance else n);
          s = 2 / nv * (if qw q = 0 then pi / 2 else arctan (nv / qw q))
      in vscale s (qvec q))"

definition SO3_boxminus :: "mat3 \<Rightarrow> mat3 \<Rightarrow> point3" where
  "SO3_boxminus r other = mtk_log (to_quat (mmul (transp other) r))"

text \<open>The gravity is \<open>S2<double, 98090, 10000, 1>\<close>, so the last of the three branches of \<open>S2_Bx\<close> is the one in use.\<close>

definition S2_Bx :: "point3 \<Rightarrow> mat" where
  "S2_Bx v =
     (if px v + S2_length > tolerance
      then msc (1 / S2_length)
        (\<lambda>i j. if i = 0 \<and> j = 0 then - py v else if i = 0 \<and> j = 1 then - pz v
           else if i = 1 \<and> j = 0 then S2_length - py v * py v / (S2_length + px v)
           else if i = 1 \<and> j = 1 then - pz v * py v / (S2_length + px v)
           else if i = 2 \<and> j = 0 then - pz v * py v / (S2_length + px v)
           else if i = 2 \<and> j = 1 then S2_length - pz v * pz v / (S2_length + px v) else 0)
      else (\<lambda>i j. if i = 1 \<and> j = 1 then - 1 else if i = 2 \<and> j = 0 then 1 else 0))"

definition S2_Bu :: "point3 \<Rightarrow> vec \<Rightarrow> point3" where
  "S2_Bu v delta = seg (mv 2 (S2_Bx v) delta) 0"

definition S2_boxplus :: "point3 \<Rightarrow> vec \<Rightarrow> point3" where
  "S2_boxplus v delta = mvec (toRotationMatrix (mtk_exp (S2_Bu v delta) (1 / 2))) v"

definition S2_boxminus :: "point3 \<Rightarrow> point3 \<Rightarrow> vec" where
  "S2_boxminus v other =
     (let v_sin = vnorm (mvec (skew_sym_mat v) other); v_cos = vdot v other; theta = atan2 v_sin v_cos in
      if v_sin < tolerance then
        if \<bar>theta\<bar> > tolerance then (\<lambda>i. if i = 0 then 31415926 / 10000000 else 0) else (\<lambda>i. 0)
      else mv 3 (msc (theta / v_sin) (mm 3 (tr (S2_Bx other)) (hat other))) (at3 0 v))"

definition S2_Nx_yy :: "point3 \<Rightarrow> mat" where
  "S2_Nx_yy v = msc (1 / S2_length / S2_length) (mm 3 (tr (S2_Bx v)) (hat v))"

text \<open>The scale of the exponential is the integer quotient \<open>1/2\<close>.\<close>

definition S2_Mx :: "point3 \<Rightarrow> vec \<Rightarrow> mat" where
  "S2_Mx v delta =
     (if sqrt (delta 0 * delta 0 + delta 1 * delta 1) < tolerance then msc (- 1) (mm 3 (hat v) (S2_Bx v))
      else
        let Bu = S2_Bu v delta; R = m3 (toRotationMatrix (mtk_exp Bu (of_int (1 div 2))))
        in msc (- 1) (mm 3 (mm 3 (mm 3 R (hat v)) (tr (A_matrix Bu))) (S2_Bx v)))"

definition boxplus :: "state_ikfom \<Rightarrow> vec \<Rightarrow> state_ikfom" where
  "boxplus s d =
     \<lparr>st_pos = vadd (st_pos s) (seg d 0), st_rot = SO3_oplus (st_rot s) (seg d 3) 1,
      offset_R_L_I = SO3_oplus (offset_R_L_I s) (seg d 6) 1, offset_T_L_I = vadd (offset_T_L_I s) (seg d 9),
      st_vel = vadd (st_vel s) (seg d 12), st_bg = vadd (st_bg s) (seg d 15), st_ba = vadd (st_ba s) (seg d 18),
      st_grav = S2_boxplus (st_grav s) (\<lambda>i. d (21 + i))\<rparr>"

definition boxminus :: "state_ikfom \<Rightarrow> state_ikfom \<Rightarrow> vec" where
  "boxminus s other =
     vplus (at3 0 (vsub (st_pos s) (st_pos other))) (vplus (at3 3 (SO3_boxminus (st_rot s) (st_rot other)))
    (vplus (at3 6 (SO3_boxminus (offset_R_L_I s) (offset_R_L_I other))) (vplus (at3 9 (vsub (offset_T_L_I s) (offset_T_L_I other)))
    (vplus (at3 12 (vsub (st_vel s) (st_vel other))) (vplus (at3 15 (vsub (st_bg s) (st_bg other)))
    (vplus (at3 18 (vsub (st_ba s) (st_ba other)))
       (\<lambda>i. if i = 21 \<or> i = 22 then S2_boxminus (st_grav s) (st_grav other) (i - 21) else 0)))))))"

section \<open>Propagation\<close>

record esekf =
  kf_x :: state_ikfom
  kf_P :: mat

definition block3 :: "nat \<Rightarrow> nat \<Rightarrow> mat \<Rightarrow> mat \<Rightarrow> mat" where
  "block3 = set_block 3 3"

definition zerom :: mat where "zerom = (\<lambda>i j. 0)"

definition df_dx :: "state_ikfom \<Rightarrow> input_ikfom \<Rightarrow> mat" where
  "df_dx s i =
     (let R = m3 (st_rot s) in
      block3 3 15 (msc (- 1) (idm 3))
        (set_block 3 2 12 21 (S2_Mx (st_grav s) (\<lambda>_. 0))
          (block3 12 18 (msc (- 1) R)
            (block3 12 3 (mm 3 (msc (- 1) R) (hat (vsub (in_acc i) (st_ba s)))) (block3 0 12 (idm 3) zerom)))))"

definition df_dw :: "state_ikfom \<Rightarrow> input_ikfom \<Rightarrow> mat" where
  "df_dw s i =
     block3 18 9 (idm 3) (block3 15 6 (idm 3) (block3 3 0 (msc (- 1) (idm 3)) (block3 12 3 (msc (- 1) (m3 (st_rot s))) zerom)))"

definition process_noise_cov :: mat where
  "process_noise_cov = (\<lambda>i j. if i = j \<and> i < 6 then 1 / 10000 else if i = j \<and> i < 12 then 1 / 100000 else 0)"

text \<open>
  The rows of a derivative of the 24 dimensions in the 23 degrees of freedom: those of vectors are
  kept, those of rotations and of gravity multiplied by a block.
\<close>

definition manifold_rows :: "mat \<Rightarrow> mat \<Rightarrow> mat \<Rightarrow> mat \<Rightarrow> mat" where
  "manifold_rows A3 A6 N D =
     (\<lambda>i j. if 3 \<le> i \<and> i < 6 then \<Sum>l<3. A3 (i - 3) l * D (3 + l) j
            else if 6 \<le> i \<and> i < 9 then \<Sum>l<3. A6 (i - 6) l * D (6 + l) j
            else if 21 \<le> i \<and> i < 23 then \<Sum>l<3. N (i - 21) l * D (21 + l) j
            else if i < 21 then D i j else 0)"

definition rot_exp :: "point3 \<Rightarrow> mat" where
  "rot_exp v = m3 (toRotationMatrix (mtk_exp v (of_int (1 div 2))))"

definition predict_jacobians :: "real \<Rightarrow> input_ikfom \<Rightarrow> state_ikfom \<Rightarrow> mat \<times> mat" where
  "predict_jacobians dt i x =
     (let f = get_f x i; x' = predict dt i x;
          s3 = vscale (- 1 * dt) (d_rot f); s6 = vscale (- 1 * dt) (d_offset_R f); s21 = vscale dt (d_grav f);
          Nx = S2_Nx_yy (st_grav x'); Mx = S2_Mx (st_grav x) (\<lambda>_. 0); R = rot_exp s21;
          F1 = set_block 2 2 21 21 (mm 3 (mm 3 Nx R) Mx) (block3 6 6 (rot_exp s6) (block3 3 3 (rot_exp s3) (idm 23)));
          N = msc (- 1) (mm 3 (mm 3 (mm 3 Nx R) (hat (st_grav x))) (tr (A_matrix s21)))
      in (ma F1 (msc dt (manifold_rows (A_matrix s3) (A_matrix s6) N (df_dx x i))),
          manifold_rows (A_matrix s3) (A_matrix s6) N (df_dw x i)))"

definition esekf_predict :: "real \<Rightarrow> mat \<Rightarrow> input_ikfom \<Rightarrow> esekf \<Rightarrow> esekf" where
  "esekf_predict dt Q i k =
     (let (F, W) = predict_jacobians dt i (kf_x k) in
      \<lparr>kf_x = predict dt i (kf_x k),
       kf_P = ma (mm 23 (mm 23 F (kf_P k)) (tr F)) (mm 12 (mm 12 (msc dt W) Q) (tr (msc dt W)))\<rparr>)"

section \<open>Update\<close>

text \<open>The measurement as a matrix of twelve columns and a vector.\<close>

definition hx_mat :: "h_row list \<Rightarrow> mat" where
  "hx_mat rows = (\<lambda>i j. if i < length rows \<and> j < 12
     then vplus (at3 0 (row_pos (rows ! i))) (vplus (at3 3 (row_rot (rows ! i))) (vplus (at3 6 (row_offset_R (rows ! i))) (at3 9 (row_offset_T (rows ! i))))) j
     else 0)"

definition h_of :: "real list \<Rightarrow> vec" where
  "h_of hs = (\<lambda>i. if i < length hs then hs ! i else 0)"

text \<open>The two ways to the gain: \<open>K_h\<close> and \<open>K_x\<close> for few and for many measurements.\<close>

definition gain_few :: "(nat \<Rightarrow> mat \<Rightarrow> mat) \<Rightarrow> real \<Rightarrow> nat \<Rightarrow> mat \<Rightarrow> mat \<Rightarrow> vec \<Rightarrow> vec \<times> mat" where
  "gain_few invm R m H P h =
     (let S = ma (msc (1 / R) (mm 23 (mm 23 H P) (tr H))) (idm m);
          K = msc (1 / R) (mm m (mm 23 P (tr H)) (invm m S))
      in (mv m K h, mm m K H))"

definition gain_many :: "(nat \<Rightarrow> mat \<Rightarrow> mat) \<Rightarrow> real \<Rightarrow> nat \<Rightarrow> mat \<Rightarrow> mat \<Rightarrow> vec \<Rightarrow> vec \<times> mat" where
  "gain_many invm R m H P h =
     (let HTH = mm m (tr H) H; P_inv = invm 23 (ma (invm 23 (msc (1 / R) P)) HTH)
      in (mv m (mm 12 P_inv (tr H)) h, mm 12 P_inv HTH))"

definition gain :: "(nat \<Rightarrow> mat \<Rightarrow> mat) \<Rightarrow> real \<Rightarrow> nat \<Rightarrow> mat \<Rightarrow> mat \<Rightarrow> vec \<Rightarrow> vec \<times> mat" where
  "gain invm R m H P h = (if 23 > m then gain_few invm R m H P h else gain_many invm R m H P h)"

text \<open>The blocks of a change \<open>d\<close> of the state, for the rotations and for gravity.\<close>

definition rot_block :: "vec \<Rightarrow> nat \<Rightarrow> mat" where
  "rot_block d idx = tr (A_matrix (seg d idx))"

definition grav_block :: "state_ikfom \<Rightarrow> state_ikfom \<Rightarrow> vec \<Rightarrow> mat" where
  "grav_block x x_propagated d = mm 3 (S2_Nx_yy (st_grav x)) (S2_Mx (st_grav x_propagated) (\<lambda>i. d (21 + i)))"

text \<open>The change from the propagated state and its covariance, moved to the current state.\<close>

definition project_vec :: "mat \<Rightarrow> mat \<Rightarrow> mat \<Rightarrow> vec \<Rightarrow> vec" where
  "project_vec B3 B6 B21 d = left_vec 21 2 B21 (left_vec 6 3 B6 (left_vec 3 3 B3 d))"

definition project_cov :: "mat \<Rightarrow> mat \<Rightarrow> mat \<Rightarrow> mat \<Rightarrow> mat" where
  "project_cov B3 B6 B21 P =
     right_block 21 2 B21 (left_block 21 2 B21 (right_block 6 3 B6 (left_block 6 3 B6 (right_block 3 3 B3 (left_block 3 3 B3 P)))))"

text \<open>One step of the loop at the end: \<open>L_\<close>, \<open>P_\<close> and \<open>K_x\<close>; the loops over \<open>K_x\<close> end at column 12, the others are zero.\<close>

definition final_block :: "nat \<Rightarrow> nat \<Rightarrow> mat \<Rightarrow> mat \<times> mat \<times> mat \<Rightarrow> mat \<times> mat \<times> mat" where
  "final_block idx k B =
     (\<lambda>(L, P, Kx).
        let L1 = (\<lambda>i j. if idx \<le> i \<and> i < idx + k then \<Sum>l<k. B (i - idx) l * P (idx + l) j else L i j)
        in (right_block idx k B L1, right_block idx k B P,
            (\<lambda>i j. if j < 12 then left_block idx k B Kx i j else Kx i j)))"

definition final_cov :: "mat \<Rightarrow> mat \<Rightarrow> mat \<Rightarrow> mat \<Rightarrow> mat \<Rightarrow> mat" where
  "final_cov B3 B6 B21 P Kx =
     (let (L, P', Kx') = final_block 21 2 B21 (final_block 6 3 B6 (final_block 3 3 B3 (P, P, Kx))) in msub L (mm 12 Kx' P'))"

text \<open>One turn of the loop with a valid measurement: the new state, the moved covariance, the step and \<open>K_x\<close>.\<close>

definition kalman_step ::
  "(nat \<Rightarrow> mat \<Rightarrow> mat) \<Rightarrow> real \<Rightarrow> state_ikfom \<Rightarrow> mat \<Rightarrow> state_ikfom \<Rightarrow> measurement \<Rightarrow> state_ikfom \<times> mat \<times> vec \<times> mat" where
  "kalman_step invm R x0 P0 x m =
     (let dx = boxminus x x0; B3 = rot_block dx 3; B6 = rot_block dx 6; B21 = grav_block x x0 dx;
          dx_new = project_vec B3 B6 B21 dx; P = project_cov B3 B6 B21 P0;
          (K_h, K_x) = gain invm R (length (h_x m)) (hx_mat (h_x m)) P (h_of (h_vec m));
          d = vplus K_h (mv 23 (msub K_x (idm 23)) dx_new)
      in (boxplus x d, P, d, K_x))"

text \<open>The loop: \<open>n\<close> turns are left after this one, so the last but one has \<open>n = 1\<close>.\<close>

fun update_loop ::
  "(nat \<Rightarrow> mat \<Rightarrow> mat) \<Rightarrow> real \<Rightarrow> vec \<Rightarrow> (bool \<Rightarrow> state_ikfom \<Rightarrow> 'e \<Rightarrow> ('e \<times> measurement option) option) \<Rightarrow> state_ikfom \<Rightarrow> mat
   \<Rightarrow> nat \<Rightarrow> state_ikfom \<times> mat \<times> bool \<times> nat \<times> 'e \<Rightarrow> (esekf \<times> 'e) option" where
  "update_loop invm R limit h x0 P0 0 (x, P, converge, t, e) = Some (\<lparr>kf_x = x, kf_P = P\<rparr>, e)"
| "update_loop invm R limit h x0 P0 (Suc n) (x, P, converge, t, e) =
     (case h converge x e of
        None \<Rightarrow> None
      | Some (e', None) \<Rightarrow> update_loop invm R limit h x0 P0 n (x, P, converge, t, e')
      | Some (e', Some m) \<Rightarrow>
          let (x', P', d, K_x) = kalman_step invm R x0 P0 x m;
              conv = list_all (\<lambda>i. \<not> \<bar>d i\<bar> > limit i) [0..<23];
              t' = (if conv then t + 1 else t)
          in if t' > 1 \<or> n = 0
             then Some (\<lparr>kf_x = x', kf_P = final_cov (rot_block d 3) (rot_block d 6) (grav_block x' x0 d) P' K_x\<rparr>, e')
             else update_loop invm R limit h x0 P0 n (x', P', conv \<or> t' = 0 \<and> n = 1, t', e'))"

definition update_iterated_dyn_share_modified ::
  "(nat \<Rightarrow> mat \<Rightarrow> mat) \<Rightarrow> nat \<Rightarrow> vec \<Rightarrow> (bool \<Rightarrow> state_ikfom \<Rightarrow> 'e \<Rightarrow> ('e \<times> measurement option) option) \<Rightarrow> real \<Rightarrow> esekf \<times> 'e
   \<Rightarrow> (esekf \<times> 'e) option" where
  "update_iterated_dyn_share_modified invm maximum_iter limit h R =
     (\<lambda>(k, e). update_loop invm R limit h (kf_x k) (kf_P k) (maximum_iter + 1) (kf_x k, kf_P k, True, 0, e))"

end
