(* ===== verification/Lio_Covariance.thy ===== *)
theory Lio_Covariance
  imports Lio_Kalman
begin

text \<open>
  The algebra of the filter: the two formulas for the gain agree (matrix inversion lemma), the
  covariance of the update is a sum of squares, and the loops over blocks are congruences.
\<close>

section \<open>The gain\<close>

lemma mm_short:
  assumes "fits k c B" "k \<le> n"
  shows "mm k A B = mm n A B"
proof (intro ext)
  fix i j
  have "(\<Sum>l<n. A i l * B l j) = (\<Sum>l<k. A i l * B l j)"
    using assms by (intro sum.mono_neutral_right) (auto simp: fits_def)
  then show "mm k A B i j = mm n A B i j" by (simp add: mm_def)
qed

lemma fits_mono: "fits r c A \<Longrightarrow> r \<le> r' \<Longrightarrow> c \<le> c' \<Longrightarrow> fits r' c' A"
  by (auto simp: fits_def)

text \<open>The matrix inversion lemma, for a symmetric \<open>Q\<close>.\<close>

lemma woodbury:
  assumes Q: "inverse_of n Q Qi" "tr Q = Q" and H: "fits m n H" and S: "inverse_of m (ma (mm n (mm n H Q) (tr H)) (idm m)) S'"
  shows "inverse_of n (ma Qi (mm m (tr H) H)) (msub Q (mm m (mm n Q (tr H)) (mm m S' (mm n H Q))))"
proof -
  let ?S = "ma (mm n (mm n H Q) (tr H)) (idm m)" and ?X = "mm m S' (mm n H Q)"
  let ?T = "ma Qi (mm m (tr H) H)" and ?T' = "msub Q (mm m (mm n Q (tr H)) ?X)"
  have f: "fits n n Q" "fits n n Qi" "fits m m S'" "fits n m (tr H)" "fits m n (mm n H Q)"
    using Q S H by (auto simp: inverse_of_def intro: fits_intros)
  have X: "fits m n ?X" using f by (auto intro: fits_intros)
  have a: "mm n Qi (mm m (mm n Q (tr H)) ?X) = mm m (tr H) ?X"
    using Q(1) f(4) by (simp add: inverse_of_def mm_idm flip: mm_assoc)
  have b: "mm n H (mm m (mm n Q (tr H)) ?X) = msub (mm n H Q) ?X"
  proof -
    have "mm n H (mm m (mm n Q (tr H)) ?X) = mm m (mm n (mm n H Q) (tr H)) ?X" by (simp only: mm_assoc)
    also have "mm n (mm n H Q) (tr H) = msub ?S (idm m)" by simp
    finally have "mm n H (mm m (mm n Q (tr H)) ?X) = mm m (msub ?S (idm m)) ?X" .
    also have "\<dots> = msub (mm m ?S ?X) ?X" by (simp only: mm_msub mm_idm(1) [OF X])
    also have "mm m ?S ?X = mm m (mm m ?S S') (mm n H Q)" by (simp only: mm_assoc)
    also have "mm m ?S S' = idm m" using S by (simp add: inverse_of_def)
    finally show ?thesis using f(5) by (simp add: mm_idm)
  qed
  let ?U = "mm m (mm n Q (tr H)) ?X" and ?a = "mm m (tr H) ?X" and ?b = "mm m (tr H) (mm n H Q)"
  have TQ: "mm n ?T Q = ma (idm n) ?b" using Q(1) by (simp add: mm_ma mm_assoc inverse_of_def)
  have "mm n ?T ?U = ma ?a (mm m (tr H) (mm n H ?U))" by (simp only: mm_ma a mm_assoc [of n m "tr H" H])
  also have "\<dots> = ma ?a (msub ?b ?a)" unfolding b mm_msub ..
  finally have "mm n ?T ?T' = msub (ma (idm n) ?b) (ma ?a (msub ?b ?a))" by (simp only: mm_msub TQ)
  also have "\<dots> = idm n" by (intro ext) (simp add: ma_def msub_def msc_def)
  finally have TT: "mm n ?T ?T' = idm n" .
  have "tr Qi = Qi"
    using inverse_unique [OF Q(1)] inverse_of_tr [OF Q(1)] Q(2) by metis
  then have sT: "tr ?T = ?T" by (simp add: tr_mm)
  have "tr ?S = ?S" by (simp add: tr_mm Q(2) mm_assoc)
  then have "tr S' = S'" using inverse_unique [OF S] inverse_of_tr [OF S] by metis
  then have "tr ?T' = ?T'" by (simp add: tr_mm Q(2) mm_assoc)
  then have "mm n ?T' ?T = idm n" using tr_mm [of n ?T ?T'] TT sT by simp
  moreover have "fits n n ?T" "fits n n ?T'" using f H X by (auto intro!: fits_intros)
  ultimately show ?thesis using TT by (simp add: inverse_of_def)
qed

definition gain_S :: "real \<Rightarrow> nat \<Rightarrow> mat \<Rightarrow> mat \<Rightarrow> mat" where
  "gain_S R m H P = ma (msc (1 / R) (mm 23 (mm 23 H P) (tr H))) (idm m)"

lemma gain_S_inverse:
  assumes "inverse_ok invm" "0 < R" "psd 23 P" "fits 23 23 P" "fits m 12 H"
  shows "inverse_of m (gain_S R m H P) (invm m (gain_S R m H P))"
proof -
  have H: "fits m 23 H" using fits_mono [OF assms(5)] by simp
  have "psd m (msc (1 / R) (mm 23 (mm 23 H P) (tr H)))" using assms(2,3) by (intro psd_msc psd_congruence) auto
  then have "pd m (gain_S R m H P)" unfolding gain_S_def using H assms(4) by (intro pd_identity) (auto intro!: fits_intros)
  then show ?thesis by (rule inverse_pd [OF assms(1)])
qed

lemma gains_equal:
  assumes inv: "inverse_ok invm" "0 < R" and P: "psd 23 P" "fits 23 23 P" "inverse_of 23 P Pi" and H: "fits m 12 H"
  shows "gain_few invm R m H P h = gain_many invm R m H P h"
proof -
  let ?Q = "msc (1 / R) P" and ?S = "gain_S R m H P"
  have H23: "fits m 23 H" using fits_mono [OF H] by simp
  have Q: "inverse_of 23 ?Q (invm 23 ?Q)"
    using inverse_of_scale [OF P(3), of "1 / R"] inv by (auto simp: inverse_ok_def)
  have sQ: "tr ?Q = ?Q" using P(1) by (simp add: psd_def)
  have S: "?S = ma (mm 23 (mm 23 H ?Q) (tr H)) (idm m)" by (simp add: gain_S_def mm_msc)
  have iS: "inverse_of m ?S (invm m ?S)" by (rule gain_S_inverse [OF inv P(1,2) H])
  let ?T = "ma (invm 23 ?Q) (mm m (tr H) H)"
  have T: "inverse_of 23 ?T (invm 23 ?T)"
    using woodbury [OF Q sQ H23 iS [unfolded S]] inv(1) unfolding inverse_ok_def by blast
  have "mm 23 ?T (mm 23 ?Q (tr H)) = mm m (tr H) ?S"
  proof -
    have "mm 23 (invm 23 ?Q) (mm 23 ?Q (tr H)) = tr H"
      using Q fits_tr [OF H23] by (simp add: inverse_of_def mm_idm flip: mm_assoc)
    moreover have "mm m (tr H) (idm m) = tr H" by (rule mm_idm(2)) (rule fits_tr [OF H23])
    ultimately show ?thesis unfolding S by (simp add: mm_ma mm_assoc ma_comm)
  qed
  moreover have "fits 23 m (mm 23 ?Q (tr H))" using P(2) H23 by (auto intro!: fits_intros)
  ultimately have K: "mm m (mm 23 ?Q (tr H)) (invm m ?S) = mm 23 (invm 23 ?T) (tr H)"
    by (intro exchange_inverses [OF T iS]) (auto intro: fits_tr [OF H23])
  let ?K = "msc (1 / R) (mm m (mm 23 P (tr H)) (invm m ?S))"
  have K': "?K = mm 12 (invm 23 ?T) (tr H)"
    using K mm_short [OF fits_tr [OF H], of 23 "invm 23 ?T"] by (simp add: mm_msc)
  have "fits 12 12 (mm m (tr H) H)" using H by (auto intro!: fits_intros)
  then have "mm m ?K H = mm 12 (invm 23 ?T) (mm m (tr H) H)"
    unfolding K' using mm_short [of 12 12 "mm m (tr H) H" 23 "invm 23 ?T"] mm_short [OF fits_tr [OF H], of 23 "invm 23 ?T"] by (simp add: mm_assoc)
  then show ?thesis unfolding gain_few_def gain_many_def Let_def gain_S_def [symmetric] using K' by simp
qed

section \<open>The covariance after an update\<close>

lemma msub_rest: "ma Z W = Y \<Longrightarrow> ma (msub (msub A X) (msub Y Z)) W = msub A X"
  by (metis msub_cancel(1,2) ma_comm)

text \<open>For the gain the covariance is a sum of squares.\<close>

lemma joseph:
  assumes inv: "inverse_ok invm" "0 < R" and P: "psd 23 P" "fits 23 23 P" and H: "fits m 12 H"
  shows "psd 23 (msub P (mm 23 (snd (gain_few invm R m H P h)) P))"
proof -
  let ?S = "gain_S R m H P"
  define K where "K = msc (1 / R) (mm m (mm 23 P (tr H)) (invm m ?S))"
  let ?Kx = "mm m K H"
  have H23: "fits m 23 H" using fits_mono [OF H] by simp
  have iS: "inverse_of m ?S (invm m ?S)" by (rule gain_S_inverse [OF inv P H])
  have fK: "fits 23 m K" unfolding K_def using P(2) H23 iS by (auto simp: inverse_of_def intro!: fits_intros)
  have kx: "snd (gain_few invm R m H P h) = ?Kx" by (simp add: gain_few_def Let_def K_def gain_S_def)
  have "mm m (mm m (mm 23 P (tr H)) (invm m ?S)) ?S = mm 23 P (tr H)"
    unfolding mm_assoc [of m m _ "invm m ?S"] using iS mm_idm(2) [OF fits_mm [OF P(2) fits_tr [OF H23]]] by (simp add: inverse_of_def)
  then have "msc R (mm m K ?S) = mm 23 P (tr H)" using inv(2) by (simp add: K_def mm_msc)
  moreover have "msc R (mm m K ?S) = ma (mm 23 (mm 23 ?Kx P) (tr H)) (msc R K)"
    using inv(2) fK unfolding gain_S_def mm_ma mm_msc
    by (simp add: mm_idm mm_assoc) (intro ext, simp add: ma_def msc_def algebra_simps)
  ultimately have e: "ma (mm 23 (mm 23 ?Kx P) (tr H)) (msc R K) = mm 23 P (tr H)" by simp
  have e': "ma (mm 23 (mm 23 ?Kx P) (tr ?Kx)) (msc R (mm m K (tr K))) = mm 23 P (tr ?Kx)"
    using arg_cong [OF e, where f = "\<lambda>X. mm m X (tr K)"] by (simp add: mm_ma mm_msc mm_assoc tr_mm)
  let ?G = "msub (idm 23) ?Kx"
  have fX: "fits 23 23 ?Kx" "fits 23 23 (mm 23 ?Kx P)" using fK H23 P(2) by (auto intro!: fits_intros)
  have GP: "mm 23 ?G P = msub P (mm 23 ?Kx P)" using P(2) by (simp add: mm_msub mm_idm)
  have "mm 23 (mm 23 ?G P) (tr ?G) = msub (msub P (mm 23 ?Kx P)) (msub (mm 23 P (tr ?Kx)) (mm 23 (mm 23 ?Kx P) (tr ?Kx)))"
    unfolding GP tr_msub tr_simps mm_msub using P(2) fX(2) by (simp add: mm_idm)
  then have "ma (mm 23 (mm 23 ?G P) (tr ?G)) (msc R (mm m K (tr K))) = msub P (mm 23 ?Kx P)"
    using msub_rest [OF e'] by simp
  moreover have "psd 23 (ma (mm 23 (mm 23 ?G P) (tr ?G)) (msc R (mm m K (tr K))))"
    using psd_square [of 23 m "tr K"] inv(2) by (intro psd_ma psd_msc psd_congruence [OF P(1)]) auto
  ultimately show ?thesis unfolding kx by simp
qed

section \<open>Blocks\<close>

lemma mm_short_left:
  assumes "fits r k A" "k \<le> n"
  shows "mm k A B = mm n A B"
proof (intro ext)
  fix i j
  have "(\<Sum>l<n. A i l * B l j) = (\<Sum>l<k. A i l * B l j)"
    using assms by (intro sum.mono_neutral_right) (auto simp: fits_def)
  then show "mm k A B i j = mm n A B i j" by (simp add: mm_def)
qed

lemma sum_window:
  assumes "i + k \<le> n" "\<And>l. l < n \<Longrightarrow> l < i \<or> i + k \<le> l \<Longrightarrow> f l = 0"
  shows "(\<Sum>l<n. f l) = (\<Sum>l<k. f (i + l :: nat) :: real)"
proof -
  have "(\<Sum>l<n. f l) = (\<Sum>l\<in>{i..<i + k}. f l)" using assms by (intro sum.mono_neutral_right) auto
  also have "\<dots> = (\<Sum>l<k. f (i + l))"
    using sum.shift_bounds_nat_ivl [of f 0 i k] by (simp add: atLeast0LessThan add.commute)
  finally show ?thesis .
qed

text \<open>The identity with a block in it, which acts on rows and columns as the loops of the code.\<close>

definition blockm :: "nat \<Rightarrow> nat \<Rightarrow> mat \<Rightarrow> mat" where
  "blockm idx k B = set_block k k idx idx B (idm 23)"

lemma fits_blockm: "idx + k \<le> 23 \<Longrightarrow> fits 23 23 (blockm idx k B)"
  by (auto simp: fits_def blockm_def set_block_def idm_def)

lemma left_block_mm:
  assumes "idx + k \<le> 23" "fits 23 c A"
  shows "left_block idx k B A = mm 23 (blockm idx k B) A"
proof (intro ext)
  fix i j
  show "left_block idx k B A i j = mm 23 (blockm idx k B) A i j"
  proof (cases "idx \<le> i \<and> i < idx + k")
    case True
    have "(\<Sum>l<23. blockm idx k B i l * A l j) = (\<Sum>l<k. blockm idx k B i (idx + l) * A (idx + l) j)"
      using assms(1) True by (intro sum_window) (auto simp: blockm_def set_block_def idm_def)
    then show ?thesis using True by (simp add: left_block_def mm_def blockm_def set_block_def)
  next
    case False
    then have "blockm idx k B i l = idm 23 i l" for l by (auto simp: blockm_def set_block_def)
    then show ?thesis using False fun_cong [OF fun_cong [OF mm_idm(1) [OF assms(2)]], of i j] by (auto simp: left_block_def mm_def)
  qed
qed

lemma right_block_tr: "right_block idx k B A = tr (left_block idx k B (tr A))"
  by (intro ext) (simp add: right_block_def left_block_def tr_def mult.commute)

lemma right_block_mm: "idx + k \<le> 23 \<Longrightarrow> fits r 23 A \<Longrightarrow> right_block idx k B A = mm 23 A (tr (blockm idx k B))"
  by (simp add: right_block_tr left_block_mm [OF _ fits_tr] tr_mm)

lemma fits_left_block: "idx + k \<le> 23 \<Longrightarrow> fits 23 c A \<Longrightarrow> fits 23 c (left_block idx k B A)"
  by (simp add: left_block_mm fits_mm [OF fits_blockm])

lemma fits_right_block: "idx + k \<le> 23 \<Longrightarrow> fits r 23 A \<Longrightarrow> fits r 23 (right_block idx k B A)"
  by (simp add: right_block_mm fits_mm [OF _ fits_tr [OF fits_blockm]])

text \<open>A covariance: symmetric, positive semidefinite, of 23 rows and columns.\<close>

definition covariance :: "mat \<Rightarrow> bool" where
  "covariance P \<longleftrightarrow> psd 23 P \<and> fits 23 23 P"

lemma congruence_covariance: "covariance P \<Longrightarrow> fits 23 23 F \<Longrightarrow> covariance (mm 23 (mm 23 F P) (tr F))"
  by (auto simp: covariance_def intro!: psd_congruence fits_intros)

lemma covariance_sum: "covariance P \<Longrightarrow> covariance Q \<Longrightarrow> covariance (ma P Q)"
  by (auto simp: covariance_def intro: psd_ma fits_ma)

definition project :: "mat \<Rightarrow> mat \<Rightarrow> mat \<Rightarrow> mat" where
  "project B3 B6 B21 = mm 23 (blockm 21 2 B21) (mm 23 (blockm 6 3 B6) (blockm 3 3 B3))"

lemma fits_project: "fits 23 23 (project B3 B6 B21)"
  by (simp add: project_def fits_mm fits_blockm)


lemma both_blocks:
  "idx + k \<le> 23 \<Longrightarrow> fits 23 23 A \<Longrightarrow>
   right_block idx k B (left_block idx k B A) = mm 23 (mm 23 (blockm idx k B) A) (tr (blockm idx k B))"
  by (metis fits_left_block left_block_mm right_block_mm)

lemma fits_both: "idx + k \<le> 23 \<Longrightarrow> fits 23 23 A \<Longrightarrow> fits 23 23 (mm 23 (mm 23 (blockm idx k B) A) (tr (blockm idx k B)))"
  by (intro fits_mm [of _ 23] fits_tr fits_blockm)

lemma project_cov_mm: "fits 23 23 P \<Longrightarrow> project_cov B3 B6 B21 P = mm 23 (mm 23 (project B3 B6 B21) P) (tr (project B3 B6 B21))"
  by (simp add: project_cov_def both_blocks fits_both) (simp add: project_def tr_mm mm_assoc)

lemma project_covariance: "covariance P \<Longrightarrow> covariance (project_cov B3 B6 B21 P)"
  using congruence_covariance [OF _ fits_project] by (simp add: project_cov_mm covariance_def)

text \<open>One step of the loop at the end, while the rows it reads are the same in both matrices.\<close>

lemma final_block_mm:
  assumes "idx + k \<le> 23" "fits 23 23 L" "fits 23 23 P" "fits 23 12 Kx" "\<And>i j. idx \<le> i \<Longrightarrow> i < idx + k \<Longrightarrow> L i j = P i j"
  shows "final_block idx k B (L, P, Kx) =
     (mm 23 (mm 23 (blockm idx k B) L) (tr (blockm idx k B)), mm 23 P (tr (blockm idx k B)), mm 23 (blockm idx k B) Kx)"
proof -
  have l: "(\<lambda>i j. if idx \<le> i \<and> i < idx + k then \<Sum>l<k. B (i - idx) l * P (idx + l) j else L i j) = left_block idx k B L"
    using assms(5) by (intro ext) (simp add: left_block_def)
  have x: "(\<lambda>i j. if j < 12 then left_block idx k B Kx i j else Kx i j) = left_block idx k B Kx"
    using fits_left_block [OF assms(1,4), of B] assms(4) by (intro ext) (simp add: fits_def)
  show ?thesis
    unfolding final_block_def prod.case Let_def l x
    unfolding both_blocks [OF assms(1,2)] right_block_mm [OF assms(1,3)] left_block_mm [OF assms(1,4)] ..
qed

lemma blockm_row: "fits 23 c A \<Longrightarrow> i < idx \<or> idx + k \<le> i \<Longrightarrow> idx + k \<le> 23 \<Longrightarrow> mm 23 (blockm idx k B) A i j = A i j"
  by (subst left_block_mm [symmetric]) (auto simp: left_block_def)

lemma mm_row: "(\<And>j. A i j = B i j) \<Longrightarrow> mm n A C i j = mm n B C i j"
  by (simp add: mm_def)

lemma final_cov_mm:
  assumes P: "fits 23 23 P" and K: "fits 23 12 Kx"
  shows "final_cov B3 B6 B21 P Kx = mm 23 (mm 23 (project B3 B6 B21) (msub P (mm 23 Kx P))) (tr (project B3 B6 B21))"
proof -
  let ?A = "blockm 3 3 B3" and ?B = "blockm 6 3 B6" and ?C = "blockm 21 2 B21"
  have f: "fits 23 23 ?A" "fits 23 23 ?B" "fits 23 23 ?C" by (simp_all add: fits_blockm)
  have a: "final_block 3 3 B3 (P, P, Kx) = (mm 23 (mm 23 ?A P) (tr ?A), mm 23 P (tr ?A), mm 23 ?A Kx)"
    using P K by (intro final_block_mm) auto
  have b: "final_block 6 3 B6 (mm 23 (mm 23 ?A P) (tr ?A), mm 23 P (tr ?A), mm 23 ?A Kx) =
      (mm 23 (mm 23 ?B (mm 23 (mm 23 ?A P) (tr ?A))) (tr ?B), mm 23 (mm 23 P (tr ?A)) (tr ?B), mm 23 ?B (mm 23 ?A Kx))"
    using P K f by (intro final_block_mm) (auto intro!: fits_intros mm_row blockm_row)
  have c: "final_block 21 2 B21 (mm 23 (mm 23 ?B (mm 23 (mm 23 ?A P) (tr ?A))) (tr ?B), mm 23 (mm 23 P (tr ?A)) (tr ?B), mm 23 ?B (mm 23 ?A Kx)) =
      (mm 23 (mm 23 ?C (mm 23 (mm 23 ?B (mm 23 (mm 23 ?A P) (tr ?A))) (tr ?B))) (tr ?C), mm 23 (mm 23 (mm 23 P (tr ?A)) (tr ?B)) (tr ?C),
       mm 23 ?C (mm 23 ?B (mm 23 ?A Kx)))"
  proof (intro final_block_mm)
    fix i j :: nat assume i: "21 \<le> i" "i < 21 + 2"
    have "mm 23 ?B (mm 23 (mm 23 ?A P) (tr ?A)) i l = mm 23 (mm 23 ?A P) (tr ?A) i l" for l
      using i P f by (intro blockm_row) (auto intro!: fits_intros)
    moreover have "mm 23 (mm 23 ?A P) (tr ?A) i l = mm 23 P (tr ?A) i l" for l
      using i P by (intro mm_row blockm_row) auto
    ultimately show "mm 23 (mm 23 ?B (mm 23 (mm 23 ?A P) (tr ?A))) (tr ?B) i j = mm 23 (mm 23 P (tr ?A)) (tr ?B) i j"
      by (intro mm_row) simp
  qed (use P K f in \<open>auto intro!: fits_intros\<close>)
  let ?J = "project B3 B6 B21"
  have "final_cov B3 B6 B21 P Kx = msub (mm 23 (mm 23 ?J P) (tr ?J)) (mm 12 (mm 23 ?J Kx) (mm 23 P (tr ?J)))"
    unfolding final_cov_def a b c Let_def prod.case by (simp add: project_def tr_mm mm_assoc)
  also have "mm 12 (mm 23 ?J Kx) (mm 23 P (tr ?J)) = mm 23 (mm 23 ?J Kx) (mm 23 P (tr ?J))"
    using fits_mm [OF fits_project K] by (rule mm_short_left) simp
  finally show ?thesis by (simp only: mm_msub mm_assoc)
qed

lemma final_covariance:
  assumes "covariance P" "fits 23 12 Kx" "psd 23 (msub P (mm 23 Kx P))"
  shows "covariance (final_cov B3 B6 B21 P Kx)"
proof -
  have P: "fits 23 23 P" using assms(1) by (simp add: covariance_def)
  have "fits 23 23 (mm 23 Kx P)" using P fits_mono [OF assms(2), of 23 23] by (auto intro!: fits_intros)
  then have "covariance (msub P (mm 23 Kx P))" using P assms(3) by (simp add: covariance_def fits_msub)
  then show ?thesis unfolding final_cov_mm [OF P assms(2)] by (rule congruence_covariance [OF _ fits_project])
qed

end
