(* ===== verification/Lio_Measure_Props.thy ===== *)
theory Lio_Measure_Props
  imports Lio_Measure
begin

text \<open>
  What the filter is given: the matches are planes of the map, the rows are the derivatives of the
  residuals, and the matching always ends with a result.
\<close>

section \<open>The derivative of the measurement\<close>

text \<open>Small rotations: near zero the series of the toolkit is used, whose linear part is the cross product.\<close>

definition q_w :: "point3 \<Rightarrow> real \<Rightarrow> real" where
  "q_w v t = qw (SO3_exp v t)"

definition q_s :: "point3 \<Rightarrow> real \<Rightarrow> real" where
  "q_s v t = snd (cos_sinc_sqrt (t / 2 * (t / 2) * vdot v v)) * (t / 2)"

lemma SO3_exp_split: "SO3_exp v t = \<lparr>qw = q_w v t, qvec = vscale (q_s v t) v\<rparr>"
  by (simp add: q_w_def q_s_def SO3_exp_def mtk_exp_def split: prod.splits)

lemma small_angle: "eventually (\<lambda>t. \<not> taylor_n_bound \<le> t / 2 * (t / 2) * vdot v v) (nhds 0)"
proof -
  have "((\<lambda>t. t / 2 * (t / 2) * vdot v v) \<longlongrightarrow> 0 / 2 * (0 / 2) * vdot v v) (nhds 0)"
    by (intro tendsto_intros filterlim_ident) simp_all
  then have "eventually (\<lambda>t. t / 2 * (t / 2) * vdot v v < taylor_n_bound) (nhds 0)"
    by (rule order_tendstoD) (simp add: taylor_n_bound_def)
  then show ?thesis by eventually_elim simp
qed

lemma q_w_deriv: "(q_w v has_real_derivative 0) (at 0)" "q_w v 0 = 1"
proof -
  let ?x = "\<lambda>t. t / 2 * (t / 2) * vdot v v"
  have "eventually (\<lambda>t. q_w v t = 1 + - 1 / 2 * ?x t + - 1 / 2 * ?x t * (1 / 3) * (- (1 / 4)) * ?x t
      + - 1 / 2 * ?x t * (1 / 3) * (- (1 / 4)) * ?x t * (1 / 5) * (- (1 / 6)) * ?x t) (nhds 0)"
    using small_angle [of v] by eventually_elim (simp add: q_w_def SO3_exp_def mtk_exp_def cos_sinc_sqrt_def Let_def)
  then show "(q_w v has_real_derivative 0) (at 0)"
    by (subst DERIV_cong_ev [OF refl _ refl], assumption) (auto intro!: derivative_eq_intros)
  show "q_w v 0 = 1" by (simp add: q_w_def SO3_exp_def mtk_exp_def cos_sinc_sqrt_def taylor_n_bound_def)
qed

lemma q_s_deriv: "(q_s v has_real_derivative 1 / 2) (at 0)" "q_s v 0 = 0"
proof -
  let ?x = "\<lambda>t. t / 2 * (t / 2) * vdot v v"
  have "eventually (\<lambda>t. q_s v t = (1 + - 1 / 2 * ?x t * (1 / 3) + - 1 / 2 * ?x t * (1 / 3) * (- (1 / 4)) * ?x t * (1 / 5)
      + - 1 / 2 * ?x t * (1 / 3) * (- (1 / 4)) * ?x t * (1 / 5) * (- (1 / 6)) * ?x t * (1 / 7)) * (t / 2)) (nhds 0)"
    using small_angle [of v] by eventually_elim (simp add: q_s_def cos_sinc_sqrt_def Let_def)
  then show "(q_s v has_real_derivative 1 / 2) (at 0)"
    by (subst DERIV_cong_ev [OF refl _ refl], assumption) (auto intro!: derivative_eq_intros)
  show "q_s v 0 = 0" by (simp add: q_s_def)
qed

text \<open>Derivatives of vectors.\<close>

definition vderiv :: "(real \<Rightarrow> point3) \<Rightarrow> point3 \<Rightarrow> bool" where
  "vderiv f d \<longleftrightarrow>
     ((\<lambda>t. px (f t)) has_real_derivative px d) (at 0) \<and> ((\<lambda>t. py (f t)) has_real_derivative py d) (at 0) \<and>
     ((\<lambda>t. pz (f t)) has_real_derivative pz d) (at 0)"

definition cross :: "point3 \<Rightarrow> point3 \<Rightarrow> point3" where
  "cross a b = mvec (skew_sym_mat a) b"

lemma vderiv_mvec: "vderiv f d \<Longrightarrow> vderiv (\<lambda>t. mvec m (f t)) (mvec m d)"
  unfolding vderiv_def mvec_def vdot_def by (auto intro!: derivative_eq_intros simp: algebra_simps)

lemma vderiv_add: "vderiv f d \<Longrightarrow> vderiv g e \<Longrightarrow> vderiv (\<lambda>t. vadd (f t) (g t)) (vadd d e)"
  unfolding vderiv_def vadd_def by (auto intro!: derivative_eq_intros)

lemma rotate_vector:
  "mvec (toRotationMatrix \<lparr>qw = w, qvec = vscale s v\<rparr>) q =
     vadd q (vadd (vscale (2 * w * s) (cross v q)) (vscale (2 * s * s) (cross v (cross v q))))"
  by (simp add: toRotationMatrix_def cross_def skew_sym_mat_def vec_defs mat_defs algebra_simps)

lemma vderiv_scale:
  "(g has_real_derivative e) (at 0) \<Longrightarrow> vderiv f d \<Longrightarrow> vderiv (\<lambda>t. vscale (g t) (f t)) (vadd (vscale e (f 0)) (vscale (g 0) d))"
  unfolding vderiv_def vscale_def vadd_def by (auto intro!: derivative_eq_intros)

lemma vderiv_rotate:
  assumes "vderiv f d"
  shows "vderiv (\<lambda>t. mvec (toRotationMatrix (SO3_exp v t)) (f t)) (vadd (cross v (f 0)) d)"
proof -
  have ws: "((\<lambda>t. 2 * q_w v t * q_s v t) has_real_derivative 1) (at 0)" "((\<lambda>t. 2 * q_s v t * q_s v t) has_real_derivative 0) (at 0)"
    using q_w_deriv(2) [of v] q_s_deriv(2) [of v]
    by (auto intro!: derivative_eq_intros q_w_deriv(1) [of v] q_s_deriv(1) [of v])
  have c: "vderiv (\<lambda>t. cross v (f t)) (cross v d)" "vderiv (\<lambda>t. cross v (cross v (f t))) (cross v (cross v d))"
    unfolding cross_def using assms by (simp_all add: vderiv_mvec)
  show ?thesis unfolding SO3_exp_split rotate_vector
    using vderiv_add [OF assms vderiv_add [OF vderiv_scale [OF ws(1) c(1)] vderiv_scale [OF ws(2) c(2)]]] q_w_deriv(2) [of v] q_s_deriv(2) [of v]
    by (simp add: vec_defs algebra_simps)
qed

lemma vderiv_const: "vderiv (\<lambda>t. p) vzero"
  unfolding vderiv_def vzero_def vec3_def by (auto intro!: derivative_eq_intros)

lemma vderiv_oplus: "vderiv (\<lambda>t. vect_oplus a v t) v"
  unfolding vderiv_def vect_oplus_def vadd_def vscale_def by (auto intro!: derivative_eq_intros)

lemma plane_dist_deriv: "vderiv f d \<Longrightarrow> ((\<lambda>t. plane_dist nv e (f t)) has_real_derivative vdot nv d) (at 0)"
  unfolding vderiv_def plane_dist_def vdot_def by (auto intro!: derivative_eq_intros)

text \<open>The row times a change of the state.\<close>

definition row_times :: "h_row \<Rightarrow> flatted_state \<Rightarrow> real" where
  "row_times r f = vdot (row_pos r) (d_pos f) + vdot (row_rot r) (d_rot f) + vdot (row_offset_R r) (d_offset_R f) + vdot (row_offset_T r) (d_offset_T f)"

lemma mvec_zero: "mvec m vzero = vzero"
  by (simp add: vzero_def vec_defs mat_defs)

lemma start_rotation: "toRotationMatrix (SO3_exp v 0) = eye3"
  by (simp add: SO3_exp_def exp_zero)

lemma vdot_mvec: "vdot n (mvec m x) = vdot (mvec (transp m) n) x"
  by (simp add: vec_defs mat_defs algebra_simps)

lemma vdot_cross: "vdot c (cross v q) = vdot (cross q c) v"
  by (simp add: cross_def skew_sym_mat_def vec_defs mat_defs algebra_simps)

lemma vdot_add: "vdot n (vadd a b) = vdot n a + vdot n b"
  by (simp add: vec_defs algebra_simps)

lemma body_to_world_deriv:
  "vderiv (\<lambda>t. body_to_world (oplus s f t) p)
     (vadd (mvec (st_rot s) (vadd (cross (d_rot f) (vadd (mvec (offset_R_L_I s) p) (offset_T_L_I s)))
        (vadd (mvec (offset_R_L_I s) (cross (d_offset_R f) p)) (d_offset_T f)))) (d_pos f))"
proof -
  let ?q = "\<lambda>t. vadd (mvec (SO3_oplus (offset_R_L_I s) (d_offset_R f) t) p) (vect_oplus (offset_T_L_I s) (d_offset_T f) t)"
  have z: "vadd x vzero = x" for x by (simp add: vzero_def vec_defs)
  have q0: "?q 0 = vadd (mvec (offset_R_L_I s) p) (offset_T_L_I s)"
    by (simp add: SO3_oplus_def start_rotation mmul_eye vect_oplus_def vec_defs)
  have "vderiv ?q (vadd (mvec (offset_R_L_I s) (cross (d_offset_R f) p)) (d_offset_T f))"
    unfolding SO3_oplus_def mvec_mmul
    using vderiv_add [OF vderiv_mvec [OF vderiv_rotate [OF vderiv_const]] vderiv_oplus] by (simp add: z)
  from vderiv_add [OF vderiv_mvec [OF vderiv_rotate [OF this]] vderiv_oplus]
  show ?thesis unfolding q0 body_to_world_def oplus_def by (simp add: SO3_oplus_def mvec_mmul)
qed

lemma jacobian_exact:
  assumes "ext \<or> d_offset_R f = vzero \<and> d_offset_T f = vzero"
  shows "((\<lambda>t. plane_dist nv d (body_to_world (oplus s f t) p)) has_real_derivative row_times (jacobian_row ext s p nv) f) (at 0)"
proof -
  let ?C = "mvec (transp (st_rot s)) nv" and ?q = "vadd (mvec (offset_R_L_I s) p) (offset_T_L_I s)"
  have off: "mvec (mmul (skew_sym_mat p) (transp (offset_R_L_I s))) ?C = cross p (mvec (transp (offset_R_L_I s)) ?C)"
    by (simp add: mvec_mmul cross_def)
  have zero: "vdot vzero x = 0" "vdot x vzero = 0" for x by (simp_all add: vzero_def vec_defs)
  have "row_times (jacobian_row ext s p nv) f =
      vdot nv (d_pos f) + vdot (cross ?q ?C) (d_rot f) + vdot (cross p (mvec (transp (offset_R_L_I s)) ?C)) (d_offset_R f) + vdot ?C (d_offset_T f)"
    using assms by (auto simp: row_times_def jacobian_row_def Let_def off zero cross_def)
  then show ?thesis
    using plane_dist_deriv [OF body_to_world_deriv [of s f p], of nv d] by (simp add: vdot_add vdot_mvec vdot_cross algebra_simps)
qed

section \<open>The matches\<close>

text \<open>What a selected point has: its five nearest points of the map and a plane through them.\<close>

definition matched :: "state_ikfom \<Rightarrow> kd_tree \<Rightarrow> point3 \<Rightarrow> slot \<Rightarrow> bool" where
  "matched s t p c \<longleftrightarrow>
     (let w = body_to_world s p in
      kbest NUM_MATCH_POINTS (candidates w Inf t) (mset (map (cand w) (points_near c))) \<and> length (points_near c) = NUM_MATCH_POINTS \<and>
      (\<forall>q \<in> set (points_near c). calc_dist w q \<le> 5))"

definition on_plane :: "state_ikfom \<Rightarrow> point3 \<Rightarrow> slot \<Rightarrow> bool" where
  "on_plane s p c \<longleftrightarrow>
     (\<exists>d. vnorm (norm_xyz c) = 1 \<and> (\<forall>q \<in> set (take NUM_MATCH_POINTS (points_near c)). \<bar>plane_dist (norm_xyz c) d q\<bar> \<le> 1 / 10) \<and>
        norm_dist c = plane_dist (norm_xyz c) d (body_to_world s p) \<and> res_last c = \<bar>norm_dist c\<bar> \<and> close_to_plane (norm_dist c) p)"

lemma vnorm_unit: "vnorm v \<noteq> 0 \<Longrightarrow> vnorm (vscale (1 / vnorm v) v) = 1"
  using unit_axis by (simp add: vnorm_def)

lemma esti_plane_spec:
  "esti_plane solve ps th = Some (Plane nv d) \<Longrightarrow> vnorm nv = 1 \<and> (\<forall>q \<in> set (take NUM_MATCH_POINTS ps). \<bar>plane_dist nv d q\<bar> \<le> th)"
  by (auto simp: esti_plane_def Let_def vnorm_unit list_all_iff not_less split: if_splits)

lemma fit_plane_spec:
  assumes "fit_plane solve p (body_to_world s p) c = Some c'"
  shows "points_near c' = points_near c \<and> (selected_surf c' \<longrightarrow> selected_surf c \<and> on_plane s p c')"
  using assms
  by (auto simp: fit_plane_def Let_def on_plane_def split: if_splits option.splits plane.splits dest!: esti_plane_spec) blast

lemma fit_plane_total: "(selected_surf c \<longrightarrow> NUM_MATCH_POINTS \<le> length (points_near c)) \<Longrightarrow> fit_plane solve p w c \<noteq> None"
  by (auto simp: fit_plane_def esti_plane_def Let_def split: option.splits plane.splits)

lemma near_spec:
  assumes "kd_ok k" "separated (calc_dist w ` set (live (Root_Node k)))"
    and "kd_Nearest_Search k w NUM_MATCH_POINTS Inf = (k', near, ds)"
  shows "kd_ok k' \<and> live (Root_Node k') = live (Root_Node k) \<and> ds = map (\<lambda>q. Fin (calc_dist w q)) near \<and> sorted ds \<and>
     kbest NUM_MATCH_POINTS (candidates w Inf (Root_Node k)) (mset (map (cand w) near))"
proof -
  obtain t s qs es where r: "Nearest_Search (kd_st k) (Root_Node k) w NUM_MATCH_POINTS Inf = (t, s, qs, es)" by (metis prod_cases4)
  have "1 \<le> NUM_MATCH_POINTS" by (simp add: NUM_MATCH_POINTS_def)
  from Nearest_Search_spec [OF assms(1) this assms(2) r] show ?thesis using assms(3) by (auto simp: kd_Nearest_Search_def r)
qed

lemma search_near_spec:
  assumes k: "kd_ok k" "converge \<Longrightarrow> separated (calc_dist w ` set (live (Root_Node k)))"
    and r: "search_near converge w c k = (c', k')"
  shows "kd_ok k' \<and> live (Root_Node k') = live (Root_Node k) \<and> (\<not> converge \<longrightarrow> c' = c) \<and>
     (converge \<longrightarrow> selected_surf c' \<longrightarrow> kbest NUM_MATCH_POINTS (candidates w Inf (Root_Node k)) (mset (map (cand w) (points_near c'))) \<and>
        length (points_near c') = NUM_MATCH_POINTS \<and> (\<forall>q \<in> set (points_near c'). calc_dist w q \<le> 5))"
proof (cases converge)
  case True
  obtain k1 near ds where s: "kd_Nearest_Search k w NUM_MATCH_POINTS Inf = (k1, near, ds)" by (metis prod_cases3)
  note sp = near_spec [OF k(1) k(2) [OF True] s]
  have n: "length near \<le> NUM_MATCH_POINTS" using sp by (auto simp: kbest_def dest: arg_cong [where f = size])
  have c: "c' = c\<lparr>points_near := near, selected_surf := (\<not> length near < NUM_MATCH_POINTS \<and> \<not> ds ! (NUM_MATCH_POINTS - 1) > Fin 5)\<rparr>" "k' = k1"
    using r True s by (simp_all add: search_near_def)
  have "calc_dist w q \<le> 5" if sel: "selected_surf c'" and q: "q \<in> set near" for q
  proof -
    have len: "length near = NUM_MATCH_POINTS" and top: "ds ! (NUM_MATCH_POINTS - 1) \<le> Fin 5" using sel n c by auto
    obtain i where i: "i < length near" "near ! i = q" using q by (auto simp: in_set_conv_nth)
    have "ds ! i \<le> ds ! (NUM_MATCH_POINTS - 1)" using sp i(1) len by (intro sorted_nth_mono) (auto simp: NUM_MATCH_POINTS_def)
    then have "ds ! i \<le> Fin 5" using top by (rule order_trans)
    then show ?thesis using sp i by auto
  qed
  then show ?thesis using sp n c True by auto
qed (use r k in \<open>simp add: search_near_def\<close>)

lemma match_point_spec:
  assumes k: "kd_ok k" "converge \<Longrightarrow> separated (calc_dist (body_to_world s p) ` set (live (Root_Node k)))"
    and r: "match_point solve converge s p c k = Some (c', k')"
  shows "kd_ok k' \<and> live (Root_Node k') = live (Root_Node k) \<and>
     (selected_surf c' \<longrightarrow> on_plane s p c' \<and> (converge \<longrightarrow> matched s (Root_Node k) p c'))"
proof -
  obtain c1 k1 where s: "search_near converge (body_to_world s p) c k = (c1, k1)" by (metis prod.collapse)
  then have f: "fit_plane solve p (body_to_world s p) c1 = Some c'" "k' = k1" using r by (auto simp: match_point_def)
  show ?thesis using search_near_spec [OF k s] fit_plane_spec [OF f(1)] f(2) by (auto simp: matched_def)
qed

lemma matched_live: "live t = live t' \<Longrightarrow> matched s t p c = matched s t' p c"
  by (simp add: matched_def candidates_def)

lemma match_points_spec:
  "kd_ok k \<Longrightarrow> converge \<longrightarrow> (\<forall>p \<in> set ps. separated (calc_dist (body_to_world s p) ` set (live (Root_Node k)))) \<Longrightarrow>
   match_points solve converge s ps cs k = Some (cs', k') \<Longrightarrow>
     kd_ok k' \<and> live (Root_Node k') = live (Root_Node k) \<and> length cs' = length cs \<and> length ps \<le> length cs \<and>
     (\<forall>(p, c) \<in> set (zip ps cs'). selected_surf c \<longrightarrow> on_plane s p c \<and> (converge \<longrightarrow> matched s (Root_Node k) p c))"
proof (induction ps arbitrary: cs cs' k)
  case (Cons p ps)
  obtain c rest where cs: "cs = c # rest" using Cons.prems(3) by (cases cs) auto
  obtain c1 k1 rest' where r: "match_point solve converge s p c k = Some (c1, k1)" "match_points solve converge s ps rest k1 = Some (rest', k')"
      "cs' = c1 # rest'"
    using Cons.prems(3) unfolding cs by (auto simp: bind_eq_Some_conv split: prod.splits)
  note one = match_point_spec [OF Cons.prems(1) _ r(1)]
  have h: "kd_ok k1 \<and> live (Root_Node k1) = live (Root_Node k) \<and>
      (selected_surf c1 \<longrightarrow> on_plane s p c1 \<and> (converge \<longrightarrow> matched s (Root_Node k) p c1))"
    using one Cons.prems(2) by simp
  from Cons.IH [OF _ _ r(2)] h Cons.prems(2)
  have "kd_ok k' \<and> live (Root_Node k') = live (Root_Node k1) \<and> length rest' = length rest \<and> length ps \<le> length rest \<and>
     (\<forall>(p, c) \<in> set (zip ps rest'). selected_surf c \<longrightarrow> on_plane s p c \<and> (converge \<longrightarrow> matched s (Root_Node k1) p c))" by simp
  then show ?case using h matched_live [of "Root_Node k1" "Root_Node k"] by (auto simp: cs r(3))
qed simp

lemma match_point_plane:
  assumes "match_point solve converge s p c k = Some (c', k')"
  shows "selected_surf c' \<longrightarrow> on_plane s p c'"
proof -
  obtain c1 k1 where "search_near converge (body_to_world s p) c k = (c1, k1)" by (metis prod.collapse)
  then have "fit_plane solve p (body_to_world s p) c1 = Some c'" using assms by (auto simp: match_point_def)
  then show ?thesis using fit_plane_spec by blast
qed

lemma match_points_planes:
  "match_points solve converge s ps cs k = Some (cs', k') \<Longrightarrow> \<forall>(p, c) \<in> set (zip ps cs'). selected_surf c \<longrightarrow> on_plane s p c"
proof (induction ps arbitrary: cs cs' k)
  case (Cons p ps)
  obtain c rest where cs: "cs = c # rest" using Cons.prems by (cases cs) auto
  obtain c1 k1 rest' where r: "match_point solve converge s p c k = Some (c1, k1)" "match_points solve converge s ps rest k1 = Some (rest', k')"
      "cs' = c1 # rest'"
    using Cons.prems unfolding cs by (auto simp: bind_eq_Some_conv split: prod.splits)
  show ?case using match_point_plane [OF r(1)] Cons.IH [OF r(2)] by (auto simp: r(3))
qed simp



lemma match_point_total:
  assumes "converge \<or> (selected_surf c \<longrightarrow> NUM_MATCH_POINTS \<le> length (points_near c))"
  shows "\<exists>c' k'. match_point solve converge s p c k = Some (c', k') \<and> (selected_surf c' \<longrightarrow> NUM_MATCH_POINTS \<le> length (points_near c'))"
proof -
  obtain c1 k1 where r: "search_near converge (body_to_world s p) c k = (c1, k1)" by (metis prod.collapse)
  have ok: "selected_surf c1 \<longrightarrow> NUM_MATCH_POINTS \<le> length (points_near c1)"
    using r assms by (auto simp: search_near_def split: if_splits prod.splits)
  then obtain c2 where "fit_plane solve p (body_to_world s p) c1 = Some c2" using fit_plane_total by fastforce
  then show ?thesis using r ok fit_plane_spec by (fastforce simp: match_point_def)
qed

lemma match_points_total:
  "length cs = length ps \<Longrightarrow> converge \<or> (\<forall>c \<in> set cs. selected_surf c \<longrightarrow> NUM_MATCH_POINTS \<le> length (points_near c)) \<Longrightarrow>
     \<exists>cs' k'. match_points solve converge s ps cs k = Some (cs', k') \<and> length cs' = length ps \<and>
       (\<forall>c \<in> set cs'. selected_surf c \<longrightarrow> NUM_MATCH_POINTS \<le> length (points_near c))"
proof (induction ps arbitrary: cs k)
  case (Cons p ps)
  then obtain c rest where cs: "cs = c # rest" by (cases cs) auto
  obtain c1 k1 where one: "match_point solve converge s p c k = Some (c1, k1)" "selected_surf c1 \<longrightarrow> NUM_MATCH_POINTS \<le> length (points_near c1)"
    using match_point_total [of converge c solve s p k] Cons.prems(2) by (auto simp: cs)
  obtain rest' k2 where "match_points solve converge s ps rest k1 = Some (rest', k2)" "length rest' = length ps"
      "\<forall>c \<in> set rest'. selected_surf c \<longrightarrow> NUM_MATCH_POINTS \<le> length (points_near c)"
    using Cons.IH [of rest k1] Cons.prems by (auto simp: cs)
  then show ?case using one by (auto simp: cs)
qed simp

text \<open>
  The matching reads no array out of bounds: if there are at most 100000 points, the arrays have
  been sized for the scan, and the nearest points are searched or the points still in use have
  theirs, then there is a result, and the same holds for the next iteration of the filter.
\<close>

theorem matching_total:
  assumes "length cs = length feats" "length feats \<le> kMaxFeats"
    and "converge \<or> (\<forall>c \<in> set cs. selected_surf c \<longrightarrow> NUM_MATCH_POINTS \<le> length (points_near c))"
  shows "\<exists>cs' k' m. h_share_model solve ext feats converge s (cs, k) = Some ((cs', k'), m) \<and> length cs' = length feats \<and>
     (\<forall>c \<in> set cs'. selected_surf c \<longrightarrow> NUM_MATCH_POINTS \<le> length (points_near c))"
proof -
  obtain cs' k' where "match_points solve converge s feats cs k = Some (cs', k')" "length cs' = length feats"
      "\<forall>c \<in> set cs'. selected_surf c \<longrightarrow> NUM_MATCH_POINTS \<le> length (points_near c)"
    using match_points_total [OF assms(1,3)] by blast
  then show ?thesis using assms(2) by (auto simp: h_share_model_def)
qed

section \<open>An example\<close>

text \<open>A map of one place, a sensor at rest at the origin, and a point of the scan at that place.\<close>

definition origin_state :: state_ikfom where
  "origin_state =
     \<lparr>st_pos = vzero, st_rot = eye3, offset_R_L_I = eye3, offset_T_L_I = vzero, st_vel = vzero, st_bg = vzero, st_ba = vzero, st_grav = vzero\<rparr>"

definition empty_slot :: slot where
  "empty_slot = \<lparr>points_near = [], selected_surf = True, norm_xyz = vzero, norm_dist = 0, res_last = 0\<rparr>"

lemma rest_world: "body_to_world origin_state p = p"
  by (simp add: origin_state_def body_to_world_def mvec_eye) (simp add: vzero_def vec_defs)

lemma rest_sep: "separated (calc_dist (body_to_world origin_state p) ` set (live (Root_Node big_demo)))"
proof -
  have "set (live (Root_Node big_demo)) = {pt 1 2 3}"
    using big_demo_ok(2) by (metis set_mset_mset set_mset_replicate_mset_subset zero_neq_numeral)
  then show ?thesis by (simp add: separated_def)
qed

lemma rest_match:
  "\<exists>cs' k' m. h_share_model (\<lambda>_. vec3 (- 1) 0 0) True [pt 1 2 3] True origin_state ([empty_slot], big_demo) = Some ((cs', k'), Some m)"
proof -
  let ?p = "pt 1 2 3" and ?solve = "\<lambda>_ :: point3 list. vec3 (- 1) 0 0"
  obtain k1 near ds where s: "kd_Nearest_Search big_demo ?p NUM_MATCH_POINTS Inf = (k1, near, ds)" by (metis prod_cases3)
  have sp: "ds = map (\<lambda>q. Fin (calc_dist ?p q)) near" "kbest NUM_MATCH_POINTS (candidates ?p Inf (Root_Node big_demo)) (mset (map (cand ?p) near))"
    using near_spec [OF big_demo_ok(1) _ s] rest_sep [of ?p] by (auto simp: rest_world)
  have cand: "candidates ?p Inf (Root_Node big_demo) = replicate_mset 1500 (cand ?p ?p)"
    by (simp add: candidates_def big_demo_ok(2))
  have len: "length near = 5"
    using sp(2) unfolding kbest_def cand by (simp add: NUM_MATCH_POINTS_def)
  have q: "q = ?p" if "q \<in> set near" for q
  proof -
    have "cand ?p q \<in># candidates ?p Inf (Root_Node big_demo)" using sp(2) that by (auto simp: kbest_def dest!: mset_subset_eqD)
    then show ?thesis by (simp add: cand cand_def split: if_splits)
  qed
  then have near: "near = replicate 5 ?p" using len by (metis replicate_eqI)
  have d0: "calc_dist ?p ?p = 0" by (simp add: calc_dist_def)
  have "vnorm (vec3 (- 1) 0 0) = 1" by (simp add: vnorm_def vec_defs)
  then have "esti_plane ?solve near (1 / 10) = Some (Plane (vec3 (- 1) 0 0) 1)"
    by (simp add: esti_plane_def near NUM_MATCH_POINTS_def Let_def plane_dist_def pt_def vec_defs list_all_iff)
  moreover have "close_to_plane (plane_dist (vec3 (- 1) 0 0) 1 ?p) ?p"
    by (simp add: close_to_plane_def plane_dist_def pt_def vnorm_def vec_defs)
  ultimately obtain c where c: "match_points ?solve True origin_state [?p] [empty_slot] big_demo = Some ([c], k1)" "selected_surf c"
    using s sp(1) near d0
    by (simp add: match_point_def search_near_def rest_world fit_plane_def Let_def NUM_MATCH_POINTS_def)
  then have "effective [?p] [c] = [(?p, c)]" by (simp add: effective_def)
  then show ?thesis using c(1) unfolding h_share_model_def by (simp add: kMaxFeats_def build_measurement_def del: match_points.simps)
qed



lemma matching_total_witness:
  "\<exists>cs' k' m. h_share_model (\<lambda>_. vec3 (- 1) 0 0) False [pt 1 2 3] True origin_state ([empty_slot], big_demo) = Some ((cs', k'), m) \<and> length cs' = 1"
  using matching_total [where cs = "[empty_slot]" and feats = "[pt 1 2 3]" and converge = True and solve = "\<lambda>_. vec3 (- 1) 0 0" and
      ext = False and s = origin_state and k = big_demo]
  by (auto simp: kMaxFeats_def)

end
