(* ===== verification/Lio_Manifold.thy ===== *)
theory Lio_Manifold
  imports Lio_Kalman Lio_Measure_Props
begin

text \<open>
  The manifold of the state: a difference undoes a change, for rotations (the logarithm of the
  toolkit undoes its exponential), for the direction of gravity, and for the whole state.
\<close>

section \<open>The zero change\<close>

lemma vzero_simps [simp]: "seg (\<lambda>_. 0) i = vzero" "vadd p vzero = p" "vsub p p = vzero" "at3 i vzero = (\<lambda>_. 0)"
    "vplus (\<lambda>_. 0) v = v" "mv n A (\<lambda>_. 0) = (\<lambda>_. 0)" "left_vec i n A (\<lambda>_. 0) = (\<lambda>_. 0)"
proof -
  have z: "vget j vzero = 0" for j by (cases "(j, vzero)" rule: vget.cases) (simp_all add: vzero_def vec3_def)
  show "at3 i vzero = (\<lambda>_. 0)" by (simp add: at3_def z cong: if_cong)
qed (auto simp: seg_def vzero_def vadd_def vsub_def vscale_def vec3_def vplus_def mv_def left_vec_def)

lemma SO3_boxminus_self: "rotation r \<Longrightarrow> SO3_boxminus r r = vzero"
proof -
  assume "rotation r"
  then have "mmul (transp r) r = eye3" by (simp add: rotation_def)
  then show ?thesis
    by (simp add: SO3_boxminus_def to_quat_def mtk_log_def mtrace_def eye3_def mat3_of_def vec3_def vzero_def transp_def vscale_def vnorm_def vdot_def Let_def)
qed

lemma S2_boxminus_self: "S2_boxminus g g = (\<lambda>_. 0)"
proof -
  have "mvec (skew_sym_mat g) g = vzero" by (simp add: skew_sym_mat_def mvec_def mat3_of_def vec3_def vzero_def vdot_def)
  moreover have "\<not> vdot g g < 0" by (simp add: vdot_def not_less)
  moreover have "vnorm vzero = 0" by (simp add: vnorm_def vdot_def vzero_def vec3_def)
  ultimately show ?thesis by (simp add: S2_boxminus_def Let_def atan2_def tolerance_def)
qed

lemma boxminus_self: "rotation (st_rot x) \<Longrightarrow> rotation (offset_R_L_I x) \<Longrightarrow> boxminus x x = (\<lambda>_. 0)"
  by (simp add: boxminus_def SO3_boxminus_self S2_boxminus_self cong: if_cong)

lemma boxplus_zero: "boxplus x (\<lambda>_. 0) = x"
  by (simp add: boxplus_def SO3_oplus_def SO3_exp_def S2_boxplus_def S2_Bu_def exp_zero mmul_eye mvec_eye)

section \<open>Differences of states\<close>

lemma mmul_assoc: "mmul (mmul a b) c = mmul a (mmul b c)"
  by (simp add: mat_defs vec_defs algebra_simps)

lemma mmul_eye_left: "mmul eye3 m = m"
  by (simp add: mat_defs vec_defs)

lemma to_quat_of_quat:
  assumes "0 < qw q" "qw q * qw q + vdot (qvec q) (qvec q) = 1"
  shows "to_quat (toRotationMatrix q) = q"
proof -
  have t: "mtrace (toRotationMatrix q) = 4 * (qw q * qw q) - 1"
    using assms(2) by (simp add: toRotationMatrix_def mtrace_def mat3_of_def vec3_def vdot_def Let_def)
  have "sqrt (4 * (qw q * qw q)) / 2 = qw q" using assms(1) by (simp add: real_sqrt_mult)
  then show ?thesis
    using assms(1) unfolding to_quat_def t
    by (simp add: toRotationMatrix_def transp_def mat3_of_def vec3_def vscale_def Let_def)
qed

text \<open>A change of a rotation: none, or beyond the Taylor bound and below half a turn.\<close>

definition clear_turn :: "point3 \<Rightarrow> bool" where
  "clear_turn v \<longleftrightarrow> v = vzero \<or> 4 * taylor_n_bound \<le> vdot v v \<and> vnorm v < pi"

lemma sin_above_tolerance: "1 / 100 \<le> x \<Longrightarrow> x \<le> pi / 2 \<Longrightarrow> tolerance \<le> sin x"
proof -
  assume x: "1 / 100 \<le> x" "x \<le> pi / 2"
  have "\<bar>sin (1 / 100) - (\<Sum>m<2. sin_coeff m * (1 / 100) ^ m)\<bar> \<le> inverse (fact 2) * \<bar>1 / 100 :: real\<bar> ^ 2" by (rule Maclaurin_sin_bound)
  then have "\<bar>sin (1 / 100) - 1 / 100\<bar> \<le> (1 / 20000 :: real)" by (simp add: sin_coeff_def numeral_2_eq_2)
  then have "1 / 100 - sin (1 / 100) \<le> (1 / 20000 :: real)" by (simp only: abs_le_iff) linarith
  then have "tolerance \<le> sin (1 / 100)" by (simp add: tolerance_def)
  also have "\<dots> \<le> sin x" using x by (intro sin_monotone_2pi_le) auto
  finally show ?thesis .
qed

lemma clear_turn_half:
  assumes "4 * taylor_n_bound \<le> vdot v v" "vnorm v < pi"
  shows "1 / 100 \<le> vnorm v / 2" "vnorm v / 2 < pi / 2"
proof -
  have "(2 / 100) ^ 2 \<le> vdot v v" using assms(1) by (simp add: taylor_n_bound_def power2_eq_square)
  then have "2 / 100 \<le> vnorm v" unfolding vnorm_def by (rule real_le_rsqrt)
  then show "1 / 100 \<le> vnorm v / 2" "vnorm v / 2 < pi / 2" using assms(2) by auto
qed

lemma exp_entries:
  assumes "4 * taylor_n_bound \<le> vdot v v"
  shows "mtk_exp v (1 / 2) = \<lparr>qw = cos (vnorm v / 2), qvec = vscale (sin (vnorm v / 2) / vnorm v) v\<rparr>"
proof -
  have s: "sqrt (1 / 2 * (1 / 2) * vdot v v) = vnorm v / 2"
    by (simp only: vnorm_def real_sqrt_mult) (simp add: real_sqrt_divide)
  have "taylor_n_bound \<le> 1 / 2 * (1 / 2) * vdot v v" using assms by simp
  then have "cos_sinc_sqrt (1 / 2 * (1 / 2) * vdot v v) = (cos (vnorm v / 2), sin (vnorm v / 2) / (vnorm v / 2))"
    by (simp only: cos_sinc_sqrt_def s if_True)
  then show ?thesis by (simp only: mtk_exp_def Let_def prod.case) simp
qed

lemma vdot_vscale: "vdot (vscale a v) (vscale b w) = a * b * vdot v w"
  by (simp add: vec_defs algebra_simps)

lemma vscale_vscale: "vscale a (vscale b v) = vscale (a * b) v"
  by (simp add: vec_defs)

lemma log_exp:
  assumes "4 * taylor_n_bound \<le> vdot v v" "vnorm v < pi"
  shows "mtk_log (to_quat (toRotationMatrix (mtk_exp v (1 / 2)))) = v"
proof -
  let ?h = "vnorm v / 2"
  have h: "1 / 100 \<le> ?h" "?h < pi / 2" using clear_turn_half [OF assms] .
  have n0: "0 < vnorm v" using h(1) by simp
  have s: "tolerance \<le> sin ?h" using h by (intro sin_above_tolerance) auto
  have c: "0 < cos ?h" using h by (intro cos_gt_zero_pi) auto
  have d: "vdot (vscale (sin ?h / vnorm v) v) (vscale (sin ?h / vnorm v) v) = sin ?h * sin ?h"
    unfolding vdot_vscale using n0 vnorm_square [of v, symmetric] by simp
  have q: "cos ?h * cos ?h + vdot (vscale (sin ?h / vnorm v) v) (vscale (sin ?h / vnorm v) v) = 1"
    using sin_cos_squared_add2 [of ?h] by (simp only: d power2_eq_square)
  have n: "vnorm (vscale (sin ?h / vnorm v) v) = sin ?h"
    using s by (simp add: vnorm_def [of "vscale _ _"] d tolerance_def)
  have t: "arctan (sin ?h / cos ?h) = ?h"
  proof -
    have "arctan (tan ?h) = ?h" using h by (intro arctan_tan) auto
    then show ?thesis by (simp only: tan_def)
  qed
  have "to_quat (toRotationMatrix (mtk_exp v (1 / 2))) = \<lparr>qw = cos ?h, qvec = vscale (sin ?h / vnorm v) v\<rparr>"
    unfolding exp_entries [OF assms(1)] by (rule to_quat_of_quat) (use c q in simp_all)
  then have "mtk_log (to_quat (toRotationMatrix (mtk_exp v (1 / 2)))) = vscale (2 / sin ?h * ?h) (vscale (sin ?h / vnorm v) v)"
    using s c by (simp add: mtk_log_def n Let_def t)
  also have "\<dots> = v"
  proof -
    have "2 / sin ?h * ?h * (sin ?h / vnorm v) = 1" using n0 s by (simp add: tolerance_def)
    then show ?thesis unfolding vscale_vscale by (simp add: vec_defs)
  qed
  finally show ?thesis .
qed

lemma SO3_roundtrip: "rotation r \<Longrightarrow> clear_turn v \<Longrightarrow> SO3_boxminus (SO3_oplus r v 1) r = v"
proof -
  assume r: "rotation r" and v: "clear_turn v"
  have e: "mmul (transp r) (SO3_oplus r v 1) = toRotationMatrix (mtk_exp v (1 / 2))"
    using r by (simp add: SO3_oplus_def SO3_exp_def rotation_def mmul_eye_left flip: mmul_assoc)
  show ?thesis
  proof (cases "v = vzero")
    case True then show ?thesis using SO3_boxminus_self [OF r] by (simp add: SO3_oplus_def SO3_exp_def exp_zero mmul_eye)
  next
    case False then show ?thesis using v log_exp by (simp add: SO3_boxminus_def e clear_turn_def)
  qed
qed
text \<open>The same for the direction of gravity, whose differences are in the basis of its tangent plane.\<close>

definition cross3 :: "point3 \<Rightarrow> point3 \<Rightarrow> point3" where
  "cross3 a b = mvec (skew_sym_mat a) b"

lemmas cross3_simps = cross3_def skew_sym_mat_def mvec_def mat3_of_def vec_defs

lemma S2_Bu_entries:
  "S2_Bu g d = vec3 (S2_Bx g 0 0 * d 0 + S2_Bx g 0 1 * d 1) (S2_Bx g 1 0 * d 0 + S2_Bx g 1 1 * d 1) (S2_Bx g 2 0 * d 0 + S2_Bx g 2 1 * d 1)"
  by (simp add: S2_Bu_def seg_def mv_def numeral_2_eq_2)

lemma basis_norm:
  fixes x y :: real
  assumes "a * p + b * q + c * r = x" "a' * p + b' * q + c' * r = y" "p = a * x + a' * y" "q = b * x + b' * y" "r = c * x + c' * y"
  shows "p * p + q * q + r * r = x * x + y * y"
proof -
  have "p * p + q * q + r * r = p * (a * x + a' * y) + q * (b * x + b' * y) + r * (c * x + c' * y)" using assms(3-5) by simp
  also have "\<dots> = (a * p + b * q + c * r) * x + (a' * p + b' * q + c' * r) * y" by (simp only: algebra_simps)
  finally show ?thesis unfolding assms(1,2) .
qed

lemma S2_basis:
  assumes g: "vdot g g = S2_length * S2_length" "px g + S2_length > tolerance"
  shows "vdot g (S2_Bu g d) = 0" "vdot (S2_Bu g d) (S2_Bu g d) = d 0 * d 0 + d 1 * d 1"
    "i < 2 \<Longrightarrow> S2_Bx g 0 i * px (S2_Bu g d) + S2_Bx g 1 i * py (S2_Bu g d) + S2_Bx g 2 i * pz (S2_Bu g d) = d i"
proof -
  define a b c L k l where "a = px g" and "b = py g" and "c = pz g" and "L = S2_length" and "k = 1 / (S2_length + px g)" and "l = 1 / S2_length"
  have k: "k * (L + a) = 1" using g(2) by (simp add: k_def L_def a_def tolerance_def)
  have l: "l * L = 1" by (simp add: l_def L_def S2_length_def)
  have n: "a * a + b * b + c * c = L * L" using g(1) by (simp add: vdot_def a_def b_def c_def L_def)
  have B: "S2_Bx g 0 0 = l * (- b)" "S2_Bx g 0 1 = l * (- c)" "S2_Bx g 1 0 = l * (L - b * b * k)" "S2_Bx g 1 1 = l * (- c * b * k)"
      "S2_Bx g 2 0 = l * (- c * b * k)" "S2_Bx g 2 1 = l * (L - c * c * k)"
    using g(2) by (simp_all add: S2_Bx_def msc_def a_def b_def c_def L_def k_def l_def)
  note e = S2_Bu_entries [of g d, unfolded B] and v = vdot_def vec3_def point3.select_convs
  show "vdot g (S2_Bu g d) = 0" unfolding e v a_def [symmetric] b_def [symmetric] c_def [symmetric] using k n by algebra
  have two: "j = 0 \<or> j = 1" if "j < 2" for j :: nat using that by auto
  have "l * (- b) * (l * (- b) * d 0 + l * (- c) * d 1) + l * (L - b * b * k) * (l * (L - b * b * k) * d 0 + l * (- c * b * k) * d 1) +
      l * (- c * b * k) * (l * (- c * b * k) * d 0 + l * (L - c * c * k) * d 1) = d 0" using k l n by algebra
  moreover have "l * (- c) * (l * (- b) * d 0 + l * (- c) * d 1) + l * (- c * b * k) * (l * (L - b * b * k) * d 0 + l * (- c * b * k) * d 1) +
      l * (L - c * c * k) * (l * (- c * b * k) * d 0 + l * (L - c * c * k) * d 1) = d 1" using k l n by algebra
  ultimately have c: "S2_Bx g 0 j * px (S2_Bu g d) + S2_Bx g 1 j * py (S2_Bu g d) + S2_Bx g 2 j * pz (S2_Bu g d) = d j" if "j < 2" for j
    using two [OF that] by (elim disjE) (simp_all only: e v B)
  then show "i < 2 \<Longrightarrow> S2_Bx g 0 i * px (S2_Bu g d) + S2_Bx g 1 i * py (S2_Bu g d) + S2_Bx g 2 i * pz (S2_Bu g d) = d i" .
  show "vdot (S2_Bu g d) (S2_Bu g d) = d 0 * d 0 + d 1 * d 1"
  proof -
    have w: "px (S2_Bu g d) = S2_Bx g 0 0 * d 0 + S2_Bx g 0 1 * d 1" "py (S2_Bu g d) = S2_Bx g 1 0 * d 0 + S2_Bx g 1 1 * d 1"
        "pz (S2_Bu g d) = S2_Bx g 2 0 * d 0 + S2_Bx g 2 1 * d 1"
      by (simp_all add: S2_Bu_entries vec3_def)
    have "S2_Bx g 0 0 * px (S2_Bu g d) + S2_Bx g 1 0 * py (S2_Bu g d) + S2_Bx g 2 0 * pz (S2_Bu g d) = d 0"
        "S2_Bx g 0 1 * px (S2_Bu g d) + S2_Bx g 1 1 * py (S2_Bu g d) + S2_Bx g 2 1 * pz (S2_Bu g d) = d 1" by (rule c; simp)+
    then show ?thesis using w unfolding vdot_def by (rule basis_norm)
  qed
qed

lemma vdot_comm: "vdot a b = vdot b a"
  by (simp add: vdot_def algebra_simps)

lemma vscale_1: "vscale 1 v = v"
  by (simp add: vscale_def)

lemma rotate_tangent:
  assumes "vdot n n = 1" "vdot n g = 0"
  shows "mvec (rodrigues n t) g = vadd (vscale (cos t) g) (vscale (sin t) (cross3 n g))"
proof -
  have "mvec (rodrigues n t) g = vadd (vadd g (vscale (sin t) (cross3 n g))) (vscale (1 - cos t) (cross3 n (cross3 n g)))"
    by (simp add: rodrigues_def cross3_def mat_defs vec_defs algebra_simps)
  moreover have "cross3 n (cross3 n g) = vscale (- 1) g"
  proof -
    have e: "px n * px n + py n * py n + pz n * pz n = 1" "px n * px g + py n * py g + pz n * pz g = 0"
      using assms by (simp_all add: vdot_def)
    have "px (cross3 n (cross3 n g)) = - px g" "py (cross3 n (cross3 n g)) = - py g" "pz (cross3 n (cross3 n g)) = - pz g"
      by (simp_all add: cross3_simps) (use e in algebra)+
    then show ?thesis by (simp add: vec_defs)
  qed
  ultimately show ?thesis by (simp add: vec_defs algebra_simps)
qed

lemma atan2_polar:
  assumes "0 < r" "0 < t" "t < pi"
  shows "atan2 (r * sin t) (r * cos t) = t"
proof -
  have s: "0 < sin t" using assms by (intro sin_gt_zero)
  consider "t < pi / 2" | "t = pi / 2" | "pi / 2 < t" by linarith
  then show ?thesis
  proof cases
    case 1
    then have "0 < cos t" using assms by (intro cos_gt_zero_pi) auto
    moreover have "arctan (tan t) = t" using assms 1 by (intro arctan_tan) auto
    ultimately show ?thesis using assms(1) by (simp add: atan2_def tan_def)
  next
    case 2 show ?thesis unfolding 2 using assms(1) by (simp add: atan2_def)
  next
    case 3
    have "cos t = - cos (pi - t)" by simp
    moreover have "0 < cos (pi - t)" using assms 3 by (intro cos_gt_zero_pi) auto
    ultimately have "cos t < 0" by linarith
    then have c: "r * cos t < 0" "\<not> 0 < r * cos t" using mult_pos_neg [OF assms(1)] by (simp_all add: not_less less_imp_le)
    have "tan (t - pi) = sin t / cos t" by (simp add: tan_def)
    then have "arctan (sin t / cos t) = t - pi" using assms 3 by (intro arctan_unique) auto
    then show ?thesis using assms(1) c s by (simp add: atan2_def)
  qed
qed

lemma mv_hat: "mv 3 (msc c (mm 3 A (hat g))) (at3 0 v) i = c * (A i 0 * px (cross3 g v) + A i 1 * py (cross3 g v) + A i 2 * pz (cross3 g v))"
  by (simp add: mv_def mm_def msc_def numeral_3_eq_3 numeral_2_eq_2 hat_def m3_def at3_def cross3_simps algebra_simps)

text \<open>A change of gravity: none, or beyond the Taylor bound and short of half a turn.\<close>

definition clear_tilt :: "vec \<Rightarrow> bool" where
  "clear_tilt d \<longleftrightarrow> d 0 = 0 \<and> d 1 = 0 \<or>
     4 * taylor_n_bound \<le> d 0 * d 0 + d 1 * d 1 \<and> sqrt (d 0 * d 0 + d 1 * d 1) \<le> pi - 1 / 100"

lemma S2_roundtrip:
  assumes g: "vdot g g = S2_length * S2_length" "px g + S2_length > tolerance" and d: "clear_tilt d" "i < 2"
  shows "S2_boxminus (S2_boxplus g d) g i = d i"
proof (cases "d 0 = 0 \<and> d 1 = 0")
  case True
  then have "S2_Bu g d = vzero" by (simp add: S2_Bu_entries vzero_def)
  then have "S2_boxplus g d = g" by (simp add: S2_boxplus_def exp_zero mvec_eye)
  then show ?thesis using d(2) True by (cases i) (auto simp: S2_boxminus_self less_Suc_eq numeral_2_eq_2)
next
  case False
  let ?L = "S2_length * S2_length"
  define u where "u = S2_Bu g d"
  define t where "t = vnorm u"
  note basis = S2_basis [OF g, where d = d, folded u_def]
  have t: "4 * taylor_n_bound \<le> vdot u u" "t \<le> pi - 1 / 100" using d False basis(2) by (auto simp: clear_tilt_def t_def vnorm_def)
  have t1: "1 / 50 \<le> t"
  proof -
    have "(1 / 50) ^ 2 \<le> vdot u u" using t(1) by (simp add: taylor_n_bound_def power2_eq_square)
    then show ?thesis unfolding t_def vnorm_def by (rule real_le_rsqrt)
  qed
  define n where "n = vscale (1 / t) u"
  have n: "vdot n n = 1" "vdot n g = 0"
    using unit_axis [of u] t1 basis(1) vdot_vscale [of "1 / t" u 1 g] by (simp_all add: n_def t_def vdot_comm vscale_1)
  have u: "u = vscale t n" using t1 by (simp add: n_def vec_defs)
  have "toRotationMatrix (mtk_exp u (1 / 2)) = rodrigues n t"
    using SO3_exp_rodrigues [of 1 u] t(1) by (simp add: SO3_exp_def n_def t_def)
  then have g': "S2_boxplus g d = vadd (vscale (cos t) g) (vscale (sin t) (cross3 n g))"
    by (simp add: S2_boxplus_def u_def [symmetric] rotate_tangent [OF n])
  have s: "tolerance \<le> sin t"
  proof (cases "t \<le> pi / 2")
    case True then show ?thesis using t1 by (intro sin_above_tolerance) auto
  next
    case False then have "tolerance \<le> sin (pi - t)" using t(2) by (intro sin_above_tolerance) auto
    then show ?thesis by simp
  qed
  have c1: "cross3 g (S2_boxplus g d) = vscale (sin t * ?L) n"
  proof -
    have e: "px n * px g + py n * py g + pz n * pz g = 0" "px g * px g + py g * py g + pz g * pz g = S2_length * S2_length"
      using n(2) g(1) by (simp_all add: vdot_def)
    have "px (cross3 g (S2_boxplus g d)) = sin t * ?L * px n" "py (cross3 g (S2_boxplus g d)) = sin t * ?L * py n"
        "pz (cross3 g (S2_boxplus g d)) = sin t * ?L * pz n"
      unfolding g' by (simp_all add: cross3_simps) (use e in algebra)+
    then show ?thesis by (simp add: vec_defs)
  qed
  have c2: "cross3 (S2_boxplus g d) g = vscale (- (sin t * ?L)) n"
    using c1 unfolding cross3_simps by (simp add: algebra_simps)
  have vs: "vnorm (mvec (skew_sym_mat (S2_boxplus g d)) g) = ?L * sin t"
  proof -
    have "vdot (vscale (- (sin t * ?L)) n) (vscale (- (sin t * ?L)) n) = (?L * sin t) * (?L * sin t)" by (simp add: vdot_vscale n(1))
    moreover have "0 \<le> ?L * sin t" using s by (simp add: tolerance_def S2_length_def)
    ultimately show ?thesis unfolding vnorm_def c2 [unfolded cross3_def] by (simp only: real_sqrt_abs2 abs_of_nonneg)
  qed
  have vc: "vdot (S2_boxplus g d) g = ?L * cos t"
  proof -
    have "vdot (S2_boxplus g d) g = cos t * vdot g g" unfolding g' by (simp add: cross3_simps algebra_simps)
    then show ?thesis using g(1) by simp
  qed
  have a: "atan2 (?L * sin t) (?L * cos t) = t" using t t1 by (intro atan2_polar) (auto simp: S2_length_def)
  have ok: "\<not> ?L * sin t < tolerance" using s by (simp add: S2_length_def tolerance_def)
  have "S2_boxminus (S2_boxplus g d) g i = t / (?L * sin t) *
      (S2_Bx g 0 i * px (vscale (sin t * ?L) n) + S2_Bx g 1 i * py (vscale (sin t * ?L) n) + S2_Bx g 2 i * pz (vscale (sin t * ?L) n))"
    unfolding S2_boxminus_def Let_def vs vc a if_not_P [OF ok] mv_hat c1 by (simp add: tr_def)
  also have "\<dots> = S2_Bx g 0 i * px u + S2_Bx g 1 i * py u + S2_Bx g 2 i * pz u"
    using s unfolding u by (simp add: vscale_def tolerance_def S2_length_def field_simps)
  also have "\<dots> = d i" by (rule basis(3) [OF d(2)])
  finally show ?thesis .
qed

text \<open>
  C13. Differences undo changes of the state: the difference between the changed state and the state is the
  change, in all 23 degrees of freedom, if the rotations are rotations, gravity has its length and is not opposite to
  the first axis, and the turns and the tilt are none or are beyond the Taylor bound and short of half a turn.
\<close>

theorem boxminus_boxplus:
  assumes "rotation (st_rot s)" "rotation (offset_R_L_I s)"
    and "vdot (st_grav s) (st_grav s) = S2_length * S2_length" "px (st_grav s) + S2_length > tolerance"
    and "clear_turn (seg d 3)" "clear_turn (seg d 6)" "clear_tilt (\<lambda>i. d (21 + i))" and "i < 23"
  shows "boxminus (boxplus s d) s i = d i"
proof -
  have v: "vsub (vadd a b) a = b" for a b by (simp add: vec_defs)
  have w: "at3 k (seg d k) i = (if k \<le> i \<and> i < k + 3 then d i else 0)" for k
  proof -
    consider "i < k" | "i = k" | "i = k + 1" | "i = k + 2" | "k + 3 \<le> i" by linarith
    then show ?thesis by cases (auto simp: at3_def seg_def vec3_def numeral_2_eq_2)
  qed
  have "S2_boxminus (S2_boxplus (st_grav s) (\<lambda>i. d (21 + i))) (st_grav s) (i - 21) = d i" if "i = 21 \<or> i = 22"
    using S2_roundtrip [OF assms(3,4,7), of "i - 21"] that by auto
  then show ?thesis
    using assms(8) unfolding boxminus_def boxplus_def state_ikfom.select_convs v SO3_roundtrip [OF assms(1,5)] SO3_roundtrip [OF assms(2,6)]
    by (simp add: vplus_def w)
qed

lemma boxminus_boxplus_witness:
  "boxminus (boxplus (origin_state\<lparr>st_grav := vec3 0 0 (- 9809 / 1000)\<rparr>) (\<lambda>i. if i = 3 then 1 else if i = 21 then 1 / 2 else 0))
     (origin_state\<lparr>st_grav := vec3 0 0 (- 9809 / 1000)\<rparr>) 21 = 1 / 2"
proof -
  let ?d = "\<lambda>i :: nat. if i = 3 then 1 else if i = 21 then 1 / 2 else 0 :: real"
  have p: "(2 :: real) \<le> pi" by (rule pi_ge_two)
  have "clear_turn (seg ?d 3)" using p by (simp add: clear_turn_def seg_def vdot_def vnorm_def vec3_def taylor_n_bound_def)
  moreover have "clear_turn (seg ?d 6)" by (simp add: clear_turn_def seg_def vzero_def vec3_def)
  moreover have "clear_tilt (\<lambda>i. ?d (21 + i))" using p by (simp add: clear_tilt_def taylor_n_bound_def real_sqrt_divide)
  ultimately show ?thesis
    using boxminus_boxplus [of "origin_state\<lparr>st_grav := vec3 0 0 (- 9809 / 1000)\<rparr>" ?d 21]
    by (simp add: origin_state_def rotation_eye vdot_def vec3_def S2_length_def tolerance_def)
qed

end
