(* ===== verification/Lio_Kalman_Props.thy ===== *)
theory Lio_Kalman_Props
  imports Lio_Covariance Lio_Manifold
begin

text \<open>
  What the filter does: the two formulas for the gain agree, the covariance stays symmetric and
  positive semidefinite in the prediction and in the update, an update always ends with a
  bounded number of measurements, and a scan that fits does not move the state.
\<close>

section \<open>The gain and the covariance\<close>

text \<open>
  C15. Both formulas of the gain are the same: for an invertible covariance, a positive noise and a
  measurement in the first twelve degrees of freedom, the formula used below 23 measurements and
  the one used from 23 on give the same state correction and the same gain matrix.
\<close>

theorem gains_agree:
  assumes "inverse_ok invm" "0 < R" "covariance P" "inverse_of 23 P Pi" "fits m 12 H"
  shows "gain_few invm R m H P h = gain_many invm R m H P h"
  using assms(3) by (intro gains_equal [OF assms(1,2) _ _ assms(4,5)]) (auto simp: covariance_def)

lemma mm_idm_idm [simp]: "mm n (idm n) (idm n) = idm n"
  by (rule mm_idm) (rule fits_idm)

lemma covariance_idm: "covariance (idm 23)"
  using psd_square [of 23 23 "idm 23"] by (simp add: covariance_def)

lemma inverse_idm: "inverse_of n (idm n) (idm n)"
  by (simp add: inverse_of_def)

definition some_inverse :: "nat \<Rightarrow> mat \<Rightarrow> mat" where
  "some_inverse n A = (SOME B. inverse_of n A B)"

lemma some_inverse_ok: "inverse_ok some_inverse"
  unfolding inverse_ok_def some_inverse_def by (metis someI_ex)

lemma gains_agree_witness: "gain_few some_inverse (1 / 1000) 1 (hx_mat [\<lparr>row_pos = vec3 0 0 1, row_rot = vzero, row_offset_R = vzero, row_offset_T = vzero\<rparr>]) (idm 23) (\<lambda>_. 1) =
   gain_many some_inverse (1 / 1000) 1 (hx_mat [\<lparr>row_pos = vec3 0 0 1, row_rot = vzero, row_offset_R = vzero, row_offset_T = vzero\<rparr>]) (idm 23) (\<lambda>_. 1)"
  by (rule gains_agree [OF some_inverse_ok _ covariance_idm inverse_idm]) (auto simp: fits_def hx_mat_def)

text \<open>The blocks of the prediction fit.\<close>

lemma fits_set_block: "fits r c A \<Longrightarrow> i0 + k \<le> r \<Longrightarrow> j0 + l \<le> c \<Longrightarrow> fits r c (set_block k l i0 j0 B A)"
  by (auto simp: fits_def set_block_def)

lemma fits_zerom: "fits r c zerom"
  by (simp add: fits_def zerom_def)

lemma fits_manifold_rows: "fits 24 c D \<Longrightarrow> fits 23 c (manifold_rows A3 A6 N D)"
  by (auto simp: fits_def manifold_rows_def)

lemma fits_df: "fits 24 23 (df_dx x i)" "fits 24 12 (df_dw x i)"
  by (simp_all add: df_dx_def df_dw_def block3_def Let_def fits_set_block fits_zerom)

lemma predict_jacobians_fit: "fits 23 23 (fst (predict_jacobians dt i x))" "fits 23 12 (snd (predict_jacobians dt i x))"
  by (simp_all add: predict_jacobians_def Let_def block3_def fits_ma fits_msc fits_set_block fits_manifold_rows fits_df)

text \<open>
  C18. The prediction keeps the covariance a covariance: symmetric, positive semidefinite and of 23
  rows and columns, for every time step, input and state and every positive semidefinite noise.
\<close>

theorem prediction_keeps_covariance:
  assumes "covariance (kf_P k)" "psd 12 Q"
  shows "covariance (kf_P (esekf_predict dt Q i k))"
proof -
  obtain F W where FW: "predict_jacobians dt i (kf_x k) = (F, W)" by fastforce
  then have f: "fits 23 23 F" "fits 23 12 W" using predict_jacobians_fit [of dt i "kf_x k"] by simp_all
  have "covariance (mm 12 (mm 12 (msc dt W) Q) (tr (msc dt W)))"
    unfolding covariance_def using f(2) by (intro conjI psd_congruence [OF assms(2)]) (auto simp: fits_def mm_def msc_def tr_def)
  then show ?thesis
    using congruence_covariance [OF assms(1) f(1)] by (simp add: esekf_predict_def FW covariance_sum)
qed

lemma process_noise_psd: "psd 12 process_noise_cov"
proof -
  have "tr process_noise_cov = process_noise_cov" by (intro ext) (auto simp: tr_def process_noise_cov_def)
  moreover have "0 \<le> inner_prod 12 v (mv 12 process_noise_cov v)" for v
  proof -
    have "(\<Sum>j<12. process_noise_cov l j * v j) = process_noise_cov l l * v l" if "l < 12" for l
    proof -
      have "(\<Sum>j<12. process_noise_cov l j * v j) = (\<Sum>j<12. if l = j then process_noise_cov l l * v l else 0)"
        by (intro sum.cong refl) (auto simp: process_noise_cov_def)
      then show ?thesis using that by simp
    qed
    then have "inner_prod 12 v (mv 12 process_noise_cov v) = (\<Sum>l<12. process_noise_cov l l * (v l * v l))"
      by (simp add: inner_prod_def mv_def algebra_simps)
    also have "\<dots> \<ge> 0" by (intro sum_nonneg) (simp add: process_noise_cov_def)
    finally show ?thesis .
  qed
  ultimately show ?thesis by (simp add: psd_def)
qed

lemma prediction_keeps_covariance_witness:
  "covariance (kf_P (esekf_predict (1 / 100) process_noise_cov \<lparr>in_acc = vec3 0 0 9, in_gyro = vec3 1 0 0\<rparr> \<lparr>kf_x = origin_state, kf_P = idm 23\<rparr>))"
  by (rule prediction_keeps_covariance [OF _ process_noise_psd]) (simp add: covariance_idm)
text \<open>The covariance of the prediction, moved to the state of a turn.\<close>

definition turn_cov :: "state_ikfom \<Rightarrow> mat \<Rightarrow> state_ikfom \<Rightarrow> mat" where
  "turn_cov x0 P0 x =
     (let dx = boxminus x x0 in project_cov (rot_block dx 3) (rot_block dx 6) (grav_block x x0 dx) P0)"

definition solvable :: "state_ikfom \<Rightarrow> mat \<Rightarrow> state_ikfom \<Rightarrow> measurement \<Rightarrow> bool" where
  "solvable x0 P0 x m \<longleftrightarrow> length (h_x m) < 23 \<or> (\<exists>Pi. inverse_of 23 (turn_cov x0 P0 x) Pi)"

lemma fits_hx: "fits (length rows) 12 (hx_mat rows)"
  by (simp add: fits_def hx_mat_def)

lemma gain_solved:
  assumes "inverse_ok invm" "0 < R" "covariance P" "fits m 12 H" "m < 23 \<or> (\<exists>Pi. inverse_of 23 P Pi)"
  shows "gain invm R m H P h = gain_few invm R m H P h"
  using assms gains_equal [OF assms(1,2)] by (auto simp: gain_def covariance_def)

lemma kalman_step_parts:
  assumes k: "kalman_step invm R x0 P0 x m = (x', P', d, Kx)"
    and ok: "inverse_ok invm" "0 < R" "covariance P0" "solvable x0 P0 x m"
  shows "covariance P'" "fits 23 12 Kx" "psd 23 (msub P' (mm 23 Kx P'))"
proof -
  let ?m = "length (h_x m)" and ?H = "hx_mat (h_x m)" and ?h = "h_of (h_vec m)"
  have P': "P' = turn_cov x0 P0 x" and K: "Kx = snd (gain invm R ?m ?H P' ?h)"
    using k by (auto simp: kalman_step_def turn_cov_def Let_def split: prod.splits)
  show c: "covariance P'" unfolding P' turn_cov_def Let_def using ok(3) by (rule project_covariance)
  have g: "Kx = snd (gain_few invm R ?m ?H P' ?h)"
    unfolding K by (rule arg_cong [where f = snd], rule gain_solved [OF ok(1,2) c fits_hx]) (use ok(4) in \<open>simp add: solvable_def P'\<close>)
  show "fits 23 12 Kx"
    unfolding g gain_few_def Let_def snd_conv using c by (auto simp: covariance_def fits_def mm_def msc_def hx_mat_def)
  show "psd 23 (msub P' (mm 23 Kx P'))"
    unfolding g using c by (intro joseph [OF ok(1,2) _ _ fits_hx]) (auto simp: covariance_def)
qed

lemma update_loop_covariance:
  assumes ok: "inverse_ok invm" "0 < R" "covariance P0"
    and h: "\<And>c x e e' m. h c x e = Some (e', Some m) \<Longrightarrow> solvable x0 P0 x m"
  shows "update_loop invm R limit h x0 P0 n (x, P, c, t, e) = Some (k', e') \<Longrightarrow> covariance P \<Longrightarrow> covariance (kf_P k')"
proof (induction n arbitrary: x P c t e)
  case 0 then show ?case by auto
next
  case (Suc n)
  show ?case
  proof (cases "h c x e")
    case None then show ?thesis using Suc.prems by simp
  next
    case (Some r)
    obtain e1 mo where r: "r = (e1, mo)" by fastforce
    show ?thesis
    proof (cases mo)
      case None then show ?thesis using Suc Some r by simp
    next
      case (Some m)
      obtain x' P' d Kx where k: "kalman_step invm R x0 P0 x m = (x', P', d, Kx)" by (metis prod_cases4)
      have s: "solvable x0 P0 x m" using h \<open>h c x e = Some r\<close> r Some by blast
      note parts = kalman_step_parts [OF k ok s]
      show ?thesis
        using Suc.prems(1) Suc.IH [OF _ parts(1)] final_covariance [OF parts] \<open>h c x e = Some r\<close> r Some
        by (auto simp: k Let_def split: if_splits)
    qed
  qed
qed

text \<open>
  C12. The update keeps the covariance a covariance: whatever the measurements, the state and the
  number of turns, it is symmetric and positive semidefinite again, if the noise is positive and
  every system with 23 measurements or more has an invertible covariance.
\<close>

theorem update_keeps_covariance:
  assumes "inverse_ok invm" "0 < R" "covariance (kf_P k)"
    and "\<And>c x e e' m. h c x e = Some (e', Some m) \<Longrightarrow> solvable (kf_x k) (kf_P k) x m"
    and "update_iterated_dyn_share_modified invm maximum_iter limit h R (k, e) = Some (k', e')"
  shows "covariance (kf_P k')"
  by (rule update_loop_covariance [OF assms(1-4) assms(5) [unfolded update_iterated_dyn_share_modified_def prod.case] assms(3)])
section \<open>The end of the update\<close>

text \<open>A measurement that counts its calls.\<close>

definition counted ::
  "(bool \<Rightarrow> state_ikfom \<Rightarrow> 'e \<Rightarrow> ('e \<times> measurement option) option) \<Rightarrow> bool \<Rightarrow> state_ikfom \<Rightarrow> 'e \<times> nat
   \<Rightarrow> (('e \<times> nat) \<times> measurement option) option" where
  "counted h c x = (\<lambda>(e, n). map_option (\<lambda>(e', m). ((e', n + 1), m)) (h c x e))"

lemma update_loop_total:
  assumes step: "\<And>c x e. I c e \<Longrightarrow> \<exists>e' m. h c x e = Some (e', m) \<and> (\<forall>c'. I c' e')"
  shows "I c e \<Longrightarrow> \<exists>k' e' i'. update_loop invm R limit (counted h) x0 P0 n (x, P, c, t, (e, i)) = Some (k', (e', i')) \<and>
     i' \<le> i + n \<and> (n \<noteq> 0 \<longrightarrow> i < i')"
proof (induction n arbitrary: x P c t e i)
  case 0 then show ?case by simp
next
  case (Suc n)
  obtain e1 mo where h: "h c x e = Some (e1, mo)" "\<And>c'. I c' e1" using step [OF Suc.prems] by blast
  have cnt: "counted h c x (e, i) = Some ((e1, i + 1), mo)" using h(1) by (simp add: counted_def)
  show ?case
  proof (cases mo)
    case None
    obtain k' e' i' where "update_loop invm R limit (counted h) x0 P0 n (x, P, c, t, (e1, i + 1)) = Some (k', (e', i'))"
        "i' \<le> i + 1 + n" "n \<noteq> 0 \<longrightarrow> i + 1 < i'" using Suc.IH [OF h(2)] by blast
    moreover from this have "i < i'" using None by (cases n) auto
    ultimately show ?thesis using cnt None by simp
  next
    case (Some m)
    obtain x' P' d Kx where k: "kalman_step invm R x0 P0 x m = (x', P', d, Kx)" by (metis prod_cases4)
    let ?conv = "list_all (\<lambda>i. \<not> \<bar>d i\<bar> > limit i) [0..<23]"
    let ?t = "if ?conv then t + 1 else t" and ?c = "?conv \<or> (if ?conv then t + 1 else t) = 0 \<and> n = 1"
    let ?k = "\<lparr>kf_x = x', kf_P = final_cov (rot_block d 3) (rot_block d 6) (grav_block x' x0 d) P' Kx\<rparr>"
    have e: "update_loop invm R limit (counted h) x0 P0 (Suc n) (x, P, c, t, (e, i)) =
        (if ?t > 1 \<or> n = 0 then Some (?k, (e1, i + 1)) else update_loop invm R limit (counted h) x0 P0 n (x', P', ?c, ?t, (e1, i + 1)))"
      using cnt Some by (simp add: k Let_def)
    show ?thesis
    proof (cases "?t > 1 \<or> n = 0")
      case True then show ?thesis unfolding e by simp
    next
      case False
      obtain k' e' i' where "update_loop invm R limit (counted h) x0 P0 n (x', P', ?c, ?t, (e1, i + 1)) = Some (k', (e', i'))"
          "i' \<le> i + 1 + n" "n \<noteq> 0 \<longrightarrow> i + 1 < i'" using Suc.IH [OF h(2)] by blast
      then show ?thesis unfolding e using False by simp
    qed
  qed
qed

text \<open>
  C17. The update of a scan always ends: if there are at most 100000 points and the arrays have
  their number, the filter returns a state for every map, solver, inverse, limit and number of turns, it measures at
  least once and at most once more than the number of turns set, and reads no array out of bounds.
\<close>

theorem update_ends:
  assumes "length cs = length feats" "length feats \<le> kMaxFeats"
  shows "\<exists>kf' cs' t' c.
     update_iterated_dyn_share_modified invm maximum_iter limit (counted (h_share_model solve ext feats)) R (kf, ((cs, t), 0)) = Some (kf', ((cs', t'), c)) \<and>
     1 \<le> c \<and> c \<le> maximum_iter + 1"
proof -
  let ?I = "\<lambda>c e. length (fst e) = length feats \<and> (c \<or> (\<forall>s \<in> set (fst e). selected_surf s \<longrightarrow> NUM_MATCH_POINTS \<le> length (points_near s)))"
  have "\<exists>e' m. h_share_model solve ext feats c x e = Some (e', m) \<and> (\<forall>c'. ?I c' e')" if "?I c e" for c x e
  proof -
    obtain cs t where e: "e = (cs, t)" by fastforce
    then have l: "length cs = length feats" "c \<or> (\<forall>s \<in> set cs. selected_surf s \<longrightarrow> NUM_MATCH_POINTS \<le> length (points_near s))"
      using that by auto
    obtain cs' t' where "match_points solve c x feats cs t = Some (cs', t')" "length cs' = length feats"
        "\<forall>s \<in> set cs'. selected_surf s \<longrightarrow> NUM_MATCH_POINTS \<le> length (points_near s)"
      using match_points_total [OF l] by blast
    then show ?thesis using assms(2) by (auto simp: e h_share_model_def)
  qed
  note step = this
  define n where "n = maximum_iter + 1"
  have "?I True (cs, t)" using assms(1) by simp
  then have "\<exists>kf' e' c. update_loop invm R limit (counted (h_share_model solve ext feats)) (kf_x kf) (kf_P kf) n (kf_x kf, kf_P kf, True, 0, ((cs, t), 0)) =
      Some (kf', (e', c)) \<and> c \<le> 0 + n \<and> (n \<noteq> 0 \<longrightarrow> 0 < c)"
    by (rule update_loop_total [where I = ?I, rotated]) (rule step)
  then obtain kf' e' c where u: "update_loop invm R limit (counted (h_share_model solve ext feats)) (kf_x kf) (kf_P kf) n
      (kf_x kf, kf_P kf, True, 0, ((cs, t), 0)) = Some (kf', (e', c))" and c: "c \<le> n" "n \<noteq> 0 \<longrightarrow> 0 < c"
    by auto
  obtain cs' t' where "e' = (cs', t')" by fastforce
  then show ?thesis unfolding update_iterated_dyn_share_modified_def prod.case
    using u c unfolding n_def by (metis add_is_0 less_eq_Suc_le One_nat_def zero_neq_one)
qed

lemma update_ends_witness:
  "\<exists>kf' cs' t' c.
     update_iterated_dyn_share_modified some_inverse 3 (\<lambda>_. 1 / 1000) (counted (h_share_model (\<lambda>_. vec3 (- 1) 0 0) False [pt 1 2 3])) (1 / 1000)
       (\<lparr>kf_x = origin_state, kf_P = idm 23\<rparr>, (([empty_slot], big_demo), 0)) = Some (kf', ((cs', t'), c)) \<and>
     1 \<le> c \<and> c \<le> 3 + 1"
  by (rule update_ends) (simp_all add: kMaxFeats_def)

section \<open>A scan that fits\<close>

lemma h_of_zero: "(\<And>r. r \<in> set hs \<Longrightarrow> r = 0) \<Longrightarrow> h_of hs = (\<lambda>_. 0)"
  by (auto simp: h_of_def)

lemma kalman_step_still:
  assumes "rotation (st_rot x)" "rotation (offset_R_L_I x)" "\<And>r. r \<in> set (h_vec m) \<Longrightarrow> r = 0"
  shows "fst (kalman_step invm R x P0 x m) = x" "fst (snd (snd (kalman_step invm R x P0 x m))) = (\<lambda>_. 0)"
  using boxminus_self [OF assms(1,2)] h_of_zero [OF assms(3)]
  by (simp_all add: kalman_step_def Let_def project_vec_def gain_def gain_few_def gain_many_def boxplus_zero)

lemma update_loop_still:
  assumes r: "rotation (st_rot x)" "rotation (offset_R_L_I x)"
    and h: "\<And>c e e' m r. h c x e = Some (e', Some m) \<Longrightarrow> r \<in> set (h_vec m) \<Longrightarrow> r = 0"
  shows "update_loop invm R limit h x P0 n (x, P, c, t, e) = Some (k', e') \<Longrightarrow> kf_x k' = x"
proof (induction n arbitrary: P c t e)
  case 0 then show ?case by auto
next
  case (Suc n)
  show ?case
  proof (cases "h c x e")
    case None then show ?thesis using Suc.prems by simp
  next
    case (Some q)
    obtain e1 mo where q: "q = (e1, mo)" by fastforce
    show ?thesis
    proof (cases mo)
      case None then show ?thesis using Suc Some q by simp
    next
      case m: (Some m)
      obtain x' P' d Kx where k: "kalman_step invm R x P0 x m = (x', P', d, Kx)" by (metis prod_cases4)
      have "x' = x" using kalman_step_still(1) [OF r, of m invm R P0] h [of c e] Some q m k by auto
      then show ?thesis using Suc.prems Suc.IH Some q m by (auto simp: k Let_def split: if_splits)
    qed
  qed
qed

text \<open>
  C19. A scan that fits does not move the state: if all residuals at the predicted state are zero
  and its rotations are rotations, the update returns the predicted state, whatever the
  covariance, the gain, the limits and the number of turns.
\<close>

theorem fitting_scan_keeps_state:
  assumes "rotation (st_rot (kf_x k))" "rotation (offset_R_L_I (kf_x k))"
    and "\<And>c e e' m r. h c (kf_x k) e = Some (e', Some m) \<Longrightarrow> r \<in> set (h_vec m) \<Longrightarrow> r = 0"
    and "update_iterated_dyn_share_modified invm maximum_iter limit h R (k, e) = Some (k', e')"
  shows "kf_x k' = kf_x k"
  by (rule update_loop_still [OF assms(1-3) assms(4) [unfolded update_iterated_dyn_share_modified_def prod.case]])
lemma update_loop_returns:
  assumes h: "\<And>c x e. h c x e \<noteq> None"
  shows "\<exists>k' e'. update_loop invm R limit h x0 P0 n (x, P, c, t, e) = Some (k', e')"
proof (induction n arbitrary: x P c t e)
  case (Suc n)
  obtain e1 mo where "h c x e = Some (e1, mo)" using h [of c x e] by auto
  moreover obtain x' P' d Kx where "mo = Some m \<Longrightarrow> kalman_step invm R x0 P0 x m = (x', P', d, Kx)" for m
    by (cases mo; simp) (metis prod_cases4)
  ultimately show ?case using Suc by (cases mo) (auto simp: Let_def)
qed simp

text \<open>A measurement that always finds the same plane above the sensor.\<close>

definition ceiling_measurement :: "real \<Rightarrow> bool \<Rightarrow> state_ikfom \<Rightarrow> nat \<Rightarrow> (nat \<times> measurement option) option" where
  "ceiling_measurement r c x e =
     Some (e, Some \<lparr>h_x = [\<lparr>row_pos = vec3 0 0 1, row_rot = vzero, row_offset_R = vzero, row_offset_T = vzero\<rparr>], h_vec = [r], res_mean_last = \<bar>r\<bar>\<rparr>)"

lemma update_keeps_covariance_witness:
  "\<exists>k' e'. update_iterated_dyn_share_modified some_inverse 3 (\<lambda>_. 1 / 1000) (ceiling_measurement (1 / 10)) (1 / 1000)
     (\<lparr>kf_x = origin_state, kf_P = idm 23\<rparr>, 0) = Some (k', e') \<and> covariance (kf_P k')"
proof -
  obtain k' e' where u: "update_iterated_dyn_share_modified some_inverse 3 (\<lambda>_. 1 / 1000) (ceiling_measurement (1 / 10)) (1 / 1000)
     (\<lparr>kf_x = origin_state, kf_P = idm 23\<rparr>, 0) = Some (k', e')"
    unfolding update_iterated_dyn_share_modified_def prod.case using update_loop_returns [of "ceiling_measurement (1 / 10)"]
    by (metis ceiling_measurement_def option.discI)
  have "covariance (kf_P k')"
    by (rule update_keeps_covariance [OF some_inverse_ok _ _ _ u]) (auto simp: covariance_idm solvable_def ceiling_measurement_def)
  then show ?thesis using u by blast
qed

lemma fitting_scan_keeps_state_witness:
  "\<exists>k' e'. update_iterated_dyn_share_modified some_inverse 3 (\<lambda>_. 1 / 1000) (ceiling_measurement 0) (1 / 1000)
     (\<lparr>kf_x = origin_state, kf_P = idm 23\<rparr>, 0) = Some (k', e') \<and> kf_x k' = origin_state"
proof -
  obtain k' e' where u: "update_iterated_dyn_share_modified some_inverse 3 (\<lambda>_. 1 / 1000) (ceiling_measurement 0) (1 / 1000)
     (\<lparr>kf_x = origin_state, kf_P = idm 23\<rparr>, 0) = Some (k', e')"
    unfolding update_iterated_dyn_share_modified_def prod.case using update_loop_returns [of "ceiling_measurement 0"]
    by (metis ceiling_measurement_def option.discI)
  have "kf_x k' = origin_state"
    using fitting_scan_keeps_state [OF _ _ _ u] by (auto simp: origin_state_def rotation_eye ceiling_measurement_def)
  then show ?thesis using u by blast
qed


end
