(* ===== verification/Lio_Map_Props.thy ===== *)
theory Lio_Map_Props
  imports Lio_Map
begin

text \<open>
  What the mapping side guarantees of the local map, and how a round of the node's timer
  composes input, filter and map.
\<close>

section \<open>The local map\<close>

lemma acquire_keeps [simp]: "Root_Node (fst (acquire_removed_points k ps)) = Root_Node k"
  by (simp add: acquire_removed_points_def)

definition map_ok :: "local_map \<Rightarrow> bool" where
  "map_ok m \<longleftrightarrow> 0 \<le> DET_RANGE m \<and> DET_RANGE m \<le> 2 * cube_len m
     \<and> (Localmap_Initialized m \<longrightarrow> cube_box (cube_len m) (LocalMap_Points m))"

lemma fov_cases [consumes 2, case_names stay move]:
  assumes "lasermap_fov_segment ne pos (m, k) = (m', k')" "Localmap_Initialized m"
  obtains (stay) "LocalMap_Points m' = LocalMap_Points m" "k' = k" "cube_len m' = cube_len m" "DET_RANGE m' = DET_RANGE m"
      "Localmap_Initialized m'"
      "\<forall>i < 3. \<not> near_min (DET_RANGE m) (LocalMap_Points m) pos i \<and> \<not> near_max (DET_RANGE m) (LocalMap_Points m) pos i"
  | (move) new cub n where "move_map (DET_RANGE m) (mov_dist (cube_len m) (DET_RANGE m)) (LocalMap_Points m) pos = (new, cub)"
      "LocalMap_Points m' = new" "cube_len m' = cube_len m" "DET_RANGE m' = DET_RANGE m" "Localmap_Initialized m'" "cub_needrm m' = cub"
      "Delete_Point_Boxes ne (fst (acquire_removed_points k [])) cub = (k', n)"
proof (cases "need_move (DET_RANGE m) (LocalMap_Points m) pos")
  case False
  then have "\<forall>i < 3. \<not> near_min (DET_RANGE m) (LocalMap_Points m) pos i \<and> \<not> near_max (DET_RANGE m) (LocalMap_Points m) pos i"
    by (simp add: need_move_def list_ex_iff)
  then show thesis using assms stay False by (auto simp: lasermap_fov_segment_def Let_def)
next
  case True
  obtain new cub where mv: "move_map (DET_RANGE m) (mov_dist (cube_len m) (DET_RANGE m)) (LocalMap_Points m) pos = (new, cub)"
    by (metis prod.collapse)
  obtain k2 n where d: "Delete_Point_Boxes ne (fst (acquire_removed_points k [])) cub = (k2, n)" by (metis prod.collapse)
  have "k' = k2 \<and> LocalMap_Points m' = new \<and> cube_len m' = cube_len m \<and> DET_RANGE m' = DET_RANGE m
      \<and> Localmap_Initialized m' \<and> cub_needrm m' = cub"
    using assms True mv d by (auto simp: lasermap_fov_segment_def Let_def split: if_splits)
  then show thesis using move mv d by blast
qed

lemma fov_map_ok:
  assumes "lasermap_fov_segment ne pos (m, k) = (m', k')" "map_ok m"
  shows "map_ok m' \<and> Localmap_Initialized m'"
proof (cases "Localmap_Initialized m")
  case False
  then show ?thesis using assms
    by (auto simp: lasermap_fov_segment_def Let_def map_ok_def cube_box_def initial_map_def)
next
  case True
  show ?thesis using assms(1) True
  proof (cases rule: fov_cases)
    case stay
    then show ?thesis using assms(2) True by (simp add: map_ok_def)
  next
    case (move new cub n)
    then show ?thesis using assms(2) True move_map_cube [OF move(1)] by (simp add: map_ok_def)
  qed
qed

lemma local_map_exact_step:
  assumes "nth_element_ok ne" "kd_ok k" "map_ok m" "Localmap_Initialized m"
    and "lasermap_fov_segment ne pos (m, k) = (m', k')"
  shows "kd_ok k' \<and> map_ok m'
    \<and> points_of k' = filter_mset (\<lambda>p. in_box (LocalMap_Points m) p \<longrightarrow> in_box (LocalMap_Points m') p) (points_of k)"
  using assms(5,4)
proof (cases rule: fov_cases)
  case stay
  then show ?thesis using assms(2) fov_map_ok [OF assms(5,3)] by (simp add: filter_mset_all)
next
  case (move new cub n)
  have bounds: "0 \<le> mov_dist (cube_len m) (DET_RANGE m)" "mov_dist (cube_len m) (DET_RANGE m) \<le> cube_len m"
    using mov_dist_bounds assms(3) unfolding map_ok_def by blast+
  have cube: "cube_box (cube_len m) (LocalMap_Points m)" using assms(3,4) unfolding map_ok_def by blast
  note store = point_store.delete_difference [OF ikd_point_store [OF assms(1)] _ move(7) fov_slabs [OF move(1) bounds cube]]
  show ?thesis using store assms(2) move(2) fov_map_ok [OF assms(5,3)] by simp
qed

text \<open>
  C21. When the local map moves, the map loses exactly the stored points that were in the old
  cube and are not in the new one: nothing in the new cube is deleted, and nothing of the old
  cube is left outside it.
\<close>

theorem local_map_exact:
  assumes "nth_element_ok ne" "kd_ok k" "map_ok m" "Localmap_Initialized m"
    and "lasermap_fov_segment ne pos (m, k) = (m', k')"
  shows "kd_ok k' \<and> map_ok m'
    \<and> points_of k' = filter_mset (\<lambda>p. in_box (LocalMap_Points m) p \<longrightarrow> in_box (LocalMap_Points m') p) (points_of k)"
  by (rule local_map_exact_step [OF assms])

definition demo_map :: local_map where
  "demo_map =
     \<lparr>LocalMap_Points = \<lparr>vertex_min = pt 0 0 0, vertex_max = pt 100 100 100\<rparr>, Localmap_Initialized = True,
      cub_needrm = [], kdtree_delete_counter = 0, cube_len = 100, DET_RANGE = 2\<rparr>"

lemma demo_map_ok: "map_ok demo_map" "Localmap_Initialized demo_map"
  by (simp_all add: demo_map_def map_ok_def cube_box_def pt_def)

theorem local_map_exact_witness:
  "\<exists>m' k'. lasermap_fov_segment sort_nth (pt 99 50 50) (demo_map, demo) = (m', k')
     \<and> points_of k' = filter_mset (\<lambda>p. in_box (LocalMap_Points demo_map) p \<longrightarrow> in_box (LocalMap_Points m') p) (mset demo_points)"
proof -
  obtain m' k' where r: "lasermap_fov_segment sort_nth (pt 99 50 50) (demo_map, demo) = (m', k')" by (metis prod.collapse)
  show ?thesis using local_map_exact [OF sort_nth_ok demo_ok(1) demo_map_ok r] r demo_ok(2) by auto
qed

text \<open>One axis: the room left on both sides after a move.\<close>

lemma fov_axis_room:
  fixes lo hi x c d lo' hi' :: real
  assumes "hi - lo = c" "lo \<le> x" "x \<le> hi" "19 / 3 * d < c" "0 < d"
    and "lo' = lo + s" "hi' = hi + s"
    and "s = (if \<bar>x - lo\<bar> \<le> 3 / 2 * d then - (9 / 20 * (c - 3 * d)) else if \<bar>x - hi\<bar> \<le> 3 / 2 * d then 9 / 20 * (c - 3 * d) else 0)"
  shows "3 / 2 * d < x - lo' \<and> 3 / 2 * d < hi' - x"
proof -
  consider "x - lo \<le> 3 / 2 * d" "s = - (9 / 20 * (c - 3 * d))"
    | "x - lo > 3 / 2 * d" "hi - x \<le> 3 / 2 * d" "s = 9 / 20 * (c - 3 * d)"
    | "x - lo > 3 / 2 * d" "hi - x > 3 / 2 * d" "s = 0" using assms(2,3,8) by (auto split: if_splits)
  then show ?thesis
    by cases (use assms(1-7) in \<open>simp_all add: field_simps\<close>)
qed
text \<open>
  With a cube more than \<open>19/3\<close> times the detection range, one call is enough: after it the
  sensor, if it was in the cube, is farther than the threshold from every face of the new cube,
  so that a second call at the same place does nothing.
\<close>

theorem local_map_settles:
  assumes "lasermap_fov_segment ne pos (m, k) = (m', k')" "map_ok m" "Localmap_Initialized m"
    and "19 / 3 * DET_RANGE m < cube_len m" "0 < DET_RANGE m"
    and "\<forall>i < 3. vget i (vertex_min (LocalMap_Points m)) \<le> vget i pos \<and> vget i pos \<le> vget i (vertex_max (LocalMap_Points m))"
  shows "\<forall>i < 3. MOV_THRESHOLD * DET_RANGE m < vget i pos - vget i (vertex_min (LocalMap_Points m'))
    \<and> MOV_THRESHOLD * DET_RANGE m < vget i (vertex_max (LocalMap_Points m')) - vget i pos"
  using assms(1,3)
proof (cases rule: fov_cases)
  case stay
  then show ?thesis using assms(6) by (fastforce simp: near_min_def near_max_def)
next
  case (move new cub n)
  have mov: "mov_dist (cube_len m) (DET_RANGE m) = 9 / 20 * (cube_len m - 3 * DET_RANGE m)"
    using assms(4,5) by (simp add: mov_dist_def MOV_THRESHOLD_def max_def field_simps)
  show ?thesis
  proof (intro allI impI)
    fix i :: nat assume i: "i < 3"
    have cube: "vget i (vertex_max (LocalMap_Points m)) - vget i (vertex_min (LocalMap_Points m)) = cube_len m"
    proof -
      consider "i = 0" | "i = 1" | "i = 2" using i by linarith
      then show ?thesis using assms(2,3) by cases (simp_all add: map_ok_def cube_box_def axis_z)
    qed
    note A = move_map_axis [OF move(1) i, unfolded mov near_min_def near_max_def MOV_THRESHOLD_def]
    show "MOV_THRESHOLD * DET_RANGE m < vget i pos - vget i (vertex_min (LocalMap_Points m'))
      \<and> MOV_THRESHOLD * DET_RANGE m < vget i (vertex_max (LocalMap_Points m')) - vget i pos"
      unfolding move(2) MOV_THRESHOLD_def
      by (rule fov_axis_room [OF cube _ _ assms(4,5)]) (use A assms(6) i in auto)
  qed
qed

theorem local_map_settles_witness:
  "\<exists>m' k'. lasermap_fov_segment sort_nth (pt 99 50 50) (demo_map, demo) = (m', k')
     \<and> 3 < vget 0 (vertex_max (LocalMap_Points m')) - 99"
proof -
  obtain m' k' where r: "lasermap_fov_segment sort_nth (pt 99 50 50) (demo_map, demo) = (m', k')" by (metis prod.collapse)
  have "\<forall>i < 3. vget i (vertex_min (LocalMap_Points demo_map)) \<le> vget i (pt 99 50 50)
      \<and> vget i (pt 99 50 50) \<le> vget i (vertex_max (LocalMap_Points demo_map))"
    by (auto simp: demo_map_def pt_def numeral_3_eq_3 less_Suc_eq)
  from local_map_settles [OF r demo_map_ok _ _ this]
  have "\<forall>i < 3. 3 < vget i (vertex_max (LocalMap_Points m')) - vget i (pt 99 50 50)"
    by (auto simp: demo_map_def MOV_THRESHOLD_def)
  then have "3 < vget 0 (vertex_max (LocalMap_Points m')) - vget 0 (pt 99 50 50)" by (meson zero_less_numeral)
  then show ?thesis using r by (auto simp: pt_def)
qed

text \<open>
  With the shipped settings for the Avia (a cube of 1000 m and a detection range of 450 m)
  the thresholds of opposite faces overlap: for a sensor resting in the middle of the cube, the
  first call moves the cube by 225 m and the second moves it back, each deleting the points of
  three slabs, and so for ever.
\<close>

theorem avia_map_thrashes:
  "let m0 = \<lparr>LocalMap_Points = initial_map 1000 (pt 0 0 0), Localmap_Initialized = True, cub_needrm = [],
             kdtree_delete_counter = 0, cube_len = 1000, DET_RANGE = 450\<rparr>;
       (m1, k1) = lasermap_fov_segment ne (pt 0 0 0) (m0, k);
       (m2, k2) = lasermap_fov_segment ne (pt 0 0 0) (m1, k1)
   in LocalMap_Points m1 = \<lparr>vertex_min = pt (-725) (-725) (-725), vertex_max = pt 275 275 275\<rparr>
      \<and> length (cub_needrm m1) = 3 \<and> LocalMap_Points m2 = LocalMap_Points m0 \<and> length (cub_needrm m2) = 3"
proof -
  define m0 where "m0 = \<lparr>LocalMap_Points = initial_map 1000 (pt 0 0 0), Localmap_Initialized = True, cub_needrm = [],
    kdtree_delete_counter = 0, cube_len = 1000, DET_RANGE = (450 :: real)\<rparr>"
  define b1 where "b1 = \<lparr>vertex_min = pt (-725) (-725) (-725), vertex_max = pt 275 275 275\<rparr>"
  obtain m1 k1 where r1: "lasermap_fov_segment ne (pt 0 0 0) (m0, k) = (m1, k1)" by (metis prod.collapse)
  obtain m2 k2 where r2: "lasermap_fov_segment ne (pt 0 0 0) (m1, k1) = (m2, k2)" by (metis prod.collapse)
  have mv: "mov_dist 1000 450 = 225" by (simp add: mov_dist_def MOV_THRESHOLD_def)
  have near0: "near_min 450 (LocalMap_Points m0) (pt 0 0 0) 0" by (simp add: near_min_def m0_def initial_map_def pt_def MOV_THRESHOLD_def)
  have near1: "near_max 450 b1 (pt 0 0 0) 0" by (simp add: near_max_def b1_def pt_def MOV_THRESHOLD_def)
  have s1: "\<exists>c. move_map 450 225 (LocalMap_Points m0) (pt 0 0 0) = (b1, c) \<and> length c = 3"
    by (simp add: move_map_def fold_axes move_axis_def axis_z near_min_def near_max_def MOV_THRESHOLD_def m0_def initial_map_def
        pt_def b1_def)
  have s2: "\<exists>c. move_map 450 225 b1 (pt 0 0 0) = (LocalMap_Points m0, c) \<and> length c = 3"
    by (simp add: move_map_def fold_axes move_axis_def axis_z near_min_def near_max_def MOV_THRESHOLD_def m0_def initial_map_def
        pt_def b1_def)
  have i0: "Localmap_Initialized m0" by (simp add: m0_def)
  have e1: "LocalMap_Points m1 = b1 \<and> length (cub_needrm m1) = 3 \<and> cube_len m1 = 1000 \<and> DET_RANGE m1 = 450 \<and> Localmap_Initialized m1"
    using r1 i0
  proof (cases rule: fov_cases)
    case stay
    then show ?thesis using near0 by (auto simp: m0_def)
  qed (use s1 mv in \<open>auto simp: m0_def\<close>)
  from e1 have i1: "Localmap_Initialized m1" by blast
  have "LocalMap_Points m2 = LocalMap_Points m0 \<and> length (cub_needrm m2) = 3"
    using r2 i1
  proof (cases rule: fov_cases)
    case stay
    then show ?thesis using near1 e1 by auto
  qed (use s2 mv e1 in auto)
  then show ?thesis using e1 r1 r2 by (simp add: m0_def [symmetric] b1_def [symmetric] Let_def)
qed

section \<open>Inserting a scan\<close>

lemma points_with_mem:
  "i < length world \<Longrightarrow> need_add fs inited (near ! i) (world ! i) = c \<Longrightarrow> world ! i \<in> set (points_with c fs inited near world)"
  by (auto simp: points_with_def)

lemma need_add_skip:
  assumes "need_add fs inited near p = Skip"
  shows "\<exists>q \<in> set near. calc_dist q (voxel_mid_point fs p) < calc_dist p (voxel_mid_point fs p)"
proof -
  have "NUM_MATCH_POINTS \<le> length near"
    "list_ex (\<lambda>i. calc_dist (near ! i) (voxel_mid_point fs p) < calc_dist p (voxel_mid_point fs p)) [0..<NUM_MATCH_POINTS]"
    using assms unfolding need_add_def Let_def by (metis increment.distinct not_less)+
  then obtain i where "i < NUM_MATCH_POINTS" "NUM_MATCH_POINTS \<le> length near"
    "calc_dist (near ! i) (voxel_mid_point fs p) < calc_dist p (voxel_mid_point fs p)"
    by (auto simp: list_ex_iff)
  then show ?thesis by (meson less_le_trans nth_mem)
qed

text \<open>
  C22. Inserting a registered scan covers it: for every point of the scan, either its voxel
  holds a stored point afterwards, or one of the neighbours found for it is closer to the
  middle of that voxel than the point itself; the tree stays in a good state.
\<close>

theorem map_incremental_covers:
  assumes "nth_element_ok ne" "kd_ok k" "downsample_size (kd_st k) = fs" "0 < fs"
    and "map_incremental ne s fs inited near body k = Some k'" "i < length body" "p = body_to_world s (pxyz (body ! i))"
  shows "kd_ok k' \<and> ((\<exists>q \<in># points_of k'. in_box (voxel_box fs p) q)
    \<or> (\<exists>q \<in> set (near ! i). calc_dist q (voxel_mid_point fs p) < calc_dist p (voxel_mid_point fs p)))"
proof -
  define world where "world = map (\<lambda>p. body_to_world s (pxyz p)) body"
  have p: "p = world ! i" "i < length world" using assms(6,7) by (simp_all add: world_def)
  obtain k1 n m where r: "Add_Points ne k (points_with With_Downsample fs inited near world) True = Some (k1, n)"
    "Add_Points ne k1 (points_with No_Downsample fs inited near world) False = Some (k', m)"
    using assms(5) by (auto simp: map_incremental_def world_def [symmetric] Let_def split: option.splits if_splits)
  have pos: "0 < downsample_size (kd_st k)" using assms(3,4) by simp
  note B = point_store.add_both [OF ikd_point_store [OF assms(1)] assms(2) pos r, unfolded assms(3)]
  show ?thesis
  proof (cases "need_add fs inited (near ! i) p")
    case Skip
    then show ?thesis using need_add_skip B by blast
  next
    case With_Downsample
    then show ?thesis using B points_with_mem [OF p(2)] p(1) by blast
  next
    case No_Downsample
    then have "p \<in># points_of k'" using B points_with_mem [OF p(2)] p(1) by blast
    then show ?thesis using B voxel_box_in [OF assms(4)] by blast
  qed
qed

definition unit_mat :: mat3 where
  "unit_mat = \<lparr>mrow0 = pt 1 0 0, mrow1 = pt 0 1 0, mrow2 = pt 0 0 1\<rparr>"

definition demo_pose :: state_ikfom where
  "demo_pose =
     \<lparr>st_pos = pt 0 0 0, st_rot = unit_mat, offset_R_L_I = unit_mat, offset_T_L_I = pt 0 0 0,
      st_vel = pt 0 0 0, st_bg = pt 0 0 0, st_ba = pt 0 0 0, st_grav = pt 0 0 0\<rparr>"

definition demo_body :: scan where
  "demo_body = [\<lparr>pxyz = pt 7 7 7, pt_intensity = 0, curvature = 0\<rparr>]"

lemma demo_increment: "map_incremental sort_nth demo_pose (1 / 2) True [[]] demo_body demo \<noteq> None"
  by code_simp

theorem map_incremental_covers_witness:
  "\<exists>k'. map_incremental sort_nth demo_pose (1 / 2) True [[]] demo_body demo = Some k'
     \<and> (\<exists>q \<in># points_of k'. in_box (voxel_box (1 / 2) (pt 7 7 7)) q)"
proof -
  obtain k' where r: "map_incremental sort_nth demo_pose (1 / 2) True [[]] demo_body demo = Some k'"
    using demo_increment by blast
  have ds: "downsample_size (kd_st demo) = 1 / 2" by (simp add: init_state_def)
  have w: "pt 7 7 7 = body_to_world demo_pose (pxyz (demo_body ! 0))"
    by (simp add: demo_body_def demo_pose_def body_to_world_def mvec_def vdot_def vadd_def unit_mat_def pt_def)
  have len: "0 < length demo_body" by (simp add: demo_body_def)
  have half: "0 < (1 / 2 :: real)" by simp
  show ?thesis using map_incremental_covers [OF sort_nth_ok demo_ok(1) ds half r len w] r by auto
qed

section \<open>A round of the timer\<close>

text \<open>The parameters of the tree survive the operations of a round.\<close>

lemma Delete_Point_Boxes_cell:
  "Delete_Point_Boxes ne k bs = (k', n) \<Longrightarrow> downsample_size (kd_st k') = downsample_size (kd_st k)"
proof (induction bs arbitrary: k k' n)
  case (Cons b bs)
  let ?busy = "root_rebuilding k"
  obtain t s m where d: "Delete_by_range ne (kd_st k) [] (Root_Node k) b (\<not> ?busy) False = (t, s, m)"
    by (metis prod_cases3)
  have "st_ext (kd_st k) (log_if ?busy (Log_Delete_Box b) s)"
    by (rule st_ext_logI [OF st_ext_Delete_by_range [OF d]])
  then show ?case using Cons by (auto simp: d Let_def st_ext_def split: prod.splits)
qed simp

lemma fov_cell:
  assumes "lasermap_fov_segment ne pos (m, k) = (m', k')"
  shows "downsample_size (kd_st k') = downsample_size (kd_st k)"
  using assms Delete_Point_Boxes_cell [of ne "fst (acquire_removed_points k [])"]
  by (auto simp: lasermap_fov_segment_def Let_def acquire_removed_points_def split: if_splits prod.splits)

lemma add_plain_cell: "add_plain ne k p = Some (k', n) \<Longrightarrow> downsample_size (kd_st k') = downsample_size (kd_st k)"
  by (auto simp: add_plain_def add_root_def Let_def log_if_def st_ext_def split: option.splits prod.splits if_splits
      dest!: st_ext_Add_by_point)

lemma Add_Points_cell: "Add_Points ne k ps b = Some (k', n) \<Longrightarrow> downsample_size (kd_st k') = downsample_size (kd_st k)"
proof -
  have "add_all (add_plain ne) k ps = Some (k', n) \<Longrightarrow> downsample_size (kd_st k') = downsample_size (kd_st k)" for n
  proof (induction ps arbitrary: k n)
    case (Cons p ps)
    then show ?case using add_plain_cell by (fastforce split: option.splits)
  qed simp
  then show "Add_Points ne k ps b = Some (k', n) \<Longrightarrow> ?thesis"
    using add_all_down_cell by (auto simp: Add_Points_def split: option.splits if_splits)
qed

lemma delete_tree_nodes_cell:
  "delete_tree_nodes st p t = (t', st') \<Longrightarrow> downsample_size st' = downsample_size st"
  using st_ext_delete_tree_nodes by (simp add: st_ext_def)

lemma Build_cell: "downsample_size (kd_st (Build ne k ps)) = downsample_size (kd_st k)"
  by (auto simp: Build_def Let_def delete_tree_nodes_cell split: prod.splits if_splits)

text \<open>Insertion stores nothing but the given points.\<close>

lemma downsample_points_mem: "q \<in># downsample_points ds p ps \<Longrightarrow> q = p \<or> q \<in> set ps"
  using closest_spec [of "calc_dist p (voxel_mid (voxel_box ds p))" p "voxel_mid (voxel_box ds p)" "filter (in_box (voxel_box ds p)) ps"]
  by (auto simp: downsample_points_def Let_def split: if_splits)

lemma add_all_down_mem:
  assumes "nth_element_ok ne"
  shows "kd_ok k \<Longrightarrow> add_all (add_downsampled ne) k ps = Some (k', n) \<Longrightarrow> q \<in># points_of k' \<Longrightarrow> q \<in> set ps \<or> q \<in># points_of k"
proof (induction ps arbitrary: k n)
  case (Cons p ps)
  obtain k1 m1 m2 where r: "add_downsampled ne k p = Some (k1, m1)" "add_all (add_downsampled ne) k1 ps = Some (k', m2)"
    using Cons.prems(2) by (auto split: option.splits)
  note A = add_downsampled_spec [OF assms Cons.prems(1) r(1)]
  show ?case using Cons.IH [OF A(1) r(2) Cons.prems(3)] A(2) downsample_points_mem [of q _ p "live (Root_Node k)"] by auto
qed auto

lemma Add_Points_mem:
  assumes "nth_element_ok ne" "kd_ok k" "Add_Points ne k ps b = Some (k', n)" "q \<in># points_of k'"
  shows "q \<in> set ps \<or> q \<in># points_of k"
proof (cases b)
  case True
  then show ?thesis using add_all_down_mem [OF assms(1,2) _ assms(4)] assms(3)
    by (auto simp: Add_Points_def DOWNSAMPLE_SWITCH_def split: option.splits)
next
  case False
  then show ?thesis using Add_Points_plain [OF assms(1,2)] assms(3,4) by auto
qed

lemma map_incremental_keeps:
  assumes "nth_element_ok ne" "kd_ok k" "0 < downsample_size (kd_st k)" "map_incremental ne s fs inited near body k = Some k'"
  shows "kd_ok k'" "downsample_size (kd_st k') = downsample_size (kd_st k)"
    "q \<in># points_of k' \<Longrightarrow> q \<in># points_of k \<or> q \<in> (\<lambda>p. body_to_world s (pxyz p)) ` set body"
proof -
  define world where "world = map (\<lambda>p. body_to_world s (pxyz p)) body"
  obtain k1 n m where r: "Add_Points ne k (points_with With_Downsample fs inited near world) True = Some (k1, n)"
    "Add_Points ne k1 (points_with No_Downsample fs inited near world) False = Some (k', m)"
    using assms(4) by (auto simp: map_incremental_def world_def [symmetric] Let_def split: option.splits if_splits)
  have ok1: "kd_ok k1" using Add_Points_down [OF assms(1-3) r(1)] by blast
  show "kd_ok k'" using Add_Points_plain [OF assms(1) ok1 r(2)] by blast
  show "downsample_size (kd_st k') = downsample_size (kd_st k)" using Add_Points_cell r by metis
  have sub: "set (points_with c fs inited near world) \<subseteq> (\<lambda>p. body_to_world s (pxyz p)) ` set body" for c
    by (auto simp: points_with_def world_def)
  show "q \<in># points_of k \<or> q \<in> (\<lambda>p. body_to_world s (pxyz p)) ` set body" if "q \<in># points_of k'"
    using Add_Points_mem [OF assms(1) ok1 r(2) that] Add_Points_mem [OF assms(1,2) r(1), of q] sub by blast
qed

text \<open>What the update of the filter may do to the map: it only searches it.\<close>

definition searches_only :: "('kf \<Rightarrow> scan \<Rightarrow> KD_TREE \<Rightarrow> ('kf \<times> point3 list list \<times> KD_TREE) option) \<Rightarrow> bool" where
  "searches_only update \<longleftrightarrow> (\<forall>kf body k kf' near k'. kd_ok k \<longrightarrow> update kf body k = Some (kf', near, k') \<longrightarrow>
     kd_ok k' \<and> points_of k' = points_of k \<and> downsample_size (kd_st k') = downsample_size (kd_st k))"

definition node_ok :: "'kf lio_node \<Rightarrow> bool" where
  "node_ok n \<longleftrightarrow> kd_ok (ikdtree n) \<and> map_ok (node_map n) \<and> 0 < filter_size_map_min n
     \<and> 0 < downsample_size (kd_st (ikdtree n))"

lemma fov_keeps:
  assumes "nth_element_ok ne" "kd_ok k" "map_ok m" "lasermap_fov_segment ne pos (m, k) = (m', k')"
  shows "kd_ok k' \<and> map_ok m' \<and> (\<forall>q. q \<in># points_of k' \<longrightarrow> q \<in># points_of k)"
proof (cases "Localmap_Initialized m")
  case True
  obtain "kd_ok k'" "map_ok m'"
    "points_of k' = filter_mset (\<lambda>p. in_box (LocalMap_Points m) p \<longrightarrow> in_box (LocalMap_Points m') p) (points_of k)"
    using local_map_exact_step [OF assms(1-3) True assms(4)] by blast
  then show ?thesis by simp
next
  case False
  then show ?thesis using assms fov_map_ok [OF assms(4,3)] by (auto simp: lasermap_fov_segment_def Let_def)
qed

text \<open>
  A whole round of the timer keeps the node in a good state, whatever the inertial and scan
  filters compute, and invents no map: every point stored after the round was stored before it
  or is a point of the filtered scan, registered with the state the round ends with.
\<close>

theorem timer_round_keeps:
  assumes "nth_element_ok ne" "searches_only update" "node_ok n"
    and "timer_callback ne imu_process get_x voxel_filter update n = Some n'"
  shows "node_ok n' \<and> (\<forall>q. q \<in># points_of (ikdtree n') \<longrightarrow> q \<in># points_of (ikdtree n)
    \<or> q \<in> (\<lambda>p. body_to_world (get_x (node_kf n')) (pxyz p)) ` set (voxel_filter (feats_undistort n')))"
proof -
  have k: "kd_ok (ikdtree n)" "map_ok (node_map n)" "0 < filter_size_map_min n" "0 < downsample_size (kd_st (ikdtree n))"
    using assms(3) by (simp_all add: node_ok_def)
  obtain inp ready where inp: "sync_packages (node_input n) = Some (inp, ready)"
    using assms(4) by (auto simp: timer_callback_def split: option.splits)
  obtain kf1 undist where imu: "imu_process (Measures inp) (node_kf n) (feats_undistort n) = (kf1, undist)" by (metis prod.collapse)
  obtain m1 k1 where fov: "lasermap_fov_segment ne (lidar_position (get_x kf1)) (node_map n, ikdtree n) = (m1, k1)"
    by (metis prod.collapse)
  note F = fov_keeps [OF assms(1) k(1,2) fov] and C = fov_cell [OF fov]
  have U: "kd_ok k2" "points_of k2 = points_of k1" "downsample_size (kd_st k2) = downsample_size (kd_st k1)"
    if "update kf1 (voxel_filter undist) k1 = Some (kf2, near, k2)" for kf2 near k2
    using assms(2) F that unfolding searches_only_def by metis+
  consider (unchanged) "ikdtree n' = ikdtree n" "node_map n' = node_map n" "filter_size_map_min n' = filter_size_map_min n"
    | (moved) "ikdtree n' = k1" "node_map n' = m1" "filter_size_map_min n' = filter_size_map_min n"
    | (built) "ikdtree n' = Build ne (set_downsample_param (filter_size_map_min n) k1)
          (map (\<lambda>p. body_to_world (get_x kf1) (pxyz p)) (voxel_filter undist))"
        "node_map n' = m1" "filter_size_map_min n' = filter_size_map_min n" "node_kf n' = kf1" "feats_undistort n' = undist"
    | (added) inited kf2 near k2 where "update kf1 (voxel_filter undist) k1 = Some (kf2, near, k2)"
        "map_incremental ne (get_x kf2) (filter_size_map_min n) inited near (voxel_filter undist) k2 = Some (ikdtree n')"
        "node_map n' = m1" "filter_size_map_min n' = filter_size_map_min n" "node_kf n' = kf2" "feats_undistort n' = undist"
    using assms(4) by (auto simp: timer_callback_def inp imu fov Let_def split: if_splits option.splits)
  then show ?thesis
  proof cases
    case unchanged
    then show ?thesis using k by (simp add: node_ok_def)
  next
    case moved
    then show ?thesis using k F C by (simp add: node_ok_def)
  next
    case built
    then show ?thesis using k F C Build_spec [OF assms(1)] by (auto simp: node_ok_def Build_cell set_downsample_param_def)
  next
    case (added inited kf2 near k2)
    note U = U [OF added(1)]
    have pos: "0 < downsample_size (kd_st k2)" using k(4) C U(3) by simp
    note M = map_incremental_keeps [OF assms(1) U(1) pos added(2)]
    show ?thesis using M F C U k added by (auto simp: node_ok_def)
  qed
qed

definition demo_node :: "state_ikfom lio_node" where
  "demo_node =
     \<lparr>node_input = demo_ready, node_kf = demo_pose, node_map = demo_map\<lparr>Localmap_Initialized := False\<rparr>, ikdtree = new_KD_TREE (1 / 2) (7 / 10) (1 / 2),
      flg_first_scan = False, first_lidar_time = 0, flg_EKF_inited = False, feats_undistort = [], filter_size_map_min = 1 / 2\<rparr>"

definition demo_imu_process :: "MeasureGroup \<Rightarrow> state_ikfom \<Rightarrow> scan \<Rightarrow> state_ikfom \<times> scan" where
  "demo_imu_process m s sc = (s, replicate 6 \<lparr>pxyz = pt 7 7 7, pt_intensity = 0, curvature = 0\<rparr>)"

definition demo_update :: "state_ikfom \<Rightarrow> scan \<Rightarrow> KD_TREE \<Rightarrow> (state_ikfom \<times> point3 list list \<times> KD_TREE) option" where
  "demo_update s sc k = Some (s, map (\<lambda>_. []) sc, k)"

theorem timer_round_keeps_witness:
  "\<exists>n'. timer_callback sort_nth demo_imu_process id id demo_update demo_node = Some n' \<and> node_ok n'"
proof -
  have so: "searches_only demo_update" by (simp add: searches_only_def demo_update_def)
  have ok: "node_ok demo_node" using demo_map_ok(1)
    by (simp add: node_ok_def demo_node_def new_KD_TREE_def init_state_def map_ok_def)
  have "\<exists>inp. sync_packages demo_ready = Some (inp, True)"
    by (auto simp: demo_ready_def init_input_def sync_packages_def push_scan_def scan_a_def demo_pt_def demo_imu_def Let_def)
  then obtain n' where r: "timer_callback sort_nth demo_imu_process id id demo_update demo_node = Some n'"
    by (cases "timer_callback sort_nth demo_imu_process id id demo_update demo_node")
      (auto simp: timer_callback_def demo_node_def demo_imu_process_def Let_def new_KD_TREE_def lasermap_fov_segment_def
        acquire_removed_points_def split: prod.splits if_splits)
  show ?thesis using timer_round_keeps [OF sort_nth_ok so ok r] r by blast
qed

end
