(* ===== verification/Lio_Mapping.thy ===== *)
theory Lio_Mapping
  imports Lio_Kalman_Props Lio_Map_Props
begin

text \<open>
  The mapping node with its filter: the timer round of the node, the update of the iterated filter
  with the matching against the map, and the map itself, put together as the code does.
\<close>

section \<open>Searching leaves the map as it is\<close>

text \<open>
  A search pushes deletions down and nothing else.  Other than its result, which needs distances
  that the comparison of candidates can tell apart, this holds for every map.
\<close>

definition same_tree :: "kd_tree \<Rightarrow> kd_tree \<Rightarrow> bool" where
  "same_tree t t' \<longleftrightarrow> kd_inv t' \<and> live t' = live t \<and> tree_count t' = tree_count t"

lemma same_tree_refl: "kd_inv t \<Longrightarrow> same_tree t t"
  by (simp add: same_tree_def)

lemma same_tree_node:
  assumes "kd_inv (Node l a r)" "Push_Down st p l a r = (l1, a1, r1, st1)" "same_tree l1 l2" "same_tree r1 r2"
  shows "same_tree (Node l a r) (Node l2 a1 r2)"
proof -
  note P = Push_Down_spec [OF assms(1,2)]
  have s: "kd_inv l2" "kd_inv r2" "live l2 = live l1" "live r2 = live r1" "tree_count l2 = tree_count l1" "tree_count r2 = tree_count r1"
    using assms(3,4) by (auto simp: same_tree_def)
  note rep = node_replace [OF P(1,2) s]
  have "tree_count (Node l2 a1 r2) = tree_count (Node l a r)" using s P(5,6) by simp
  then show ?thesis using rep P(4) unfolding same_tree_def by (simp del: live.simps kd_inv.simps tree_count.simps)
qed

lemma Search_same_tree:
  "kd_inv t \<Longrightarrow> Search st p t k w q md = (t', st', q') \<Longrightarrow> same_tree t t' \<and> st_ext st st'"
proof (induction t arbitrary: st p q t' st' q' rule: shape_induct)
  case Null then show ?case by (simp add: same_tree_def)
next
  case (Node l a r)
  show ?case
  proof (cases "tree_deleted a \<or> calc_box_dist (Node l a r) w > esquare md")
    case True
    then have "Search st p (Node l a r) k w q md = (Node l a r, st, q)" by auto
    then show ?thesis using Node.prems same_tree_refl [OF Node.prems(1)] by simp
  next
    case False
    obtain l1 a1 r1 st1 where push: "Push_Down st p l a r = (l1, a1, r1, st1)" by (metis prod_cases4)
    note P = Push_Down_spec [OF Node.prems(1) push] and node = same_tree_node [OF Node.prems(1) push]
    have inv: "kd_inv l1" "kd_inv r1" using P(1) by auto
    have pd: "(if need_push_down_to_left a \<or> need_push_down_to_right a then Push_Down st p l a r else (l, a, r, st)) = (l1, a1, r1, st1)"
      using Push_Down_idle [of a st p l r] push by auto
    have left: "same_tree l1 l2 \<and> st_ext s s'" if "Search s (p @ [LeftSon]) l1 k w h md = (l2, s', h')" for s h l2 s' h'
      by (rule Node.IH(1) [OF P(5) inv(1) that])
    have right: "same_tree r1 r2 \<and> st_ext s s'" if "Search s (p @ [RightSon]) r1 k w h md = (r2, s', h')" for s h r2 s' h'
      by (rule Node.IH(2) [OF P(6) inv(2) that])
    have "\<exists>l2 r2 s2. (t', st') = (Node l2 a1 r2, s2) \<and> same_tree l1 l2 \<and> same_tree r1 r2 \<and> st_ext st1 s2"
      using Node.prems(2) False same_tree_refl [OF inv(1)] same_tree_refl [OF inv(2)]
      by (auto simp: pd Let_def simp del: calc_box_dist.simps dest!: left right intro: st_ext_trans split: prod.splits if_split_asm)
    then show ?thesis using node st_ext_Push_Down [OF push] by (auto intro: st_ext_trans)
  qed
qed

text \<open>The map that is left: a proper tree with the same points and the same voxel size.\<close>

definition same_map :: "KD_TREE \<Rightarrow> KD_TREE \<Rightarrow> bool" where
  "same_map k k' \<longleftrightarrow> kd_ok k' \<and> points_of k' = points_of k \<and> downsample_size (kd_st k') = downsample_size (kd_st k)"

lemma same_map_trans: "same_map k k1 \<Longrightarrow> same_map k1 k2 \<Longrightarrow> same_map k k2"
  by (simp add: same_map_def)

lemma nearest_same_map: "kd_ok k \<Longrightarrow> kd_Nearest_Search k w m md = (k', near, ds) \<Longrightarrow> same_map k k'"
  using Search_same_tree [of "Root_Node k" "kd_st k" "[]"]
  by (auto simp: kd_Nearest_Search_def Nearest_Search_def same_tree_def same_map_def st_ext_def Let_def split: prod.splits)

section \<open>The update of a scan\<close>

definition LASER_POINT_COV :: real where "LASER_POINT_COV = 1 / 1000"

text \<open>
  The arrays of the matching outlive a scan.  Only the elements of the points of the scan are read,
  and the first measurement of an update sets them, so the others are not kept.
\<close>

definition fresh_slot :: slot where
  "fresh_slot = \<lparr>points_near = [], selected_surf = True, norm_xyz = vzero, norm_dist = 0, res_last = 0\<rparr>"

definition resize_slots :: "nat \<Rightarrow> slot list \<Rightarrow> slot list" where
  "resize_slots n cs = take n cs @ replicate (n - length cs) fresh_slot"

definition scan_update ::
  "(nat \<Rightarrow> mat \<Rightarrow> mat) \<Rightarrow> (point3 list \<Rightarrow> point3) \<Rightarrow> bool \<Rightarrow> nat \<Rightarrow> esekf \<times> slot list \<Rightarrow> scan \<Rightarrow> KD_TREE
   \<Rightarrow> ((esekf \<times> slot list) \<times> point3 list list \<times> KD_TREE) option" where
  "scan_update invm solve extrinsic_est_en iterations =
     (\<lambda>(kf, cs) body k.
        map_option (\<lambda>(kf', (cs', k')). ((kf', cs'), map points_near cs', k'))
          (update_iterated_dyn_share_modified invm iterations (\<lambda>_. 1 / 1000) (h_share_model solve extrinsic_est_en (map pxyz body))
             LASER_POINT_COV (kf, (resize_slots (length body) cs, k))))"

definition mapping_round ::
  "nth_fun \<Rightarrow> (MeasureGroup \<Rightarrow> esekf \<times> slot list \<Rightarrow> scan \<Rightarrow> (esekf \<times> slot list) \<times> scan) \<Rightarrow> (scan \<Rightarrow> scan)
   \<Rightarrow> (nat \<Rightarrow> mat \<Rightarrow> mat) \<Rightarrow> (point3 list \<Rightarrow> point3) \<Rightarrow> bool \<Rightarrow> nat \<Rightarrow> (esekf \<times> slot list) lio_node \<Rightarrow> (esekf \<times> slot list) lio_node option" where
  "mapping_round ne imu_process voxel_filter invm solve extrinsic_est_en iterations =
     timer_callback ne imu_process (\<lambda>(kf, cs). kf_x kf) voxel_filter (scan_update invm solve extrinsic_est_en iterations)"

lemma search_near_same_map: "kd_ok k \<Longrightarrow> search_near converge w c k = (c', k') \<Longrightarrow> same_map k k'"
  using nearest_same_map [of k w NUM_MATCH_POINTS Inf]
  by (auto simp: search_near_def same_map_def split: if_splits prod.splits)

lemma match_points_same_map:
  "kd_ok k \<Longrightarrow> match_points solve converge s ps cs k = Some (cs', k') \<Longrightarrow> same_map k k'"
proof (induction ps arbitrary: cs cs' k)
  case Nil then show ?case by (auto simp: same_map_def)
next
  case (Cons p ps)
  obtain c rest where cs: "cs = c # rest" using Cons.prems(2) by (cases cs) auto
  obtain c1 k1 rest' where r: "match_point solve converge s p c k = Some (c1, k1)" "match_points solve converge s ps rest k1 = Some (rest', k')"
    using Cons.prems(2) unfolding cs by (auto simp: bind_eq_Some_conv split: prod.splits)
  obtain c2 where "search_near converge (body_to_world s p) c k = (c2, k1)" using r(1) by (auto simp: match_point_def Let_def split: prod.splits)
  then have one: "same_map k k1" by (rule search_near_same_map [OF Cons.prems(1)])
  then show ?case using Cons.IH [OF _ r(2)] same_map_trans by (auto simp: same_map_def)
qed

lemma update_loop_invariant:
  assumes step: "\<And>c x e e' m. J e \<Longrightarrow> h c x e = Some (e', m) \<Longrightarrow> J e'"
  shows "update_loop invm R limit h x0 P0 n (x, P, c, t, e) = Some (k', e') \<Longrightarrow> J e \<Longrightarrow> J e'"
proof (induction n arbitrary: x P c t e)
  case 0 then show ?case by auto
next
  case (Suc n)
  then show ?case using step [OF Suc.prems(2), of c x]
    by (fastforce simp: Let_def split: option.splits prod.splits if_splits)
qed

lemma scan_update_searches: "searches_only (scan_update invm solve ext iterations)"
  unfolding searches_only_def
proof (intro allI impI)
  fix kc body k kf' near k' assume k: "kd_ok k" and u: "scan_update invm solve ext iterations kc body k = Some (kf', near, k')"
  obtain kf cs where kc: "kc = (kf, cs)" by fastforce
  define h where "h = h_share_model solve ext (map pxyz body)"
  obtain kf1 cs' where "update_loop invm LASER_POINT_COV (\<lambda>_. 1 / 1000) h (kf_x kf) (kf_P kf) (iterations + 1)
      (kf_x kf, kf_P kf, True, 0, (resize_slots (length body) cs, k)) = Some (kf1, (cs', k'))"
    using u by (auto simp: scan_update_def kc update_iterated_dyn_share_modified_def h_def simp del: update_loop.simps)
  then have "same_map k (snd (cs', k'))"
  proof (rule update_loop_invariant [where J = "\<lambda>e. same_map k (snd e)", rotated])
    fix c x e e' m assume e: "same_map k (snd e)" "h c x e = Some (e', m)"
    then have "match_points solve c x (map pxyz body) (fst e) (snd e) = Some e'" by (cases e; cases e') (auto simp: h_def h_share_model_def split: if_splits)
    then show "same_map k (snd e')" using e(1) match_points_same_map same_map_trans by (cases e') (fastforce simp: same_map_def)
  qed (simp add: same_map_def k)
  then show "kd_ok k' \<and> points_of k' = points_of k \<and> downsample_size (kd_st k') = downsample_size (kd_st k)" by (simp add: same_map_def)
qed

text \<open>
  C11. A whole round of the mapping, with the iterated filter in it, keeps the map a proper tree and the local map in
  order, and invents no points: every point stored after the round was stored before it or is a point of the filtered
  scan, placed with the state the filter ends with.
\<close>

theorem mapping_round_keeps:
  assumes "nth_element_ok ne" "node_ok n"
    and "mapping_round ne imu_process voxel_filter invm solve extrinsic_est_en iterations n = Some n'"
  shows "node_ok n' \<and> (\<forall>q. q \<in># points_of (ikdtree n') \<longrightarrow> q \<in># points_of (ikdtree n)
    \<or> q \<in> (\<lambda>p. body_to_world (kf_x (fst (node_kf n'))) (pxyz p)) ` set (voxel_filter (feats_undistort n')))"
  using timer_round_keeps [OF assms(1) scan_update_searches assms(2) assms(3) [unfolded mapping_round_def]]
  by (simp add: case_prod_unfold)

text \<open>Example: a first scan of six points, which becomes the map.\<close>

definition round_node :: "(esekf \<times> slot list) lio_node" where
  "round_node =
     \<lparr>node_input = demo_ready, node_kf = (\<lparr>kf_x = origin_state, kf_P = idm 23\<rparr>, []), node_map = demo_map\<lparr>Localmap_Initialized := False\<rparr>,
      ikdtree = new_KD_TREE (1 / 2) (7 / 10) (1 / 2), flg_first_scan = False, first_lidar_time = 0, flg_EKF_inited = False,
      feats_undistort = [], filter_size_map_min = 1 / 2\<rparr>"

definition round_imu :: "MeasureGroup \<Rightarrow> esekf \<times> slot list \<Rightarrow> scan \<Rightarrow> (esekf \<times> slot list) \<times> scan" where
  "round_imu m kc sc = (kc, replicate 6 \<lparr>pxyz = pt 7 7 7, pt_intensity = 0, curvature = 0\<rparr>)"

lemma mapping_round_keeps_witness:
  "\<exists>n'. mapping_round sort_nth round_imu (\<lambda>sc. sc) some_inverse (\<lambda>_. vec3 (- 1) 0 0) False 3 round_node = Some n' \<and> node_ok n'"
proof -
  have ok: "node_ok round_node" using demo_map_ok(1)
    by (simp add: node_ok_def round_node_def new_KD_TREE_def init_state_def map_ok_def)
  have "\<exists>inp. sync_packages demo_ready = Some (inp, True)"
    by (auto simp: demo_ready_def init_input_def sync_packages_def push_scan_def scan_a_def demo_pt_def demo_imu_def Let_def)
  then obtain n' where r: "mapping_round sort_nth round_imu (\<lambda>sc. sc) some_inverse (\<lambda>_. vec3 (- 1) 0 0) False 3 round_node = Some n'"
    by (cases "mapping_round sort_nth round_imu (\<lambda>sc. sc) some_inverse (\<lambda>_. vec3 (- 1) 0 0) False 3 round_node")
      (auto simp: mapping_round_def timer_callback_def round_node_def round_imu_def Let_def new_KD_TREE_def lasermap_fov_segment_def
        acquire_removed_points_def split: prod.splits if_splits)
  show ?thesis using mapping_round_keeps [OF sort_nth_ok ok r] r by blast
qed

end
