(* ===== verification/Lio_Imu.thy ===== *)
theory Lio_Imu
  imports Lio_Geometry
begin

text \<open>
  The IMU side of FAST-LIO (IMU\_Processing.hpp): the initialisation of gravity and biases from a
  resting sensor, the forward propagation over the IMU samples of a scan and the compensation of
  the motion during the scan for every point.  The covariances of the filter are not modelled.
\<close>

section \<open>State\<close>

definition G_m_s2 :: real where "G_m_s2 = 981 / 100"
definition MAX_INI_COUNT :: nat where "MAX_INI_COUNT = 10"

record Pose6D =
  offset_time :: real
  pose_acc :: point3
  pose_gyr :: point3
  pose_vel :: point3
  pose_pos :: point3
  pose_rot :: mat3

definition set_pose6d :: "real \<Rightarrow> point3 \<Rightarrow> point3 \<Rightarrow> point3 \<Rightarrow> point3 \<Rightarrow> mat3 \<Rightarrow> Pose6D" where
  "set_pose6d t a g v p R = \<lparr>offset_time = t, pose_acc = a, pose_gyr = g, pose_vel = v, pose_pos = p, pose_rot = R\<rparr>"

record ImuProcess =
  cov_acc :: point3
  cov_gyr :: point3
  cov_acc_scale :: point3
  cov_gyr_scale :: point3
  cov_bias_gyr :: point3
  cov_bias_acc :: point3
  first_lidar_time :: real
  last_imu :: imu_msg
  IMUpose :: "Pose6D list"
  Lidar_R_wrt_IMU :: mat3
  Lidar_T_wrt_IMU :: point3
  mean_acc :: point3
  mean_gyr :: point3
  angvel_last :: point3
  acc_s_last :: point3
  start_timestamp :: real
  last_lidar_end_time :: real
  init_iter_num :: nat
  b_first_frame :: bool
  imu_need_init :: bool

definition empty_imu :: imu_msg where
  "empty_imu = \<lparr>stamp = 0, imu_acc = vzero, imu_gyr = vzero\<rparr>"

text \<open>Five members are not set by the constructor; \<open>junk\<close> is what they hold.\<close>

definition new_ImuProcess :: "ImuProcess \<Rightarrow> ImuProcess" where
  "new_ImuProcess junk =
     junk\<lparr>cov_acc := vec3 (1 / 10) (1 / 10) (1 / 10), cov_gyr := vec3 (1 / 10) (1 / 10) (1 / 10),
          cov_bias_gyr := vec3 (1 / 10000) (1 / 10000) (1 / 10000), cov_bias_acc := vec3 (1 / 10000) (1 / 10000) (1 / 10000),
          last_imu := empty_imu, IMUpose := [], Lidar_R_wrt_IMU := eye3, Lidar_T_wrt_IMU := vzero,
          mean_acc := vec3 0 0 (- 1), mean_gyr := vzero, angvel_last := vzero, start_timestamp := - 1,
          init_iter_num := 1, b_first_frame := True, imu_need_init := True\<rparr>"

definition Reset :: "ImuProcess \<Rightarrow> ImuProcess" where
  "Reset p =
     p\<lparr>mean_acc := vec3 0 0 (- 1), mean_gyr := vzero, angvel_last := vzero, imu_need_init := True, start_timestamp := - 1,
       init_iter_num := 1, IMUpose := [], last_imu := empty_imu\<rparr>"

definition set_extrinsic :: "point3 \<Rightarrow> mat3 \<Rightarrow> ImuProcess \<Rightarrow> ImuProcess" where
  "set_extrinsic transl rot p = p\<lparr>Lidar_T_wrt_IMU := transl, Lidar_R_wrt_IMU := rot\<rparr>"

definition set_extrinsic_transl :: "point3 \<Rightarrow> ImuProcess \<Rightarrow> ImuProcess" where
  "set_extrinsic_transl transl p = p\<lparr>Lidar_T_wrt_IMU := transl, Lidar_R_wrt_IMU := eye3\<rparr>"

definition set_gyr_cov :: "point3 \<Rightarrow> ImuProcess \<Rightarrow> ImuProcess" where
  "set_gyr_cov scaler p = p\<lparr>cov_gyr_scale := scaler\<rparr>"

definition set_acc_cov :: "point3 \<Rightarrow> ImuProcess \<Rightarrow> ImuProcess" where
  "set_acc_cov scaler p = p\<lparr>cov_acc_scale := scaler\<rparr>"

definition set_gyr_bias_cov :: "point3 \<Rightarrow> ImuProcess \<Rightarrow> ImuProcess" where
  "set_gyr_bias_cov b_g p = p\<lparr>cov_bias_gyr := b_g\<rparr>"

definition set_acc_bias_cov :: "point3 \<Rightarrow> ImuProcess \<Rightarrow> ImuProcess" where
  "set_acc_bias_cov b_a p = p\<lparr>cov_bias_acc := b_a\<rparr>"

section \<open>Initialisation\<close>

definition cwiseProduct :: "point3 \<Rightarrow> point3 \<Rightarrow> point3" where
  "cwiseProduct a b = vec3 (px a * px b) (py a * py b) (pz a * pz b)"

text \<open>One sample enters the means and the covariances; \<open>N\<close> counts from one.\<close>

definition mean_step :: "nat \<Rightarrow> point3 \<Rightarrow> point3 \<Rightarrow> point3" where
  "mean_step N cur m = vadd m (vscale (1 / real N) (vsub cur m))"

definition cov_step :: "nat \<Rightarrow> point3 \<Rightarrow> point3 \<Rightarrow> point3 \<Rightarrow> point3" where
  "cov_step N cur m cov =
     vadd (vscale ((real N - 1) / real N) cov)
       (vscale ((real N - 1) / (real N * real N)) (cwiseProduct (vsub cur m) (vsub cur m)))"

definition init_sample :: "imu_msg \<Rightarrow> ImuProcess \<Rightarrow> ImuProcess" where
  "init_sample imu p =
     (let N = init_iter_num p; ma = mean_step N (imu_acc imu) (mean_acc p); mg = mean_step N (imu_gyr imu) (mean_gyr p)
      in p\<lparr>mean_acc := ma, mean_gyr := mg, cov_acc := cov_step N (imu_acc imu) ma (cov_acc p),
           cov_gyr := cov_step N (imu_gyr imu) mg (cov_gyr p), init_iter_num := N + 1\<rparr>)"

text \<open>The type of the gravity vector scales it to its own length.\<close>

definition S2_of :: "point3 \<Rightarrow> point3" where
  "S2_of v = vscale S2_length (vscale (1 / vnorm v) v)"

definition IMU_init :: "MeasureGroup \<Rightarrow> state_ikfom \<Rightarrow> ImuProcess \<Rightarrow> state_ikfom \<times> ImuProcess" where
  "IMU_init meas x p =
     (let front = hd (meas_imu meas);
          p1 = (if b_first_frame p
                then (Reset p)\<lparr>b_first_frame := False, mean_acc := imu_acc front, mean_gyr := imu_gyr front,
                               first_lidar_time := lidar_beg_time meas\<rparr>
                else p);
          p2 = fold init_sample (meas_imu meas) p1;
          x' = x\<lparr>st_grav := S2_of (vscale G_m_s2 (vscale (1 / vnorm (mean_acc p2)) (vscale (- 1) (mean_acc p2)))),
                 st_bg := mean_gyr p2, offset_T_L_I := Lidar_T_wrt_IMU p2, offset_R_L_I := Lidar_R_wrt_IMU p2\<rparr>
      in (x', p2\<lparr>last_imu := last (meas_imu meas)\<rparr>))"

section \<open>Forward propagation\<close>

definition avr :: "point3 \<Rightarrow> point3 \<Rightarrow> point3" where
  "avr a b = vec3 (1 / 2 * (px a + px b)) (1 / 2 * (py a + py b)) (1 / 2 * (pz a + pz b))"

text \<open>Two neighbouring samples; the input of the last propagation is used again for the frame end.\<close>

definition propagate_step ::
  "real \<Rightarrow> imu_msg \<times> imu_msg \<Rightarrow> state_ikfom \<times> input_ikfom \<times> ImuProcess \<Rightarrow> state_ikfom \<times> input_ikfom \<times> ImuProcess" where
  "propagate_step pcl_beg_time ht s =
     (case (ht, s) of ((head, tail), (x, i, p)) \<Rightarrow>
        if stamp tail < last_lidar_end_time p then (x, i, p)
        else
          let i' = \<lparr>in_acc = vscale (G_m_s2 / vnorm (mean_acc p)) (avr (imu_acc head) (imu_acc tail)),
                    in_gyro = avr (imu_gyr head) (imu_gyr tail)\<rparr>;
              dt = (if stamp head < last_lidar_end_time p then stamp tail - last_lidar_end_time p else stamp tail - stamp head);
              x' = predict dt i' x;
              w = vsub (in_gyro i') (st_bg x');
              a = vadd (mvec (st_rot x') (vsub (in_acc i') (st_ba x'))) (st_grav x')
          in (x', i', p\<lparr>angvel_last := w, acc_s_last := a,
                        IMUpose := IMUpose p @ [set_pose6d (stamp tail - pcl_beg_time) a w (st_vel x') (st_pos x') (st_rot x')]\<rparr>))"

definition propagate :: "MeasureGroup \<Rightarrow> state_ikfom \<Rightarrow> ImuProcess \<Rightarrow> state_ikfom \<times> input_ikfom \<times> ImuProcess" where
  "propagate meas x p =
     (let v_imu = last_imu p # meas_imu meas;
          p1 = p\<lparr>IMUpose := [set_pose6d 0 (acc_s_last p) (angvel_last p) (st_vel x) (st_pos x) (st_rot x)]\<rparr>
      in fold (propagate_step (lidar_beg_time meas)) (zip v_imu (tl v_imu)) (x, \<lparr>in_acc = vzero, in_gyro = vzero\<rparr>, p1))"

section \<open>Compensation of the motion\<close>

definition point_time :: "PointType \<Rightarrow> real" where
  "point_time pt = curvature pt / 1000"

definition compensate :: "state_ikfom \<Rightarrow> Pose6D \<Rightarrow> Pose6D \<Rightarrow> PointType \<Rightarrow> PointType" where
  "compensate x head tail pt =
     (let dt = point_time pt - offset_time head;
          R_i = mmul (pose_rot head) (Exp_vel (pose_gyr tail) dt);
          T_ei = vsub (vadd (vadd (pose_pos head) (vscale dt (pose_vel head))) (vscale dt (vscale dt (vscale (1 / 2) (pose_acc tail))))) (st_pos x);
          P_i = pxyz pt
      in pt\<lparr>pxyz := mvec (transp (offset_R_L_I x))
               (vsub (mvec (transp (st_rot x)) (vadd (mvec R_i (vadd (mvec (offset_R_L_I x) P_i) (offset_T_L_I x))) T_ei)) (offset_T_L_I x))\<rparr>)"

text \<open>The inner loop runs down from the point of index \<open>i\<close> and stays at the first point.\<close>

fun undistort_from :: "state_ikfom \<Rightarrow> Pose6D \<Rightarrow> Pose6D \<Rightarrow> nat \<Rightarrow> scan \<Rightarrow> nat \<times> scan" where
  "undistort_from x head tail 0 pts =
     (if point_time (pts ! 0) > offset_time head then (0, pts[0 := compensate x head tail (pts ! 0)]) else (0, pts))"
| "undistort_from x head tail (Suc i) pts =
     (if point_time (pts ! Suc i) > offset_time head
      then undistort_from x head tail i (pts[Suc i := compensate x head tail (pts ! Suc i)])
      else (Suc i, pts))"

definition undistort_points :: "state_ikfom \<Rightarrow> Pose6D list \<Rightarrow> scan \<Rightarrow> scan" where
  "undistort_points x poses pts =
     (if pts = [] then []
      else snd (fold (\<lambda>(head, tail) (i, pts). undistort_from x head tail i pts)
                  (rev (zip poses (tl poses))) (length pts - 1, pts)))"

text \<open>\<open>sorter\<close> is \<open>std::sort\<close> by \<open>time_list\<close>.\<close>

definition UndistortPcl :: "(scan \<Rightarrow> scan) \<Rightarrow> MeasureGroup \<Rightarrow> state_ikfom \<Rightarrow> ImuProcess \<Rightarrow> state_ikfom \<times> ImuProcess \<times> scan" where
  "UndistortPcl sorter meas x p =
     (let pcl_out = sorter (meas_lidar meas);
          imu_end_time = stamp (last (last_imu p # meas_imu meas));
          pcl_end_time = meas_lidar_end_time meas;
          (x1, i, p1) = propagate meas x p;
          note_sign = (if pcl_end_time > imu_end_time then 1 else - 1);
          x2 = predict (note_sign * (pcl_end_time - imu_end_time)) i x1
      in (x2, p1\<lparr>last_imu := last (meas_imu meas), last_lidar_end_time := pcl_end_time\<rparr>,
          undistort_points x2 (IMUpose p1) pcl_out))"

section \<open>One package\<close>

definition Process :: "(scan \<Rightarrow> scan) \<Rightarrow> MeasureGroup \<Rightarrow> state_ikfom \<times> ImuProcess \<times> scan \<Rightarrow> state_ikfom \<times> ImuProcess \<times> scan" where
  "Process sorter meas s =
     (case s of (x, p, cur_pcl_un) \<Rightarrow>
        if meas_imu meas = [] then (x, p, cur_pcl_un)
        else if imu_need_init p then
          let (x', p1) = IMU_init meas x p; p2 = p1\<lparr>imu_need_init := True, last_imu := last (meas_imu meas)\<rparr>
          in (x', if init_iter_num p2 > MAX_INI_COUNT
                  then p2\<lparr>imu_need_init := False, cov_acc := cov_acc_scale p2, cov_gyr := cov_gyr_scale p2\<rparr> else p2, cur_pcl_un)
        else UndistortPcl sorter meas x p)"

end
