(* ===== verification/Lio_Imu_Props.thy ===== *)
theory Lio_Imu_Props
  imports Lio_Imu
begin

text \<open>
  Properties of the geometry and of the IMU process: the exponentials are rotations and agree with
  each other, the logarithm inverts them, the initialisation averages what it is given, and the
  compensation puts every point where the moving sensor saw it.
\<close>

section \<open>Rotations\<close>

text \<open>
  The exponentials return rotations: for every angular velocity and duration and every
  rotation vector the result is orthogonal with determinant one, and turning for two durations
  one after the other is turning for their sum.
\<close>

theorem exponentials_are_rotations:
  "rotation (Exp_vel w s) \<and> rotation (Exp_ang v) \<and> mmul (Exp_vel w s) (Exp_vel w t) = Exp_vel w (s + t)"
proof (intro conjI)
  show "mmul (Exp_vel w s) (Exp_vel w t) = Exp_vel w (s + t)"
    by (auto simp: Exp_vel_def Let_def mmul_eye distrib_left intro!: rodrigues_add unit_axis)
qed (rule Exp_vel_rotation Exp_ang_rotation)+

text \<open>
  The logarithm inverts the exponential: a rotation vector whose length is between a
  thousandth and a half turn, and whose rotation is not in the range that \<open>Log\<close> takes for the
  identity, comes back.
\<close>

theorem Log_inverts_Exp:
  assumes "1 / 1000 \<le> vnorm v" "vnorm v < pi" "mtrace (Exp_ang v) \<le> 3 - 1 / 10 ^ 6"
  shows "Log (Exp_ang v) = v"
proof -
  have n: "vnorm v \<noteq> 0" using assms(1) by auto
  have e: "Exp_ang v = rodrigues (vscale (1 / vnorm v) v) (vnorm v)"
    using assms(1) by (simp add: Exp_ang_def Let_def)
  have "Log (Exp_ang v) = vscale (vnorm v) (vscale (1 / vnorm v) v)"
    unfolding e by (rule Log_rodrigues [OF unit_axis [OF n] assms(1,2)]) (use assms(3) e in simp)
  then show ?thesis using n by (simp add: vec_defs)
qed

lemma quarter_turn: "vnorm (vec3 (pi / 2) 0 0) = pi / 2" "mtrace (Exp_ang (vec3 (pi / 2) 0 0)) = 1"
proof -
  have "vdot (vec3 (pi / 2) 0 0) (vec3 (pi / 2) 0 0) = (pi / 2) * (pi / 2)" by (simp add: vec_defs)
  then show n: "vnorm (vec3 (pi / 2) 0 0) = pi / 2" unfolding vnorm_def by (simp only: real_sqrt_abs2) simp
  have big: "pi / 2 > 1 / 10 ^ 7" using pi_ge_two by simp
  then have "Exp_ang (vec3 (pi / 2) 0 0) = rodrigues (vec3 1 0 0) (pi / 2)"
    unfolding Exp_ang_def Let_def n by (simp add: vec_defs)
  then show "mtrace (Exp_ang (vec3 (pi / 2) 0 0)) = 1" by (simp add: mtrace_rodrigues vec_defs)
qed

theorem Log_inverts_Exp_witness: "Log (Exp_ang (vec3 (pi / 2) 0 0)) = vec3 (pi / 2) 0 0"
  by (rule Log_inverts_Exp) (use pi_ge_two in \<open>simp_all add: quarter_turn\<close>)

text \<open>
  The quaternion exponential of the filter and the Rodrigues formula of the front end are the
  same rotation, as soon as the angle is not in the range of the truncated series.
\<close>

theorem quaternion_agrees_with_rodrigues:
  assumes "taylor_n_bound \<le> (dt / 2) * (dt / 2) * vdot w w" "0 \<le> dt" "1 / 10 ^ 7 < vnorm w"
  shows "toRotationMatrix (SO3_exp w dt) = Exp_vel w dt"
  using assms SO3_exp_rodrigues [OF assms(1,2)] by (simp add: Exp_vel_def Let_def)

theorem quaternion_agrees_with_rodrigues_witness:
  "toRotationMatrix (SO3_exp (vec3 3 0 4) 2) = Exp_vel (vec3 3 0 4) 2"
  by (rule quaternion_agrees_with_rodrigues) (simp_all add: taylor_n_bound_def vnorm_def vec_defs)

section \<open>Initialisation\<close>

definition vsum :: "point3 list \<Rightarrow> point3" where
  "vsum xs = foldr vadd xs vzero"

lemma vadd_assoc: "vadd (vadd a b) c = vadd a (vadd b c)"
  by (simp add: vec_defs)

lemma vsum_append: "vsum (xs @ ys) = vadd (vsum xs) (vsum ys)"
  by (induction xs) (simp_all add: vsum_def vadd_assoc, simp add: vzero_def vec_defs)

lemma mean_step_sum:
  assumes "N \<noteq> 0"
  shows "vscale (real N) (mean_step N cur m) = vadd (vscale (real (N - 1)) m) cur"
  using assms by (simp add: mean_step_def vec_defs field_simps of_nat_diff)

text \<open>The means of an initialisation that has seen the samples \<open>xs\<close>.\<close>

definition has_seen :: "imu_msg list \<Rightarrow> ImuProcess \<Rightarrow> bool" where
  "has_seen xs p \<longleftrightarrow>
     init_iter_num p = length xs + 1 \<and> vscale (real (length xs)) (mean_acc p) = vsum (map imu_acc xs)
   \<and> vscale (real (length xs)) (mean_gyr p) = vsum (map imu_gyr xs)"

lemma vsum_snoc: "vsum (xs @ [x]) = vadd (vsum xs) x"
  by (simp add: vsum_append) (simp add: vsum_def vzero_def vec_defs)

lemma init_sample_seen: "has_seen xs p \<Longrightarrow> has_seen (xs @ [m]) (init_sample m p)"
  using mean_step_sum [of "length xs + 1"]
  by (simp add: has_seen_def init_sample_def Let_def vsum_snoc)

lemma init_samples_seen: "has_seen xs p \<Longrightarrow> has_seen (xs @ ms) (fold init_sample ms p)"
proof (induction ms arbitrary: xs p)
  case (Cons m ms)
  from Cons.IH [OF init_sample_seen [OF Cons.prems, of m]] show ?case by simp
qed simp

lemma init_sample_flags:
  "b_first_frame (fold init_sample ms p) = b_first_frame p"
  by (induction ms arbitrary: p) (simp_all add: init_sample_def Let_def)

text \<open>A package during the initialisation.\<close>

lemma Process_init:
  assumes "meas_imu m \<noteq> []" "imu_need_init p" "b_first_frame p \<or> has_seen xs p" "b_first_frame p \<Longrightarrow> xs = []"
  shows "case Process sorter m (x, p, pcl) of (x', p', pcl') \<Rightarrow>
    has_seen (xs @ meas_imu m) p' \<and> \<not> b_first_frame p' \<and> st_bg x' = mean_gyr p' \<and> pcl' = pcl
    \<and> (imu_need_init p' \<longleftrightarrow> length (xs @ meas_imu m) < MAX_INI_COUNT)"
proof -
  define p1 where "p1 = (if b_first_frame p
      then (Reset p)\<lparr>b_first_frame := False, mean_acc := imu_acc (hd (meas_imu m)), mean_gyr := imu_gyr (hd (meas_imu m)),
                     first_lidar_time := lidar_beg_time m\<rparr> else p)"
  have "has_seen xs p1"
    using assms by (auto simp: p1_def has_seen_def Reset_def vsum_def vzero_def vec_defs)
  then have s: "has_seen (xs @ meas_imu m) (fold init_sample (meas_imu m) p1)" by (rule init_samples_seen)
  have "\<not> b_first_frame p1" by (simp add: p1_def)
  then have b: "\<not> b_first_frame (fold init_sample (meas_imu m) p1)" by (simp add: init_sample_flags)
  define p2 where "p2 = fold init_sample (meas_imu m) p1"
  have "IMU_init m x p =
    (x\<lparr>st_grav := S2_of (vscale G_m_s2 (vscale (1 / vnorm (mean_acc p2)) (vscale (- 1) (mean_acc p2)))),
       st_bg := mean_gyr p2, offset_T_L_I := Lidar_T_wrt_IMU p2, offset_R_L_I := Lidar_R_wrt_IMU p2\<rparr>, p2\<lparr>last_imu := last (meas_imu m)\<rparr>)"
    by (simp add: IMU_init_def Let_def p2_def p1_def)
  then show ?thesis
    using s b assms(1,2) unfolding p2_def [symmetric] Process_def
    by (auto simp: has_seen_def MAX_INI_COUNT_def Let_def)
qed


definition init_state :: "state_ikfom \<Rightarrow> ImuProcess \<Rightarrow> scan \<Rightarrow> state_ikfom \<times> ImuProcess \<times> scan" where
  "init_state x junk pcl = (x, new_ImuProcess junk, pcl)"

lemma Process_init_run:
  assumes "\<forall>m \<in> set ms. meas_imu m \<noteq> []" "ms \<noteq> []" "length (concat (map meas_imu (butlast ms))) < MAX_INI_COUNT"
  shows "case fold (Process sorter) ms (init_state x junk pcl) of (x', p', pcl') \<Rightarrow>
    has_seen (concat (map meas_imu ms)) p' \<and> \<not> b_first_frame p' \<and> st_bg x' = mean_gyr p' \<and> pcl' = pcl
    \<and> (imu_need_init p' \<longleftrightarrow> length (concat (map meas_imu ms)) < MAX_INI_COUNT)"
  using assms
proof (induction ms rule: rev_induct)
  case (snoc m ms)
  obtain x1 p1 pcl1 where r: "fold (Process sorter) ms (init_state x junk pcl) = (x1, p1, pcl1)" by (metis prod_cases3)
  show ?case
  proof (cases "ms = []")
    case True
    then show ?thesis using snoc.prems Process_init [where m = m and p = "new_ImuProcess junk" and xs = "[]" and sorter = sorter and x = x and pcl = pcl]
      by (simp add: init_state_def new_ImuProcess_def)
  next
    case False
    obtain ms0 m0 where ms: "ms = ms0 @ [m0]" using False by (cases ms rule: rev_cases) auto
    have short: "length (concat (map meas_imu (butlast ms))) < MAX_INI_COUNT" "length (concat (map meas_imu ms)) < MAX_INI_COUNT"
      using snoc.prems(3) unfolding butlast_snoc by (simp_all add: ms)
    have "case (x1, p1, pcl1) of (x', p', pcl') \<Rightarrow>
      has_seen (concat (map meas_imu ms)) p' \<and> \<not> b_first_frame p' \<and> st_bg x' = mean_gyr p' \<and> pcl' = pcl
      \<and> (imu_need_init p' \<longleftrightarrow> length (concat (map meas_imu ms)) < MAX_INI_COUNT)"
      using snoc.IH snoc.prems short False unfolding r by simp
    then show ?thesis using snoc.prems short Process_init [where m = m and p = p1 and xs = "concat (map meas_imu ms)" and sorter = sorter and x = x1 and pcl = pcl1] r by simp
  qed
qed simp

lemma mean_of_sum: "0 < n \<Longrightarrow> vscale (real n) a = s \<Longrightarrow> a = vscale (1 / real n) s"
  by (auto simp: vec_defs)

text \<open>
  The initialisation averages: as long as fewer than ten samples came before the last package,
  the mean acceleration and the mean angular velocity are those of all samples of all packages,
  the gyroscope bias of the filter is that mean, no cloud is put out, and the initialisation is
  over as soon as there are ten samples.
\<close>

theorem initialisation_averages:
  assumes "\<forall>m \<in> set ms. meas_imu m \<noteq> []" "ms \<noteq> []" "length (concat (map meas_imu (butlast ms))) < MAX_INI_COUNT"
    and "fold (Process sorter) ms (init_state x junk pcl) = (x', p', pcl')" and "xs = concat (map meas_imu ms)"
  shows "mean_acc p' = vscale (1 / real (length xs)) (vsum (map imu_acc xs))
    \<and> mean_gyr p' = vscale (1 / real (length xs)) (vsum (map imu_gyr xs))
    \<and> st_bg x' = mean_gyr p' \<and> pcl' = pcl \<and> (imu_need_init p' \<longleftrightarrow> length xs < MAX_INI_COUNT)"
proof -
  have seen: "has_seen xs p'" "st_bg x' = mean_gyr p'" "pcl' = pcl" "imu_need_init p' \<longleftrightarrow> length xs < MAX_INI_COUNT"
    using Process_init_run [OF assms(1-3), where sorter = sorter and x = x and junk = junk and pcl = pcl] unfolding assms(4,5) by auto
  have "xs \<noteq> []" using assms(1,2,5) by (cases ms) auto
  then show ?thesis using seen by (auto simp: has_seen_def intro!: mean_of_sum)
qed

definition demo_imu :: "real \<Rightarrow> imu_msg" where
  "demo_imu t = \<lparr>stamp = t, imu_acc = vec3 0 0 t, imu_gyr = vec3 t 0 0\<rparr>"

definition demo_meas :: "real \<Rightarrow> MeasureGroup" where
  "demo_meas t = \<lparr>lidar_beg_time = t, meas_lidar_end_time = t + 1, meas_lidar = [], meas_imu = [demo_imu t, demo_imu (t + 1)]\<rparr>"

theorem initialisation_averages_witness:
  "\<forall>x junk. mean_acc (fst (snd (fold (Process id) [demo_meas 1, demo_meas 3] (init_state x junk [])))) = vec3 0 0 (5 / 2)"
proof (intro allI)
  fix x junk
  let ?ms = "[demo_meas 1, demo_meas 3]"
  obtain x' p' pcl' where r: "fold (Process id) ?ms (init_state x junk []) = (x', p', pcl')" by (metis prod_cases3)
  have "mean_acc p' = vscale (1 / real (length (concat (map meas_imu ?ms)))) (vsum (map imu_acc (concat (map meas_imu ?ms))))"
    by (rule initialisation_averages [OF _ _ _ r refl, THEN conjunct1]) (simp_all add: demo_meas_def MAX_INI_COUNT_def)
  then show "mean_acc (fst (snd (fold (Process id) ?ms (init_state x junk [])))) = vec3 0 0 (5 / 2)"
    unfolding r by (simp add: demo_meas_def demo_imu_def vsum_def vzero_def vec_defs)
qed

section \<open>Compensation of the motion\<close>

text \<open>The pose of the sensor within a segment.\<close>

definition pose_at :: "Pose6D \<Rightarrow> Pose6D \<Rightarrow> real \<Rightarrow> state_ikfom \<Rightarrow> state_ikfom" where
  "pose_at head tail t x =
     (let dt = t - offset_time head in
      x\<lparr>st_rot := mmul (pose_rot head) (Exp_vel (pose_gyr tail) dt),
        st_pos := vadd (vadd (pose_pos head) (vscale dt (pose_vel head))) (vscale dt (vscale dt (vscale (1 / 2) (pose_acc tail))))\<rparr>)"

lemma compensate_in_place:
  assumes "rotation (st_rot x)" "rotation (offset_R_L_I x)"
  shows "body_to_world x (pxyz (compensate x head tail pt)) = body_to_world (pose_at head tail (point_time pt) x) (pxyz pt)"
proof -
  have cancel: "vadd (mvec (offset_R_L_I x) (mvec (transp (offset_R_L_I x)) (vsub a (offset_T_L_I x)))) (offset_T_L_I x) = a" for a
    unfolding rotation_back [OF assms(2)] vsub_def by (rule vadd_cancel)
  have "vadd (vadd a (vsub b c)) c = vadd a b" for a b c by (simp add: vec_defs)
  then show ?thesis
    by (simp add: body_to_world_def compensate_def pose_at_def Let_def cancel rotation_back [OF assms(1)])
qed

lemma point_time_compensate [simp]: "point_time (compensate x h t pt) = point_time pt"
  by (simp add: compensate_def point_time_def Let_def)

definition in_time_order :: "scan \<Rightarrow> bool" where
  "in_time_order pts \<longleftrightarrow> (\<forall>i j. i \<le> j \<and> j < length pts \<longrightarrow> point_time (pts ! i) \<le> point_time (pts ! j))"

definition after_head :: "Pose6D \<times> Pose6D \<Rightarrow> PointType \<Rightarrow> bool" where
  "after_head s pt \<longleftrightarrow> offset_time (fst s) < point_time pt"

abbreviation comp :: "state_ikfom \<Rightarrow> Pose6D \<times> Pose6D \<Rightarrow> PointType \<Rightarrow> PointType" where
  "comp x s \<equiv> compensate x (fst s) (snd s)"

text \<open>One segment: the points down to the first that is not after its head.\<close>

lemma undistort_from_spec:
  assumes "undistort_from x (fst s) (snd s) i pts = (i', pts')" "i < length pts"
    and "\<And>j k. j \<le> k \<Longrightarrow> k \<le> i \<Longrightarrow> point_time (pts ! j) \<le> point_time (pts ! k)"
  shows "i' \<le> i \<and> length pts' = length pts
    \<and> (\<forall>m. 0 < m \<and> m < length pts \<longrightarrow> pts' ! m = (if i' < m \<and> m \<le> i then comp x s (pts ! m) else pts ! m))
    \<and> (\<forall>m. m \<le> i \<longrightarrow> 0 < m \<longrightarrow> (after_head s (pts ! m) \<longleftrightarrow> i' < m))
    \<and> pts' ! 0 = (if after_head s (pts ! 0) then comp x s (pts ! 0) else pts ! 0)"
  using assms
proof (induction i arbitrary: pts)
  case 0
  then show ?case by (auto simp: after_head_def split: if_splits)
next
  case (Suc i)
  show ?case
  proof (cases "after_head s (pts ! Suc i)")
    case True
    let ?q = "pts[Suc i := comp x s (pts ! Suc i)]"
    have r: "undistort_from x (fst s) (snd s) i ?q = (i', pts')" using Suc.prems(1) True by (simp add: after_head_def)
    have ord: "point_time (?q ! j) \<le> point_time (?q ! k)" if "j \<le> k" "k \<le> i" for j k
      using Suc.prems(3) [OF that(1)] that by (auto simp: nth_list_update)
    from Suc.IH [OF r _ ord] Suc.prems(2) True show ?thesis
      by (auto simp: nth_list_update le_Suc_eq)
  next
    case False
    have "\<not> after_head s (pts ! m)" if "m \<le> Suc i" for m
      using Suc.prems(3) [OF that] False by (auto simp: after_head_def)
    then show ?thesis using Suc.prems(1) by (auto simp: after_head_def)
  qed
qed


text \<open>All segments: what has been done to the points after those in \<open>P\<close>, the last segment first.\<close>

definition comp_each :: "state_ikfom \<Rightarrow> (Pose6D \<times> Pose6D) list \<Rightarrow> PointType \<Rightarrow> PointType" where
  "comp_each x P pt = fold (\<lambda>s q. if after_head s q then comp x s q else q) P pt"

definition comp_first :: "state_ikfom \<Rightarrow> (Pose6D \<times> Pose6D) list \<Rightarrow> PointType \<Rightarrow> PointType" where
  "comp_first x P pt = (case find (\<lambda>s. after_head s pt) P of None \<Rightarrow> pt | Some s \<Rightarrow> comp x s pt)"

definition und_inv :: "state_ikfom \<Rightarrow> scan \<Rightarrow> (Pose6D \<times> Pose6D) list \<Rightarrow> nat \<Rightarrow> scan \<Rightarrow> bool" where
  "und_inv x orig P i pts \<longleftrightarrow>
     length pts = length orig \<and> i < length orig
   \<and> (\<forall>m. 0 < m \<and> m < length orig \<longrightarrow> pts ! m = comp_first x P (orig ! m))
   \<and> (\<forall>m. 0 < m \<and> m < length orig \<longrightarrow> (m \<le> i \<longleftrightarrow> (\<forall>s \<in> set P. \<not> after_head s (orig ! m))))
   \<and> pts ! 0 = comp_each x P (orig ! 0)"

lemma point_time_comp [simp]:
  "point_time (comp_each x P pt) = point_time pt" "point_time (comp_first x P pt) = point_time pt"
proof -
  show "point_time (comp_each x P pt) = point_time pt"
    unfolding comp_each_def by (induction P arbitrary: pt) auto
qed (simp add: comp_first_def split: option.splits)

lemma after_head_time: "point_time p = point_time q \<Longrightarrow> after_head s p = after_head s q"
  by (simp add: after_head_def)

lemma comp_first_none: "\<forall>s \<in> set P. \<not> after_head s pt \<Longrightarrow> comp_first x P pt = pt"
  by (induction P) (auto simp: comp_first_def)

lemma comp_first_snoc:
  "comp_first x (P @ [s]) pt =
     (if \<forall>s \<in> set P. \<not> after_head s pt then if after_head s pt then comp x s pt else pt else comp_first x P pt)"
  by (induction P) (auto simp: comp_first_def)

lemma und_step:
  assumes inv: "und_inv x orig P i pts" and ord: "in_time_order orig"
    and r: "undistort_from x (fst s) (snd s) i pts = (i', pts')"
  shows "und_inv x orig (P @ [s]) i' pts'"
proof -
  have i: "length pts = length orig" "i < length orig" using inv by (auto simp: und_inv_def)
  have t: "point_time (pts ! m) = point_time (orig ! m)" if "m < length orig" for m
    using inv that by (cases m) (auto simp: und_inv_def)
  have o: "point_time (pts ! j) \<le> point_time (pts ! k)" if "j \<le> k" "k \<le> i" for j k
    using ord that i t [of j] t [of k] by (simp add: in_time_order_def)
  have ah: "after_head s (pts ! m) = after_head s (orig ! m)" if "m < length orig" for m
    by (rule after_head_time) (rule t [OF that])
  note spec = undistort_from_spec [OF r _ o, unfolded i(1), simplified i(2), simplified]
  have first: "pts' ! 0 = comp_each x (P @ [s]) (orig ! 0)"
    using spec inv ah [of 0] i(2) by (auto simp: und_inv_def comp_each_def)
  have low: "m \<le> i' \<longleftrightarrow> (\<forall>s \<in> set (P @ [s]). \<not> after_head s (orig ! m))" if m: "0 < m" "m < length orig" for m
  proof -
    have "m \<le> i \<longleftrightarrow> (\<forall>s \<in> set P. \<not> after_head s (orig ! m))" using inv m by (simp add: und_inv_def)
    moreover have "m \<le> i \<Longrightarrow> after_head s (orig ! m) \<longleftrightarrow> i' < m" using spec m ah [OF m(2)] by auto
    moreover have "i' \<le> i" using spec by blast
    ultimately show ?thesis by auto
  qed
  have "pts' ! m = comp_first x (P @ [s]) (orig ! m)" if m: "0 < m" "m < length orig" for m
  proof -
    have p: "pts ! m = comp_first x P (orig ! m)" and l: "m \<le> i \<longleftrightarrow> (\<forall>s \<in> set P. \<not> after_head s (orig ! m))"
      using inv m by (auto simp: und_inv_def)
    have q: "pts' ! m = (if i' < m \<and> m \<le> i then comp x s (pts ! m) else pts ! m)" using spec m by blast
    show ?thesis
    proof (cases "m \<le> i")
      case True
      then show ?thesis using p l q spec m ah [OF m(2)] by (auto simp: comp_first_snoc comp_first_none)
    next
      case False
      then show ?thesis using p l q by (auto simp: comp_first_snoc)
    qed
  qed
  then show ?thesis using spec first low i by (auto simp: und_inv_def)
qed

lemma und_run:
  assumes "und_inv x orig P i pts" "in_time_order orig"
  shows "case fold (\<lambda>(head, tail) (i, pts). undistort_from x head tail i pts) Q (i, pts) of (i', pts') \<Rightarrow> und_inv x orig (P @ Q) i' pts'"
  using assms(1)
proof (induction Q arbitrary: P i pts)
  case (Cons s Q)
  obtain i1 pts1 where r: "undistort_from x (fst s) (snd s) i pts = (i1, pts1)" by fastforce
  from Cons.IH [OF und_step [OF Cons.prems assms(2) r]] show ?case using r by (simp add: case_prod_unfold)
qed simp

lemma undistort_points_spec:
  assumes "in_time_order pts" "m < length pts"
  shows "undistort_points x poses pts ! m =
    (if m = 0 then comp_each x (rev (zip poses (tl poses))) (pts ! 0) else comp_first x (rev (zip poses (tl poses))) (pts ! m))"
proof -
  have ne: "pts \<noteq> []" using assms(2) by auto
  then have "und_inv x pts [] (length pts - 1) pts"
    by (auto simp: und_inv_def comp_each_def comp_first_none)
  from und_run [OF this assms(1), of "rev (zip poses (tl poses))"] show ?thesis
    using ne assms(2) by (auto simp: undistort_points_def und_inv_def case_prod_unfold)
qed

lemma undistort_points_length: "in_time_order pts \<Longrightarrow> length (undistort_points x poses pts) = length pts"
proof (cases "pts = []")
  case False
  assume o: "in_time_order pts"
  have "und_inv x pts [] (length pts - 1) pts"
    using False by (auto simp: und_inv_def comp_each_def comp_first_none)
  from und_run [OF this o, of "rev (zip poses (tl poses))"] show ?thesis
    using False by (auto simp: undistort_points_def und_inv_def case_prod_unfold)
qed (simp add: undistort_points_def)

lemma comp_each_once: "length (filter (\<lambda>s. after_head s pt) P) \<le> 1 \<Longrightarrow> comp_each x P pt = comp_first x P pt"
proof (induction P)
  case (Cons s P)
  show ?case
  proof (cases "after_head s pt")
    case True
    then have "\<forall>s \<in> set P. \<not> after_head s pt" using Cons.prems by (simp add: filter_empty_conv)
    then have "comp_each x P (comp x s pt) = comp x s pt"
      unfolding comp_each_def by (induction P) (auto simp: after_head_def)
    then show ?thesis using True by (simp add: comp_each_def comp_first_def)
  next
    case False
    then show ?thesis using Cons by (simp add: comp_each_def comp_first_def)
  qed
qed (simp add: comp_each_def comp_first_def)


text \<open>
  C38. The motion of the sensor is compensated exactly: in the output of \<open>UndistortPcl\<close> every point
  that is later than the head of a segment is, seen from the pose at the end of the scan, at the
  place of the world where the pose of its own time within the last such segment has put the
  measured point.  The exception is the very first point when it is later than two heads.
\<close>

theorem motion_compensated:
  assumes "UndistortPcl sorter meas x p = (x2, p2, out)"
    and "in_time_order (sorter (meas_lidar meas))" "m < length (sorter (meas_lidar meas))"
    and "rotation (st_rot x2)" "rotation (offset_R_L_I x2)"
    and "0 < m \<or> length (filter (\<lambda>s. after_head s (sorter (meas_lidar meas) ! 0)) (zip (IMUpose p2) (tl (IMUpose p2)))) \<le> 1"
    and "find (\<lambda>s. after_head s (sorter (meas_lidar meas) ! m)) (rev (zip (IMUpose p2) (tl (IMUpose p2)))) = Some (head, tail)"
  shows "body_to_world x2 (pxyz (out ! m)) =
    body_to_world (pose_at head tail (point_time (sorter (meas_lidar meas) ! m)) x2) (pxyz (sorter (meas_lidar meas) ! m))"
proof -
  let ?pts = "sorter (meas_lidar meas)" let ?segs = "rev (zip (IMUpose p2) (tl (IMUpose p2)))"
  have out: "out = undistort_points x2 (IMUpose p2) ?pts"
    using assms(1) by (auto simp: UndistortPcl_def Let_def case_prod_unfold)
  have "length (filter (\<lambda>s. after_head s (?pts ! 0)) ?segs) \<le> 1" if "m = 0"
    using assms(6) that by (simp flip: rev_filter)
  then have "out ! m = comp_first x2 ?segs (?pts ! m)"
    unfolding out undistort_points_spec [OF assms(2,3)] using comp_each_once by auto
  then have "out ! m = compensate x2 head tail (?pts ! m)" using assms(7) by (simp add: comp_first_def)
  then show ?thesis using compensate_in_place [OF assms(4,5)] by simp
qed

definition rest_state :: state_ikfom where
  "rest_state = \<lparr>st_pos = vzero, st_rot = eye3, offset_R_L_I = eye3, offset_T_L_I = vzero, st_vel = vec3 1 0 0, st_bg = vzero,
     st_ba = vzero, st_grav = vzero\<rparr>"

definition demo_point :: PointType where
  "demo_point = \<lparr>pxyz = vec3 5 0 0, pt_intensity = 0, curvature = 500\<rparr>"

definition demo_scan :: MeasureGroup where
  "demo_scan = \<lparr>lidar_beg_time = 0, meas_lidar_end_time = 1, meas_lidar = [demo_point],
     meas_imu = [\<lparr>stamp = 1, imu_acc = vzero, imu_gyr = vzero\<rparr>]\<rparr>"

definition ready_process :: "ImuProcess \<Rightarrow> ImuProcess" where
  "ready_process junk = (new_ImuProcess junk)\<lparr>acc_s_last := vzero, last_lidar_end_time := 0, imu_need_init := False\<rparr>"

lemma demo_undistort:
  obtains x2 p2 out where "UndistortPcl id demo_scan rest_state (ready_process junk) = (x2, p2, out)"
    "rotation (st_rot x2)" "rotation (offset_R_L_I x2)" "st_pos x2 = vec3 1 0 0" "st_rot x2 = eye3" "offset_R_L_I x2 = eye3" "offset_T_L_I x2 = vzero"
    "IMUpose p2 = [set_pose6d 0 vzero vzero (vec3 1 0 0) vzero eye3, set_pose6d 1 vzero vzero (vec3 1 0 0) (vec3 1 0 0) eye3]"
proof -
  have zero: "vsub vzero vzero = vzero" "vscale k vzero = vzero" "vadd vzero vzero = vzero" "avr vzero vzero = vzero" for k
    by (simp_all add: vzero_def avr_def vec_defs)
  have pos: "vadd vzero (vec3 1 0 0) = vec3 1 0 0" "vadd (vec3 1 0 0) vzero = vec3 1 0 0" "vscale 1 (vec3 1 0 0) = vec3 1 0 0"
    "vscale 0 (vec3 1 0 0) = vzero"
    by (simp_all add: vzero_def vec_defs)
  have vel: "st_vel (predict dt i s) = st_vel s" if "i = \<lparr>in_acc = vzero, in_gyro = vzero\<rparr>" "st_ba s = vzero" "st_grav s = vzero" "st_rot s = eye3" for dt i s
    using that by (simp add: predict_fields mvec_eye zero) (simp add: vzero_def vec_defs)
  obtain x2 p2 out where r: "UndistortPcl id demo_scan rest_state (ready_process junk) = (x2, p2, out)" by (metis prod_cases3)
  show thesis
    by (rule that [OF r]; insert r)
      (auto simp: UndistortPcl_def Let_def propagate_def propagate_step_def demo_scan_def ready_process_def new_ImuProcess_def empty_imu_def
        rest_state_def predict_fields vel SO3_exp_def exp_zero mmul_eye mvec_eye zero pos rotation_eye)
qed

theorem motion_compensated_witness:
  "\<forall>junk. \<exists>x2 p2 out. UndistortPcl id demo_scan rest_state (ready_process junk) = (x2, p2, out)
     \<and> body_to_world x2 (pxyz (out ! 0)) = vec3 (11 / 2) 0 0"
proof
  fix junk
  obtain x2 p2 out where r: "UndistortPcl id demo_scan rest_state (ready_process junk) = (x2, p2, out)"
    and x: "rotation (st_rot x2)" "rotation (offset_R_L_I x2)" "st_pos x2 = vec3 1 0 0" "st_rot x2 = eye3" "offset_R_L_I x2 = eye3"
      "offset_T_L_I x2 = vzero"
    and p: "IMUpose p2 = [set_pose6d 0 vzero vzero (vec3 1 0 0) vzero eye3, set_pose6d 1 vzero vzero (vec3 1 0 0) (vec3 1 0 0) eye3]"
    by (rule demo_undistort)
  have pts: "meas_lidar demo_scan = [demo_point]" by (simp add: demo_scan_def)
  have half: "point_time demo_point = 1 / 2" by (simp add: point_time_def demo_point_def)
  have "body_to_world x2 (pxyz (out ! 0)) =
      body_to_world (pose_at (set_pose6d 0 vzero vzero (vec3 1 0 0) vzero eye3) (set_pose6d 1 vzero vzero (vec3 1 0 0) (vec3 1 0 0) eye3)
        (point_time (id (meas_lidar demo_scan) ! 0)) x2) (pxyz (id (meas_lidar demo_scan) ! 0))"
    by (rule motion_compensated [OF r _ _ x(1,2)])
      (simp_all add: pts p in_time_order_def after_head_def set_pose6d_def half)
  also have "\<dots> = vec3 (11 / 2) 0 0"
    by (simp add: pts half pose_at_def set_pose6d_def body_to_world_def x Let_def Exp_vel_def vnorm_def)
      (simp add: demo_point_def vzero_def mat_defs vec_defs)
  finally show "\<exists>x2 p2 out. UndistortPcl id demo_scan rest_state (ready_process junk) = (x2, p2, out)
     \<and> body_to_world x2 (pxyz (out ! 0)) = vec3 (11 / 2) 0 0" using r by blast
qed

text \<open>The exception: a first point later than two heads is compensated for both segments.\<close>

lemma first_point_twice:
  assumes "offset_time a < point_time pt" "offset_time b < point_time pt"
  shows "undistort_points x [a, b, c] [pt] = [compensate x a b (compensate x b c pt)]"
  using assms by (simp add: undistort_points_def)

end
