(* ===== verification/Lio_Features.thy ===== *)
theory Lio_Features
  imports Lio_Geometry
begin

text \<open>
  The settings of the preprocessing of scans and the extraction of planes and edges along the
  lines of a scan (preprocess.cpp).  \<open>None\<close> is an access outside an array or the use of an
  indeterminate value.
\<close>

section \<open>Settings\<close>

datatype Feature = Nor | Poss_Plane | Real_Plane | Edge_Jump | Edge_Plane | Wire | ZeroPoint
datatype Surround = Prev | Next
datatype E_jump = Nr_nor | Nr_zero | Nr_180 | Nr_inf | Nr_blind
datatype LID_TYPE = AVIA | VELO16 | OUST64 | MID360 | Other_LID
datatype TIME_UNIT = SEC | MS | US | NS | Other_UNIT

text \<open>\<open>angle\<close> is written and read in one place only, so it is not kept.\<close>

record orgtype =
  o_range :: real
  dista :: real
  intersect :: real
  edj :: "Surround \<Rightarrow> E_jump"
  ftype :: Feature

definition new_orgtype :: "real \<Rightarrow> orgtype" where
  "new_orgtype junk = \<lparr>o_range = 0, dista = junk, intersect = 2, edj = (\<lambda>_. Nr_nor), ftype = Nor\<rparr>"

text \<open>The number of points that a plane starts with.\<close>

definition group_size :: nat where "group_size = 8"

record Preprocess =
  feature_enabled :: bool
  lidar_type :: LID_TYPE
  blind :: real
  point_filter_num :: nat
  N_SCANS :: nat
  SCAN_RATE :: nat
  time_unit :: TIME_UNIT
  time_unit_scale :: real
  given_offset_time :: bool
  disA :: real
  disB :: real
  inf_bound :: real
  limit_maxmid :: real
  limit_midmin :: real
  limit_maxmin :: real
  p2l_ratio :: real
  jump_up_limit :: real
  jump_down_limit :: real
  cos160 :: real
  edgea :: real
  edgeb :: real
  smallp_intersect :: real
  smallp_ratio :: real
  pl_surf :: scan
  pl_corn :: scan

text \<open>\<open>disB\<close> and the time unit are not set by the constructor, \<open>disA\<close> is set twice.\<close>

definition new_Preprocess :: "real \<Rightarrow> TIME_UNIT \<Rightarrow> real \<Rightarrow> Preprocess" where
  "new_Preprocess junk_disB junk_unit junk_scale =
     \<lparr>feature_enabled = False, lidar_type = AVIA, blind = 1 / 100, point_filter_num = 1, N_SCANS = 6, SCAN_RATE = 10,
      time_unit = junk_unit, time_unit_scale = junk_scale, given_offset_time = False, disA = 1 / 10, disB = junk_disB,
      inf_bound = 10, limit_maxmid = 625 / 100, limit_midmin = 625 / 100, limit_maxmin = 324 / 100, p2l_ratio = 225,
      jump_up_limit = cos (170 / 180 * pi), jump_down_limit = cos (8 / 180 * pi), cos160 = cos (160 / 180 * pi), edgea = 2,
      edgeb = 1 / 10, smallp_intersect = cos (1725 / 10 / 180 * pi), smallp_ratio = 12 / 10, pl_surf = [], pl_corn = []\<rparr>"

definition set_Preprocess :: "bool \<Rightarrow> LID_TYPE \<Rightarrow> real \<Rightarrow> nat \<Rightarrow> Preprocess \<Rightarrow> Preprocess" where
  "set_Preprocess feat_en lid_type bld pfilt_num p =
     p\<lparr>feature_enabled := feat_en, lidar_type := lid_type, blind := bld, point_filter_num := pfilt_num\<rparr>"

definition zero_point :: PointType where
  "zero_point = \<lparr>pxyz = vzero, pt_intensity = 0, curvature = 0\<rparr>"

definition sq_norm :: "PointType \<Rightarrow> real" where
  "sq_norm q = px (pxyz q) * px (pxyz q) + py (pxyz q) * py (pxyz q) + pz (pxyz q) * pz (pxyz q)"

section \<open>Planes\<close>

text \<open>The largest element to the front by exchanges, then the rest: the sorting loops.\<close>

fun exchange :: "real \<Rightarrow> real list \<Rightarrow> real \<times> real list" where
  "exchange x [] = (x, [])"
| "exchange x (y # ys) =
     (if x < y then let (m, zs) = exchange y ys in (m, x # zs) else let (m, zs) = exchange x ys in (m, y # zs))"

lemma exchange_length: "length (snd (exchange x ys)) = length ys"
  by (induction x ys rule: exchange.induct) (auto simp: case_prod_unfold Let_def)

function exchange_sort :: "real list \<Rightarrow> real list" where
  "exchange_sort [] = []"
| "exchange_sort (x # xs) = (let (m, zs) = exchange x xs in m # exchange_sort zs)"
  by pat_completeness auto
termination
  by (relation "measure length") (auto, metis exchange_length le_imp_less_Suc order_refl snd_conv)

text \<open>The first loop: the distances of the group, or the index of a point that is too near.\<close>

fun group_dists :: "real \<Rightarrow> orgtype list \<Rightarrow> nat \<Rightarrow> nat \<Rightarrow> real list \<Rightarrow> (nat + real list) option" where
  "group_dists bl types i 0 ds = Some (Inr ds)"
| "group_dists bl types i (Suc n) ds =
     (if i \<ge> length types then None
      else if o_range (types ! i) < bl then Some (Inl i)
      else group_dists bl types (Suc i) n (ds @ [dista (types ! i)]))"

text \<open>
  The second loop: the group grows while its points are near the first.  The result is the index
  where it ended, the distances and the last difference vector, if there was one.
\<close>

function grow ::
  "real \<Rightarrow> real \<Rightarrow> scan \<Rightarrow> orgtype list \<Rightarrow> nat \<Rightarrow> nat \<Rightarrow> real list \<Rightarrow> point3 option \<Rightarrow> nat + nat \<times> real list \<times> point3 option" where
  "grow bl group_dis pl types i_cur i_nex ds v =
     (if i_cur \<ge> length pl \<or> i_nex \<ge> length pl then Inr (i_nex, ds, v)
      else if o_range (types ! i_nex) < bl then Inl i_nex
      else
        let d = vsub (pxyz (pl ! i_nex)) (pxyz (pl ! i_cur)) in
        if vdot d d \<ge> group_dis then Inr (i_nex, ds, Some d)
        else grow bl group_dis pl types i_cur (Suc i_nex) (ds @ [dista (types ! i_nex)]) (Some d))"
  by pat_completeness auto
termination
  by (relation "measure (\<lambda>(bl, g, pl, types, i_cur, i_nex, ds, v). length pl - i_nex)") auto

declare grow.simps [simp del]

definition cross2 :: "point3 \<Rightarrow> point3 \<Rightarrow> real" where
  "cross2 a v =
     (let c = vec3 (py a * pz v - py v * pz a) (pz a * px v - px a * pz v) (px a * py v - px v * py a) in vdot c c)"

definition width :: "scan \<Rightarrow> nat \<Rightarrow> nat \<Rightarrow> point3 \<Rightarrow> real" where
  "width pl i_cur i_nex v =
     fold (\<lambda>j m. max m (cross2 (vsub (pxyz (pl ! j)) (pxyz (pl ! i_cur))) v)) [Suc i_cur..<min i_nex (length pl)] 0"

text \<open>The type of the group, where it ends and its direction.\<close>

definition plane_judge :: "Preprocess \<Rightarrow> scan \<Rightarrow> orgtype list \<Rightarrow> nat \<Rightarrow> (nat \<times> nat \<times> point3) option" where
  "plane_judge p pl types i_cur =
     (let group_dis = (disA p * o_range (types ! i_cur) + disB p) ^ 2 in
      case group_dists (blind p) types i_cur (group_size) [] of
        None \<Rightarrow> None
      | Some (Inl i_nex) \<Rightarrow> Some (2, i_nex, vzero)
      | Some (Inr ds0) \<Rightarrow>
          (case grow (blind p) group_dis pl types i_cur (i_cur + group_size) ds0 None of
             Inl i_nex \<Rightarrow> Some (2, i_nex, vzero)
           | Inr (i_nex, ds1, None) \<Rightarrow> None
           | Inr (i_nex, ds1, Some v) \<Rightarrow>
               let leng_wid = width pl i_cur i_nex v; two_dis = vdot v v; ds = exchange_sort ds1; n = length ds in
               if leng_wid \<noteq> 0 \<and> two_dis * two_dis / leng_wid < p2l_ratio p then Some (0, i_nex, vzero)
               else if n < 2 then None
               else if ds ! (n - 2) < 1 / 10 ^ 16 then Some (0, i_nex, vzero)
               else if lidar_type p = AVIA
                    then (if ds ! 0 / ds ! (n div 2) \<ge> limit_maxmid p \<or> ds ! (n div 2) / ds ! (n - 2) \<ge> limit_midmin p
                          then Some (0, i_nex, vzero) else Some (1, i_nex, vscale (1 / vnorm v) v))
                    else (if ds ! 0 / ds ! (n - 2) \<ge> limit_maxmin p
                          then Some (0, i_nex, vzero) else Some (1, i_nex, vscale (1 / vnorm v) v))))"

lemma group_dists_index: "group_dists bl types i n ds = Some (Inl k) \<Longrightarrow> i \<le> k \<and> k < i + n"
  by (induction bl types i n ds rule: group_dists.induct) (auto split: if_splits)

text \<open>Where the second loop ends is not before it began, so a plane has at least a group of points.\<close>

fun grow_end :: "nat + nat \<times> real list \<times> point3 option \<Rightarrow> nat" where
  "grow_end (Inl m) = m"
| "grow_end (Inr (m, _)) = m"

lemma grow_index: "k \<le> grow_end (grow bl g pl types i k ds v)"
proof (induction bl g pl types i k ds v rule: grow.induct)
  case (1 bl g pl types i k ds v)
  show ?case by (subst grow.simps) (use 1 in \<open>auto simp: Let_def intro: Suc_leD\<close>)
qed

lemma plane_judge_index: "plane_judge p pl types i = Some (1, k, d) \<Longrightarrow> i + group_size \<le> k"
  using grow_index [of "i + group_size"]
  by (auto simp: plane_judge_def Let_def split: option.splits sum.splits prod.splits if_splits)
    (metis grow_end.simps)+

lemma plane_judge_start: "plane_judge p pl types i = Some (ty, k, d) \<Longrightarrow> i \<le> k"
  using grow_index [of "i + group_size"]
  by (auto simp: plane_judge_def Let_def split: option.splits sum.splits prod.splits if_splits dest!: group_dists_index)
    (metis grow_end.simps add_leD1)+

lemma plane_judge_advance: "plane_judge p pl types i = Some (ty, k, d) \<Longrightarrow> i \<le> k \<and> (ty = 1 \<longrightarrow> i < k)"
  using plane_judge_start plane_judge_index by (fastforce simp: group_size_def)

text \<open>A plane marks its points; its first point is an edge where the plane before it had another direction.\<close>

definition set_ftype :: "nat \<Rightarrow> Feature \<Rightarrow> orgtype list \<Rightarrow> orgtype list" where
  "set_ftype i f types = types[i := (types ! i)\<lparr>ftype := f\<rparr>]"

definition mark_plane :: "nat \<Rightarrow> nat \<Rightarrow> bool \<Rightarrow> point3 \<Rightarrow> point3 \<Rightarrow> orgtype list \<Rightarrow> orgtype list" where
  "mark_plane i i_nex last_state last_direct curr_direct types =
     (let types1 = fold (\<lambda>j. set_ftype j (if j \<noteq> i \<and> j \<noteq> i_nex then Real_Plane else Poss_Plane)) [i..<Suc i_nex] types
      in if last_state \<and> vnorm last_direct > 1 / 10
         then (let m = vdot last_direct curr_direct
               in set_ftype i (if m > - (707 / 1000) \<and> m < 707 / 1000 then Edge_Plane else Real_Plane) types1)
         else types1)"

function plane_loop :: "Preprocess \<Rightarrow> scan \<Rightarrow> nat \<Rightarrow> nat \<Rightarrow> bool \<Rightarrow> point3 \<Rightarrow> orgtype list \<Rightarrow> orgtype list option" where
  "plane_loop p pl limit i last_state last_direct types =
     (if i \<ge> limit then Some types
      else if o_range (types ! i) < blind p then plane_loop p pl limit (Suc i) last_state last_direct types
      else case plane_judge p pl types i of
        None \<Rightarrow> None
      | Some (ty, i_nex, d) \<Rightarrow>
          if ty = 1
          then (if i_nex \<ge> length types then None
                else plane_loop p pl limit i_nex True d (mark_plane i i_nex last_state last_direct d types))
          else plane_loop p pl limit (Suc i_nex) False d types)"
  by pat_completeness auto
termination
  by (relation "measure (\<lambda>(p, pl, limit, i, ls, ld, types). limit - i)")
    (auto dest!: plane_judge_advance)

declare plane_loop.simps [simp del]

section \<open>Edges\<close>

definition edge_jump_judge :: "Preprocess \<Rightarrow> orgtype list \<Rightarrow> nat \<Rightarrow> Surround \<Rightarrow> bool" where
  "edge_jump_judge p types i nor_dir =
     (let near = (\<lambda>j. o_range (types ! j) < blind p);
          (d1, d2) = (if nor_dir = Prev then (dista (types ! (i - 1)), dista (types ! (i - 2)))
                      else (dista (types ! i), dista (types ! (i + 1))));
          hi = sqrt (max d1 d2); lo = sqrt (min d1 d2)
      in if nor_dir = Prev \<and> (near (i - 1) \<or> near (i - 2)) then False
         else if nor_dir = Next \<and> (near (i + 1) \<or> near (i + 2)) then False
         else \<not> (hi > edgea p * lo \<or> hi - lo > edgeb p))"

text \<open>What one neighbour \<open>n\<close> of the point \<open>i\<close> looks like from it.\<close>

definition neighbour_jump :: "Preprocess \<Rightarrow> scan \<Rightarrow> orgtype list \<Rightarrow> nat \<Rightarrow> nat \<Rightarrow> E_jump \<Rightarrow> E_jump" where
  "neighbour_jump p pl types i n old =
     (if o_range (types ! n) < blind p then (if o_range (types ! i) > inf_bound p then Nr_inf else Nr_blind)
      else
        let a = pxyz (pl ! i); v = vsub (pxyz (pl ! n)) a; ang = vdot a v / vnorm a / vnorm v
        in if ang < jump_up_limit p then Nr_180 else if ang > jump_down_limit p then Nr_zero else old)"

text \<open>The vector to a neighbour that is too near is not set; \<open>junk\<close> stands for what is computed from it.\<close>

definition edge_step :: "real \<Rightarrow> Preprocess \<Rightarrow> scan \<Rightarrow> nat \<Rightarrow> orgtype list \<Rightarrow> orgtype list" where
  "edge_step junk p pl i types =
     (let t = types ! i; dp = dista (types ! (i - 1)); d = dista t in
      if o_range t < blind p \<or> ftype t \<notin> {Nor, Poss_Plane} then types
      else if dp < 1 / 10 ^ 16 \<or> d < 1 / 10 ^ 16 then types
      else
        let ep = neighbour_jump p pl types i (i - 1) (edj t Prev); en = neighbour_jump p pl types i (i + 1) (edj t Next);
            vp = vsub (pxyz (pl ! (i - 1))) (pxyz (pl ! i)); vn = vsub (pxyz (pl ! (i + 1))) (pxyz (pl ! i));
            s = (if o_range (types ! (i - 1)) < blind p \<or> o_range (types ! (i + 1)) < blind p then junk
                 else vdot vp vn / vnorm vp / vnorm vn);
            t1 = t\<lparr>edj := (edj t)(Prev := ep, Next := en), intersect := s\<rparr>; types1 = types[i := t1];
            jump = (\<lambda>dir. if edge_jump_judge p types1 i dir then types1[i := t1\<lparr>ftype := Edge_Jump\<rparr>] else types1)
        in if ep = Nr_nor \<and> en = Nr_zero \<and> d > 225 / 10000 \<and> d > 4 * dp then (if s > cos160 p then jump Prev else types1)
           else if ep = Nr_zero \<and> en = Nr_nor \<and> dp > 225 / 10000 \<and> dp > 4 * d then (if s > cos160 p then jump Next else types1)
           else if ep = Nr_nor \<and> en = Nr_inf then jump Prev
           else if ep = Nr_inf \<and> en = Nr_nor then jump Next
           else if ep \<noteq> Nr_nor \<and> en \<noteq> Nr_nor \<and> ftype t = Nor then types1[i := t1\<lparr>ftype := Wire\<rparr>]
           else types1)"

text \<open>Three neighbours on a line with nearly equal distances are a small plane.\<close>

definition small_plane_step :: "Preprocess \<Rightarrow> nat \<Rightarrow> orgtype list \<Rightarrow> orgtype list" where
  "small_plane_step p i types =
     (let t = types ! i; dp = dista (types ! (i - 1)); d = dista t;
          ratio = (if dp > d then dp / d else d / dp);
          promote = (\<lambda>j ts. if ftype (ts ! j) = Nor then set_ftype j Real_Plane ts else ts)
      in if o_range t < blind p \<or> o_range (types ! (i - 1)) < blind p \<or> o_range (types ! (i + 1)) < blind p then types
         else if dp < 1 / 10 ^ 8 \<or> d < 1 / 10 ^ 8 then types
         else if ftype t = Nor \<and> intersect t < smallp_intersect p \<and> ratio < smallp_ratio p
              then set_ftype i Real_Plane (promote (i + 1) (promote (i - 1) types))
              else types)"

section \<open>Collection\<close>

definition plane_type :: "Feature \<Rightarrow> bool" where
  "plane_type f \<longleftrightarrow> f = Poss_Plane \<or> f = Real_Plane"

definition edge_type :: "Feature \<Rightarrow> bool" where
  "edge_type f \<longleftrightarrow> f = Edge_Jump \<or> f = Edge_Plane"

text \<open>The mean of the points from \<open>a\<close> to before \<open>b\<close>.\<close>

definition average :: "scan \<Rightarrow> nat \<Rightarrow> nat \<Rightarrow> PointType" where
  "average pl a b =
     (let n = real (b - a); tot = (\<lambda>f. (\<Sum>k \<leftarrow> [a..<b]. f (pl ! k)) / n) in
      \<lparr>pxyz = vec3 (tot (\<lambda>q. px (pxyz q))) (tot (\<lambda>q. py (pxyz q))) (tot (\<lambda>q. pz (pxyz q))),
       pt_intensity = tot pt_intensity, curvature = tot curvature\<rparr>)"

text \<open>The start of the current run of plane points, the surface cloud and the corner cloud.\<close>

definition collect_step ::
  "nat \<Rightarrow> scan \<Rightarrow> orgtype list \<Rightarrow> nat \<Rightarrow> nat option \<times> scan \<times> scan \<Rightarrow> nat option \<times> scan \<times> scan" where
  "collect_step pfn pl types j s =
     (case s of (last_surface, surf, corn) \<Rightarrow>
        if plane_type (ftype (types ! j)) then
          let a = (case last_surface of None \<Rightarrow> j | Some a \<Rightarrow> a)
          in if int j = int a + int pfn - 1 then (None, surf @ [pl ! j], corn) else (Some a, surf, corn)
        else
          let corn1 = (if edge_type (ftype (types ! j)) then corn @ [pl ! j] else corn)
          in (case last_surface of
                None \<Rightarrow> (None, surf, corn1)
              | Some a \<Rightarrow> (None, surf @ [average pl a j], corn1)))"

fun find_head :: "real \<Rightarrow> orgtype list \<Rightarrow> nat option" where
  "find_head bl [] = None"
| "find_head bl (t # ts) = (if o_range t < bl then map_option Suc (find_head bl ts) else Some 0)"

text \<open>The types after the three passes.\<close>

definition classify :: "real \<Rightarrow> Preprocess \<Rightarrow> scan \<Rightarrow> nat \<Rightarrow> orgtype list \<Rightarrow> orgtype list option" where
  "classify junk p pl start types =
     map_option (\<lambda>types1. fold (small_plane_step p) [start + 1..<length pl - 1] (fold (edge_step junk p pl) [start + 3..<length pl - 3] types1))
       (plane_loop p pl (length pl - group_size) start False vzero types)"

definition give_feature :: "real \<Rightarrow> scan \<Rightarrow> orgtype list \<Rightarrow> Preprocess \<Rightarrow> Preprocess option" where
  "give_feature junk pl types p =
     (if pl = [] then Some p
      else case find_head (blind p) types of
        None \<Rightarrow> None
      | Some start \<Rightarrow>
          (case classify junk p pl start types of
             None \<Rightarrow> None
           | Some types' \<Rightarrow>
               let (_, surf, corn) = fold (collect_step (point_filter_num p) pl types') [start..<length pl] (None, pl_surf p, pl_corn p)
               in Some (p\<lparr>pl_surf := surf, pl_corn := corn\<rparr>)))"

text \<open>
  The ranges and distances of the points of a line; \<open>metric\<close> is the root for the Livox lidars and
  the square for the others.  The distance of the last point is not set.
\<close>

definition line_types :: "(real \<Rightarrow> real) \<Rightarrow> real \<Rightarrow> scan \<Rightarrow> orgtype list" where
  "line_types metric junk pl =
     map (\<lambda>i. let q = pxyz (pl ! i); v = vsub q (pxyz (pl ! Suc i)) in
          (new_orgtype junk)\<lparr>o_range := sqrt (px q * px q + py q * py q),
                             dista := (if Suc i < length pl then metric (vdot v v) else junk)\<rparr>) [0..<length pl]"

end
