(* ===== verification/Lio_Preprocess.thy ===== *)
theory Lio_Preprocess
  imports Lio_Features "HOL-Library.Word"
begin

unbundle bit_operations_syntax

text \<open>
  The handlers of preprocess.cpp, one per kind of lidar: they select points, convert them, give
  them their time offset in the scan and pass the lines to the feature extraction.  \<open>None\<close> is an
  access outside an array, a division by zero or the use of an indeterminate value; \<open>junk\<close> is the
  indeterminate distance of the last point of a line.
\<close>

section \<open>Points\<close>

record livox_point =
  cp_offset_time :: nat
  cp_xyz :: point3
  cp_reflectivity :: real
  cp_tag :: "8 word"
  cp_line :: nat

record livox_msg =
  point_num :: nat
  msg_points :: "livox_point list"

text \<open>
  The members of the registered point types that the handlers read: \<open>rp_time\<close> is \<open>time\<close> of a
  Velodyne and \<open>t\<close> of an Ouster, \<open>rp_ring\<close> is \<open>ring\<close> or \<open>line\<close>.
\<close>

record ros_point =
  rp_xyz :: point3
  rp_intensity :: real
  rp_time :: real
  rp_ring :: nat

definition clear_clouds :: "Preprocess \<Rightarrow> Preprocess" where
  "clear_clouds p = p\<lparr>pl_surf := [], pl_corn := []\<rparr>"

definition push_line :: "nat \<Rightarrow> PointType \<Rightarrow> scan list \<Rightarrow> scan list" where
  "push_line j q buff = buff[j := buff ! j @ [q]]"

text \<open>The lines one after the other; a line without points breaks the loop over its points.\<close>

fun feature_lines :: "real \<Rightarrow> nat \<Rightarrow> (real \<Rightarrow> real) \<Rightarrow> scan list \<Rightarrow> Preprocess \<Rightarrow> Preprocess option" where
  "feature_lines junk least metric [] p = Some p"
| "feature_lines junk least metric (pl # pls) p =
     (if length pl < least then feature_lines junk least metric pls p
      else if pl = [] then None
      else case give_feature junk pl (line_types metric junk pl) p of
        None \<Rightarrow> None
      | Some p' \<Rightarrow> feature_lines junk least metric pls p')"

text \<open>There are buffers for 128 lines.\<close>

definition pl_buff_size :: nat where "pl_buff_size = 128"

section \<open>Livox messages\<close>

definition avia_point :: "livox_point \<Rightarrow> PointType" where
  "avia_point q = \<lparr>pxyz = cp_xyz q, pt_intensity = cp_reflectivity q, curvature = real (cp_offset_time q) / 1000000\<rparr>"

definition avia_valid :: "Preprocess \<Rightarrow> livox_point \<Rightarrow> bool" where
  "avia_valid p q \<longleftrightarrow> cp_line q < N_SCANS p \<and> (cp_tag q AND 0x30 = 0x10 \<or> cp_tag q AND 0x30 = 0x00)"

definition differs :: "PointType \<Rightarrow> PointType \<Rightarrow> bool" where
  "differs a b \<longleftrightarrow>
     \<bar>px (pxyz a) - px (pxyz b)\<bar> > 1 / 10 ^ 7 \<or> \<bar>py (pxyz a) - py (pxyz b)\<bar> > 1 / 10 ^ 7 \<or>
     \<bar>pz (pxyz a) - pz (pxyz b)\<bar> > 1 / 10 ^ 7"

text \<open>
  Both loops run over the points after the first; \<open>prev\<close> is the element of \<open>pl_full\<close> before the
  current one, which is still zero where no point was stored.
\<close>

fun avia_lines :: "Preprocess \<Rightarrow> PointType \<Rightarrow> scan list \<Rightarrow> livox_point list \<Rightarrow> scan list" where
  "avia_lines p prev buff [] = buff"
| "avia_lines p prev buff (q # qs) =
     (if avia_valid p q
      then let pt = avia_point q
           in avia_lines p pt (if differs pt prev then push_line (cp_line q) pt buff else buff) qs
      else avia_lines p zero_point buff qs)"

fun avia_plain :: "Preprocess \<Rightarrow> nat \<Rightarrow> PointType \<Rightarrow> scan \<Rightarrow> livox_point list \<Rightarrow> scan option" where
  "avia_plain p valid_num prev surf [] = Some surf"
| "avia_plain p valid_num prev surf (q # qs) =
     (if avia_valid p q then
        if point_filter_num p = 0 then None
        else if Suc valid_num mod point_filter_num p = 0
        then let pt = avia_point q
             in avia_plain p (Suc valid_num) pt
                  (if differs pt prev \<and> sq_norm pt > blind p * blind p then surf @ [pt] else surf) qs
        else avia_plain p (Suc valid_num) zero_point surf qs
      else avia_plain p valid_num zero_point surf qs)"

definition avia_handler :: "real \<Rightarrow> livox_msg \<Rightarrow> Preprocess \<Rightarrow> Preprocess option" where
  "avia_handler junk msg p =
     (let p1 = clear_clouds p; qs = drop 1 (take (point_num msg) (msg_points msg)) in
      if N_SCANS p > pl_buff_size \<or> (point_num msg > 1 \<and> point_num msg > length (msg_points msg)) then None
      else if feature_enabled p
      then feature_lines junk 6 sqrt (avia_lines p1 zero_point (replicate (N_SCANS p) []) qs) p1
      else map_option (\<lambda>surf. p1\<lparr>pl_surf := surf\<rparr>) (avia_plain p1 0 zero_point [] qs))"

section \<open>Ouster clouds\<close>

definition ros_pt :: "real \<Rightarrow> ros_point \<Rightarrow> PointType" where
  "ros_pt t q = \<lparr>pxyz = rp_xyz q, pt_intensity = rp_intensity q, curvature = t\<rparr>"

definition oust64_point :: "Preprocess \<Rightarrow> ros_point \<Rightarrow> PointType" where
  "oust64_point p q = ros_pt (rp_time q * time_unit_scale p) q"

fun oust64_lines :: "Preprocess \<Rightarrow> scan list \<Rightarrow> ros_point list \<Rightarrow> scan list" where
  "oust64_lines p buff [] = buff"
| "oust64_lines p buff (q # qs) =
     oust64_lines p
       (if sq_norm (oust64_point p q) < blind p * blind p then buff
        else if rp_ring q < N_SCANS p then push_line (rp_ring q) (oust64_point p q) buff else buff) qs"

fun oust64_plain :: "Preprocess \<Rightarrow> nat \<Rightarrow> scan \<Rightarrow> ros_point list \<Rightarrow> scan option" where
  "oust64_plain p i surf [] = Some surf"
| "oust64_plain p i surf (q # qs) =
     (if point_filter_num p = 0 then None
      else if i mod point_filter_num p \<noteq> 0 \<or> sq_norm (oust64_point p q) < blind p * blind p
      then oust64_plain p (Suc i) surf qs
      else oust64_plain p (Suc i) (surf @ [oust64_point p q]) qs)"

definition oust64_handler :: "real \<Rightarrow> ros_point list \<Rightarrow> Preprocess \<Rightarrow> Preprocess option" where
  "oust64_handler junk pl_orig p =
     (let p1 = clear_clouds p in
      if feature_enabled p then
        if N_SCANS p > pl_buff_size then None
        else feature_lines junk 0 (\<lambda>d. d) (oust64_lines p1 (replicate (N_SCANS p) []) pl_orig) p1
      else map_option (\<lambda>surf. p1\<lparr>pl_surf := surf\<rparr>) (oust64_plain p1 0 [] pl_orig))"

section \<open>Time offsets from the angle\<close>

definition yaw_angle :: "PointType \<Rightarrow> real" where
  "yaw_angle q = atan2 (py (pxyz q)) (px (pxyz q)) * 572957 / 10000"

definition omega_l :: "Preprocess \<Rightarrow> real" where
  "omega_l p = 361 / 1000 * real (SCAN_RATE p)"

text \<open>
  For every layer that has been seen, the angle of its first point and the last offset
  (\<open>is_first\<close>, \<open>yaw_fp\<close>, \<open>time_last\<close>; \<open>yaw_last\<close> is never read).
\<close>

type_synonym layers = "(real \<times> real) option list"

definition offset_of :: "real \<Rightarrow> real \<Rightarrow> real \<Rightarrow> real \<Rightarrow> real" where
  "offset_of om yaw fp tlast =
     (let t = (if yaw \<le> fp then (fp - yaw) / om else (fp - yaw + 360) / om)
      in if t < tlast then t + 360 / om else t)"

text \<open>The first point of a layer is dropped, the others get their offset unless they have one.\<close>

definition timed :: "real \<Rightarrow> bool \<Rightarrow> nat \<Rightarrow> PointType \<Rightarrow> layers \<Rightarrow> (PointType option \<times> layers) option" where
  "timed om given layer pt ls =
     (if given then Some (Some pt, ls)
      else if layer \<ge> length ls then None
      else case ls ! layer of
        None \<Rightarrow> Some (None, ls[layer := Some (yaw_angle pt, 0)])
      | Some (fp, tlast) \<Rightarrow>
          let t = offset_of om (yaw_angle pt) fp tlast
          in Some (Some (pt\<lparr>curvature := t\<rparr>), ls[layer := Some (fp, t)]))"

definition new_layers :: "Preprocess \<Rightarrow> layers" where
  "new_layers p = replicate (N_SCANS p) None"

section \<open>Velodyne clouds\<close>

definition velodyne_point :: "Preprocess \<Rightarrow> ros_point \<Rightarrow> PointType" where
  "velodyne_point p q = ros_pt (rp_time q * time_unit_scale p) q"

fun velodyne_lines :: "Preprocess \<Rightarrow> layers \<Rightarrow> scan list \<Rightarrow> ros_point list \<Rightarrow> scan list option" where
  "velodyne_lines p ls buff [] = Some buff"
| "velodyne_lines p ls buff (q # qs) =
     (if rp_ring q \<ge> N_SCANS p then velodyne_lines p ls buff qs
      else case timed (omega_l p) (given_offset_time p) (rp_ring q) (velodyne_point p q) ls of
        None \<Rightarrow> None
      | Some (None, ls') \<Rightarrow> velodyne_lines p ls' buff qs
      | Some (Some pt, ls') \<Rightarrow> velodyne_lines p ls' (push_line (rp_ring q) pt buff) qs)"

fun velodyne_plain :: "Preprocess \<Rightarrow> nat \<Rightarrow> layers \<Rightarrow> scan \<Rightarrow> ros_point list \<Rightarrow> scan option" where
  "velodyne_plain p i ls surf [] = Some surf"
| "velodyne_plain p i ls surf (q # qs) =
     (case timed (omega_l p) (given_offset_time p) (rp_ring q) (velodyne_point p q) ls of
        None \<Rightarrow> None
      | Some (None, ls') \<Rightarrow> velodyne_plain p (Suc i) ls' surf qs
      | Some (Some pt, ls') \<Rightarrow>
          if point_filter_num p = 0 then None
          else velodyne_plain p (Suc i) ls'
                 (if i mod point_filter_num p = 0 \<and> sq_norm pt > blind p * blind p then surf @ [pt] else surf) qs)"

definition velodyne_handler :: "real \<Rightarrow> ros_point list \<Rightarrow> Preprocess \<Rightarrow> Preprocess option" where
  "velodyne_handler junk pl_orig p =
     (if pl_orig = [] then Some (clear_clouds p)
      else
        let p1 = (clear_clouds p)\<lparr>given_offset_time := rp_time (last pl_orig) > 0\<rparr> in
        if feature_enabled p then
          if N_SCANS p > pl_buff_size then None
          else (case velodyne_lines p1 (new_layers p) (replicate (N_SCANS p) []) pl_orig of
                  None \<Rightarrow> None
                | Some buff \<Rightarrow> feature_lines junk 2 (\<lambda>d. d) buff p1)
        else map_option (\<lambda>surf. p1\<lparr>pl_surf := surf\<rparr>) (velodyne_plain p1 0 (new_layers p) [] pl_orig))"

section \<open>Mid-360 and other clouds\<close>

fun mid360_points :: "Preprocess \<Rightarrow> layers \<Rightarrow> scan \<Rightarrow> ros_point list \<Rightarrow> scan option" where
  "mid360_points p ls surf [] = Some surf"
| "mid360_points p ls surf (q # qs) =
     (case timed (omega_l p) False (rp_ring q) (ros_pt 0 q) ls of
        None \<Rightarrow> None
      | Some (None, ls') \<Rightarrow> mid360_points p ls' surf qs
      | Some (Some pt, ls') \<Rightarrow>
          mid360_points p ls' (if sq_norm pt > blind p * blind p then surf @ [pt] else surf) qs)"

definition mid360_handler :: "ros_point list \<Rightarrow> Preprocess \<Rightarrow> Preprocess option" where
  "mid360_handler pl_orig p =
     (if pl_orig = [] then Some (clear_clouds p)
      else let p1 = (clear_clouds p)\<lparr>given_offset_time := False\<rparr>
           in map_option (\<lambda>surf. p1\<lparr>pl_surf := surf\<rparr>) (mid360_points p1 (new_layers p) [] pl_orig))"

definition default_handler :: "ros_point list \<Rightarrow> Preprocess \<Rightarrow> Preprocess option" where
  "default_handler pl_orig p =
     Some ((clear_clouds p)\<lparr>pl_surf := filter (\<lambda>pt. sq_norm pt > blind p * blind p) (map (ros_pt 0) pl_orig)\<rparr>)"

section \<open>Dispatch\<close>

definition process_livox :: "real \<Rightarrow> livox_msg \<Rightarrow> Preprocess \<Rightarrow> (Preprocess \<times> scan) option" where
  "process_livox junk msg p = map_option (\<lambda>p'. (p', pl_surf p')) (avia_handler junk msg p)"

fun unit_scale :: "TIME_UNIT \<Rightarrow> real" where
  "unit_scale SEC = 1000"
| "unit_scale MS = 1"
| "unit_scale US = 1 / 1000"
| "unit_scale NS = 1 / 1000000"
| "unit_scale Other_UNIT = 1"

definition process_cloud :: "real \<Rightarrow> ros_point list \<Rightarrow> Preprocess \<Rightarrow> (Preprocess \<times> scan) option" where
  "process_cloud junk pl_orig p =
     (let p1 = p\<lparr>time_unit_scale := unit_scale (time_unit p)\<rparr> in
      map_option (\<lambda>p'. (p', pl_surf p'))
        (case lidar_type p of
           OUST64 \<Rightarrow> oust64_handler junk pl_orig p1
         | VELO16 \<Rightarrow> velodyne_handler junk pl_orig p1
         | MID360 \<Rightarrow> mid360_handler pl_orig p1
         | _ \<Rightarrow> default_handler pl_orig p1))"

end
