(* ===== verification/Lio_Preprocess_Props.thy ===== *)
theory Lio_Preprocess_Props
  imports Lio_Preprocess
begin

text \<open>The properties of the preprocessing of scans.\<close>

section \<open>The sorting loops\<close>

lemma exchange_spec:
  "exchange x ys = (m, zs) \<Longrightarrow> add_mset m (mset zs) = add_mset x (mset ys) \<and> (\<forall>z \<in> set zs. z \<le> m) \<and> x \<le> m"
proof (induction x ys arbitrary: m zs rule: exchange.induct)
  case (2 x y ys)
  show ?case
  proof (cases "x < y")
    case True
    obtain m' zs' where e: "exchange y ys = (m', zs')" by fastforce
    with "2.IH"(1) [OF True e] "2.prems" True show ?thesis by (auto simp: add_mset_commute)
  next
    case False
    obtain m' zs' where e: "exchange x ys = (m', zs')" by fastforce
    with "2.IH"(2) [OF False e] "2.prems" False show ?thesis by (auto simp: add_mset_commute)
  qed
qed auto

lemma exchange_sort_spec: "mset (exchange_sort xs) = mset xs \<and> sorted (rev (exchange_sort xs))"
proof (induction xs rule: exchange_sort.induct)
  case (2 x xs)
  obtain m zs where e: "exchange x xs = (m, zs)" by fastforce
  have IH: "mset (exchange_sort zs) = mset zs" "sorted (rev (exchange_sort zs))"
    using "2.IH" [OF e [symmetric] refl] by auto
  have "set (exchange_sort zs) = set zs" by (metis IH(1) set_mset_mset)
  then show ?case using e IH exchange_spec [OF e] by (auto simp: sorted_append)
qed simp

text \<open>
  The nested exchange loops of \<open>plane_judge\<close> sort: their result is the list of distances in
  descending order, so the first element is the largest distance, the middle one the median and
  the last but one the second smallest.
\<close>

theorem exchange_loops_sort: "exchange_sort xs = rev (sort xs)"
  using exchange_sort_spec [of xs] properties_for_sort [of "rev (exchange_sort xs)" xs] by simp

section \<open>Livox messages\<close>

text \<open>What is stored, counted from \<open>v\<close> valid points, and what stands before a point.\<close>

definition stored :: "Preprocess \<Rightarrow> nat \<Rightarrow> livox_point list \<Rightarrow> nat \<Rightarrow> bool" where
  "stored p v qs i \<longleftrightarrow>
     avia_valid p (qs ! i) \<and> (v + length (filter (avia_valid p) (take (Suc i) qs))) mod point_filter_num p = 0"

definition before :: "Preprocess \<Rightarrow> nat \<Rightarrow> PointType \<Rightarrow> livox_point list \<Rightarrow> nat \<Rightarrow> PointType" where
  "before p v prev qs i =
     (case i of 0 \<Rightarrow> prev | Suc j \<Rightarrow> if stored p v qs j then avia_point (qs ! j) else zero_point)"

definition kept :: "Preprocess \<Rightarrow> nat \<Rightarrow> PointType \<Rightarrow> livox_point list \<Rightarrow> nat \<Rightarrow> bool" where
  "kept p v prev qs i \<longleftrightarrow>
     stored p v qs i \<and> differs (avia_point (qs ! i)) (before p v prev qs i) \<and> sq_norm (avia_point (qs ! i)) > blind p * blind p"

lemma upt_split: "filter P [0..<Suc n] = (if P 0 then [0] else []) @ map Suc (filter (\<lambda>i. P (Suc i)) [0..<n])"
  by (simp only: upt_conv_Cons zero_less_Suc if_True flip: map_Suc_upt) (simp add: filter_map comp_def)

lemma stored_Suc: "stored p v (q # qs) (Suc i) = stored p (v + (if avia_valid p q then 1 else 0)) qs i"
  by (simp add: stored_def)

lemma kept_Suc:
  "kept p v prev (q # qs) (Suc i) =
     kept p (v + (if avia_valid p q then 1 else 0)) (if stored p v (q # qs) 0 then avia_point q else zero_point) qs i"
  by (simp add: kept_def before_def stored_Suc split: nat.splits)

lemma avia_plain_spec:
  "point_filter_num p \<noteq> 0 \<Longrightarrow>
     avia_plain p v prev surf qs =
       Some (surf @ map (\<lambda>i. avia_point (qs ! i)) (filter (kept p v prev qs) [0..<length qs]))"
proof (induction p v prev surf qs rule: avia_plain.induct)
  case (2 p v prev surf q qs)
  let ?v = "v + (if avia_valid p q then 1 else 0)" and ?s = "stored p v (q # qs) 0"
  let ?prev = "if ?s then avia_point q else zero_point" and ?k = "kept p v prev (q # qs) 0"
  have s: "?s \<longleftrightarrow> avia_valid p q \<and> Suc v mod point_filter_num p = 0" by (simp add: stored_def)
  have k: "?k \<longleftrightarrow> ?s \<and> differs (avia_point q) prev \<and> sq_norm (avia_point q) > blind p * blind p"
    by (simp add: kept_def before_def)
  have "avia_plain p v prev surf (q # qs) = avia_plain p ?v ?prev (if ?k then surf @ [avia_point q] else surf) qs"
    using "2.prems" unfolding k s by (auto simp: Let_def)
  also have "\<dots> = Some ((if ?k then surf @ [avia_point q] else surf)
      @ map (\<lambda>i. avia_point (qs ! i)) (filter (kept p ?v ?prev qs) [0..<length qs]))"
    using "2.IH"(1) [OF _ _ _ refl] "2.IH"(2) "2.IH"(3) "2.prems" unfolding k s by (cases "avia_valid p q"; cases "Suc v mod point_filter_num p = 0") simp_all
  finally show ?case unfolding length_Cons upt_split kept_Suc by (simp add: comp_def)
qed simp

text \<open>
  C39. Without feature extraction the handler of Livox messages keeps exactly the following points,
  in their order: not the first one, on a scan line that is configured, with an accepted tag, at
  a multiple of the filter number among such points, further from its predecessor in the buffer
  than the tolerance (the predecessor counts as zero if it was not stored) and outside the blind
  zone; each with its coordinates and reflectivity, and its offset time in milliseconds.
\<close>

theorem livox_points_exact:
  assumes "\<not> feature_enabled p" and "point_filter_num p \<noteq> 0" and "N_SCANS p \<le> 128" and "point_num msg = length (msg_points msg)"
  shows "process_livox junk msg p =
     (let qs = drop 1 (msg_points msg);
          surf = map (\<lambda>i. avia_point (qs ! i)) (filter (kept p 0 zero_point qs) [0..<length qs])
      in Some (p\<lparr>pl_surf := surf, pl_corn := []\<rparr>, surf))"
proof -
  have "avia_valid (clear_clouds p) = avia_valid p" by (rule ext) (simp add: avia_valid_def clear_clouds_def)
  then have "stored (clear_clouds p) 0 qs i = stored p 0 qs i" for qs i
    by (simp add: stored_def) (simp add: clear_clouds_def)
  then have "kept (clear_clouds p) 0 zero_point qs = kept p 0 zero_point qs" for qs
    by (intro ext) (simp add: kept_def before_def cong: nat.case_cong, simp add: clear_clouds_def)
  then show ?thesis
    using assms unfolding process_livox_def avia_handler_def Let_def
    by (subst avia_plain_spec) (simp_all add: clear_clouds_def pl_buff_size_def)
qed

definition demo_settings :: Preprocess where
  "demo_settings = set_Preprocess False AVIA (1 / 2) 2 (new_Preprocess 0 MS 1)"

definition demo_q :: "real \<Rightarrow> nat \<Rightarrow> nat \<Rightarrow> livox_point" where
  "demo_q x t l = \<lparr>cp_offset_time = t, cp_xyz = vec3 x 0 0, cp_reflectivity = 9, cp_tag = 0x10, cp_line = l\<rparr>"

definition demo_livox :: livox_msg where
  "demo_livox = \<lparr>point_num = 4, msg_points = [demo_q 1 0 0, demo_q 2 1000000 0, demo_q 3 2000000 7, demo_q 4 3000000 1]\<rparr>"

lemma demo_settings_fields [simp]:
  "feature_enabled demo_settings = False" "point_filter_num demo_settings = 2" "N_SCANS demo_settings = 6" "blind demo_settings = 1 / 2"
  by (simp_all add: demo_settings_def set_Preprocess_def new_Preprocess_def)

lemma demo_valid [simp]: "avia_valid demo_settings (demo_q x t l) \<longleftrightarrow> l < 6"
  by (simp add: avia_valid_def demo_q_def)

lemma demo_kept:
  "\<not> kept demo_settings 0 zero_point [demo_q 2 1000000 0, demo_q 3 2000000 7, demo_q 4 3000000 1] 0"
  "\<not> kept demo_settings 0 zero_point [demo_q 2 1000000 0, demo_q 3 2000000 7, demo_q 4 3000000 1] (Suc 0)"
  "kept demo_settings 0 zero_point [demo_q 2 1000000 0, demo_q 3 2000000 7, demo_q 4 3000000 1] (Suc (Suc 0))"
  by (simp_all add: kept_def before_def stored_def)
    (simp add: demo_q_def avia_point_def differs_def zero_point_def vzero_def vec3_def sq_norm_def)

text \<open>The first point is skipped, one is on no configured line, every second of the others is kept.\<close>

lemma livox_points_exact_witness:
  "map_option snd (process_livox 0 demo_livox demo_settings) = Some [avia_point (demo_q 4 3000000 1)]"
proof -
  have "drop 1 (msg_points demo_livox) = [demo_q 2 1000000 0, demo_q 3 2000000 7, demo_q 4 3000000 1]"
    and "point_num demo_livox = length (msg_points demo_livox)" by (simp_all add: demo_livox_def)
  then show ?thesis
    using livox_points_exact [of demo_settings demo_livox 0] by (simp add: Let_def demo_kept del: One_nat_def)
qed

section \<open>Features\<close>

lemma collect_all:
  "fold (collect_step 1 pl types) js (None, surf, corn) =
     (None, surf @ map ((!) pl) (filter (\<lambda>j. plane_type (ftype (types ! j))) js),
      corn @ map ((!) pl) (filter (\<lambda>j. edge_type (ftype (types ! j))) js))"
proof (induction js arbitrary: surf corn)
  case (Cons j js)
  have "\<not> (plane_type f \<and> edge_type f)" for f by (auto simp: plane_type_def edge_type_def)
  then show ?case using Cons by (auto simp: collect_step_def)
qed simp

lemma collect_corners:
  "snd (snd (fold (collect_step n pl types) js (a, surf, corn))) =
     corn @ map ((!) pl) (filter (\<lambda>j. edge_type (ftype (types ! j))) js)"
proof (induction js arbitrary: a surf corn)
  case (Cons j js)
  have "\<not> (plane_type f \<and> edge_type f)" for f by (auto simp: plane_type_def edge_type_def)
  then show ?case using Cons by (auto simp: collect_step_def split: option.splits)
qed simp

text \<open>A point of the surface cloud is a plane point or the mean of consecutive plane points.\<close>

definition from_planes :: "scan \<Rightarrow> orgtype list \<Rightarrow> nat \<Rightarrow> PointType \<Rightarrow> bool" where
  "from_planes pl types n q \<longleftrightarrow>
     (\<exists>a b. a < b \<and> b \<le> length pl \<and> b - a \<le> n \<and> (\<forall>k \<in> {a..<b}. plane_type (ftype (types ! k))) \<and>
            (q = average pl a b \<or> q = pl ! (b - 1)))"

lemma collect_surface:
  assumes "k \<le> m" "m \<le> length pl" "0 < n"
    and "\<And>a. la = Some a \<Longrightarrow> a < k \<and> k < a + n \<and> (\<forall>j \<in> {a..<k}. plane_type (ftype (types ! j)))"
  shows "\<exists>new. fst (snd (fold (collect_step n pl types) [k..<m] (la, surf, corn))) = surf @ new \<and> (\<forall>q \<in> set new. from_planes pl types n q)"
  using assms
proof (induction "m - k" arbitrary: k la surf corn)
  case (Suc d)
  let ?p = "plane_type (ftype (types ! k))"
  define a where "a = (case la of None \<Rightarrow> k | Some a \<Rightarrow> a)"
  have k: "k < m" using Suc by simp
  have a: "a \<le> k" "k < a + n" "\<forall>j \<in> {a..<k}. plane_type (ftype (types ! j))"
    using Suc.prems unfolding a_def by (auto split: option.splits)
  obtain la' add corn' where st: "collect_step n pl types k (la, surf, corn) = (la', surf @ add, corn')"
    and la': "\<And>b. la' = Some b \<Longrightarrow> b < Suc k \<and> Suc k < b + n \<and> (\<forall>j \<in> {b..<Suc k}. plane_type (ftype (types ! j)))"
    and add: "\<forall>q \<in> set add. from_planes pl types n q"
  proof (cases ?p)
    case True
    have run: "\<forall>j \<in> {a..<Suc k}. plane_type (ftype (types ! j))" using a True by (auto simp: less_Suc_eq)
    show ?thesis
    proof (cases "int k = int a + int n - 1")
      case full: True
      have "from_planes pl types n (pl ! k)"
        unfolding from_planes_def using run k full Suc.prems a by (intro exI [of _ a] exI [of _ "Suc k"]) auto
      then show ?thesis using that [of None "[pl ! k]" corn] True full by (simp add: collect_step_def a_def)
    next
      case False
      then have "Suc k < a + n" using a by linarith
      then show ?thesis using that [of "Some a" "[]" corn] True False run a by (simp add: collect_step_def a_def)
    qed
  next
    case False
    let ?c = "if edge_type (ftype (types ! k)) then corn @ [pl ! k] else corn"
    show ?thesis
    proof (cases la)
      case None
      then show ?thesis using that [of None "[]" ?c] False by (simp add: collect_step_def)
    next
      case (Some b)
      then have "from_planes pl types n (average pl b k)"
        unfolding from_planes_def using Suc.prems k by (intro exI [of _ b] exI [of _ k]) auto
      then show ?thesis using that [of None "[average pl b k]" ?c] False Some by (simp add: collect_step_def)
    qed
  qed
  obtain new where "fst (snd (fold (collect_step n pl types) [Suc k..<m] (la', surf @ add, corn'))) = (surf @ add) @ new"
      "\<forall>q \<in> set new. from_planes pl types n q"
    using Suc.hyps(1) [of "Suc k" la' "surf @ add" corn'] Suc.hyps(2) Suc.prems k la' by fastforce
  then show ?case using add k st by (intro exI [of _ "add @ new"]) (auto simp: upt_conv_Cons)
qed simp

text \<open>
  C40. A line is turned into clouds by the types of its points: to the corner cloud go exactly its
  edge points in their order, to the surface cloud only plane points and means of at most as many
  consecutive plane points as the filter number, and with filter number one exactly the plane
  points in their order; both behind what the clouds held.
\<close>

theorem features_are_collected:
  assumes "give_feature junk pl types p = Some p'" and "pl \<noteq> []" and "0 < point_filter_num p"
  shows "\<exists>start types' new.
     find_head (blind p) types = Some start \<and> classify junk p pl start types = Some types' \<and>
     pl_corn p' = pl_corn p @ map ((!) pl) (filter (\<lambda>j. edge_type (ftype (types' ! j))) [start..<length pl]) \<and>
     pl_surf p' = pl_surf p @ new \<and> (\<forall>q \<in> set new. from_planes pl types' (point_filter_num p) q) \<and>
     (point_filter_num p = 1 \<longrightarrow> new = map ((!) pl) (filter (\<lambda>j. plane_type (ftype (types' ! j))) [start..<length pl]))"
proof -
  obtain start types' where h: "find_head (blind p) types = Some start" "classify junk p pl start types = Some types'"
    using assms by (auto simp: give_feature_def split: option.splits)
  let ?f = "fold (collect_step (point_filter_num p) pl types') [start..<length pl] (None, pl_surf p, pl_corn p)"
  have p': "p' = p\<lparr>pl_surf := fst (snd ?f), pl_corn := snd (snd ?f)\<rparr>"
    using assms h by (simp add: give_feature_def case_prod_unfold Let_def)
  obtain new where new: "fst (snd ?f) = pl_surf p @ new" "\<forall>q \<in> set new. from_planes pl types' (point_filter_num p) q"
  proof (cases "start \<le> length pl")
    case True then show ?thesis
      using collect_surface [of start "length pl" pl "point_filter_num p" None types' "pl_surf p" "pl_corn p"] assms that by auto
  next
    case False then show ?thesis using that [of "[]"] by simp
  qed
  show ?thesis
    using h new p' by (intro exI [of _ start] exI [of _ types'] exI [of _ new]) (simp add: collect_corners, use collect_all [of pl types'] in force)
qed

text \<open>Seven points of a wall: the middle ones become a plane.\<close>

definition demo_wall :: scan where
  "demo_wall = map (\<lambda>y. \<lparr>pxyz = vec3 10 y 0, pt_intensity = 1, curvature = 0\<rparr>) [- 3, - 2, - 1, 0, 1, 2, 3]"

definition demo_types :: "orgtype list" where
  "demo_types = replicate 7 ((new_orgtype 1)\<lparr>o_range := 10, dista := 1\<rparr>)"

lemma cos_smaller: "0 \<le> x \<Longrightarrow> x < pi \<Longrightarrow> - 1 < cos x"
  using cos_monotone_0_pi [of x pi] by simp

lemma demo_limits:
  "jump_up_limit demo_settings \<le> 0" "0 \<le> jump_down_limit demo_settings" "- 1 < smallp_intersect demo_settings"
  "smallp_intersect demo_settings \<le> 1" "smallp_ratio demo_settings = 6 / 5"
proof -
  have "cos (pi / 2) \<ge> cos (170 / 180 * pi)" by (rule cos_monotone_0_pi_le) auto
  then show "jump_up_limit demo_settings \<le> 0" by (simp add: demo_settings_def set_Preprocess_def new_Preprocess_def)
  have "0 \<le> cos (8 / 180 * pi)" by (rule cos_ge_zero; use pi_gt_zero in linarith)
  then show "0 \<le> jump_down_limit demo_settings" by (simp add: demo_settings_def set_Preprocess_def new_Preprocess_def)
  show "- 1 < smallp_intersect demo_settings"
    using cos_smaller [of "1725 / 10 / 180 * pi"] by (simp add: demo_settings_def set_Preprocess_def new_Preprocess_def)
  show "smallp_intersect demo_settings \<le> 1" "smallp_ratio demo_settings = 6 / 5"
    by (simp_all add: demo_settings_def set_Preprocess_def new_Preprocess_def)
qed

lemma demo_edge:
  "edge_step 0 demo_settings demo_wall 3 demo_types = demo_types[3 := (demo_types ! 3)\<lparr>intersect := - 1\<rparr>]"
proof -
  have "neighbour_jump demo_settings demo_wall demo_types 3 n Nr_nor = Nr_nor" if "n = 2 \<or> n = 4" for n
    using that demo_limits
    by (auto simp: neighbour_jump_def demo_types_def new_orgtype_def demo_wall_def vec_defs vnorm_def Let_def)
  then show ?thesis
    by (simp add: edge_step_def Let_def demo_types_def new_orgtype_def demo_wall_def vec_defs vnorm_def fun_upd_idem)
qed

lemma demo_classify:
  "classify 0 demo_settings demo_wall 0 demo_types =
     Some (demo_types[3 := (demo_types ! 3)\<lparr>intersect := - 1, ftype := Real_Plane\<rparr>, 2 := (demo_types ! 2)\<lparr>ftype := Real_Plane\<rparr>,
             4 := (demo_types ! 4)\<lparr>ftype := Real_Plane\<rparr>])"
proof -
  let ?t = "demo_types[3 := (demo_types ! 3)\<lparr>intersect := - 1\<rparr>]"
  let ?u = "demo_types[3 := (demo_types ! 3)\<lparr>intersect := - 1, ftype := Real_Plane\<rparr>, 2 := (demo_types ! 2)\<lparr>ftype := Real_Plane\<rparr>,
             4 := (demo_types ! 4)\<lparr>ftype := Real_Plane\<rparr>]"
  have len: "length demo_wall = 7" by (simp add: demo_wall_def)
  have "plane_loop demo_settings demo_wall 0 0 False vzero demo_types = Some demo_types" by (simp add: plane_loop.simps)
  moreover have "small_plane_step demo_settings i ?t = ?t" if "i = 1 \<or> i = 2" for i
    using that demo_limits by (auto simp: small_plane_step_def demo_types_def new_orgtype_def Let_def)
  moreover have "small_plane_step demo_settings 3 ?t = ?u"
    using demo_limits by (simp add: small_plane_step_def demo_types_def new_orgtype_def Let_def set_ftype_def numeral_eq_Suc)
  moreover have "small_plane_step demo_settings i ?u = ?u" if "i = 4 \<or> i = 5" for i
    using that demo_limits by (auto simp: small_plane_step_def demo_types_def new_orgtype_def Let_def)
  moreover have "[1..<6] = [1, 2, 3, 4, 5 :: nat]" "[3..<4] = [3 :: nat]" by (simp_all add: upt_rec)
  ultimately show ?thesis
    unfolding classify_def len by (simp add: group_size_def demo_edge del: One_nat_def)
qed

lemma demo_features:
  "give_feature 0 demo_wall demo_types demo_settings =
     Some (demo_settings\<lparr>pl_surf := [demo_wall ! 3, average demo_wall 4 5], pl_corn := []\<rparr>)"
proof -
  have "find_head (1 / 2) demo_types = Some 0" by (simp add: demo_types_def new_orgtype_def numeral_eq_Suc)
  moreover have "length demo_wall = 7" "demo_wall \<noteq> []" by (simp_all add: demo_wall_def)
  moreover have "[0..<7] = [0, 1, 2, 3, 4, 5, 6 :: nat]" by (simp add: upt_rec)
  moreover have "pl_surf demo_settings = []" "pl_corn demo_settings = []"
    by (simp_all add: demo_settings_def set_Preprocess_def new_Preprocess_def)
  ultimately show ?thesis
    by (simp add: give_feature_def demo_classify del: One_nat_def)
      (simp add: collect_step_def demo_types_def new_orgtype_def plane_type_def edge_type_def)
qed

text \<open>The wall gives a plane point and a mean.\<close>

lemma features_are_collected_witness:
  "\<exists>types'. give_feature 0 demo_wall demo_types demo_settings =
       Some (demo_settings\<lparr>pl_surf := [demo_wall ! 3, average demo_wall 4 5], pl_corn := []\<rparr>) \<and>
     (\<forall>q \<in> {demo_wall ! 3, average demo_wall 4 5}. from_planes demo_wall types' 2 q)"
  using features_are_collected [OF demo_features] demo_features
  by (auto simp: demo_wall_def demo_settings_def set_Preprocess_def new_Preprocess_def)

text \<open>
  A wall that reaches the end of its line: the last group of points ends behind the line, and its
  last mark is written behind the array.
\<close>

definition long_wall :: scan where
  "long_wall = map (\<lambda>y. \<lparr>pxyz = vec3 100 y 0, pt_intensity = 1, curvature = 0\<rparr>) [0, 1, 2, 3, 4, 5, 6, 7, 8]"

definition long_types :: "orgtype list" where
  "long_types = replicate 9 ((new_orgtype 1)\<lparr>o_range := 100, dista := 1\<rparr>)"

lemma long_types_nth: "i < 9 \<Longrightarrow> long_types ! i = (new_orgtype 1)\<lparr>o_range := 100, dista := 1\<rparr>"
  by (simp add: long_types_def)

lemma long_plane: "plane_judge demo_settings long_wall long_types 0 = Some (1, 9, vec3 0 1 0)"
proof -
  have s: "disA demo_settings = 1 / 10" "disB demo_settings = 0" "lidar_type demo_settings = AVIA"
      "limit_maxmid demo_settings = 25 / 4" "limit_midmin demo_settings = 25 / 4" "p2l_ratio demo_settings = 225"
    by (simp_all add: demo_settings_def set_Preprocess_def new_Preprocess_def)
  have n: "length long_wall = 9" "length long_types = 9" by (simp_all add: long_wall_def long_types_def)
  have "group_dists (1 / 2) long_types 0 8 [] = Some (Inr (replicate 8 1))"
    by (simp add: numeral_eq_Suc long_types_def new_orgtype_def)
  moreover have "grow (1 / 2) 100 long_wall long_types 0 8 (replicate 8 1) None = Inr (9, replicate 9 1, Some (vec3 0 8 0))"
  proof -
    have nth: "long_wall ! 8 = \<lparr>pxyz = vec3 100 8 0, pt_intensity = 1, curvature = 0\<rparr>"
        "long_wall ! 0 = \<lparr>pxyz = vec3 100 0 0, pt_intensity = 1, curvature = 0\<rparr>" by (simp_all add: long_wall_def)
    have stop: "grow (1 / 2) 100 long_wall long_types 0 9 ds v = Inr (9, ds, v)" for ds v
      by (simp add: grow.simps n)
    have d: "vsub (vec3 100 8 0) (vec3 100 0 0) = vec3 0 8 0" "vdot (vec3 0 8 0) (vec3 0 8 0) = 64" by (simp_all add: vec_defs)
    have "replicate 8 1 @ [1] = replicate 9 (1 :: real)" by (simp add: numeral_eq_Suc)
    then show ?thesis
      by (subst grow.simps) (simp add: n nth d long_types_nth new_orgtype_def stop)
  qed
  moreover have "width long_wall 0 9 (vec3 0 8 0) = 0"
    by (simp add: width_def n upt_rec long_wall_def cross2_def vec_defs Let_def)
  moreover have "exchange_sort (replicate 9 1) = replicate 9 1"
    by (simp add: numeral_eq_Suc)
  ultimately show ?thesis
    by (simp add: plane_judge_def s group_size_def long_types_nth new_orgtype_def vec_defs vnorm_def Let_def)
qed

lemma wall_to_the_end_overruns: "give_feature 0 long_wall long_types demo_settings = None"
proof -
  have "find_head (1 / 2) long_types = Some 0" by (simp add: long_types_def new_orgtype_def numeral_eq_Suc)
  moreover have "length long_wall = 9" "length long_types = 9" "long_wall \<noteq> []" by (simp_all add: long_wall_def long_types_def)
  moreover have "plane_loop demo_settings long_wall 1 0 False vzero long_types = None"
    by (simp add: plane_loop.simps long_plane long_types_nth new_orgtype_def calculation)
  ultimately show ?thesis by (simp add: give_feature_def classify_def group_size_def)
qed

section \<open>Ouster\<close>

lemma oust64_lines_nth:
  "j < length buff \<Longrightarrow> length buff = N_SCANS p \<Longrightarrow>
     oust64_lines p buff qs ! j =
       buff ! j @ map (oust64_point p) (filter (\<lambda>q. rp_ring q = j \<and> \<not> sq_norm (oust64_point p q) < blind p * blind p) qs)"
  by (induction p buff qs rule: oust64_lines.induct) (auto simp: push_line_def nth_list_update)

lemma oust64_lines_length: "length (oust64_lines p buff qs) = length buff"
  by (induction p buff qs rule: oust64_lines.induct) (auto simp: push_line_def)

lemma feature_lines_empty: "[] \<in> set pls \<Longrightarrow> feature_lines junk 0 metric pls p = None"
  by (induction junk "0 :: nat" metric pls p rule: feature_lines.induct) (auto split: option.splits)

text \<open>
  With feature extraction the handler of Ouster clouds needs a point on every ring: if all
  points of one configured ring are missing or in the blind zone, it leaves the arrays of that
  ring.
\<close>

theorem empty_ring_overruns:
  assumes "lidar_type p = OUST64" "feature_enabled p" "j < N_SCANS p"
    and "\<forall>q \<in> set cloud. rp_ring q = j \<longrightarrow> px (rp_xyz q) ^ 2 + py (rp_xyz q) ^ 2 + pz (rp_xyz q) ^ 2 < blind p ^ 2"
  shows "process_cloud junk cloud p = None"
proof -
  define p1 where "p1 = clear_clouds (p\<lparr>time_unit_scale := unit_scale (time_unit p)\<rparr>)"
  let ?b = "oust64_lines p1 (replicate (N_SCANS p) []) cloud"
  have p1: "N_SCANS p1 = N_SCANS p" "blind p1 = blind p" by (simp_all add: p1_def clear_clouds_def)
  have "sq_norm (oust64_point p1 q) < blind p1 * blind p1" if "q \<in> set cloud" "rp_ring q = j" for q
    using assms(4) that p1 by (simp add: sq_norm_def oust64_point_def ros_pt_def power2_eq_square)
  then have "?b ! j = []" using oust64_lines_nth [of j "replicate (N_SCANS p) []" p1 cloud] assms(3) p1 by simp
  moreover have "j < length ?b" using assms(3) by (simp add: oust64_lines_length)
  ultimately have "[] \<in> set ?b" by (metis nth_mem)
  then show ?thesis
    using assms feature_lines_empty unfolding process_cloud_def oust64_handler_def Let_def p1_def
    by simp
qed

definition demo_ouster :: Preprocess where
  "demo_ouster = set_Preprocess True OUST64 (1 / 2) 1 (new_Preprocess 0 NS 1)"

text \<open>Six rings are configured, all points are on one of them.\<close>

lemma empty_ring_overruns_witness:
  "process_cloud 0 [\<lparr>rp_xyz = vec3 5 0 0, rp_intensity = 1, rp_time = 100, rp_ring = 0\<rparr>] demo_ouster = None"
  by (rule empty_ring_overruns [where j = 1]) (simp_all add: demo_ouster_def set_Preprocess_def new_Preprocess_def)

section \<open>Time offsets\<close>

lemma arctan_upper: "0 \<le> x \<Longrightarrow> arctan x \<le> x - x ^ 3 / 3 + x ^ 5 / 5 - x ^ 7 / 7 + x ^ 9 / 9"
proof -
  assume "0 \<le> x"
  let ?f = "\<lambda>x :: real. x - x ^ 3 / 3 + x ^ 5 / 5 - x ^ 7 / 7 + x ^ 9 / 9 - arctan x"
  have "?f 0 \<le> ?f x"
  proof (rule DERIV_nonneg_imp_nondecreasing [OF \<open>0 \<le> x\<close>])
    fix y :: real
    have "1 - y ^ 2 + y ^ 4 - y ^ 6 + y ^ 8 - inverse (1 + y ^ 2) = y ^ 10 / (1 + y ^ 2)"
      by (simp add: divide_simps add_nonneg_eq_0_iff) algebra
    moreover have "(?f has_real_derivative 1 - y ^ 2 + y ^ 4 - y ^ 6 + y ^ 8 - inverse (1 + y ^ 2)) (at y)"
      by (auto intro!: derivative_eq_intros)
    ultimately show "\<exists>d. (?f has_real_derivative d) (at y) \<and> 0 \<le> d"
      by (intro exI [of _ "1 - y ^ 2 + y ^ 4 - y ^ 6 + y ^ 8 - inverse (1 + y ^ 2)"]) simp
  qed
  then show ?thesis by simp
qed

lemma arctan_lower: "0 \<le> x \<Longrightarrow> x - x ^ 3 / 3 \<le> arctan x"
proof -
  assume "0 \<le> x"
  let ?f = "\<lambda>x :: real. arctan x - (x - x ^ 3 / 3)"
  have "?f 0 \<le> ?f x"
  proof (rule DERIV_nonneg_imp_nondecreasing [OF \<open>0 \<le> x\<close>])
    fix y :: real
    have "inverse (1 + y ^ 2) - (1 - y ^ 2) = y ^ 4 / (1 + y ^ 2)"
      by (simp add: divide_simps add_nonneg_eq_0_iff) algebra
    moreover have "(?f has_real_derivative inverse (1 + y ^ 2) - (1 - y ^ 2)) (at y)"
      by (auto intro!: derivative_eq_intros)
    ultimately show "\<exists>d. (?f has_real_derivative d) (at y) \<and> 0 \<le> d"
      by (intro exI [of _ "inverse (1 + y ^ 2) - (1 - y ^ 2)"]) simp
  qed
  then show ?thesis by simp
qed

lemma pi_upper: "pi * 572957 / 10000 \<le> 180"
  using machin arctan_upper [of "1 / 5"] arctan_lower [of "1 / 239"] by (simp add: power_divide)

lemma atan2_bounds: "\<bar>atan2 y x\<bar> \<le> pi"
proof (cases "x < 0")
  case True
  have "arctan (y / x) \<le> 0" if "0 \<le> y" using that True by (simp add: divide_nonneg_neg)
  moreover have "0 \<le> arctan (y / x)" if "y < 0" using that True by (simp add: divide_nonpos_neg)
  ultimately show ?thesis using True arctan_bounded [of "y / x"] by (auto simp: atan2_def abs_le_iff)
next
  case False
  then show ?thesis using arctan_bounded [of "y / x"] pi_gt_zero by (auto simp: atan2_def abs_le_iff)
qed

lemma yaw_bounds: "\<bar>yaw_angle q\<bar> \<le> 180"
  using atan2_bounds [of "py (pxyz q)" "px (pxyz q)"] pi_upper by (auto simp: yaw_angle_def abs_le_iff)

lemma offset_bounds:
  assumes "0 < om" "\<bar>yaw\<bar> \<le> 180" "\<bar>fp\<bar> \<le> 180"
  shows "0 \<le> offset_of om yaw fp tlast" "offset_of om yaw fp tlast \<le> 720 / om"
proof -
  define d where "d = (if yaw \<le> fp then fp - yaw else fp - yaw + 360)"
  have d: "0 \<le> d" "d \<le> 360" using assms by (auto simp: d_def abs_le_iff)
  have "offset_of om yaw fp tlast = (if d / om < tlast then (d + 360) / om else d / om)"
    by (simp add: offset_of_def d_def Let_def add_divide_distrib)
  then show "0 \<le> offset_of om yaw fp tlast" "offset_of om yaw fp tlast \<le> 720 / om"
    using d assms(1) by (auto intro!: divide_right_mono divide_nonneg_pos)
qed

text \<open>The layers that have been seen have the angle of a point.\<close>

definition layers_ok :: "nat \<Rightarrow> layers \<Rightarrow> bool" where
  "layers_ok n ls \<longleftrightarrow> length ls = n \<and> (\<forall>fp t. Some (fp, t) \<in> set ls \<longrightarrow> \<bar>fp\<bar> \<le> 180)"

definition seen :: "layers \<Rightarrow> nat set" where
  "seen ls = {j. j < length ls \<and> ls ! j \<noteq> None}"

lemma timed_first:
  assumes "layers_ok n ls" "layer < n" "layer \<notin> seen ls"
  shows "\<exists>ls'. timed om False layer pt ls = Some (None, ls') \<and> layers_ok n ls' \<and> seen ls' = insert layer (seen ls)"
proof -
  have "ls ! layer = None" using assms unfolding layers_ok_def seen_def by blast
  then have "timed om False layer pt ls = Some (None, ls[layer := Some (yaw_angle pt, 0)])"
    using assms by (simp add: timed_def layers_ok_def)
  moreover have "layers_ok n (ls[layer := Some (yaw_angle pt, 0)])"
    using assms yaw_bounds [of pt] by (auto simp: layers_ok_def dest!: set_update_subset_insert [THEN subsetD])
  moreover have "seen (ls[layer := Some (yaw_angle pt, 0)]) = insert layer (seen ls)"
    using assms by (auto simp: seen_def layers_ok_def nth_list_update)
  ultimately show ?thesis by blast
qed

lemma timed_later:
  assumes "layers_ok n ls" "layer < n" "layer \<in> seen ls" "0 < om"
  shows "\<exists>ls' t. timed om False layer pt ls = Some (Some (pt\<lparr>curvature := t\<rparr>), ls') \<and> layers_ok n ls' \<and> seen ls' = seen ls \<and>
     0 \<le> t \<and> t \<le> 720 / om"
proof -
  obtain fp tlast where e: "ls ! layer = Some (fp, tlast)" using assms by (auto simp: seen_def)
  then have fp: "\<bar>fp\<bar> \<le> 180" using assms nth_mem [of layer ls] by (auto simp: layers_ok_def)
  show ?thesis
    using assms e fp offset_bounds [OF \<open>0 < om\<close> yaw_bounds [of pt] fp, of tlast] unfolding layers_ok_def
    by (auto simp: timed_def seen_def nth_list_update Let_def dest!: set_update_subset_insert [THEN subsetD])
qed

lemma timed_length: "timed om given layer pt ls = Some (r, ls') \<Longrightarrow> length ls' = length ls"
  by (auto simp: timed_def Let_def split: if_splits option.splits)

lemma mid360_points_fail:
  "length ls = N_SCANS p \<Longrightarrow> q \<in> set qs \<Longrightarrow> N_SCANS p \<le> rp_ring q \<Longrightarrow> mid360_points p ls surf qs = None"
proof (induction qs arbitrary: ls surf)
  case (Cons q' qs)
  show ?case
  proof (cases "timed (omega_l p) False (rp_ring q') (ros_pt 0 q') ls")
    case (Some r)
    have "q' \<noteq> q" using Some Cons.prems by (auto simp: timed_def)
    then show ?thesis
      using Some Cons.prems Cons.IH timed_length [of "omega_l p" False "rp_ring q'" "ros_pt 0 q'" ls]
      by (cases r) (auto split: option.splits)
  qed simp
qed simp

text \<open>The points that are not the first of their line, after the lines in \<open>S\<close>, and outside the blind zone.\<close>

definition later_far :: "Preprocess \<Rightarrow> nat set \<Rightarrow> ros_point list \<Rightarrow> nat \<Rightarrow> bool" where
  "later_far p S qs i \<longleftrightarrow>
     rp_ring (qs ! i) \<in> S \<union> rp_ring ` set (take i qs) \<and> sq_norm (ros_pt 0 (qs ! i)) > blind p * blind p"

lemma later_far_0: "later_far p S (q # qs) 0 \<longleftrightarrow> rp_ring q \<in> S \<and> sq_norm (ros_pt 0 q) > blind p * blind p"
  by (simp add: later_far_def)

lemma later_far_Suc: "later_far p S (q # qs) (Suc i) = later_far p (insert (rp_ring q) S) qs i"
  by (simp add: later_far_def)

lemma mid360_points_spec:
  assumes "layers_ok (N_SCANS p) ls" "\<forall>q \<in> set qs. rp_ring q < N_SCANS p" "0 < omega_l p"
  shows "\<exists>new. mid360_points p ls surf qs = Some (surf @ new) \<and>
     map pxyz new = map (\<lambda>i. rp_xyz (qs ! i)) (filter (later_far p (seen ls) qs) [0..<length qs]) \<and>
     (\<forall>pt \<in> set new. 0 \<le> curvature pt \<and> curvature pt \<le> 720 / omega_l p)"
  using assms
proof (induction qs arbitrary: ls surf)
  case (Cons q qs)
  have ring: "rp_ring q < N_SCANS p" using Cons.prems by simp
  have split: "map (\<lambda>i. rp_xyz ((q # qs) ! i)) (filter (later_far p (seen ls) (q # qs)) [0..<length (q # qs)]) =
      (if rp_ring q \<in> seen ls \<and> sq_norm (ros_pt 0 q) > blind p * blind p then [rp_xyz q] else []) @
      map (\<lambda>i. rp_xyz (qs ! i)) (filter (later_far p (insert (rp_ring q) (seen ls)) qs) [0..<length qs])"
    unfolding length_Cons upt_split later_far_Suc later_far_0 by (simp add: comp_def)
  show ?case
  proof (cases "rp_ring q \<in> seen ls")
    case False
    obtain ls' where ls': "timed (omega_l p) False (rp_ring q) (ros_pt 0 q) ls = Some (None, ls')"
        "layers_ok (N_SCANS p) ls'" "seen ls' = insert (rp_ring q) (seen ls)"
      using timed_first [OF Cons.prems(1) ring False] by blast
    show ?thesis using Cons.IH [OF ls'(2)] Cons.prems ls' False unfolding split by simp
  next
    case True
    obtain ls' t where ls': "timed (omega_l p) False (rp_ring q) (ros_pt 0 q) ls = Some (Some ((ros_pt 0 q)\<lparr>curvature := t\<rparr>), ls')"
        "layers_ok (N_SCANS p) ls'" "seen ls' = seen ls" "0 \<le> t" "t \<le> 720 / omega_l p"
      using timed_later [OF Cons.prems(1) ring True Cons.prems(3)] by blast
    have ins: "insert (rp_ring q) (seen ls) = seen ls" using True by auto
    have far: "sq_norm ((ros_pt 0 q)\<lparr>curvature := t\<rparr>) = sq_norm (ros_pt 0 q)" by (simp add: sq_norm_def)
    let ?add = "if sq_norm (ros_pt 0 q) > blind p * blind p then [(ros_pt 0 q)\<lparr>curvature := t\<rparr>] else []"
    obtain new where "mid360_points p ls' (surf @ ?add) qs = Some ((surf @ ?add) @ new)"
        "map pxyz new = map (\<lambda>i. rp_xyz (qs ! i)) (filter (later_far p (seen ls) qs) [0..<length qs])"
        "\<forall>pt \<in> set new. 0 \<le> curvature pt \<and> curvature pt \<le> 720 / omega_l p"
      using Cons.IH [OF ls'(2), of "surf @ ?add"] Cons.prems ls'(3) by auto
    then show ?thesis
      using ls' True far unfolding split ins by (intro exI [of _ "?add @ new"]) (auto simp: ros_pt_def)
  qed
qed simp

text \<open>
  The handler of Mid-360 clouds returns exactly when every point is on a configured line; then
  it keeps, in their order, the points outside the blind zone that are not the first of their
  line, and their time offsets are between zero and the time of two revolutions of a lidar that
  scans at the configured rate.
\<close>

theorem mid360_offsets_bounded:
  assumes "lidar_type p = MID360" "0 < SCAN_RATE p"
  shows "case process_cloud junk cloud p of
      None \<Rightarrow> \<exists>q \<in> set cloud. N_SCANS p \<le> rp_ring q
    | Some (p', surf) \<Rightarrow>
        (\<forall>q \<in> set cloud. rp_ring q < N_SCANS p) \<and>
        map pxyz surf = map (\<lambda>i. rp_xyz (cloud ! i)) (filter (later_far p {} cloud) [0..<length cloud]) \<and>
        (\<forall>pt \<in> set surf. 0 \<le> curvature pt \<and> curvature pt \<le> 720 / (361 / 1000 * real (SCAN_RATE p)))"
proof (cases "\<forall>q \<in> set cloud. rp_ring q < N_SCANS p")
  case False
  then obtain q where q: "q \<in> set cloud" "N_SCANS p \<le> rp_ring q" by (auto simp: not_less)
  then have "process_cloud junk cloud p = None"
    using assms by (auto simp: process_cloud_def mid360_handler_def clear_clouds_def new_layers_def Let_def intro!: mid360_points_fail)
  then show ?thesis using q by auto
next
  case True
  define p1 where "p1 = (clear_clouds (p\<lparr>time_unit_scale := unit_scale (time_unit p)\<rparr>))\<lparr>given_offset_time := False\<rparr>"
  have p1: "N_SCANS p1 = N_SCANS p" "omega_l p1 = 361 / 1000 * real (SCAN_RATE p)" "later_far p1 = later_far p"
    by (auto simp: p1_def clear_clouds_def omega_l_def later_far_def fun_eq_iff)
  have "layers_ok (N_SCANS p1) (new_layers p)" "seen (new_layers p) = {}"
    by (auto simp: layers_ok_def new_layers_def seen_def p1)
  with mid360_points_spec [of p1 "new_layers p" cloud "[]"] True assms p1
  obtain new where new: "mid360_points p1 (new_layers p) [] cloud = Some new"
      "map pxyz new = map (\<lambda>i. rp_xyz (cloud ! i)) (filter (later_far p {} cloud) [0..<length cloud])"
      "\<forall>pt \<in> set new. 0 \<le> curvature pt \<and> curvature pt \<le> 720 / (361 / 1000 * real (SCAN_RATE p))"
    by auto
  have "new_layers (p\<lparr>time_unit_scale := unit_scale (time_unit p)\<rparr>) = new_layers p" by (simp add: new_layers_def)
  then have "map_option snd (process_cloud junk cloud p) = Some new"
    using assms new(1) by (cases "cloud = []") (simp_all add: process_cloud_def mid360_handler_def Let_def p1_def clear_clouds_def comp_def)
  then show ?thesis using new True by auto
qed

definition demo_mid360 :: Preprocess where
  "demo_mid360 = set_Preprocess False MID360 (1 / 2) 1 (new_Preprocess 0 NS 1)"

text \<open>Of three points of one line the two later ones are kept.\<close>

lemma mid360_offsets_bounded_witness:
  "\<exists>p' surf. process_cloud 0 (map (\<lambda>y. \<lparr>rp_xyz = vec3 5 y 0, rp_intensity = 1, rp_time = 0, rp_ring = 2\<rparr>) [0, 1, 2]) demo_mid360
       = Some (p', surf) \<and> map pxyz surf = [vec3 5 1 0, vec3 5 2 0] \<and> (\<forall>pt \<in> set surf. 0 \<le> curvature pt)"
proof -
  have d: "lidar_type demo_mid360 = MID360" "SCAN_RATE demo_mid360 = 10" "N_SCANS demo_mid360 = 6" "blind demo_mid360 = 1 / 2"
    by (simp_all add: demo_mid360_def set_Preprocess_def new_Preprocess_def)
  show ?thesis
    using mid360_offsets_bounded [where p = demo_mid360 and junk = 0 and cloud = "map (\<lambda>y. \<lparr>rp_xyz = vec3 5 y 0, rp_intensity = 1, rp_time = 0, rp_ring = 2\<rparr>) [0, 1, 2]"]
    by (auto simp: d later_far_def ros_pt_def sq_norm_def vec3_def upt_rec split: option.splits)
qed

end
