(* ===== verification/Sdk_Protocol.thy ===== *)
theory Sdk_Protocol
  imports Byte_Codec
begin

text \<open>
  The packet format of the Livox SDK (sdk_core/comm): packing a command into a buffer, checking
  and parsing a received buffer, the generator of sequence numbers.  Buffers are lists of
  bytes; an access outside a buffer is \<open>None\<close>.  The two checksums are arguments.
\<close>

section \<open>Buffers\<close>

definition overwrite :: "nat \<Rightarrow> byte list \<Rightarrow> byte list \<Rightarrow> byte list" where
  "overwrite off bs mem = take off mem @ bs @ drop (off + length bs) mem"

definition mem_put :: "nat \<Rightarrow> byte list \<Rightarrow> byte list \<Rightarrow> byte list option" where
  "mem_put off bs mem = (if off + length bs \<le> length mem then Some (overwrite off bs mem) else None)"

lemma length_overwrite: "off + length bs \<le> length mem \<Longrightarrow> length (overwrite off bs mem) = length mem"
  by (simp add: overwrite_def)

lemma mem_put_length: "mem_put off bs mem = Some mem' \<Longrightarrow> length mem' = length mem"
  by (auto simp: mem_put_def length_overwrite split: if_splits)

text \<open>Writing a block of a buffer given in blocks.\<close>

lemma mem_put_block:
  "length a = off \<Longrightarrow> length m = length bs \<Longrightarrow> mem_put off bs (a @ m @ c) = Some (a @ bs @ c)"
  by (simp add: mem_put_def overwrite_def)

section \<open>Packets\<close>

definition kLidarSdk :: "8 word" where "kLidarSdk = 0"

record CommPacket =
  cp_protocol :: "8 word"
  cp_version :: "8 word"
  cp_seq_num :: "32 word"
  cp_cmd_id :: "16 word"
  cp_cmd_type :: "8 word"
  cp_sender_type :: "8 word"
  cp_data :: "byte list"
  cp_data_len :: "16 word"

definition kSdkProtocolSof :: byte where "kSdkProtocolSof = 0xAA"
definition kSdkVer :: byte where "kSdkVer = 0"

text \<open>
  Offsets in \<open>SdkPacket\<close>: sof 0, version 1, length 2, seq\_num 4, cmd\_id 8, cmd\_type 10,
  sender\_type 11, rsvd 12, crc16\_h 18, crc32\_d 20, data 24.
\<close>

definition GetPreambleLen :: nat where "GetPreambleLen = 24"
definition GetPacketWrapperLen :: nat where "GetPacketWrapperLen = 24"

definition GetPacketLen :: "byte list \<Rightarrow> nat option" where
  "GetPacketLen buf = field 2 2 buf"

datatype pack_result = Pack_Error | Packed nat

text \<open>
  \<open>o_len\<close> comes with the buffer.  \<open>sdk_packet->length\<close> is 16 bits wide, so the sum wraps before
  it is compared with the size of the buffer.
\<close>

definition Pack :: "(byte list \<Rightarrow> 16 word) \<Rightarrow> (byte list \<Rightarrow> 32 word) \<Rightarrow> byte list \<Rightarrow> nat \<Rightarrow> CommPacket
    \<Rightarrow> (byte list \<times> pack_result) option" where
  "Pack ccitt crc32 o_buf o_buf_size p =
     (if cp_protocol p \<noteq> kLidarSdk then Some (o_buf, Pack_Error)
      else
        let len = (unat (cp_data_len p) + GetPacketWrapperLen) mod 2 ^ 16 in
        case mem_put 0 (kSdkProtocolSof # kSdkVer # le_bytes 2 len) o_buf of
          None \<Rightarrow> None
        | Some b1 \<Rightarrow>
            if len > o_buf_size then Some (b1, Pack_Error)
            else
              case mem_put 4 (le_bytes 4 (unat (cp_seq_num p) mod 2 ^ 16) @ le_bytes 2 (unat (cp_cmd_id p))
                              @ [cp_cmd_type p, cp_sender_type p]) b1 of
                None \<Rightarrow> None
              | Some b2 \<Rightarrow>
                  (case mem_put 18 (le_bytes 2 (unat (ccitt (take 18 b2)))) b2 of
                     None \<Rightarrow> None
                   | Some b3 \<Rightarrow>
                       let payload = take (unat (cp_data_len p)) (cp_data p);
                           crc = (if cp_data_len p = 0 then 0 else crc32 payload)
                       in (case mem_put 20 (le_bytes 4 (unat crc)) b3 of
                             None \<Rightarrow> None
                           | Some b4 \<Rightarrow> map_option (\<lambda>b5. (b5, Packed len)) (mem_put 24 payload b4))))"

definition ParsePacket :: "byte list \<Rightarrow> nat \<Rightarrow> CommPacket option" where
  "ParsePacket buf buf_size =
     (if buf_size < GetPacketWrapperLen then None
      else
        let len = le_val (take 2 (drop 2 buf))
        in Some \<lparr>cp_protocol = kLidarSdk, cp_version = buf ! 1, cp_seq_num = of_nat (le_val (take 4 (drop 4 buf))),
                 cp_cmd_id = of_nat (le_val (take 2 (drop 8 buf))), cp_cmd_type = buf ! 10, cp_sender_type = buf ! 11,
                 cp_data = drop 24 buf, cp_data_len = of_nat len - of_nat GetPacketWrapperLen\<rparr>)"

text \<open>
  \<open>buf\<close> is the memory behind the pointer, of which \<open>buf_size\<close> bytes were received; the checksum
  of the payload may read past both.
\<close>

definition CheckPreamble :: "(byte list \<Rightarrow> 16 word) \<Rightarrow> (byte list \<Rightarrow> 32 word) \<Rightarrow> byte list \<Rightarrow> nat \<Rightarrow> bool option" where
  "CheckPreamble ccitt crc32 buf buf_size =
     (if buf_size < GetPreambleLen then Some False
      else if buf ! 0 \<noteq> kSdkProtocolSof then Some False
      else if buf ! 1 \<noteq> kSdkVer then Some False
      else
        let len = le_val (take 2 (drop 2 buf)) in
        if len < GetPreambleLen then Some False
        else if le_val (take 2 (drop 18 buf)) \<noteq> unat (ccitt (take 18 buf)) then Some False
        else
          let n = len - GetPacketWrapperLen;
              check = (\<lambda>crc. le_val (take 4 (drop 20 buf)) = unat (crc :: 32 word))
          in if n = 0 then Some (check 0) else map_option (\<lambda>d. check (crc32 d)) (slice 24 n buf))"

definition ParseCommStream :: "(byte list \<Rightarrow> 16 word) \<Rightarrow> (byte list \<Rightarrow> 32 word) \<Rightarrow> byte list \<Rightarrow> nat \<Rightarrow> CommPacket option option" where
  "ParseCommStream ccitt crc32 buf buf_size =
     map_option (\<lambda>good. if good then ParsePacket buf buf_size else None) (CheckPreamble ccitt crc32 buf buf_size)"

section \<open>Sequence numbers\<close>

text \<open>The value of the counter after a call, which is also what the call returns.\<close>

definition GetSeq :: "nat \<Rightarrow> nat" where
  "GetSeq seq = (if seq = 2 ^ 16 - 1 then 1 else (seq + 1) mod 2 ^ 32)"

text \<open>The numbers a counter hands out, from its first value on.\<close>

fun seqs :: "nat \<Rightarrow> nat \<Rightarrow> nat list" where
  "seqs seq 0 = []"
| "seqs seq (Suc n) = GetSeq seq # seqs (GetSeq seq) n"

section \<open>What the protocol guarantees\<close>

lemma unat_less: "unat (w :: 8 word) < 256" "unat (x :: 16 word) < 65536" "unat (y :: 32 word) < 4294967296"
  using unsigned_less [of w, where 'a = nat] unsigned_less [of x, where 'a = nat] unsigned_less [of y, where 'a = nat] by simp_all

text \<open>The header of a packet, its six reserved bytes taken from the buffer.\<close>

definition header :: "byte list \<Rightarrow> nat \<Rightarrow> CommPacket \<Rightarrow> byte list" where
  "header rsvd len p =
     [kSdkProtocolSof, kSdkVer] @ le_bytes 2 len @ le_bytes 4 (unat (cp_seq_num p) mod 2 ^ 16) @ le_bytes 2 (unat (cp_cmd_id p))
     @ [cp_cmd_type p, cp_sender_type p] @ rsvd"

lemma Pack_bytes:
  assumes "cp_protocol p = kLidarSdk" "n = unat (cp_data_len p)" "n \<le> length (cp_data p)" "n + 24 \<le> o_buf_size" "n + 24 < 2 ^ 16"
    and "o_buf_size \<le> length o_buf"
  obtains rsvd rest where "length rsvd = 6"
    and "Pack ccitt crc32 o_buf o_buf_size p =
      Some (header rsvd (n + 24) p @ le_bytes 2 (unat (ccitt (header rsvd (n + 24) p)))
        @ le_bytes 4 (unat (if n = 0 then 0 else crc32 (take n (cp_data p)))) @ take n (cp_data p) @ rest, Packed (n + 24))"
proof -
  define h where "h = take 4 o_buf"
  define h2 where "h2 = take 8 (drop 4 o_buf)"
  define rsvd where "rsvd = take 6 (drop 12 o_buf)"
  define c1 where "c1 = take 2 (drop 18 o_buf)"
  define c2 where "c2 = take 4 (drop 20 o_buf)"
  define pl where "pl = take n (drop 24 o_buf)"
  define rest where "rest = drop (24 + n) o_buf"
  have buf: "o_buf = h @ h2 @ rsvd @ c1 @ c2 @ pl @ rest"
    using append_take_drop_id [of 4 o_buf] append_take_drop_id [of 8 "drop 4 o_buf"] append_take_drop_id [of 6 "drop 12 o_buf"]
      append_take_drop_id [of 2 "drop 18 o_buf"] append_take_drop_id [of 4 "drop 20 o_buf"] append_take_drop_id [of n "drop 24 o_buf"]
    by (simp add: h_def h2_def rsvd_def c1_def c2_def pl_def rest_def add.commute)
  have len: "length h = 4" "length h2 = 8" "length rsvd = 6" "length c1 = 2" "length c2 = 4" "length pl = n"
    using assms(4,6) by (simp_all add: h_def h2_def rsvd_def c1_def c2_def pl_def)
  have n0: "cp_data_len p = 0 \<longleftrightarrow> n = 0" using assms(2) by (simp add: unat_eq_0)
  have wrap: "(n + 24) mod 2 ^ 16 = n + 24" using assms(5) by simp
  let ?h1 = "kSdkProtocolSof # kSdkVer # le_bytes 2 (n + 24)"
  let ?h2 = "le_bytes 4 (unat (cp_seq_num p) mod 2 ^ 16) @ le_bytes 2 (unat (cp_cmd_id p)) @ [cp_cmd_type p, cp_sender_type p]"
  let ?head = "header rsvd (n + 24) p"
  have head: "?head = ?h1 @ ?h2 @ rsvd" "length ?head = 18" by (simp_all add: header_def len)
  have s1: "mem_put 0 ?h1 o_buf = Some (?h1 @ h2 @ rsvd @ c1 @ c2 @ pl @ rest)"
    using mem_put_block [of "[]" 0 h ?h1] len by (simp add: buf numeral_2_eq_2)
  have s2: "mem_put 4 ?h2 (?h1 @ h2 @ rsvd @ c1 @ c2 @ pl @ rest) = Some (?head @ c1 @ c2 @ pl @ rest)"
    using mem_put_block [of ?h1 4 h2 ?h2 "rsvd @ c1 @ c2 @ pl @ rest"] len by (simp add: head(1))
  have s3: "mem_put 18 (le_bytes 2 v) (?head @ c1 @ c2 @ pl @ rest) = Some (?head @ le_bytes 2 v @ c2 @ pl @ rest)" for v
    by (rule mem_put_block) (simp_all add: head(2) len)
  have s4: "mem_put 20 (le_bytes 4 v) (?head @ le_bytes 2 w @ c2 @ pl @ rest) = Some (?head @ le_bytes 2 w @ le_bytes 4 v @ pl @ rest)" for v w
    using mem_put_block [of "?head @ le_bytes 2 w" 20 c2 "le_bytes 4 v" "pl @ rest"] head(2) len by simp
  have s5: "mem_put 24 (take n (cp_data p)) (?head @ le_bytes 2 w @ le_bytes 4 v @ pl @ rest)
      = Some (?head @ le_bytes 2 w @ le_bytes 4 v @ take n (cp_data p) @ rest)" for v w
    using mem_put_block [of "?head @ le_bytes 2 w @ le_bytes 4 v" 24 pl "take n (cp_data p)" rest] head(2) len assms(3) by simp
  have t18: "take 18 (?head @ x) = ?head" for x using head(2) by simp
  have fits: "(n + 24 > o_buf_size) = False" using assms(4) by simp
  have "Pack ccitt crc32 o_buf o_buf_size p =
      Some (?head @ le_bytes 2 (unat (ccitt ?head))
        @ le_bytes 4 (unat (if n = 0 then 0 else crc32 (take n (cp_data p)))) @ take n (cp_data p) @ rest, Packed (n + 24))"
    by (simp only: Pack_def Let_def GetPacketWrapperLen_def assms(1) assms(2) [symmetric] wrap fits s1 s2 s3 s4 s5 n0 t18
        option.case option.map if_False if_True not_True_eq_False simp_thms)
  then show thesis using that len(3) by blast
qed

text \<open>What \<open>CheckPreamble\<close> and \<open>ParsePacket\<close> read in the bytes of a packet.\<close>

lemma parse_bytes:
  assumes "length rsvd = 6" "length d = n" "n + 24 < 2 ^ 16"
    and "buf = header rsvd (n + 24) p @ le_bytes 2 (unat (w :: 16 word)) @ le_bytes 4 (unat (v :: 32 word)) @ d @ rest"
  shows "buf ! 0 = kSdkProtocolSof" "buf ! 1 = kSdkVer" "le_val (take 2 (drop 2 buf)) = n + 24" "take 18 buf = header rsvd (n + 24) p"
    "le_val (take 2 (drop 18 buf)) = unat w" "le_val (take 4 (drop 20 buf)) = unat v" "slice 24 n buf = Some d"
    "ParsePacket buf (n + 24) = Some \<lparr>cp_protocol = kLidarSdk, cp_version = kSdkVer, cp_seq_num = of_nat (unat (cp_seq_num p) mod 2 ^ 16),
        cp_cmd_id = cp_cmd_id p, cp_cmd_type = cp_cmd_type p, cp_sender_type = cp_sender_type p,
        cp_data = d @ rest, cp_data_len = of_nat n\<rparr>"
proof -
  let ?h2 = "le_bytes 4 (unat (cp_seq_num p) mod 2 ^ 16)" and ?h3 = "le_bytes 2 (unat (cp_cmd_id p))"
  let ?tail = "le_bytes 2 (unat w) @ le_bytes 4 (unat v) @ d @ rest"
  have hd: "header rsvd (n + 24) p
      = kSdkProtocolSof # kSdkVer # le_bytes 2 (n + 24) @ ?h2 @ ?h3 @ [cp_cmd_type p, cp_sender_type p] @ rsvd"
    by (simp add: header_def)
  have len18: "length (header rsvd (n + 24) p) = 18" using assms(1) by (simp add: hd)
  show "buf ! 0 = kSdkProtocolSof" "buf ! 1 = kSdkVer" by (simp_all add: assms(4) hd)
  show "take 18 buf = header rsvd (n + 24) p" using len18 by (simp add: assms(4))
  have d2: "drop 2 buf = le_bytes 2 (n + 24) @ ?h2 @ ?h3 @ [cp_cmd_type p, cp_sender_type p] @ rsvd @ ?tail"
    by (simp add: assms(4) hd numeral_2_eq_2)
  have dd: "drop k buf = drop (k - 2) (drop 2 buf)" if "2 \<le> k" for k using that by (simp only: drop_drop le_add_diff_inverse2)
  have n2: "le_val (le_bytes 2 (n + 24)) = n + 24" using assms(3) by (simp add: le_val_le_bytes)
  then show L: "le_val (take 2 (drop 2 buf)) = n + 24" by (simp add: d2)
  have d4: "drop 4 buf = ?h2 @ ?h3 @ [cp_cmd_type p, cp_sender_type p] @ rsvd @ ?tail" by (subst dd) (simp_all add: d2)
  have d8: "drop 8 buf = ?h3 @ [cp_cmd_type p, cp_sender_type p] @ rsvd @ ?tail" by (subst dd) (simp_all add: d2)
  have d10: "drop 10 buf = cp_cmd_type p # cp_sender_type p # rsvd @ ?tail" by (subst dd) (simp_all add: d2)
  have d18: "drop 18 buf = ?tail" using len18 by (simp add: assms(4))
  have d20: "drop 20 buf = le_bytes 4 (unat v) @ d @ rest" using len18 by (simp add: assms(4))
  have d24: "drop 24 buf = d @ rest" using len18 by (simp add: assms(4))
  show "le_val (take 2 (drop 18 buf)) = unat w" using unat_less(2) [of w] by (simp add: d18 le_val_le_bytes)
  show "le_val (take 4 (drop 20 buf)) = unat v" using unat_less(3) [of v] by (simp add: d20 le_val_le_bytes)
  have len: "24 + n \<le> length buf" using len18 assms(2) by (simp add: assms(4))
  show "slice 24 n buf = Some d" using len assms(2) by (simp add: slice_def d24)
  have q4: "le_val (take 4 (drop 4 buf)) = unat (cp_seq_num p) mod 2 ^ 16"
    by (simp add: d4 le_val_le_bytes)
  have q8: "le_val (take 2 (drop 8 buf)) = unat (cp_cmd_id p)" using unat_less(2) [of "cp_cmd_id p"]
    by (simp add: d8 le_val_le_bytes)
  have b10: "buf ! 10 = cp_cmd_type p" using d10 len by (metis nth_via_drop)
  have "drop 11 buf = cp_sender_type p # rsvd @ ?tail" using d10 by (subst dd) (simp_all add: d2)
  then have b11: "buf ! 11 = cp_sender_type p" by (metis nth_via_drop)
  have "(of_nat (n + 24) - of_nat 24 :: 16 word) = of_nat n" by simp
  then show "ParsePacket buf (n + 24) = Some \<lparr>cp_protocol = kLidarSdk, cp_version = kSdkVer,
      cp_seq_num = of_nat (unat (cp_seq_num p) mod 2 ^ 16), cp_cmd_id = cp_cmd_id p, cp_cmd_type = cp_cmd_type p,
      cp_sender_type = cp_sender_type p, cp_data = d @ rest, cp_data_len = of_nat n\<rparr>"
    unfolding ParsePacket_def Let_def GetPacketWrapperLen_def L q4 q8 b10 b11 d24 \<open>buf ! 1 = kSdkVer\<close> by simp
qed

text \<open>
  C23. A packed command is parsed back: whatever the checksums, packing a command that fits the
  buffer succeeds, and parsing the bytes it announces gives the same command, payload included,
  with the sequence number cut to 16 bits.
\<close>

theorem pack_parse_roundtrip:
  assumes "cp_protocol p = kLidarSdk" "unat (cp_data_len p) \<le> length (cp_data p)"
    and "unat (cp_data_len p) + 24 \<le> o_buf_size" "o_buf_size < 2 ^ 16" "o_buf_size \<le> length o_buf"
  shows "\<exists>buf rest. Pack ccitt crc32 o_buf o_buf_size p = Some (buf, Packed (unat (cp_data_len p) + 24))
    \<and> ParseCommStream ccitt crc32 buf (unat (cp_data_len p) + 24)
      = Some (Some (p\<lparr>cp_version := kSdkVer, cp_seq_num := of_nat (unat (cp_seq_num p) mod 2 ^ 16),
          cp_data := take (unat (cp_data_len p)) (cp_data p) @ rest\<rparr>))"
proof -
  define n where "n = unat (cp_data_len p)"
  have n: "n \<le> length (cp_data p)" "n + 24 \<le> o_buf_size" "n + 24 < 2 ^ 16" using assms(2-4) by (simp_all add: n_def)
  obtain rsvd rest where r: "length rsvd = 6" "Pack ccitt crc32 o_buf o_buf_size p =
      Some (header rsvd (n + 24) p @ le_bytes 2 (unat (ccitt (header rsvd (n + 24) p)))
        @ le_bytes 4 (unat (if n = 0 then 0 else crc32 (take n (cp_data p)))) @ take n (cp_data p) @ rest, Packed (n + 24))"
    by (rule Pack_bytes [OF assms(1) n_def n assms(5)])
  define buf where "buf = header rsvd (n + 24) p @ le_bytes 2 (unat (ccitt (header rsvd (n + 24) p)))
        @ le_bytes 4 (unat (if n = 0 then 0 else crc32 (take n (cp_data p)))) @ take n (cp_data p) @ rest"
  have d: "length (take n (cp_data p)) = n" using n(1) by simp
  note B = parse_bytes [OF r(1) d n(3) buf_def]
  have check: "CheckPreamble ccitt crc32 buf (n + 24) = Some True"
    unfolding CheckPreamble_def Let_def GetPreambleLen_def GetPacketWrapperLen_def B(1-6) by (simp add: B(7))
  have "(of_nat n :: 16 word) = cp_data_len p" by (simp add: n_def)
  then have "ParseCommStream ccitt crc32 buf (n + 24)
      = Some (Some (p\<lparr>cp_version := kSdkVer, cp_seq_num := of_nat (unat (cp_seq_num p) mod 2 ^ 16),
          cp_data := take n (cp_data p) @ rest\<rparr>))"
    using check B(8) assms(1) by (simp add: ParseCommStream_def)
  then show ?thesis using r(2) unfolding buf_def n_def by blast
qed

definition demo_packet :: CommPacket where
  "demo_packet = \<lparr>cp_protocol = kLidarSdk, cp_version = 3, cp_seq_num = 65537, cp_cmd_id = 0x0100, cp_cmd_type = 0, cp_sender_type = 0,
     cp_data = [1, 2, 3], cp_data_len = 3\<rparr>"

theorem pack_parse_roundtrip_witness:
  "\<exists>buf q. Pack (\<lambda>_. 7) (\<lambda>_. 9) (replicate 1401 0) 1400 demo_packet = Some (buf, Packed 27)
     \<and> ParseCommStream (\<lambda>_. 7) (\<lambda>_. 9) buf 27 = Some (Some q) \<and> cp_seq_num q = 1 \<and> take 3 (cp_data q) = [1, 2, 3]"
  using pack_parse_roundtrip [of demo_packet 1400 "replicate 1401 0" "\<lambda>_. 7" "\<lambda>_. 9"]
  by (auto simp: demo_packet_def)

text \<open>
  The length field of a received packet is trusted: for every pair of checksums there is a
  datagram of 24 bytes, a header alone, that makes \<open>CheckPreamble\<close> read past the end of the
  buffer.
\<close>

theorem short_datagram_overread:
  "\<exists>buf. length buf = 24 \<and> CheckPreamble ccitt crc32 buf 24 = None"
proof -
  define buf where "buf = header (replicate 6 0) (1 + 24) demo_packet
    @ le_bytes 2 (unat (ccitt (header (replicate 6 0) (1 + 24) demo_packet))) @ le_bytes 4 (unat (0 :: 32 word)) @ [0] @ []"
  have B: "buf ! 0 = kSdkProtocolSof" "buf ! 1 = kSdkVer" "le_val (take 2 (drop 2 buf)) = 1 + 24"
    "take 18 buf = header (replicate 6 0) (1 + 24) demo_packet"
    "le_val (take 2 (drop 18 buf)) = unat (ccitt (header (replicate 6 0) (1 + 24) demo_packet))"
    by (rule parse_bytes [OF _ _ _ buf_def]; simp)+
  have len: "length buf = 25" by (simp add: buf_def header_def)
  have "CheckPreamble ccitt crc32 (take 24 buf) 24 = None"
    unfolding CheckPreamble_def Let_def GetPreambleLen_def GetPacketWrapperLen_def using B len
    by (simp add: drop_take min_def slice_def)
  then show ?thesis using len by (intro exI [of _ "take 24 buf"]) simp
qed

text \<open>Sequence numbers are never 0 and fit the 16 bits that \<open>Pack\<close> keeps of them.\<close>

lemma GetSeq_range: "0 < seq \<Longrightarrow> seq < 2 ^ 16 \<Longrightarrow> 0 < GetSeq seq \<and> GetSeq seq < 2 ^ 16"
  by (auto simp: GetSeq_def)

lemma GetSeq_mod: "0 < seq \<Longrightarrow> seq < 2 ^ 16 \<Longrightarrow> GetSeq seq = seq mod (2 ^ 16 - 1) + 1"
  by (auto simp: GetSeq_def)

lemma seqs_range: "0 < seq \<Longrightarrow> seq < 2 ^ 16 \<Longrightarrow> v \<in> set (seqs seq n) \<Longrightarrow> 0 < v \<and> v < 2 ^ 16"
proof (induction n arbitrary: seq)
  case (Suc n)
  then show ?case using GetSeq_range [OF Suc.prems(1,2)] by auto
qed simp

lemma mod_next: "(s mod m + 1 + j) mod m = (s + Suc j) mod m" for s m j :: nat
  by (metis add.assoc mod_add_left_eq plus_1_eq_Suc)

lemma seqs_nth: "0 < seq \<Longrightarrow> seq < 2 ^ 16 \<Longrightarrow> i < n \<Longrightarrow> seqs seq n ! i = (seq + i) mod (2 ^ 16 - 1) + 1"
proof (induction n arbitrary: seq i)
  case (Suc n)
  note R = GetSeq_range [OF Suc.prems(1,2)]
  show ?case
  proof (cases i)
    case 0
    then show ?thesis using GetSeq_mod Suc.prems by simp
  next
    case (Suc j)
    then have "seqs seq (Suc n) ! i = (GetSeq seq + j) mod (2 ^ 16 - 1) + 1" using Suc.IH [of "GetSeq seq" j] R Suc.prems by simp
    moreover have "(GetSeq seq + j) mod (2 ^ 16 - 1) = (seq + i) mod (2 ^ 16 - 1)"
      unfolding GetSeq_mod [OF Suc.prems(1,2)] Suc by (rule mod_next)
    ultimately show ?thesis by simp
  qed
qed simp

text \<open>
  Any 65535 sequence numbers in a row are different from each other, none is 0, and all fit
  the 16 bits of the packet: a pending command is never mistaken for an older one before the
  numbers wrap.
\<close>

theorem sequence_numbers_distinct:
  assumes "0 < seq" "seq < 2 ^ 16" "n \<le> 2 ^ 16 - 1"
  shows "distinct (seqs seq n) \<and> (\<forall>v \<in> set (seqs seq n). 0 < v \<and> v < 2 ^ 16)"
proof -
  have len: "length (seqs seq n) = n" for seq n by (induction n arbitrary: seq) auto
  have "seqs seq n ! i \<noteq> seqs seq n ! j" if "i < j" "j < n" for i j
  proof
    assume "seqs seq n ! i = seqs seq n ! j"
    then have "(seq + i) mod (2 ^ 16 - 1) = (seq + j) mod (2 ^ 16 - 1)" using seqs_nth assms(1,2) that by simp
    then have "(seq + j) mod (2 ^ 16 - 1) = (seq + i) mod (2 ^ 16 - 1)" by (rule sym)
    then have "(2 ^ 16 - 1) dvd (seq + j) - (seq + i)" by (subst (asm) mod_eq_dvd_iff_nat) (use that in simp_all)
    then have "(2 ^ 16 - 1) dvd j - i" by simp
    then have "2 ^ 16 - 1 \<le> j - i" using that(1) by (intro dvd_imp_le) simp_all
    then show False using that assms(3) by linarith
  qed
  then have "distinct (seqs seq n)" unfolding distinct_conv_nth len by (metis nat_neq_iff)
  then show ?thesis using seqs_range assms(1,2) by blast
qed

theorem sequence_numbers_distinct_witness: "distinct (seqs 65534 3) \<and> seqs 65534 3 = [65535, 1, 2]"
proof -
  have "seqs 65534 (Suc (Suc (Suc 0))) = [65535, 1, 2]" by (simp add: GetSeq_def)
  moreover have "distinct (seqs 65534 3)" by (rule sequence_numbers_distinct [THEN conjunct1]) simp_all
  ultimately show ?thesis by (simp only: numeral_3_eq_3)
qed

end
