(* ===== verification/Sdk_Requests.thy ===== *)
theory Sdk_Requests
  imports Sdk_Protocol
begin

text \<open>
  The bodies of the configuration commands (command\_handler/build\_request.cpp): reading an IP
  address in dotted notation, and the key-value lists that tell a lidar where to send its data.
  Requests are built in a zeroed buffer of 1400 bytes, far more than any of them needs, so a
  request is the list of the bytes up to \<open>req_len\<close>.
\<close>

section \<open>Results\<close>

text \<open>\<open>Failed\<close> is the return value false, \<open>Thrown\<close> an exception that leaves the function.\<close>

datatype 'a outcome = Ok 'a | Failed | Thrown

fun and_then :: "'a outcome \<Rightarrow> ('a \<Rightarrow> 'b outcome) \<Rightarrow> 'b outcome" where
  "and_then (Ok x) f = f x"
| "and_then Failed f = Failed"
| "and_then Thrown f = Thrown"

lemma and_then_Ok [simp]: "and_then r f = Ok y \<longleftrightarrow> (\<exists>x. r = Ok x \<and> f x = Ok y)"
  by (cases r) auto

section \<open>Decimal numbers\<close>

definition is_digit :: "char \<Rightarrow> bool" where
  "is_digit c \<longleftrightarrow> 48 \<le> (of_char c :: nat) \<and> (of_char c :: nat) \<le> 57"

definition is_space :: "char \<Rightarrow> bool" where
  "is_space c \<longleftrightarrow> (of_char c :: nat) = 32 \<or> 9 \<le> (of_char c :: nat) \<and> (of_char c :: nat) \<le> 13"

fun decimal :: "nat \<Rightarrow> string \<Rightarrow> nat" where
  "decimal acc [] = acc"
| "decimal acc (c # cs) = decimal (10 * acc + (of_char c - 48)) cs"

text \<open>\<open>std::stoi\<close>: leading blanks, a sign, the digits up to the first other character; \<open>None\<close> throws.\<close>

definition stoi :: "string \<Rightarrow> int option" where
  "stoi s =
     (let t = dropWhile is_space s;
          neg = (t \<noteq> [] \<and> hd t = CHR ''-'');
          u = (if t \<noteq> [] \<and> (hd t = CHR ''-'' \<or> hd t = CHR ''+'') then tl t else t);
          ds = takeWhile is_digit u;
          v = (if neg then - int (decimal 0 ds) else int (decimal 0 ds))
      in if ds = [] \<or> v < - (2 ^ 31) \<or> 2 ^ 31 \<le> v then None else Some v)"

section \<open>IP addresses\<close>

text \<open>What is before the first dot and what is after it.\<close>

fun find_dot :: "string \<Rightarrow> (string \<times> string) option" where
  "find_dot [] = None"
| "find_dot (c # cs) =
     (if c = CHR ''.'' then Some ([], cs) else map_option (\<lambda>(pre, post). (c # pre, post)) (find_dot cs))"

lemma find_dot_length: "find_dot s = Some (pre, post) \<Longrightarrow> length post < length s"
  by (induction s arbitrary: pre) (fastforce split: if_splits)+

definition octet :: "string \<Rightarrow> byte outcome" where
  "octet s =
     (case stoi s of
        None \<Rightarrow> Thrown
      | Some val \<Rightarrow> if val < 0 \<or> val > 256 then Failed else Ok (of_int val))"

definition ip_end :: "byte list \<Rightarrow> byte list outcome" where
  "ip_end result = (if length result \<noteq> 4 then Failed else Ok result)"

text \<open>The loop of \<open>IpToU8\<close>, on what is left of the string from \<open>pos1\<close> on.\<close>

function ip_loop :: "string \<Rightarrow> byte list \<Rightarrow> byte list outcome" where
  "ip_loop src result =
     (case find_dot src of
        Some (pre, post) \<Rightarrow> and_then (octet pre) (\<lambda>val. ip_loop post (result @ [val]))
      | None \<Rightarrow> if src \<noteq> [] then and_then (octet src) (\<lambda>val. ip_end (result @ [val])) else ip_end result)"
  by pat_completeness auto
termination
  by (relation "measure (length \<circ> fst)") (auto dest: find_dot_length)

declare ip_loop.simps [simp del]

definition IpToU8 :: "string \<Rightarrow> byte list outcome" where
  "IpToU8 src = ip_loop src []"

text \<open>The other direction, as the state information writes addresses.\<close>

fun ip_str :: "byte list \<Rightarrow> string" where
  "ip_str [] = []"
| "ip_str [b] = to_string (unat b)"
| "ip_str (b # bs) = to_string (unat b) @ CHR ''.'' # ip_str bs"

section \<open>Requests\<close>

text \<open>A key-value pair and a list of them, behind their number and two reserved bytes.\<close>

definition kv_bytes :: "nat \<times> byte list \<Rightarrow> byte list" where
  "kv_bytes = (\<lambda>(key, val). le_bytes 2 key @ le_bytes 2 (length val) @ val)"

definition request :: "(nat \<times> byte list) list \<Rightarrow> byte list" where
  "request kvs = le_bytes 2 (length kvs) @ [0, 0] @ concat (map kv_bytes kvs)"

definition kKeyLidarIpCfg :: nat where "kKeyLidarIpCfg = 0x0004"
definition kKeyStateInfoHostIpCfg :: nat where "kKeyStateInfoHostIpCfg = 0x0005"
definition kKeyLidarPointDataHostIpCfg :: nat where "kKeyLidarPointDataHostIpCfg = 0x0006"
definition kKeyLidarImuHostIpCfg :: nat where "kKeyLidarImuHostIpCfg = 0x0007"

lemmas ip_key_defs = kKeyLidarIpCfg_def kKeyStateInfoHostIpCfg_def kKeyLidarPointDataHostIpCfg_def kKeyLidarImuHostIpCfg_def

datatype dev_type = IndustrialHAP | Mid360 | PA | Other_Device nat

record LivoxLidarCfg =
  device_type :: dev_type
  host_ip :: string
  multicast_ip :: string
  push_msg_port :: "16 word"
  point_data_port :: "16 word"
  imu_data_port :: "16 word"

record ViewLidarIpInfo =
  view_dev_type :: dev_type
  view_host_ip :: string
  lidar_point_port :: "16 word"
  lidar_imu_data_port :: "16 word"
  host_point_port :: "16 word"
  host_imu_data_port :: "16 word"

text \<open>\<open>HostIpInfoValue\<close>: the address, the port of the host, the port of the lidar.\<close>

definition host_value :: "string \<Rightarrow> 16 word \<Rightarrow> 16 word \<Rightarrow> byte list outcome" where
  "host_value ip host_port lidar_port =
     and_then (IpToU8 ip) (\<lambda>octets. Ok (octets @ le_bytes 2 (unat host_port) @ le_bytes 2 (unat lidar_port)))"

definition BuildUpdateViewLidarCfgRequest :: "ViewLidarIpInfo \<Rightarrow> byte list outcome" where
  "BuildUpdateViewLidarCfgRequest v =
     and_then (host_value (view_host_ip v) (host_point_port v) (lidar_point_port v)) (\<lambda>pnt.
       if view_dev_type v = PA then Ok (request [(kKeyLidarPointDataHostIpCfg, pnt)])
       else and_then (host_value (view_host_ip v) (host_imu_data_port v) (lidar_imu_data_port v)) (\<lambda>imu.
         Ok (request [(kKeyLidarPointDataHostIpCfg, pnt), (kKeyLidarImuHostIpCfg, imu)])))"

definition target_ip :: "LivoxLidarCfg \<Rightarrow> string" where
  "target_ip cfg = (if multicast_ip cfg = [] then host_ip cfg else multicast_ip cfg)"

definition kMid360LidarPushMsgPort :: "16 word" where "kMid360LidarPushMsgPort = 56200"
definition kMid360LidarPointCloudPort :: "16 word" where "kMid360LidarPointCloudPort = 56300"
definition kMid360LidarImuDataPort :: "16 word" where "kMid360LidarImuDataPort = 56400"
definition kHAPPointDataPort :: "16 word" where "kHAPPointDataPort = 57000"
definition kHAPIMUPort :: "16 word" where "kHAPIMUPort = 58000"
definition kPaLidarPointCloudPort :: "16 word" where "kPaLidarPointCloudPort = 10000"

lemmas port_defs = kMid360LidarPushMsgPort_def kMid360LidarPointCloudPort_def kMid360LidarImuDataPort_def
  kHAPPointDataPort_def kHAPIMUPort_def kPaLidarPointCloudPort_def

definition BuildUpdateMid360LidarCfgRequest :: "LivoxLidarCfg \<Rightarrow> byte list outcome" where
  "BuildUpdateMid360LidarCfgRequest cfg =
     and_then (IpToU8 (host_ip cfg)) (\<lambda>_.
     and_then (host_value (target_ip cfg) (push_msg_port cfg) kMid360LidarPushMsgPort) (\<lambda>state.
     and_then (host_value (target_ip cfg) (point_data_port cfg) kMid360LidarPointCloudPort) (\<lambda>pnt.
     and_then (host_value (target_ip cfg) (imu_data_port cfg) kMid360LidarImuDataPort) (\<lambda>imu.
       Ok (request [(kKeyStateInfoHostIpCfg, state), (kKeyLidarPointDataHostIpCfg, pnt), (kKeyLidarImuHostIpCfg, imu)])))))"

fun point_port_of :: "dev_type \<Rightarrow> 16 word option" where
  "point_port_of IndustrialHAP = Some kHAPPointDataPort"
| "point_port_of Mid360 = Some kMid360LidarPointCloudPort"
| "point_port_of PA = Some kPaLidarPointCloudPort"
| "point_port_of (Other_Device n) = None"

fun imu_port_of :: "dev_type \<Rightarrow> 16 word option" where
  "imu_port_of IndustrialHAP = Some kHAPIMUPort"
| "imu_port_of Mid360 = Some kMid360LidarImuDataPort"
| "imu_port_of PA = None"
| "imu_port_of (Other_Device n) = None"

definition BuildUpdateLidarCfgRequest :: "LivoxLidarCfg \<Rightarrow> byte list outcome" where
  "BuildUpdateLidarCfgRequest cfg =
     and_then (IpToU8 (target_ip cfg)) (\<lambda>_.
       case point_port_of (device_type cfg) of
         None \<Rightarrow> Failed
       | Some pp \<Rightarrow>
           and_then (host_value (target_ip cfg) (point_data_port cfg) pp) (\<lambda>pnt.
             if device_type cfg = PA then Ok (request [(kKeyLidarPointDataHostIpCfg, pnt)])
             else and_then (IpToU8 (target_ip cfg)) (\<lambda>_.
               case imu_port_of (device_type cfg) of
                 None \<Rightarrow> Failed
               | Some ip \<Rightarrow>
                   and_then (host_value (target_ip cfg) (imu_data_port cfg) ip) (\<lambda>imu.
                     Ok (request [(kKeyLidarPointDataHostIpCfg, pnt), (kKeyLidarImuHostIpCfg, imu)])))))"

definition InitLidarIpinfoVal :: "string \<Rightarrow> string \<Rightarrow> string \<Rightarrow> byte list outcome" where
  "InitLidarIpinfoVal ip_addr net_mask gw_addr =
     and_then (IpToU8 ip_addr) (\<lambda>a. and_then (IpToU8 net_mask) (\<lambda>m. and_then (IpToU8 gw_addr) (\<lambda>g. Ok (a @ m @ g))))"

definition BuildSetLidarIPInfoRequest :: "string \<Rightarrow> string \<Rightarrow> string \<Rightarrow> byte list outcome" where
  "BuildSetLidarIPInfoRequest ip_addr net_mask gw_addr =
     and_then (InitLidarIpinfoVal ip_addr net_mask gw_addr) (\<lambda>v. Ok (request [(kKeyLidarIpCfg, v)]))"

definition BuildSetHostStateInfoIPCfgRequest :: "string \<Rightarrow> 16 word \<Rightarrow> 16 word \<Rightarrow> byte list outcome" where
  "BuildSetHostStateInfoIPCfgRequest ip host_port lidar_port =
     and_then (host_value ip host_port lidar_port) (\<lambda>v. Ok (request [(kKeyStateInfoHostIpCfg, v)]))"

definition BuildSetHostPointDataIPInfoRequest :: "string \<Rightarrow> 16 word \<Rightarrow> 16 word \<Rightarrow> byte list outcome" where
  "BuildSetHostPointDataIPInfoRequest ip host_port lidar_port =
     and_then (host_value ip host_port lidar_port) (\<lambda>v. Ok (request [(kKeyLidarPointDataHostIpCfg, v)]))"

definition BuildSetHostImuDataIPInfoRequest :: "string \<Rightarrow> 16 word \<Rightarrow> 16 word \<Rightarrow> byte list outcome" where
  "BuildSetHostImuDataIPInfoRequest ip host_port lidar_port =
     and_then (host_value ip host_port lidar_port) (\<lambda>v. Ok (request [(kKeyLidarImuHostIpCfg, v)]))"

section \<open>Addresses round-trip\<close>

lemma decimal_append: "decimal acc (xs @ ys) = decimal (decimal acc xs) ys"
  by (induction xs arbitrary: acc) auto

lemma of_char_of_digit: "n < 10 \<Longrightarrow> (of_char (char_of (48 + n :: nat)) :: nat) = 48 + n"
  by (simp add: of_char_of)

lemma to_string_step:
  "n < 10 \<Longrightarrow> to_string n = [char_of (48 + n)]"
  "10 \<le> n \<Longrightarrow> to_string n = to_string (n div 10) @ [char_of (48 + n mod 10)]"
  by (subst to_string.simps; simp)+

lemma to_string_digits: "to_string n \<noteq> [] \<and> (\<forall>c \<in> set (to_string n). is_digit c)"
proof (induction n rule: to_string.induct)
  case (1 n)
  show ?case
  proof (cases "n < 10")
    case True
    then show ?thesis by (simp add: to_string_step(1) is_digit_def of_char_of_digit)
  next
    case False
    then show ?thesis using 1 by (auto simp: to_string_step(2) is_digit_def of_char_of_digit)
  qed
qed

lemma decimal_to_string: "decimal 0 (to_string n) = n"
proof (induction n rule: to_string.induct)
  case (1 n)
  show ?case
  proof (cases "n < 10")
    case True
    then show ?thesis by (simp add: to_string_step(1) of_char_of_digit)
  next
    case False
    then show ?thesis using 1 by (simp add: to_string_step(2) decimal_append of_char_of_digit)
  qed
qed

lemma digit_not: "is_digit c \<Longrightarrow> \<not> is_space c" "is_digit c \<Longrightarrow> c \<noteq> CHR ''-''" "is_digit c \<Longrightarrow> c \<noteq> CHR ''+''"
  "is_digit c \<Longrightarrow> c \<noteq> CHR ''.''"
  by (auto simp: is_digit_def is_space_def)

lemma stoi_to_string:
  assumes "n < 2 ^ 31"
  shows "stoi (to_string n) = Some (int n)"
proof -
  obtain c cs where s: "to_string n = c # cs" "is_digit c" "\<forall>d \<in> set cs. is_digit d"
    using to_string_digits [of n] by (cases "to_string n") auto
  have tw: "takeWhile is_digit cs = cs" using s(3) takeWhile_eq_all_conv by blast
  have "decimal 0 (c # cs) = n" using decimal_to_string [of n] s(1) by simp
  then show ?thesis using s digit_not [OF s(2)] assms by (simp add: stoi_def Let_def tw)
qed

lemma octet_to_string: "octet (to_string (unat b)) = Ok b"
proof -
  have "unat b < 256" by (rule unat_less)
  then show ?thesis by (simp add: octet_def stoi_to_string del: of_nat_unat) (simp add: word_of_int_uint)
qed

lemma find_dot_append: "CHR ''.'' \<notin> set pre \<Longrightarrow> find_dot (pre @ CHR ''.'' # post) = Some (pre, post)"
  by (induction pre) auto

lemma find_dot_none: "CHR ''.'' \<notin> set s \<Longrightarrow> find_dot s = None"
  by (induction s) auto

lemma no_dot: "CHR ''.'' \<notin> set (to_string n)"
  using to_string_digits [of n] digit_not(4) by blast

lemma ip_loop_str: "bs \<noteq> [] \<Longrightarrow> ip_loop (ip_str bs) result = ip_end (result @ bs)"
proof (induction bs arbitrary: result rule: ip_str.induct)
  case (2 b)
  show ?case using to_string_digits [of "unat b"]
    by (subst ip_loop.simps) (simp add: find_dot_none no_dot octet_to_string)
next
  case (3 b b' bs)
  then show ?case by (subst ip_loop.simps) (simp add: find_dot_append no_dot octet_to_string)
qed simp

lemma IpToU8_str: "length octets = 4 \<Longrightarrow> IpToU8 (ip_str octets) = Ok octets"
  by (subst IpToU8_def, subst ip_loop_str) (auto simp: ip_end_def)

text \<open>
  Addresses survive printing and reading: \<open>IpToU8\<close> gives back the four octets that the state
  information prints in dotted notation.
\<close>

theorem ip_roundtrip:
  assumes "length octets = 4"
  shows "IpToU8 (ip_str octets) = Ok octets"
  using assms by (rule IpToU8_str)

theorem ip_roundtrip_witness: "IpToU8 ''192.168.1.50'' = Ok [192, 168, 1, 50]"
proof -
  have "ip_str [192, 168, 1, 50] = ''192.168.1.50''" by code_simp
  then show ?thesis using ip_roundtrip [of "[192, 168, 1, 50]"] by simp
qed

text \<open>
  Where the reader is too generous: the octet 256 becomes 0, a trailing dot and trailing text
  are ignored.
\<close>

lemma ip_too_generous:
  "IpToU8 ''10.0.0.256'' = Ok [10, 0, 0, 0]" "IpToU8 ''1.2.3.4.'' = Ok [1, 2, 3, 4]" "IpToU8 ''1.2.3x.4'' = Ok [1, 2, 3, 4]"
  "IpToU8 ''1.2..4'' = Thrown" "IpToU8 ''1.2.3'' = Failed"
  by (simp_all add: IpToU8_def ip_loop.simps octet_def stoi_def is_digit_def is_space_def ip_end_def Let_def)

end
