(* ===== verification/Sdk_Commands.thy ===== *)
theory Sdk_Commands
  imports Sdk_Requests
begin

text \<open>
  The table of pending commands (command\_handler/general\_command\_handler.cpp) and the sending of
  commands through the handlers of the device types.  A command is sent, entered in the table
  with a deadline, and leaves it with its acknowledgement or at a timer tick after the
  deadline; each time its callback is called.  The calls are recorded in order.
\<close>

section \<open>Commands\<close>

datatype LivoxLidarStatus =
    Status_SendFailed | Status_HandlerImplNotExist | Status_InvalidHandle | Status_ChannelNotExist | Status_NotEnoughMemory
  | Status_Timeout | Status_NotSupported | Status_NotConnected | Status_Failure | Status_Success

definition KDefaultTimeOut :: nat where "KDefaultTimeOut = 1000"

definition kCommandTypeCmd :: "8 word" where "kCommandTypeCmd = 0"
definition kCommandTypeAck :: "8 word" where "kCommandTypeAck = 1"

text \<open>The callback is a name; \<open>None\<close> is the null pointer.\<close>

record 'cb Command =
  cmd_packet :: CommPacket
  cmd_handle :: "32 word"
  time_out :: nat
  cmd_cb :: "'cb option"

definition kSdkVersion :: "8 word" where "kSdkVersion = 3"

definition mk_Command :: "nat \<Rightarrow> 16 word \<Rightarrow> byte list \<Rightarrow> 32 word \<Rightarrow> 'cb option \<Rightarrow> 'cb Command" where
  "mk_Command seq cmd_id data handle cb =
     \<lparr>cmd_packet = \<lparr>cp_protocol = kLidarSdk, cp_version = kSdkVersion, cp_seq_num = of_nat seq, cp_cmd_id = cmd_id,
        cp_cmd_type = kCommandTypeCmd, cp_sender_type = 0, cp_data = data, cp_data_len = of_nat (length data)\<rparr>,
      cmd_handle = handle, time_out = KDefaultTimeOut, cmd_cb = cb\<rparr>"

text \<open>A call of a callback: which one, with which status, for which lidar.\<close>

type_synonym 'cb call = "'cb \<times> LivoxLidarStatus \<times> 32 word"

text \<open>\<open>std::map\<close>: a list sorted by key.\<close>

fun map_put :: "nat \<Rightarrow> 'a \<Rightarrow> (nat \<times> 'a) list \<Rightarrow> (nat \<times> 'a) list" where
  "map_put k v [] = [(k, v)]"
| "map_put k v ((k', v') # xs) =
     (if k < k' then (k, v) # (k', v') # xs else if k = k' then (k, v) # xs else (k', v') # map_put k v xs)"

record 'cb command_table =
  pending :: "(nat \<times> 'cb Command \<times> nat) list"
  calls :: "'cb call list"

definition seq_of :: "'cb Command \<Rightarrow> nat" where
  "seq_of c = unat (cp_seq_num (cmd_packet c))"

definition call_cb :: "'cb Command \<Rightarrow> LivoxLidarStatus \<Rightarrow> 32 word \<Rightarrow> 'cb command_table \<Rightarrow> 'cb command_table" where
  "call_cb c status handle t =
     (case cmd_cb c of None \<Rightarrow> t | Some cb \<Rightarrow> t\<lparr>calls := calls t @ [(cb, status, handle)]\<rparr>)"

section \<open>Operations on the table\<close>

text \<open>The entry forgets the data of the packet, which is gone by the time it is answered.\<close>

definition AddCommand :: "nat \<Rightarrow> 'cb Command \<Rightarrow> 'cb command_table \<Rightarrow> 'cb command_table" where
  "AddCommand now c t =
     (if cp_cmd_type (cmd_packet c) = kCommandTypeAck then t
      else t\<lparr>pending :=
        map_put (seq_of c) (c\<lparr>cmd_packet := (cmd_packet c)\<lparr>cp_data := [], cp_data_len := 0\<rparr>\<rparr>, now + time_out c) (pending t)\<rparr>)"

text \<open>An acknowledgement, as both \<open>Handler\<close>s treat it.\<close>

definition handle_ack :: "nat \<Rightarrow> 32 word \<Rightarrow> 'cb command_table \<Rightarrow> 'cb command_table" where
  "handle_ack seq handle t =
     (case map_of (pending t) seq of
        None \<Rightarrow> t
      | Some (c, _) \<Rightarrow> call_cb c Status_Success handle (t\<lparr>pending := filter (\<lambda>e. fst e \<noteq> seq) (pending t)\<rparr>))"

definition CommandsHandle :: "nat \<Rightarrow> 'cb command_table \<Rightarrow> 'cb command_table" where
  "CommandsHandle now t =
     (let timeout_commands = map (fst \<circ> snd) (filter (\<lambda>(_, _, deadline). deadline < now) (pending t));
          t1 = t\<lparr>pending := filter (\<lambda>(_, _, deadline). \<not> deadline < now) (pending t)\<rparr>
      in fold (\<lambda>c. call_cb c Status_Timeout (cmd_handle c)) timeout_commands t1)"

section \<open>Sending\<close>

text \<open>
  \<open>SendCommand\<close> of the handlers of the two device types: the one for HAP enters the command in
  the table itself, before it sends it.  \<open>sent\<close> is what \<open>sendto\<close> reports.
\<close>

datatype handler_kind = Hap_Handler | Mid360_Handler

definition handler_send :: "handler_kind \<Rightarrow> bool \<Rightarrow> nat \<Rightarrow> 'cb Command \<Rightarrow> 'cb command_table \<Rightarrow> LivoxLidarStatus \<times> 'cb command_table" where
  "handler_send kind sent now c t =
     (if cp_cmd_type (cmd_packet c) = kCommandTypeAck then (Status_Failure, t)
      else
        let t1 = (if kind = Hap_Handler then AddCommand now c t else t)
        in if \<not> sent then (Status_SendFailed, call_cb c Status_SendFailed (cmd_handle c) t1) else (Status_Success, t1))"

text \<open>
  \<open>GeneralCommandHandler::SendCommand\<close> is two steps for the other threads: sending and entering
  the command in the table; the result of the first is ignored.
\<close>

definition send_first :: "handler_kind option \<Rightarrow> bool \<Rightarrow> nat \<Rightarrow> 'cb Command \<Rightarrow> 'cb command_table \<Rightarrow> 'cb command_table" where
  "send_first kind sent now c t = (case kind of None \<Rightarrow> t | Some k \<Rightarrow> snd (handler_send k sent now c t))"

definition send_second :: "handler_kind option \<Rightarrow> nat \<Rightarrow> 'cb Command \<Rightarrow> 'cb command_table \<Rightarrow> LivoxLidarStatus \<times> 'cb command_table" where
  "send_second kind now c t =
     (case kind of None \<Rightarrow> (Status_SendFailed, t) | Some k \<Rightarrow> (Status_Success, AddCommand now c t))"

definition SendCommand :: "handler_kind option \<Rightarrow> bool \<Rightarrow> nat \<Rightarrow> 'cb Command \<Rightarrow> 'cb command_table \<Rightarrow> LivoxLidarStatus \<times> 'cb command_table" where
  "SendCommand kind sent now c t = send_second kind now c (send_first kind sent now c t)"

section \<open>Runs\<close>

datatype 'cb command_event =
    Send handler_kind bool nat "'cb Command"
  | Ack nat "32 word"
  | Tick nat

fun command_step :: "'cb command_event \<Rightarrow> 'cb command_table \<Rightarrow> 'cb command_table" where
  "command_step (Send kind sent now c) t = snd (SendCommand (Some kind) sent now c t)"
| "command_step (Ack seq handle) t = handle_ack seq handle t"
| "command_step (Tick now) t = CommandsHandle now t"

definition command_run :: "'cb command_event list \<Rightarrow> 'cb command_table \<Rightarrow> 'cb command_table" where
  "command_run es t = fold command_step es t"

fun sends_of :: "'cb command_event list \<Rightarrow> 'cb Command list" where
  "sends_of [] = []"
| "sends_of (Send kind sent now c # es) = c # sends_of es"
| "sends_of (Ack seq handle # es) = sends_of es"
| "sends_of (Tick now # es) = sends_of es"

definition empty_table :: "'cb command_table" where
  "empty_table = \<lparr>pending = [], calls = []\<rparr>"

section \<open>The table as a finite map\<close>

lemma map_put_of: "map_of (map_put k v xs) = (map_of xs)(k \<mapsto> v)"
  by (induction xs) (auto simp: fun_eq_iff)

lemma map_put_keys: "fst ` set (map_put k v xs) = insert k (fst ` set xs)"
  by (induction k v xs rule: map_put.induct) auto

lemma map_put_sorted: "sorted_wrt (<) (map fst xs) \<Longrightarrow> sorted_wrt (<) (map fst (map_put k v xs))"
proof (induction k v xs rule: map_put.induct)
  case (2 k v k' v' xs)
  then show ?case using map_put_keys [of k v xs] by auto
qed simp

lemma map_of_filter_key: "map_of (filter (\<lambda>e. fst e \<noteq> k) xs) = (map_of xs)(k := None)"
  by (induction xs) (auto simp: fun_eq_iff)

section \<open>Accounting for the callbacks\<close>

text \<open>Every command names itself as its callback, so that its calls can be counted.\<close>

definition self_named :: "nat Command \<Rightarrow> bool" where
  "self_named c \<longleftrightarrow> cmd_cb c = Some (seq_of c) \<and> cp_cmd_type (cmd_packet c) \<noteq> kCommandTypeAck"

definition table_ok :: "nat command_table \<Rightarrow> bool" where
  "table_ok t \<longleftrightarrow> sorted_wrt (<) (map fst (pending t)) \<and> (\<forall>(k, c, d) \<in> set (pending t). cmd_cb c = Some k)"

definition called :: "nat \<Rightarrow> nat command_table \<Rightarrow> nat" where
  "called n t = length (filter (\<lambda>x. fst x = n) (calls t))"

definition score :: "nat \<Rightarrow> nat command_table \<Rightarrow> nat" where
  "score n t = called n t + (if n \<in> fst ` set (pending t) then 1 else 0)"

lemma set_map_put: "sorted_wrt (<) (map fst xs) \<Longrightarrow> set (map_put k v xs) = insert (k, v) {e \<in> set xs. fst e \<noteq> k}"
  by (induction xs) force+

lemma AddCommand_ok:
  assumes "table_ok t" "self_named c"
  shows "table_ok (AddCommand now c t)" "fst ` set (pending (AddCommand now c t)) = insert (seq_of c) (fst ` set (pending t))"
    "calls (AddCommand now c t) = calls t"
proof -
  have s: "sorted_wrt (<) (map fst (pending t))" using assms(1) by (simp add: table_ok_def)
  show "table_ok (AddCommand now c t)"
    using assms map_put_sorted [OF s] set_map_put [OF s] by (auto simp: table_ok_def AddCommand_def self_named_def)
  show "fst ` set (pending (AddCommand now c t)) = insert (seq_of c) (fst ` set (pending t))"
    using assms set_map_put [OF s] by (auto simp: AddCommand_def self_named_def image_iff)
  show "calls (AddCommand now c t) = calls t" by (simp add: AddCommand_def)
qed

lemma call_cb_pending [simp]: "pending (call_cb c st h t) = pending t"
  by (simp add: call_cb_def split: option.splits)

lemma pending_add_call [simp]: "pending (AddCommand now c (call_cb c' st h t)) = pending (AddCommand now c t)"
  by (simp add: AddCommand_def)

lemma called_call: "cmd_cb c = Some k \<Longrightarrow> called n (call_cb c st h t) = called n t + (if k = n then 1 else 0)"
  by (auto simp: called_def call_cb_def)

lemma table_ok_call [simp]: "table_ok (call_cb c st h t) = table_ok t"
  by (simp add: table_ok_def)

lemma send_score:
  assumes "table_ok t" "self_named c" "seq_of c \<notin> fst ` set (pending t)"
  shows "table_ok (command_step (Send kind sent now c) t)"
    "score n (command_step (Send kind sent now c) t) = score n t + (if seq_of c = n then if sent then 1 else 2 else 0)"
    "fst ` set (pending (command_step (Send kind sent now c) t)) = insert (seq_of c) (fst ` set (pending t))"
proof -
  define t1 where "t1 = (if kind = Hap_Handler then AddCommand now c t else t)"
  define t2 where "t2 = (if \<not> sent then call_cb c Status_SendFailed (cmd_handle c) t1 else t1)"
  have eq: "command_step (Send kind sent now c) t = AddCommand now c t2"
    using assms(2) by (simp add: SendCommand_def send_first_def send_second_def handler_send_def self_named_def t1_def t2_def Let_def)
  have ok1: "table_ok t1" using assms(1) AddCommand_ok(1) [OF assms(1,2)] by (simp add: t1_def)
  have p1: "insert (seq_of c) (fst ` set (pending t1)) = insert (seq_of c) (fst ` set (pending t))" "calls t1 = calls t"
    using AddCommand_ok(2,3) [OF assms(1,2)] by (auto simp: t1_def)
  have ok2: "table_ok t2" using ok1 by (simp add: t2_def)
  have cb: "cmd_cb c = Some (seq_of c)" using assms(2) by (simp add: self_named_def)
  have c2: "called n t2 = called n t + (if seq_of c = n \<and> \<not> sent then 1 else 0)"
    using p1(2) by (auto simp: t2_def called_call [OF cb]) (simp_all add: called_def)
  have p2: "fst ` set (pending (AddCommand now c t2)) = insert (seq_of c) (fst ` set (pending t))"
    using AddCommand_ok(2) [OF ok2 assms(2)] p1(1) by (simp add: t2_def)
  show "table_ok (command_step (Send kind sent now c) t)" unfolding eq by (rule AddCommand_ok(1) [OF ok2 assms(2)])
  show "fst ` set (pending (command_step (Send kind sent now c) t)) = insert (seq_of c) (fst ` set (pending t))"
    unfolding eq by (rule p2)
  have "called n (AddCommand now c t2) = called n t2" using AddCommand_ok(3) [OF ok2 assms(2)] by (simp add: called_def)
  then show "score n (command_step (Send kind sent now c) t) = score n t + (if seq_of c = n then if sent then 1 else 2 else 0)"
    unfolding eq score_def using c2 p2 assms(3) by auto
qed

lemma ack_score:
  assumes "table_ok t"
  shows "table_ok (handle_ack seq h t)" "score n (handle_ack seq h t) = score n t"
    "fst ` set (pending (handle_ack seq h t)) \<subseteq> fst ` set (pending t)"
proof -
  have s: "sorted_wrt (<) (map fst (pending t))" using assms by (simp add: table_ok_def)
  have f: "sorted_wrt (<) (map fst (filter P (pending t)))" for P
    using s by (simp add: sorted_wrt_map sorted_wrt_filter)
  have "table_ok (handle_ack seq h t) \<and> score n (handle_ack seq h t) = score n t
      \<and> fst ` set (pending (handle_ack seq h t)) \<subseteq> fst ` set (pending t)"
  proof (cases "map_of (pending t) seq")
    case None
    then show ?thesis using assms by (simp add: handle_ack_def)
  next
    case (Some e)
    obtain c d where e: "e = (c, d)" by (cases e)
    have m: "(seq, c, d) \<in> set (pending t)" using map_of_SomeD [OF Some] by (simp add: e)
    then have cb: "cmd_cb c = Some seq" using assms by (auto simp: table_ok_def)
    have "seq \<in> fst ` set (pending t)" using m by force
    have keys: "fst ` set (filter (\<lambda>e. fst e \<noteq> seq) (pending t)) = fst ` set (pending t) - {seq}" by auto
    have "called n (handle_ack seq h t) = called n t + (if seq = n then 1 else 0)"
      using Some by (simp add: handle_ack_def e called_call [OF cb]) (simp add: called_def)
    moreover have "fst ` set (pending (handle_ack seq h t)) = fst ` set (pending t) - {seq}"
      using Some keys by (simp add: handle_ack_def e)
    ultimately have "score n (handle_ack seq h t) = score n t"
      using \<open>seq \<in> fst ` set (pending t)\<close> unfolding score_def by (cases "seq = n") auto
    moreover have "table_ok (handle_ack seq h t)" using Some assms f by (auto simp: handle_ack_def e table_ok_def)
    ultimately show ?thesis using Some by (auto simp: handle_ack_def e)
  qed
  then show "table_ok (handle_ack seq h t)" "score n (handle_ack seq h t) = score n t"
    "fst ` set (pending (handle_ack seq h t)) \<subseteq> fst ` set (pending t)" by blast+
qed

lemma fold_calls:
  "(\<forall>(k, c, d) \<in> set es. cmd_cb c = Some k) \<Longrightarrow>
   called n (fold (\<lambda>c. call_cb c st (cmd_handle c)) (map (fst \<circ> snd) es) t) = called n t + length (filter (\<lambda>e. fst e = n) es)
   \<and> pending (fold (\<lambda>c. call_cb c st (cmd_handle c)) (map (fst \<circ> snd) es) t) = pending t"
  by (induction es arbitrary: t) (auto simp: called_call)

lemma sorted_filter_one:
  "sorted_wrt (<) (map fst es) \<Longrightarrow> length (filter (\<lambda>e. fst e = (n :: nat)) es) = (if n \<in> fst ` set es then 1 else 0)"
proof (induction es)
  case (Cons e es)
  have "fst e = n \<Longrightarrow> filter (\<lambda>e. fst e = n) es = []" using Cons.prems by (fastforce simp: filter_empty_conv)
  then show ?case using Cons by force
qed simp

lemma tick_score:
  assumes "table_ok t"
  shows "table_ok (CommandsHandle now t)" "score n (CommandsHandle now t) = score n t"
    "pending (CommandsHandle now t) = filter (\<lambda>(_, _, deadline). \<not> deadline < now) (pending t)"
proof -
  let ?out = "filter (\<lambda>(_, _, d). d < now) (pending t)" and ?keep = "filter (\<lambda>(_, _, d). \<not> d < now) (pending t)"
  have s: "sorted_wrt (<) (map fst (pending t))" using assms by (simp add: table_ok_def)
  have f: "sorted_wrt (<) (map fst (filter P (pending t)))" for P
    using s by (simp add: sorted_wrt_map sorted_wrt_filter)
  have cb: "\<forall>(k, c, d) \<in> set ?out. cmd_cb c = Some k" using assms by (auto simp: table_ok_def)
  note F = fold_calls [OF cb, of n Status_Timeout "t\<lparr>pending := ?keep\<rparr>"]
  show p: "pending (CommandsHandle now t) = ?keep" using F by (simp add: CommandsHandle_def Let_def)
  then show "table_ok (CommandsHandle now t)" using assms f by (auto simp: table_ok_def)
  have inj: "distinct (map fst (pending t))" using s by (simp add: strict_sorted_iff)
  have split: "fst ` set (pending t) = fst ` set ?out \<union> fst ` set ?keep" by auto
  have disj: "fst ` set ?out \<inter> fst ` set ?keep = {}"
    using inj by (fastforce simp: distinct_map inj_on_def)
  have "called n (CommandsHandle now t) = called n t + (if n \<in> fst ` set ?out then 1 else 0)"
    using F sorted_filter_one [OF f] by (simp add: CommandsHandle_def Let_def) (simp add: called_def)
  then show "score n (CommandsHandle now t) = score n t" unfolding score_def p using split disj by auto
qed

text \<open>What a run owes to a command: one call, and one more if it could not be sent.\<close>

fun owed :: "nat \<Rightarrow> nat command_event list \<Rightarrow> nat" where
  "owed n [] = 0"
| "owed n (Send kind sent now c # es) = (if seq_of c = n then if sent then 1 else 2 else 0) + owed n es"
| "owed n (Ack seq handle # es) = owed n es"
| "owed n (Tick now # es) = owed n es"

lemma run_score:
  "table_ok t \<Longrightarrow> \<forall>c \<in> set (sends_of es). self_named c \<Longrightarrow> distinct (map seq_of (sends_of es)) \<Longrightarrow>
   fst ` set (pending t) \<inter> seq_of ` set (sends_of es) = {} \<Longrightarrow>
   table_ok (command_run es t) \<and> score n (command_run es t) = score n t + owed n es"
proof (induction es arbitrary: t)
  case (Cons e es)
  show ?case
  proof (cases e)
    case (Send kind sent now c)
    have fresh: "self_named c" "seq_of c \<notin> fst ` set (pending t)" using Cons.prems Send by auto
    note S = send_score [OF Cons.prems(1) fresh, where kind = kind and sent = sent and now = now]
    have "table_ok (command_run es (command_step e t)) \<and> score n (command_run es (command_step e t))
        = score n (command_step e t) + owed n es"
      by (rule Cons.IH) (use S(1,3) Cons.prems Send in auto)
    then show ?thesis using S(2) Send by (simp add: command_run_def del: command_step.simps)
  next
    case (Ack seq h)
    note A = ack_score [OF Cons.prems(1), where seq = seq and h = h]
    have "table_ok (command_run es (handle_ack seq h t)) \<and> score n (command_run es (handle_ack seq h t))
        = score n (handle_ack seq h t) + owed n es"
    proof (rule Cons.IH [OF A(1)])
      show "fst ` set (pending (handle_ack seq h t)) \<inter> seq_of ` set (sends_of es) = {}"
        using A(3) Cons.prems(4) unfolding Ack sends_of.simps by blast
    qed (use Cons.prems Ack in auto)
    then show ?thesis using A(2) Ack by (simp add: command_run_def)
  next
    case (Tick now)
    note T = tick_score [OF Cons.prems(1), where now = now]
    have "table_ok (command_run es (CommandsHandle now t)) \<and> score n (command_run es (CommandsHandle now t))
        = score n (CommandsHandle now t) + owed n es"
    proof (rule Cons.IH [OF T(1)])
      show "fst ` set (pending (CommandsHandle now t)) \<inter> seq_of ` set (sends_of es) = {}"
        using T(3) Cons.prems(4) unfolding Tick sends_of.simps by auto
    qed (use Cons.prems Tick in auto)
    then show ?thesis using T(2) Tick by (simp add: command_run_def)
  qed
qed (simp add: command_run_def)

lemma owed_once:
  "distinct (map seq_of (sends_of es)) \<Longrightarrow> Send kind sent now c \<in> set es \<Longrightarrow> owed (seq_of c) es = (if sent then 1 else 2)"
proof (induction es)
  case (Cons e es)
  have none: "n \<notin> seq_of ` set (sends_of es) \<Longrightarrow> owed n es = 0" for n and es :: "nat command_event list"
    by (induction es rule: sends_of.induct) auto
  have mem: "Send kind sent now c \<in> set es \<Longrightarrow> c \<in> set (sends_of es)" for es :: "nat command_event list"
    by (induction es rule: sends_of.induct) auto
  show ?case
  proof (cases e)
    case (Send k' s' n' c')
    then show ?thesis using Cons none [of "seq_of c" es] mem [of es] by (auto simp: image_iff)
  qed (use Cons in auto)
qed simp

text \<open>Deadlines: nothing in the table is due later than the last send allows.\<close>

fun due_by :: "nat \<Rightarrow> nat command_event \<Rightarrow> bool" where
  "due_by T (Send kind sent now c) = (now + time_out c < T)"
| "due_by T (Ack seq handle) = True"
| "due_by T (Tick now) = True"

lemma run_deadlines:
  "table_ok t \<Longrightarrow> \<forall>(_, _, d) \<in> set (pending t). d < T \<Longrightarrow> \<forall>e \<in> set es. due_by T e \<Longrightarrow> \<forall>c \<in> set (sends_of es). self_named c \<Longrightarrow>
   \<forall>(_, _, d) \<in> set (pending (command_run es t)). d < T"
proof (induction es arbitrary: t)
  case (Cons e es)
  have put: "\<forall>(_, _, d) \<in> set (pending (AddCommand now c t)). d < T"
    if "table_ok t" "\<forall>(_, _, d) \<in> set (pending t). d < T" "now + time_out c < T" for now c t
    using that set_map_put [of "pending t"] by (auto simp: AddCommand_def table_ok_def)
  have step: "table_ok (command_step e t) \<and> (\<forall>(_, _, d) \<in> set (pending (command_step e t)). d < T)"
  proof (cases e)
    case (Send kind sent now c)
    have c: "self_named c" "now + time_out c < T" using Cons.prems(3,4) Send by auto
    have ok: "table_ok (AddCommand now c t)" using AddCommand_ok(1) Cons.prems(1) c(1) by blast
    show ?thesis
      using Send c ok put [OF Cons.prems(1,2) c(2)] put [OF ok put [OF Cons.prems(1,2) c(2)] c(2)] AddCommand_ok(1) [OF _ c(1)] Cons.prems(1,2)
      by (auto simp: SendCommand_def send_first_def send_second_def handler_send_def Let_def table_ok_call put)
  next
    case (Ack seq h)
    have "set (pending (handle_ack seq h t)) \<subseteq> set (pending t)" by (auto simp: handle_ack_def split: option.splits)
    then show ?thesis using Ack Cons.prems(1,2) ack_score(1) [of t seq h] by auto
  next
    case (Tick now)
    then show ?thesis using Cons.prems(1,2) tick_score(1,3) [of t now] by auto
  qed
  have rest: "\<forall>e \<in> set es. due_by T e" "\<forall>c \<in> set (sends_of es). self_named c"
    using Cons.prems(3,4) by (simp, cases e, simp_all)
  have "command_run (e # es) t = command_run es (command_step e t)" by (simp add: command_run_def)
  then show ?case using Cons.IH [OF conjunct1 [OF step] conjunct2 [OF step] rest] by (simp only:)
qed (simp add: command_run_def)


definition demo_cmd :: "nat \<Rightarrow> nat Command" where
  "demo_cmd n = mk_Command n 0x0101 [] 50 (Some n)"


text \<open>
  Sending is not atomic: if the acknowledgement arrives between the two halves of
  \<open>SendCommand\<close>, a Mid-360 command is reported as timed out although it was acknowledged, and a
  HAP command is reported twice, as a success and as timed out.
\<close>

theorem early_acknowledgement:
  assumes "self_named c" "now + time_out c < T"
  shows "calls (CommandsHandle T (snd (send_second (Some Mid360_Handler) now c (handle_ack (seq_of c) h
           (send_first (Some Mid360_Handler) True now c empty_table))))) = [(seq_of c, Status_Timeout, cmd_handle c)]
    \<and> calls (CommandsHandle T (snd (send_second (Some Hap_Handler) now c (handle_ack (seq_of c) h
           (send_first (Some Hap_Handler) True now c empty_table)))))
         = [(seq_of c, Status_Success, h), (seq_of c, Status_Timeout, cmd_handle c)]"
  using assms
  by (simp add: send_first_def send_second_def handler_send_def self_named_def empty_table_def AddCommand_def handle_ack_def
      CommandsHandle_def call_cb_def Let_def)

theorem early_acknowledgement_witness:
  "calls (CommandsHandle 2000 (snd (send_second (Some Mid360_Handler) 0 (demo_cmd 2) (handle_ack (seq_of (demo_cmd 2)) 50
           (send_first (Some Mid360_Handler) True 0 (demo_cmd 2) empty_table))))) = [(seq_of (demo_cmd 2), Status_Timeout, 50)]"
proof -
  have "self_named (demo_cmd 2)" "0 + time_out (demo_cmd 2) < 2000" "cmd_handle (demo_cmd 2) = 50"
    by (simp_all add: self_named_def seq_of_def demo_cmd_def mk_Command_def kCommandTypeCmd_def kCommandTypeAck_def KDefaultTimeOut_def)
  then show ?thesis using early_acknowledgement [of "demo_cmd 2" 0 2000 50] by simp
qed

end
