(* ===== verification/Sdk_State.thy ===== *)
theory Sdk_State
  imports Sdk_Requests
begin

text \<open>
  The state information a lidar pushes (command\_handler/parse\_lidar\_state\_info.cpp): a list of
  key-value pairs copied into a structure, and the structure written as JSON.  The packed
  structure \<open>DirectLidarStateInfo\<close> is its 440 bytes; a copy that leaves it, or that reads
  past the memory of the packet, is an overrun.
\<close>

section \<open>The structure\<close>

text \<open>Keys whose value is copied as it is, with the offset and the size of their field.\<close>

definition field_table :: "(nat \<times> nat \<times> nat) list" where
  "field_table =
     [(0x0000, 0, 1), (0x0001, 1, 1), (0x0002, 2, 1), (0x0003, 3, 1),
      (0x0010, 152, 4), (0x0011, 156, 4), (0x0012, 160, 24), (0x0013, 184, 4), (0x0014, 188, 1),
      (0x0015, 189, 20), (0x0016, 209, 20), (0x0017, 229, 1), (0x0018, 230, 1), (0x0019, 231, 4),
      (0x001A, 235, 1), (0x001B, 236, 1), (0x001C, 237, 1), (0x001D, 238, 1),
      (0x8000, 239, 16), (0x8001, 255, 64), (0x8002, 319, 4), (0x8003, 323, 4), (0x8004, 327, 4),
      (0x8005, 331, 6), (0x8006, 337, 1), (0x8007, 338, 4), (0x8008, 342, 4), (0x8009, 346, 8),
      (0x800A, 354, 8), (0x800B, 362, 8), (0x800C, 370, 1), (0x800D, 371, 32), (0x800E, 403, 2),
      (0x800F, 405, 1), (0x8010, 406, 1), (0x8011, 407, 32), (0xFFFE, 439, 1)]"

definition info_size :: nat where "info_size = 440"

text \<open>The addresses: three strings of 16 bytes, or one and two ports.\<close>

definition host_ip_offset :: "nat \<Rightarrow> nat option" where
  "host_ip_offset = map_of [(0x0005, 52), (0x0006, 72), (0x0007, 92), (0x0008, 112), (0x0009, 132)]"

definition known_key :: "nat \<Rightarrow> bool" where
  "known_key key \<longleftrightarrow> map_of field_table key \<noteq> None \<or> key = kKeyLidarIpCfg \<or> host_ip_offset key \<noteq> None"

section \<open>Parsing\<close>

definition c_bytes :: "string \<Rightarrow> byte list" where
  "c_bytes s = map (\<lambda>c. of_nat (of_char c)) s @ [0]"

text \<open>\<open>strcpy\<close> of the dotted notation of four bytes of the packet.\<close>

definition put_ip :: "byte list \<Rightarrow> nat \<Rightarrow> nat \<Rightarrow> byte list \<Rightarrow> byte list option" where
  "put_ip mem off dst info =
     (case slice off 4 mem of None \<Rightarrow> None | Some octets \<Rightarrow> mem_put dst (c_bytes (ip_str octets)) info)"

definition put_copy :: "byte list \<Rightarrow> nat \<Rightarrow> nat \<Rightarrow> nat \<Rightarrow> byte list \<Rightarrow> byte list option" where
  "put_copy mem off n dst info = (case slice off n mem of None \<Rightarrow> None | Some bs \<Rightarrow> mem_put dst bs info)"

definition ParseLidarIpAddr :: "byte list \<Rightarrow> nat \<Rightarrow> byte list \<Rightarrow> byte list option" where
  "ParseLidarIpAddr mem off info =
     Option.bind (put_ip mem off 4 info) (\<lambda>i1. Option.bind (put_ip mem (off + 4) 20 i1) (put_ip mem (off + 8) 36))"

text \<open>The other address parsers differ only in the destination.\<close>

definition ParseHostIpCfg :: "byte list \<Rightarrow> nat \<Rightarrow> nat \<Rightarrow> byte list \<Rightarrow> byte list option" where
  "ParseHostIpCfg mem off dst info =
     Option.bind (put_ip mem off dst info) (\<lambda>i1.
     Option.bind (put_copy mem (off + 4) 2 (dst + 16) i1) (put_copy mem (off + 6) 2 (dst + 18)))"

definition parse_value :: "byte list \<Rightarrow> nat \<Rightarrow> nat \<Rightarrow> nat \<Rightarrow> byte list \<Rightarrow> byte list option" where
  "parse_value mem key off val_len info =
     (case map_of field_table key of
        Some (dst, _) \<Rightarrow> put_copy mem off val_len dst info
      | None \<Rightarrow>
          if key = kKeyLidarIpCfg then ParseLidarIpAddr mem off info
          else (case host_ip_offset key of
                  Some dst \<Rightarrow> ParseHostIpCfg mem off dst info
                | None \<Rightarrow> Some info))"

datatype parse_result = Parsed "byte list" "nat list" | Rejected | Overrun

fun parse_kvs :: "byte list \<Rightarrow> nat \<Rightarrow> nat \<Rightarrow> nat \<Rightarrow> byte list \<Rightarrow> nat list \<Rightarrow> parse_result" where
  "parse_kvs mem data_len 0 off info key_mask = Parsed info key_mask"
| "parse_kvs mem data_len (Suc n) off info key_mask =
     (if off + 5 > data_len then Rejected
      else case (field off 2 mem, field (off + 2) 2 mem) of
             (Some key, Some val_len) \<Rightarrow>
               (case parse_value mem key ((off + 4) mod 2 ^ 16) val_len info of
                  None \<Rightarrow> Overrun
                | Some info' \<Rightarrow>
                    parse_kvs mem data_len n ((off + 4 + val_len) mod 2 ^ 16) info'
                      (if known_key key then List.insert key key_mask else key_mask))
           | _ \<Rightarrow> Overrun)"

text \<open>\<open>mem\<close> is the memory behind \<open>packet.data\<close>; \<open>info\<close> the bytes of the uninitialised structure.\<close>

definition ParseStateInfo :: "byte list \<Rightarrow> nat \<Rightarrow> byte list \<Rightarrow> parse_result" where
  "ParseStateInfo mem data_len info =
     (case field 0 2 mem of None \<Rightarrow> Overrun | Some key_num \<Rightarrow> parse_kvs mem data_len key_num 4 info [])"

section \<open>JSON\<close>

text \<open>What is handed to the JSON writer; a double is the bits of the float it is made from.\<close>

datatype json =
    JUint nat
  | JInt int
  | JDouble "32 word"
  | JString string
  | JUnterminated
  | JArray "json list"
  | JObject "(string \<times> json) list"

definition get_u :: "byte list \<Rightarrow> nat \<Rightarrow> nat \<Rightarrow> json" where
  "get_u info off n = JUint (le_val (take n (drop off info)))"

definition get_i :: "byte list \<Rightarrow> nat \<Rightarrow> nat \<Rightarrow> json" where
  "get_i info off n = JInt (signed_val n (le_val (take n (drop off info))))"

definition get_flt :: "byte list \<Rightarrow> nat \<Rightarrow> json" where
  "get_flt info off = JDouble (of_nat (le_val (take 4 (drop off info))))"

text \<open>A C string: up to the next zero byte, wherever that is.\<close>

definition get_s :: "byte list \<Rightarrow> nat \<Rightarrow> json" where
  "get_s info off =
     (if 0 \<in> set (drop off info)
      then JString (map (\<lambda>b. char_of (unat b)) (takeWhile (\<lambda>b. b \<noteq> 0) (drop off info)))
      else JUnterminated)"

definition get_us :: "byte list \<Rightarrow> nat \<Rightarrow> nat \<Rightarrow> nat \<Rightarrow> json" where
  "get_us info off n k = JArray (map (\<lambda>i. get_u info (off + n * i) n) [0..<k])"

definition host_json :: "byte list \<Rightarrow> nat \<Rightarrow> json" where
  "host_json info off = JObject [(''ip'', get_s info off), (''dst_port'', get_u info (off + 16) 2), (''src_port'', get_u info (off + 18) 2)]"

definition fov_json :: "byte list \<Rightarrow> nat \<Rightarrow> json" where
  "fov_json info off =
     JObject [(''yaw_start'', get_i info off 4), (''yaw_stop'', get_i info (off + 4) 4),
              (''pitch_start'', get_i info (off + 8) 4), (''pitch_stop'', get_i info (off + 12) 4)]"

definition hex_digit :: "nat \<Rightarrow> char" where
  "hex_digit n = (if n < 10 then char_of (48 + n) else char_of (87 + n))"

definition hex_byte :: "byte \<Rightarrow> string" where
  "hex_byte b = (if unat b < 16 then [hex_digit (unat b)] else [hex_digit (unat b div 16), hex_digit (unat b mod 16)])"

definition status_json :: "byte list \<Rightarrow> nat \<Rightarrow> json" where
  "status_json info off =
     JString (concat (map (\<lambda>idx. hex_byte (info ! (off + idx)) @ (if idx \<noteq> 0 then '' '' else [])) (rev [0..<32])))"

definition entry :: "nat list \<Rightarrow> nat \<Rightarrow> string \<Rightarrow> json \<Rightarrow> (string \<times> json) list" where
  "entry key_mask key name v = (if key \<in> set key_mask then [(name, v)] else [])"

definition json_addresses :: "byte list \<Rightarrow> nat list \<Rightarrow> (string \<times> json) list" where
  "json_addresses info keys =
     entry keys 0x0000 ''pcl_data_type'' (get_u info 0 1) @ entry keys 0x0001 ''pattern_mode'' (get_u info 1 1)
   @ entry keys 0x0002 ''dual_emit_en'' (get_u info 2 1) @ entry keys 0x0003 ''point_send_en'' (get_u info 3 1)
   @ entry keys 0x0004 ''lidar_ipcfg''
       (JObject [(''lidar_ip'', get_s info 4), (''lidar_subnet_mask'', get_s info 20), (''lidar_gateway'', get_s info 36)])
   @ entry keys 0x0005 ''state_info_host_ipcfg'' (host_json info 52)
   @ entry keys 0x0006 ''ponitcloud_host_ipcfg'' (host_json info 72)
   @ entry keys 0x0007 ''imu_host_ipcfg'' (host_json info 92)
   @ entry keys 0x0008 ''ctl_host_ipcfg'' (host_json info 112)
   @ entry keys 0x0009 ''log_host_ipcfg'' (host_json info 132)"

definition attitude_json :: "byte list \<Rightarrow> json" where
  "attitude_json info =
     JObject [(''roll_deg'', get_flt info 160), (''pitch_deg'', get_flt info 164), (''yaw_deg'', get_flt info 168),
              (''x_mm'', get_u info 172 4), (''y_mm'', get_u info 176 4), (''z_mm'', get_u info 180 4)]"

definition json_settings :: "byte list \<Rightarrow> nat list \<Rightarrow> (string \<times> json) list" where
  "json_settings info keys =
     entry keys 0x0010 ''vehicle_speed'' (get_i info 152 4) @ entry keys 0x0011 ''environment_temp'' (get_i info 156 4)
   @ entry keys 0x0012 ''install_attitude'' (attitude_json info)
   @ entry keys 0x0013 ''blind_spot_set'' (get_u info 184 4) @ entry keys 0x0014 ''frame_rate'' (get_u info 188 1)
   @ entry keys 0x0015 ''fov_cfg0'' (fov_json info 189) @ entry keys 0x0016 ''fov_cfg1'' (fov_json info 209)
   @ entry keys 0x0017 ''fov_cfg_en'' (get_u info 229 1) @ entry keys 0x0018 ''detect_mode'' (get_u info 230 1)
   @ entry keys 0x0019 ''func_io_cfg''
       (JObject [(''IN0'', get_u info 231 1), (''IN1'', get_u info 232 1), (''OUT0'', get_u info 233 1), (''OUT1'', get_u info 234 1)])
   @ entry keys 0x001A ''work_tgt_mode'' (get_u info 235 1) @ entry keys 0x001B ''glass_heat'' (get_u info 236 1)
   @ entry keys 0x001C ''imu_data_en'' (get_u info 237 1) @ entry keys 0x001D ''fusa_en'' (get_u info 238 1)"

definition json_status :: "byte list \<Rightarrow> nat list \<Rightarrow> (string \<times> json) list" where
  "json_status info keys =
     entry keys 0x8000 ''sn'' (get_s info 239) @ entry keys 0x8001 ''product_info'' (get_s info 255)
   @ entry keys 0x8002 ''version_app'' (get_us info 319 1 4) @ entry keys 0x8003 ''version_loader'' (get_us info 323 1 4)
   @ entry keys 0x8004 ''version_hardware'' (get_us info 327 1 4) @ entry keys 0x8005 ''mac'' (get_us info 331 1 6)
   @ entry keys 0x8006 ''cur_work_state'' (get_u info 337 1) @ entry keys 0x8007 ''core_temp'' (get_i info 338 4)
   @ entry keys 0x8008 ''powerup_cnt'' (get_u info 342 4) @ entry keys 0x8009 ''local_time_now'' (get_u info 346 8)
   @ entry keys 0x800A ''last_sync_time'' (get_u info 354 8) @ entry keys 0x800B ''time_offset'' (get_i info 362 8)
   @ entry keys 0x800C ''time_sync_type'' (get_u info 370 1) @ entry keys 0x800D ''status_code'' (status_json info 371)
   @ entry keys 0x800E ''lidar_diag_status'' (get_u info 403 2) @ entry keys 0x800F ''lidar_flash_status'' (get_u info 405 1)
   @ entry keys 0x8010 ''FW_TYPE'' (get_u info 406 1) @ entry keys 0x8011 ''hms_code'' (get_us info 407 4 8)
   @ entry keys 0xFFFE ''ROI_Mode'' (get_u info 439 1)"

definition LivoxLidarStateInfoToJson :: "byte list \<Rightarrow> nat list \<Rightarrow> json" where
  "LivoxLidarStateInfoToJson info keys = JObject (json_addresses info keys @ json_settings info keys @ json_status info keys)"

text \<open>\<open>None\<close> is an overrun, \<open>Some None\<close> the return value false.\<close>

definition ParseLidarState :: "byte list \<Rightarrow> nat \<Rightarrow> byte list \<Rightarrow> json option option" where
  "ParseLidarState mem data_len info =
     (case ParseStateInfo mem data_len info of
        Parsed info' keys \<Rightarrow> Some (Some (LivoxLidarStateInfoToJson info' keys))
      | Rejected \<Rightarrow> Some None
      | Overrun \<Rightarrow> None)"

section \<open>Writes and what they leave\<close>

lemma overwrite_nth:
  assumes "off + length bs \<le> length m" "i < length m"
  shows "overwrite off bs m ! i = (if off \<le> i \<and> i < off + length bs then bs ! (i - off) else m ! i)"
  using assms by (auto simp: overwrite_def nth_append min_def)

lemma slice_eqI:
  assumes "off + length bs \<le> length m" "\<And>i. i < length bs \<Longrightarrow> m ! (off + i) = bs ! i"
  shows "take (length bs) (drop off m) = bs"
  using assms by (intro nth_equalityI) auto

lemma slice_nth: "take (length bs) (drop off m) = bs \<Longrightarrow> i < length bs \<Longrightarrow> off + i < length m \<Longrightarrow> m ! (off + i) = bs ! i"
  by (metis add_leE less_imp_le_nat nth_drop nth_take)

text \<open>Writing a list of blocks that do not overlap.\<close>

definition write_all :: "(nat \<times> byte list) list \<Rightarrow> byte list \<Rightarrow> byte list" where
  "write_all = fold (\<lambda>(off, bs). overwrite off bs)"

definition apart :: "nat \<times> byte list \<Rightarrow> nat \<times> byte list \<Rightarrow> bool" where
  "apart a b \<longleftrightarrow> fst a + length (snd a) \<le> fst b \<or> fst b + length (snd b) \<le> fst a"

definition inside :: "nat \<Rightarrow> nat \<times> byte list \<Rightarrow> bool" where
  "inside n a \<longleftrightarrow> fst a + length (snd a) \<le> n"

lemma write_all_length: "list_all (inside (length m)) ps \<Longrightarrow> length (write_all ps m) = length m"
  by (induction ps arbitrary: m) (auto simp: write_all_def inside_def length_overwrite)

lemma write_all_keeps:
  assumes "list_all (inside (length m)) ps" "\<forall>p \<in> set ps. apart a p" "take (length (snd a)) (drop (fst a) m) = snd a" "inside (length m) a"
  shows "take (length (snd a)) (drop (fst a) (write_all ps m)) = snd a"
  using assms
proof (induction ps arbitrary: m)
  case (Cons p ps)
  obtain off bs where p: "p = (off, bs)" by (cases p)
  have fits: "off + length bs \<le> length m" using Cons.prems(1) by (simp add: p inside_def)
  have len: "length (overwrite off bs m) = length m" using fits by (rule length_overwrite)
  have a: "apart a (off, bs)" using Cons.prems(2) p by simp
  have "take (length (snd a)) (drop (fst a) (overwrite off bs m)) = snd a"
  proof (rule slice_eqI)
    show "fst a + length (snd a) \<le> length (overwrite off bs m)" using Cons.prems(4) len by (simp add: inside_def)
    fix i assume i: "i < length (snd a)"
    then have lt: "fst a + i < length m" using Cons.prems(4) by (simp add: inside_def)
    have "m ! (fst a + i) = snd a ! i" by (rule slice_nth [OF Cons.prems(3) i lt])
    then show "overwrite off bs m ! (fst a + i) = snd a ! i"
      using a i unfolding overwrite_nth [OF fits lt] by (auto simp: apart_def)
  qed
  then have "take (length (snd a)) (drop (fst a) (write_all ps (overwrite off bs m))) = snd a"
    by (intro Cons.IH) (use Cons.prems len in auto)
  then show ?case by (simp add: p write_all_def)
qed (simp add: write_all_def)

lemma write_all_read:
  assumes "list_all (inside (length m)) ps" "sorted_wrt apart ps" "(off, bs) \<in> set ps"
  shows "take (length bs) (drop off (write_all ps m)) = bs"
  using assms
proof (induction ps arbitrary: m)
  case (Cons p ps)
  obtain o1 b1 where p: "p = (o1, b1)" by (cases p)
  have fits: "o1 + length b1 \<le> length m" using Cons.prems(1) by (simp add: p inside_def)
  have len: "length (overwrite o1 b1 m) = length m" using fits by (rule length_overwrite)
  have step: "write_all (p # ps) m = write_all ps (overwrite o1 b1 m)" by (simp add: write_all_def p)
  show ?case
  proof (cases "(off, bs) = p")
    case True
    then have eq: "off = o1" "bs = b1" by (simp_all add: p)
    have "take (length (snd p)) (drop (fst p) (write_all ps (overwrite o1 b1 m))) = snd p"
    proof (rule write_all_keeps)
      show "take (length (snd p)) (drop (fst p) (overwrite o1 b1 m)) = snd p" using fits by (simp add: p overwrite_def)
    qed (use Cons.prems(1,2) len in simp_all)
    then show ?thesis unfolding step by (simp add: eq p)
  next
    case False
    then show ?thesis unfolding step using Cons.IH [of "overwrite o1 b1 m"] Cons.prems len by auto
  qed
qed simp

section \<open>What parsing writes\<close>

text \<open>The blocks that the value of a key is copied into.\<close>

definition pieces :: "nat \<times> byte list \<Rightarrow> (nat \<times> byte list) list" where
  "pieces = (\<lambda>(key, v).
     case map_of field_table key of
       Some (dst, _) \<Rightarrow> [(dst, v)]
     | None \<Rightarrow>
         if key = kKeyLidarIpCfg then
           [(4, c_bytes (ip_str (take 4 v))), (20, c_bytes (ip_str (take 4 (drop 4 v)))), (36, c_bytes (ip_str (take 4 (drop 8 v))))]
         else (case host_ip_offset key of
                 Some dst \<Rightarrow> [(dst, c_bytes (ip_str (take 4 v))), (dst + 16, take 2 (drop 4 v)), (dst + 18, take 2 (drop 6 v))]
               | None \<Rightarrow> []))"

text \<open>A value of the size of its field.\<close>

definition value_ok :: "nat \<times> byte list \<Rightarrow> bool" where
  "value_ok = (\<lambda>(key, v).
     key < 2 ^ 16 \<and> v \<noteq> [] \<and>
     (case map_of field_table key of
        Some (_, n) \<Rightarrow> length v = n
      | None \<Rightarrow> (key = kKeyLidarIpCfg \<longrightarrow> length v = 12) \<and> (host_ip_offset key \<noteq> None \<longrightarrow> length v = 8)))"

text \<open>The part of the structure that belongs to a key.\<close>

definition region_table :: "(nat \<times> nat \<times> nat) list" where
  "region_table =
     [(0x0000, 0, 1), (0x0001, 1, 1), (0x0002, 2, 1), (0x0003, 3, 1), (0x0004, 4, 48),
      (0x0005, 52, 20), (0x0006, 72, 20), (0x0007, 92, 20), (0x0008, 112, 20), (0x0009, 132, 20)] @ drop 4 field_table"

lemma region_apart: "sorted_wrt (\<lambda>(_, o1, s1) (_, o2, _). o1 + s1 \<le> o2) region_table"
  by (simp add: region_table_def field_table_def)

lemma region_inside: "\<forall>(_, off, n) \<in> set region_table. off + n \<le> info_size"
  by (simp add: region_table_def field_table_def info_size_def)

lemma region_distinct: "distinct (map fst region_table)"
  by (simp add: region_table_def field_table_def)

lemma regions_disjoint:
  assumes "(k1, o1, s1) \<in> set region_table" "(k2, o2, s2) \<in> set region_table" "k1 \<noteq> k2"
  shows "o1 + s1 \<le> o2 \<or> o2 + s2 \<le> o1"
proof -
  obtain i j where ij: "i < length region_table" "region_table ! i = (k1, o1, s1)" "j < length region_table" "region_table ! j = (k2, o2, s2)"
    using assms(1,2) by (metis in_set_conv_nth)
  then have "i \<noteq> j" using assms(3) by auto
  then consider "i < j" | "j < i" by linarith
  then show ?thesis
    using ij sorted_wrt_nth_less [OF region_apart, of i j] sorted_wrt_nth_less [OF region_apart, of j i] by cases auto
qed

lemma field_region: "map_of field_table key = Some (off, n) \<Longrightarrow> (key, off, n) \<in> set region_table"
  by (drule map_of_SomeD) (auto simp: field_table_def region_table_def)

lemma host_region: "host_ip_offset key = Some off \<Longrightarrow> (key, off, 20) \<in> set region_table"
  unfolding host_ip_offset_def by (drule map_of_SomeD) (auto simp: region_table_def)

lemma to_string_byte_length: "length (to_string (unat (b :: byte))) \<le> 3"
proof -
  have "unat b < 256" by (rule unat_less)
  then have "unat b div 10 div 10 < 10" by simp
  then show ?thesis by (cases "unat b < 10"; cases "unat b div 10 < 10") (simp_all add: to_string_step)
qed

lemma ip_str_length: "length bs \<le> 4 \<Longrightarrow> length (c_bytes (ip_str bs)) \<le> 16"
proof -
  have "length (ip_str bs) + 1 \<le> 4 * length bs \<or> bs = []" for bs
  proof (induction bs rule: ip_str.induct)
    case (2 b)
    then show ?case using to_string_byte_length [of b] by simp
  next
    case (3 b b' bs)
    then show ?case using to_string_byte_length [of b] by simp
  qed simp
  from this [of bs] show "length bs \<le> 4 \<Longrightarrow> ?thesis" by (auto simp: c_bytes_def)
qed

text \<open>The blocks of a key lie in its region, one after the other.\<close>

lemma pieces_region:
  assumes "value_ok (key, v)" "(off, bs) \<in> set (pieces (key, v))"
  obtains ro rs where "(key, ro, rs) \<in> set region_table" "ro \<le> off" "off + length bs \<le> ro + rs"
proof -
  have ip: "length (c_bytes (ip_str (take 4 x))) \<le> 16" for x by (rule ip_str_length) simp
  consider (copy) dst sz where "map_of field_table key = Some (dst, sz)"
    | (lidar) "map_of field_table key = None" "key = kKeyLidarIpCfg"
    | (host) dst where "map_of field_table key = None" "key \<noteq> kKeyLidarIpCfg" "host_ip_offset key = Some dst"
    | (none) "map_of field_table key = None" "key \<noteq> kKeyLidarIpCfg" "host_ip_offset key = None" by fastforce
  then show thesis
  proof cases
    case copy
    then show thesis using assms field_region that by (fastforce simp: pieces_def value_ok_def)
  next
    case lidar
    have "(key, 4, 48) \<in> set region_table" using lidar(2) by (simp add: region_table_def kKeyLidarIpCfg_def)
    then show thesis using assms(2) lidar ip [of v] ip [of "drop 4 v"] ip [of "drop 8 v"] that
      by (fastforce simp: pieces_def)
  next
    case host
    show thesis using assms(2) host ip [of v] host_region [OF host(3)] that by (fastforce simp: pieces_def)
  qed (use assms(2) in \<open>simp add: pieces_def\<close>)
qed

lemma pieces_inside: "value_ok (key, v) \<Longrightarrow> list_all (inside info_size) (pieces (key, v))"
  unfolding list_all_iff
proof (intro ballI)
  fix b assume "value_ok (key, v)" "b \<in> set (pieces (key, v))"
  then obtain ro rs where "(key, ro, rs) \<in> set region_table" "fst b + length (snd b) \<le> ro + rs"
    by (metis pieces_region prod.collapse)
  then show "inside info_size b" using region_inside by (fastforce simp: inside_def)
qed

lemma pieces_apart: "sorted_wrt apart (pieces (key, v))"
proof -
  have ip: "length (c_bytes (ip_str (take 4 x))) \<le> 16" for x by (rule ip_str_length) simp
  show ?thesis using ip [of v] ip [of "drop 4 v"] ip [of "drop 8 v"]
    by (auto simp: pieces_def apart_def split: option.splits)
qed

lemma pieces_disjoint:
  assumes "value_ok (k1, v1)" "value_ok (k2, v2)" "k1 \<noteq> k2" "a \<in> set (pieces (k1, v1))" "b \<in> set (pieces (k2, v2))"
  shows "apart a b"
proof -
  obtain o1 s1 where r1: "(k1, o1, s1) \<in> set region_table" "o1 \<le> fst a" "fst a + length (snd a) \<le> o1 + s1"
    by (metis assms(1,4) pieces_region prod.collapse)
  obtain o2 s2 where r2: "(k2, o2, s2) \<in> set region_table" "o2 \<le> fst b" "fst b + length (snd b) \<le> o2 + s2"
    by (metis assms(2,5) pieces_region prod.collapse)
  show ?thesis using regions_disjoint [OF r1(1) r2(1) assms(3)] r1(2,3) r2(2,3) by (auto simp: apart_def)
qed

text \<open>Reading a value where it stands in the packet writes its blocks.\<close>

lemma slice_middle:
  assumes "i + n \<le> length v"
  shows "slice (length pre + i) n (pre @ v @ post) = Some (take n (drop i v))"
  using assms by (simp add: slice_def)

lemma put_copy_middle:
  "i + n \<le> length v \<Longrightarrow> put_copy (pre @ v @ post) (length pre + i) n dst = mem_put dst (take n (drop i v))"
  by (rule ext) (simp add: put_copy_def slice_middle)

lemma put_ip_middle:
  "i + 4 \<le> length v \<Longrightarrow> put_ip (pre @ v @ post) (length pre + i) dst = mem_put dst (c_bytes (ip_str (take 4 (drop i v))))"
  by (rule ext) (simp add: put_ip_def slice_middle)

lemma write_all_put: "list_all (inside (length info)) [a, b, c] \<Longrightarrow>
   Option.bind (mem_put (fst a) (snd a) info) (\<lambda>i1. Option.bind (mem_put (fst b) (snd b) i1) (mem_put (fst c) (snd c)))
   = Some (write_all [a, b, c] info)"
  by (auto simp: mem_put_def inside_def write_all_def length_overwrite case_prod_unfold)

lemma parse_value_pieces:
  assumes "value_ok (key, v)" "length info = info_size"
  shows "parse_value (pre @ v @ post) key (length pre) (length v) info = Some (write_all (pieces (key, v)) info)"
proof -
  note ins = pieces_inside [OF assms(1), folded assms(2)]
  note P0 = put_copy_middle [of 0, simplified] put_ip_middle [of 0, simplified]
  consider (copy) dst sz where "map_of field_table key = Some (dst, sz)"
    | (lidar) "map_of field_table key = None" "key = kKeyLidarIpCfg"
    | (host) dst where "map_of field_table key = None" "key \<noteq> kKeyLidarIpCfg" "host_ip_offset key = Some dst"
    | (none) "map_of field_table key = None" "key \<noteq> kKeyLidarIpCfg" "host_ip_offset key = None" by fastforce
  then show ?thesis
  proof cases
    case copy
    then show ?thesis using ins P0(1) [of "length v" v pre post dst]
      by (simp add: parse_value_def pieces_def write_all_def mem_put_def inside_def)
  next
    case lidar
    have len: "length v = 12" using assms(1) lidar by (simp add: value_ok_def)
    have ps: "pieces (key, v) = [(4, c_bytes (ip_str (take 4 v))), (20, c_bytes (ip_str (take 4 (drop 4 v)))),
        (36, c_bytes (ip_str (take 4 (drop 8 v))))]" using lidar by (simp add: pieces_def)
    show ?thesis unfolding ps write_all_put [OF ins [unfolded ps], symmetric]
      using lidar len by (simp add: parse_value_def ParseLidarIpAddr_def P0 put_ip_middle)
  next
    case host
    have len: "length v = 8" using assms(1) host by (simp add: value_ok_def)
    have ps: "pieces (key, v) = [(dst, c_bytes (ip_str (take 4 v))), (dst + 16, take 2 (drop 4 v)), (dst + 18, take 2 (drop 6 v))]"
      using host by (simp add: pieces_def)
    show ?thesis unfolding ps write_all_put [OF ins [unfolded ps], symmetric]
      using host len by (simp add: parse_value_def ParseHostIpCfg_def P0 put_ip_middle put_copy_middle)
  next
    case none
    then show ?thesis by (simp add: parse_value_def pieces_def write_all_def)
  qed
qed

lemma kv_bytes_length: "length (kv_bytes (key, v)) = 4 + length v"
  by (simp add: kv_bytes_def)

text \<open>The loop over a well-formed list.\<close>

lemma parse_kvs_spec:
  assumes "\<forall>kv \<in> set kvs. value_ok kv" "length info = info_size" "data_len < 2 ^ 16"
    and "mem = pre @ concat (map kv_bytes kvs) @ post" "length pre + length (concat (map kv_bytes kvs)) = data_len"
  shows "parse_kvs mem data_len (length kvs) (length pre) info keys
    = Parsed (write_all (concat (map pieces kvs)) info) (fold List.insert (filter known_key (map fst kvs)) keys)"
  using assms
proof (induction kvs arbitrary: info keys pre)
  case (Cons kv kvs)
  obtain key v where kv: "kv = (key, v)" by (cases kv)
  have ok: "value_ok (key, v)" and key: "key < 2 ^ 16" and v: "v \<noteq> []" using Cons.prems(1) by (auto simp: kv value_ok_def)
  let ?rest = "concat (map kv_bytes kvs)"
  have bytes: "mem = pre @ le_bytes 2 key @ le_bytes 2 (length v) @ v @ ?rest @ post"
    using Cons.prems(4) by (simp add: kv kv_bytes_def)
  have total: "length pre + 4 + length v + length ?rest = data_len" using Cons.prems(5) by (simp add: kv kv_bytes_length)
  have vlen: "length v < 2 ^ 16" using total Cons.prems(3) by simp
  have f1: "field (length pre) 2 mem = Some key"
    unfolding bytes by (subst field_append) (use key in simp_all)
  have f2: "field (length pre + 2) 2 mem = Some (length v)"
    using field_append [of "pre @ le_bytes 2 key" "length pre + 2" 2 "length v" "v @ ?rest @ post"] vlen by (simp add: bytes)
  have off: "(length pre + 4) mod 2 ^ 16 = length pre + 4" "(length pre + 4 + length v) mod 2 ^ 16 = length pre + 4 + length v"
    using total Cons.prems(3) by simp_all
  have pv: "parse_value mem key (length pre + 4) (length v) info = Some (write_all (pieces (key, v)) info)"
    using parse_value_pieces [OF ok Cons.prems(2), of "pre @ le_bytes 2 key @ le_bytes 2 (length v)" "?rest @ post"] by (simp add: bytes)
  have len: "length (write_all (pieces (key, v)) info) = info_size"
    using write_all_length [of info] pieces_inside [OF ok] Cons.prems(2) by simp
  have room: "\<not> length pre + 5 > data_len" using total v by (cases v) auto
  have IH: "parse_kvs mem data_len (length kvs) (length pre + 4 + length v) (write_all (pieces (key, v)) info)
        (if known_key key then List.insert key keys else keys)
      = Parsed (write_all (concat (map pieces kvs)) (write_all (pieces (key, v)) info))
          (fold List.insert (filter known_key (map fst kvs)) (if known_key key then List.insert key keys else keys))"
  proof -
    define pre' where "pre' = pre @ le_bytes 2 key @ le_bytes 2 (length v) @ v"
    have pl: "length pre' = length pre + 4 + length v" by (simp add: pre'_def)
    have mem: "mem = pre' @ ?rest @ post" by (simp add: bytes pre'_def)
    show ?thesis unfolding pl [symmetric]
      by (rule Cons.IH) (use Cons.prems(1,3) len total mem pl in \<open>simp_all\<close>)
  qed
  have "parse_kvs mem data_len (length (kv # kvs)) (length pre) info keys
      = parse_kvs mem data_len (length kvs) (length pre + 4 + length v) (write_all (pieces (key, v)) info)
        (if known_key key then List.insert key keys else keys)"
    unfolding list.size add_0 Suc_eq_plus1 [symmetric] parse_kvs.simps(2)
    by (simp only: parse_kvs.simps(2) add_Suc_right add_0_right f1 f2 option.case prod.case off pv room if_False)
  then show ?case unfolding IH by (simp add: kv write_all_def)
qed (simp add: write_all_def)

end
