(* ===== verification/Sdk_State_Props.thy ===== *)
theory Sdk_State_Props
  imports Sdk_State
begin

text \<open>
  What the state parser guarantees of well-formed packets, the round trip of a configuration
  through a lidar that echoes it, and what a badly formed length does.
\<close>

lemma request_length: "length (request kvs) = 4 + length (concat (map kv_bytes kvs))"
  by (simp add: request_def)

lemma request_many: "\<forall>kv \<in> set kvs. value_ok kv \<Longrightarrow> length kvs \<le> length (concat (map kv_bytes kvs))"
  by (induction kvs) (auto simp: kv_bytes_def)

lemma field_request: "length kvs < 2 ^ 16 \<Longrightarrow> field 0 2 (request kvs @ rest) = Some (length kvs)"
  using field_append [of "[]" 0 2 "length kvs" "[0, 0] @ concat (map kv_bytes kvs) @ rest"] by (simp add: request_def)

lemma parse_request:
  assumes "\<forall>kv \<in> set kvs. value_ok kv" "length (request kvs) < 2 ^ 16" "length info = info_size"
  shows "ParseStateInfo (request kvs @ rest) (length (request kvs)) info
    = Parsed (write_all (concat (map pieces kvs)) info) (fold List.insert (filter known_key (map fst kvs)) [])"
proof -
  have n: "length kvs < 2 ^ 16" using request_many [OF assms(1)] assms(2) by (simp add: request_length)
  have mem: "request kvs @ rest = (le_bytes 2 (length kvs) @ [0, 0]) @ concat (map kv_bytes kvs) @ rest" by (simp add: request_def)
  have pre: "length (le_bytes 2 (length kvs) @ [0, 0] :: byte list) = 4" by simp
  have total: "length (le_bytes 2 (length kvs) @ [0, 0] :: byte list) + length (concat (map kv_bytes kvs)) = length (request kvs)"
    by (simp add: request_length)
  note P = parse_kvs_spec [OF assms(1,3,2) mem total, unfolded pre]
  show ?thesis unfolding ParseStateInfo_def field_request [OF n] option.case by (rule P)
qed

lemma set_fold_insert: "set (fold List.insert xs ys) = set xs \<union> set ys"
  by (induction xs arbitrary: ys) auto

lemma all_pieces:
  assumes "\<forall>kv \<in> set kvs. value_ok kv" "distinct (map fst kvs)"
  shows "list_all (inside info_size) (concat (map pieces kvs))" "sorted_wrt apart (concat (map pieces kvs))"
proof -
  show "list_all (inside info_size) (concat (map pieces kvs))"
    using assms(1) pieces_inside by (fastforce simp: list_all_iff)
  show "sorted_wrt apart (concat (map pieces kvs))"
    using assms
  proof (induction kvs)
    case (Cons kv kvs)
    obtain key v where kv: "kv = (key, v)" by (cases kv)
    have "apart a b" if a: "a \<in> set (pieces kv)" and b: "b \<in> set (concat (map pieces kvs))" for a b
    proof -
      obtain kv2 where kv2: "kv2 \<in> set kvs" "b \<in> set (pieces kv2)" using b by auto
      obtain k2 v2 where eq: "kv2 = (k2, v2)" by (cases kv2)
      have "key \<noteq> k2" using Cons.prems(2) kv2(1) by (force simp: kv eq)
      then show ?thesis using pieces_disjoint [of key v k2 v2 a b] Cons.prems(1) kv2 a by (auto simp: kv eq)
    qed
    then show ?case using Cons pieces_apart [of key v] by (auto simp: sorted_wrt_append kv)
  qed simp
qed

lemma state_info_exact_step:
  assumes "\<forall>kv \<in> set kvs. value_ok kv" "distinct (map fst kvs)" "length (request kvs) < 2 ^ 16" "length info = info_size"
  shows "\<exists>info' keys. ParseStateInfo (request kvs @ rest) (length (request kvs)) info = Parsed info' keys
    \<and> length info' = info_size \<and> set keys = {k \<in> fst ` set kvs. known_key k}
    \<and> (\<forall>kv \<in> set kvs. \<forall>(off, bs) \<in> set (pieces kv). take (length bs) (drop off info') = bs)"
proof -
  note W = all_pieces [OF assms(1,2), folded assms(4)]
  let ?info' = "write_all (concat (map pieces kvs)) info"
  have "take (length bs) (drop off ?info') = bs" if "kv \<in> set kvs" "(off, bs) \<in> set (pieces kv)" for kv off bs
    by (rule write_all_read [OF W(1,2)]) (use that in auto)
  moreover have "length ?info' = info_size" using write_all_length [OF W(1)] assms(4) by simp
  moreover have "set (fold List.insert (filter known_key (map fst kvs)) []) = {k \<in> fst ` set kvs. known_key k}"
    by (auto simp: set_fold_insert)
  ultimately show ?thesis unfolding parse_request [OF assms(1,3,4)] by blast
qed

text \<open>
  C24. The state parser is exact on well-formed packets: a list of values of the right sizes with
  distinct keys is accepted whatever follows it in memory, exactly the known keys are marked as
  present, and every field holds the value of its key (the addresses their dotted notation).
\<close>

theorem state_info_exact:
  assumes "\<forall>kv \<in> set kvs. value_ok kv" "distinct (map fst kvs)" "length (request kvs) < 2 ^ 16" "length info = info_size"
  shows "\<exists>info' keys. ParseStateInfo (request kvs @ rest) (length (request kvs)) info = Parsed info' keys
    \<and> length info' = info_size \<and> set keys = {k \<in> fst ` set kvs. known_key k}
    \<and> (\<forall>kv \<in> set kvs. \<forall>(off, bs) \<in> set (pieces kv). take (length bs) (drop off info') = bs)"
  by (rule state_info_exact_step [OF assms])

theorem state_info_exact_witness:
  "\<exists>info' keys. ParseStateInfo (request [(0x8007, [1, 2, 3, 4]), (0x0006, [10, 0, 0, 1, 5, 0, 6, 0])] @ [9])
      (length (request [(0x8007, [1, 2, 3, 4]), (0x0006, [10, 0, 0, 1, 5, 0, 6, 0])])) (replicate 440 0) = Parsed info' keys
    \<and> set keys = {0x8007, 0x0006} \<and> take 4 (drop 338 info') = [1, 2, 3, 4]"
proof -
  let ?kvs = "[(0x8007, [1, 2, 3, 4]), (0x0006, [10, 0, 0, 1, 5, 0, 6, 0])] :: (nat \<times> byte list) list"
  have ok: "\<forall>kv \<in> set ?kvs. value_ok kv" by (simp add: value_ok_def field_table_def host_ip_offset_def kKeyLidarIpCfg_def)
  have known: "known_key 0x8007" "known_key 0x0006" by (simp_all add: known_key_def field_table_def host_ip_offset_def)
  have p: "pieces (0x8007, [1, 2, 3, 4]) = [(338, [1, 2, 3, 4])]" by (simp add: pieces_def field_table_def)
  have d: "distinct (map fst ?kvs)" "length (request ?kvs) < 2 ^ 16" "length (replicate 440 0 :: byte list) = info_size"
    by (simp_all add: request_def kv_bytes_def info_size_def)
  obtain info' keys where r: "ParseStateInfo (request ?kvs @ [9]) (length (request ?kvs)) (replicate 440 0) = Parsed info' keys"
    "set keys = {k \<in> fst ` set ?kvs. known_key k}"
    "\<forall>kv \<in> set ?kvs. \<forall>(off, bs) \<in> set (pieces kv). take (length bs) (drop off info') = bs"
    using state_info_exact [OF ok d, of "[9]"] by blast
  have ks: "set keys = {0x8007, 0x0006}" using r(2) known by auto
  have "\<forall>(off, bs) \<in> set (pieces (0x8007, [1, 2, 3, 4])). take (length bs) (drop off info') = bs"
    by (rule bspec [OF r(3)]) (simp only: list.set insertI1)
  then have "case (338, [1, 2, 3, 4]) of (off, bs) \<Rightarrow> take (length bs) (drop off info') = bs"
    by (rule bspec) (simp only: p list.set insertI1)
  then have "take (length [1, 2, 3, 4 :: byte]) (drop 338 info') = [1, 2, 3, 4]" by (simp only: prod.case)
  then have "take 4 (drop 338 info') = [1, 2, 3, 4]" by (rule subst [where P = "\<lambda>n. take n (drop 338 info') = [1, 2, 3, 4]", rotated]) simp
  then show ?thesis using r(1) ks by blast
qed

section \<open>Configuration\<close>

lemma to_string_char: "c \<in> set (ip_str bs) \<Longrightarrow> (of_char c :: nat) \<noteq> 0"
proof (induction bs rule: ip_str.induct)
  case (2 b)
  then show ?case using to_string_digits [of "unat b"] by (auto simp: is_digit_def)
next
  case (3 b b' bs)
  then show ?case using to_string_digits [of "unat b"] by (auto simp: is_digit_def)
qed simp

lemma char_byte: "char_of (unat (of_nat (of_char c) :: byte)) = c"
proof -
  have "(of_char c :: nat) < 256" by simp
  then have "unat (of_nat (of_char c) :: byte) = of_char c" unfolding unat_of_nat by simp
  then show ?thesis by simp
qed

lemma get_s_written:
  assumes "take (length (c_bytes (ip_str octets))) (drop off info) = c_bytes (ip_str octets)"
  shows "get_s info off = JString (ip_str octets)"
proof -
  let ?bs = "map (\<lambda>c. of_nat (of_char c) :: byte) (ip_str octets)"
  obtain tl where d: "drop off info = ?bs @ 0 # tl"
    using assms append_take_drop_id [of "length (c_bytes (ip_str octets))" "drop off info"]
    by (metis append.assoc append_Cons append_Nil c_bytes_def)
  have nz: "\<forall>b \<in> set ?bs. b \<noteq> 0"
  proof
    fix b assume "b \<in> set ?bs"
    then obtain c where c: "c \<in> set (ip_str octets)" "b = of_nat (of_char c)" by auto
    have "unat b = of_char c" unfolding c(2) unat_of_nat by simp
    then show "b \<noteq> 0" using to_string_char [OF c(1)] by auto
  qed
  have "takeWhile (\<lambda>b. b \<noteq> 0) (drop off info) = ?bs" unfolding d using nz by (simp add: takeWhile_tail)
  then show ?thesis unfolding get_s_def by (simp add: d o_def char_byte)
qed

lemma get_port:
  "take 2 (drop off info) = le_bytes 2 (unat (p :: 16 word)) \<Longrightarrow> get_u info off 2 = JUint (unat p)"
  using unat_less(2) [of p] by (simp add: get_u_def le_val_le_bytes)

text \<open>What a host address looks like in the JSON after it was set.\<close>

lemma host_json_written:
  assumes "length octets = 4" "map_of field_table key = None" "key \<noteq> kKeyLidarIpCfg" "host_ip_offset key = Some off"
    and "\<forall>(off, bs) \<in> set (pieces (key, octets @ le_bytes 2 (unat p) @ le_bytes 2 (unat q))). take (length bs) (drop off info) = bs"
  shows "host_json info off = JObject [(''ip'', JString (ip_str octets)), (''dst_port'', JUint (unat (p :: 16 word))),
      (''src_port'', JUint (unat (q :: 16 word)))]"
proof -
  have "pieces (key, octets @ le_bytes 2 (unat p) @ le_bytes 2 (unat q))
      = [(off, c_bytes (ip_str octets)), (off + 16, le_bytes 2 (unat p)), (off + 18, le_bytes 2 (unat q))]"
    using assms(1-4) by (simp add: pieces_def)
  then have "get_s info off = JString (ip_str octets)" "get_u info (off + 16) 2 = JUint (unat p)" "get_u info (off + 18) 2 = JUint (unat q)"
    using assms(5) by (simp_all add: get_s_written get_port)
  then show ?thesis by (simp add: host_json_def)
qed

lemma host_value_Ok: "length octets = 4 \<Longrightarrow> host_value (ip_str octets) p q = Ok (octets @ le_bytes 2 (unat p) @ le_bytes 2 (unat q))"
  by (simp add: host_value_def IpToU8_str)

text \<open>
  C25. A configuration comes back as it was sent: if a Mid-360 reports the values of a configuration
  request, the JSON handed to the application names the address and the ports of the
  configuration file for the state, point and IMU data, and nothing else.
\<close>

theorem config_roundtrip:
  assumes "BuildUpdateMid360LidarCfgRequest cfg = Ok req" "target_ip cfg = ip_str octets" "length octets = 4" "length info = info_size"
  shows "ParseLidarState (req @ rest) (length req) info = Some (Some (JObject
    [(''state_info_host_ipcfg'', JObject [(''ip'', JString (target_ip cfg)), (''dst_port'', JUint (unat (push_msg_port cfg))),
        (''src_port'', JUint 56200)]),
     (''ponitcloud_host_ipcfg'', JObject [(''ip'', JString (target_ip cfg)), (''dst_port'', JUint (unat (point_data_port cfg))),
        (''src_port'', JUint 56300)]),
     (''imu_host_ipcfg'', JObject [(''ip'', JString (target_ip cfg)), (''dst_port'', JUint (unat (imu_data_port cfg))),
        (''src_port'', JUint 56400)])]))"
proof -
  let ?v = "\<lambda>p q :: 16 word. octets @ le_bytes 2 (unat p) @ le_bytes 2 (unat q)"
  let ?kvs = "[(5, ?v (push_msg_port cfg) kMid360LidarPushMsgPort), (6, ?v (point_data_port cfg) kMid360LidarPointCloudPort),
    (7, ?v (imu_data_port cfg) kMid360LidarImuDataPort)]"
  have req: "req = request ?kvs"
    using assms(1-3) by (auto simp: BuildUpdateMid360LidarCfgRequest_def host_value_Ok ip_key_defs)
  have none: "map_of field_table 5 = None" "map_of field_table 6 = None" "map_of field_table 7 = None" by (simp_all add: field_table_def)
  have host: "host_ip_offset 5 = Some 52" "host_ip_offset 6 = Some 72" "host_ip_offset 7 = Some 92" by (simp_all add: host_ip_offset_def)
  have ok: "\<forall>kv \<in> set ?kvs. value_ok kv" using assms(3) by (auto simp: value_ok_def none host kKeyLidarIpCfg_def)
  have short: "length (request ?kvs) < 2 ^ 16" using assms(3) by (simp add: request_def kv_bytes_def)
  obtain info' keys where r: "ParseStateInfo (req @ rest) (length req) info = Parsed info' keys"
    "set keys = {k \<in> fst ` set ?kvs. known_key k}"
    "\<forall>kv \<in> set ?kvs. \<forall>(off, bs) \<in> set (pieces kv). take (length bs) (drop off info') = bs"
    using parse_request [OF ok short assms(4), of rest] state_info_exact_step [OF ok _ short assms(4), of rest] unfolding req by auto
  have keys: "set keys = {5, 6, 7}" using r(2) by (auto simp: known_key_def host)
  have v: "\<forall>(off, bs) \<in> set (pieces (5, ?v (push_msg_port cfg) kMid360LidarPushMsgPort)). take (length bs) (drop off info') = bs"
    "\<forall>(off, bs) \<in> set (pieces (6, ?v (point_data_port cfg) kMid360LidarPointCloudPort)). take (length bs) (drop off info') = bs"
    "\<forall>(off, bs) \<in> set (pieces (7, ?v (imu_data_port cfg) kMid360LidarImuDataPort)). take (length bs) (drop off info') = bs"
    by (rule bspec [OF r(3)]; simp)+
  have port: "unat kMid360LidarPushMsgPort = 56200" "unat kMid360LidarPointCloudPort = 56300" "unat kMid360LidarImuDataPort = 56400"
    by (simp_all add: port_defs)
  have other: "(5 :: nat) \<noteq> kKeyLidarIpCfg" "(6 :: nat) \<noteq> kKeyLidarIpCfg" "(7 :: nat) \<noteq> kKeyLidarIpCfg"
    by (simp_all add: kKeyLidarIpCfg_def)
  have j: "host_json info' 52 = JObject [(''ip'', JString (target_ip cfg)), (''dst_port'', JUint (unat (push_msg_port cfg))), (''src_port'', JUint 56200)]"
    "host_json info' 72 = JObject [(''ip'', JString (target_ip cfg)), (''dst_port'', JUint (unat (point_data_port cfg))), (''src_port'', JUint 56300)]"
    "host_json info' 92 = JObject [(''ip'', JString (target_ip cfg)), (''dst_port'', JUint (unat (imu_data_port cfg))), (''src_port'', JUint 56400)]"
    using host_json_written [OF assms(3) none(1) other(1) host(1) v(1)] host_json_written [OF assms(3) none(2) other(2) host(2) v(2)]
      host_json_written [OF assms(3) none(3) other(3) host(3) v(3)] unfolding port assms(2) by blast+
  show ?thesis unfolding ParseLidarState_def r(1)
    by (simp add: LivoxLidarStateInfoToJson_def json_addresses_def json_settings_def json_status_def entry_def keys j)
qed

definition demo_cfg :: LivoxLidarCfg where
  "demo_cfg = \<lparr>device_type = Mid360, host_ip = ''192.168.1.50'', multicast_ip = [], push_msg_port = 56201, point_data_port = 56301,
     imu_data_port = 56401\<rparr>"

theorem config_roundtrip_witness:
  "\<exists>req fields. BuildUpdateMid360LidarCfgRequest demo_cfg = Ok req
     \<and> ParseLidarState (req @ []) (length req) (replicate 440 255) = Some (Some (JObject fields))
     \<and> map_of fields ''imu_host_ipcfg''
         = Some (JObject [(''ip'', JString ''192.168.1.50''), (''dst_port'', JUint 56401), (''src_port'', JUint 56400)])"
proof -
  have ip: "''192.168.1.50'' = ip_str [192, 168, 1, 50]" by code_simp
  have t: "target_ip demo_cfg = ip_str [192, 168, 1, 50]" by (simp add: target_ip_def demo_cfg_def ip)
  have h: "host_ip demo_cfg = ip_str [192, 168, 1, 50]" by (simp add: demo_cfg_def ip)
  have "IpToU8 (host_ip demo_cfg) = Ok [192, 168, 1, 50]" unfolding h by (rule IpToU8_str) simp
  then obtain req where req: "BuildUpdateMid360LidarCfgRequest demo_cfg = Ok req"
    using host_value_Ok [of "[192, 168, 1, 50]"] by (auto simp: BuildUpdateMid360LidarCfgRequest_def t)
  have "length (replicate 440 255 :: byte list) = info_size" by (simp add: info_size_def)
  then show ?thesis using config_roundtrip [OF req t _, of "replicate 440 255" "[]"] req t ip by (simp add: demo_cfg_def)
qed

section \<open>Lengths that are not checked\<close>

text \<open>
  The length of a value is trusted: a single pair whose value reaches past the end of the
  structure, counted from its field, makes the parser write outside it, whatever the value.
\<close>

theorem long_value_overruns:
  assumes "map_of field_table key = Some (dst, n)" "info_size < dst + length v" "length v + 8 < 2 ^ 16" "length info = info_size"
  shows "ParseStateInfo (request [(key, v)] @ rest) (length (request [(key, v)])) info = Overrun"
proof -
  have key: "key < 2 ^ 16" using map_of_SomeD [OF assms(1)] by (auto simp: field_table_def)
  have dst: "dst < info_size" using field_region [OF assms(1)] assms(1) map_of_SomeD [OF assms(1)]
    by (auto simp: field_table_def info_size_def)
  have v: "0 < length v" using dst assms(2) by linarith
  let ?mem = "request [(key, v)] @ rest"
  have bytes: "?mem = (le_bytes 2 1 @ [0, 0]) @ le_bytes 2 key @ le_bytes 2 (length v) @ v @ rest" by (simp add: request_def kv_bytes_def)
  have len: "length (request [(key, v)]) = 8 + length v" by (simp add: request_def kv_bytes_def)
  have f0: "field 0 2 ?mem = Some (length [(key, v)])" by (rule field_request) simp
  have f1: "field 4 2 ?mem = Some key" unfolding bytes by (subst field_append) (use key in simp_all)
  have f2: "field (4 + 2) 2 ?mem = Some (length v)"
    using field_append [of "(le_bytes 2 1 @ [0, 0]) @ le_bytes 2 key" "4 + 2" 2 "length v" "v @ rest"] assms(3) by (simp add: bytes)
  have "slice 8 (length v) ?mem = Some v" by (simp add: bytes slice_def)
  then have pv: "parse_value ?mem key ((4 + 4) mod 2 ^ 16) (length v) info = None"
    using assms(1,2,4) by (simp add: parse_value_def put_copy_def mem_put_def)
  have room: "\<not> 4 + 5 > 8 + length v" using v by linarith
  show ?thesis unfolding ParseStateInfo_def f0 len option.case list.size add_0 Suc_eq_plus1 [symmetric] parse_kvs.simps(2)
    using room by (simp only: list.size parse_kvs.simps f1 f2 option.case prod.case pv if_False add_0_right add_Suc_right)
qed

theorem long_value_overruns_witness:
  "ParseStateInfo (request [(0xFFFE, [1, 1])] @ []) (length (request [(0xFFFE, [1, 1])])) (replicate 440 0) = Overrun"
  by (rule long_value_overruns [of _ 439 1]) (simp_all add: field_table_def info_size_def)

text \<open>
  A value that stays inside the structure but is longer than its field is written over the
  fields behind it, although their keys are not marked as present.
\<close>

lemma long_value_clobbers:
  assumes "length info = info_size"
  shows "\<exists>info'. ParseStateInfo (request [(0x0000, [7, 8, 9])]) (length (request [(0x0000, [7, 8, 9])])) info = Parsed info' [0x0000]
    \<and> info' ! 1 = 8 \<and> info' ! 2 = 9"
proof -
  have req: "request [(0x0000, [7, 8, 9])] = [1, 0, 0, 0, 0, 0, 3, 0, 7, 8, 9]" by code_simp
  have f: "field 0 2 [1, 0, 0, 0, 0, 0, 3, 0, 7, 8, 9] = Some 1" "field 4 2 [1, 0, 0, 0, 0, 0, 3, 0, 7, 8, 9] = Some 0"
    "field (4 + 2) 2 [1, 0, 0, 0, 0, 0, 3, 0, 7, 8, 9] = Some 3" "slice ((4 + 4) mod 2 ^ 16) 3 [1, 0, 0, 0, 0, 0, 3, 0, 7, 8, 9] = Some [7, 8, 9]"
    by (simp_all add: field_def slice_def)
  have pv: "parse_value [1, 0, 0, 0, 0, 0, 3, 0, 7, 8, 9] 0 ((4 + 4) mod 2 ^ 16) 3 info = Some (overwrite 0 [7, 8, 9] info)"
    unfolding parse_value_def put_copy_def f(4) using assms by (simp add: field_table_def mem_put_def info_size_def)
  have "ParseStateInfo [1, 0, 0, 0, 0, 0, 3, 0, 7, 8, 9] 11 info = Parsed (overwrite 0 [7, 8, 9] info) [0]"
    unfolding ParseStateInfo_def f(1) option.case One_nat_def parse_kvs.simps(2) f(2,3) prod.case pv
    by (simp add: known_key_def field_table_def List.insert_def)
  moreover have "length [1, 0, 0, 0, 0, 0, 3, 0, 7, 8, 9 :: byte] = 11" by simp
  moreover have "overwrite 0 [7, 8, 9] info ! 1 = 8" "overwrite 0 [7, 8, 9] info ! 2 = 9" by (simp_all add: overwrite_def)
  ultimately show ?thesis unfolding req by metis
qed

text \<open>
  The mounting offsets are signed but written as unsigned, so one millimetre to the other side
  reads as 4294967295; a serial number that fills its field runs on into the next one.
\<close>

lemma negative_offset_printed:
  assumes "take 4 (drop 172 info) = [255, 255, 255, 255]"
  shows "get_u info 172 4 = JUint 4294967295" "signed_val 4 (le_val (take 4 (drop 172 info))) = - 1"
  by (simp_all add: get_u_def signed_val_def assms)

end
