(* ===== verification/Sdk_Control.thy ===== *)
theory Sdk_Control
  imports Sdk_Commands Sdk_State_Props
begin

text \<open>
  The control commands of the SDK (command\_handler/command\_impl.cpp): for every function of the
  programming interface the command and the body that are handed to \<open>SendCommand\<close>.
\<close>

section \<open>Bodies\<close>

type_synonym control = "(16 word \<times> byte list) outcome"

definition kCommandIDLidarWorkModeControl :: "16 word" where "kCommandIDLidarWorkModeControl = 0x0100"
definition kCommandIDLidarGetInternalInfo :: "16 word" where "kCommandIDLidarGetInternalInfo = 0x0101"
definition kCommandIDLidarRebootDevice :: "16 word" where "kCommandIDLidarRebootDevice = 0x0200"
definition kCommandIDLidarResetDevice :: "16 word" where "kCommandIDLidarResetDevice = 0x0201"
definition kCommandIDLidarSetPPSSync :: "16 word" where "kCommandIDLidarSetPPSSync = 0x0202"

text \<open>One pair of a key and its value.\<close>

definition control_pair :: "nat \<Rightarrow> byte list \<Rightarrow> control" where
  "control_pair key v = Ok (kCommandIDLidarWorkModeControl, request [(key, v)])"

definition SendSingleControlCommand :: "nat \<Rightarrow> byte \<Rightarrow> control" where
  "SendSingleControlCommand key v = control_pair key [v]"

text \<open>A query names the keys, in the order of a set.\<close>

definition query_keys :: "nat list \<Rightarrow> control" where
  "query_keys keys = Ok (kCommandIDLidarGetInternalInfo, le_bytes 2 (length keys) @ [0, 0] @ concat (map (le_bytes 2) keys))"

text \<open>Structures are the bytes of their packed layout.\<close>

definition SetLivoxLidarPclDataType :: "byte \<Rightarrow> control" where
  "SetLivoxLidarPclDataType data_type = control_pair 0x0000 [data_type]"

definition SetLivoxLidarScanPattern :: "byte \<Rightarrow> control" where
  "SetLivoxLidarScanPattern scan_pattern = control_pair 0x0001 [scan_pattern]"

definition SetLivoxLidarDualEmit :: "bool \<Rightarrow> control" where
  "SetLivoxLidarDualEmit enable = control_pair 0x0002 [if enable then 1 else 0]"

definition EnableLivoxLidarPointSend :: control where
  "EnableLivoxLidarPointSend = control_pair 0x0003 [0]"

definition DisableLivoxLidarPointSend :: control where
  "DisableLivoxLidarPointSend = control_pair 0x0003 [1]"

definition SetLivoxLidarInstallAttitude :: "byte list \<Rightarrow> control" where
  "SetLivoxLidarInstallAttitude att = control_pair 0x0012 att"

definition SetLivoxLidarFovCfg0 :: "byte list \<Rightarrow> control" where
  "SetLivoxLidarFovCfg0 fov = control_pair 0x0015 fov"

definition SetLivoxLidarFovCfg1 :: "byte list \<Rightarrow> control" where
  "SetLivoxLidarFovCfg1 fov = control_pair 0x0016 fov"

definition EnableLivoxLidarFov :: "byte \<Rightarrow> control" where
  "EnableLivoxLidarFov fov_en = control_pair 0x0017 [fov_en]"

definition DisableLivoxLidarFov :: control where
  "DisableLivoxLidarFov = control_pair 0x0017 [0]"

definition SetLivoxLidarDetectMode :: "byte \<Rightarrow> control" where
  "SetLivoxLidarDetectMode mode = control_pair 0x0018 [mode]"

definition SetLivoxLidarFuncIOCfg :: "byte list \<Rightarrow> control" where
  "SetLivoxLidarFuncIOCfg io = control_pair 0x0019 io"

definition SetLivoxLidarBlindSpot :: "32 word \<Rightarrow> control" where
  "SetLivoxLidarBlindSpot blind_spot = control_pair 0x0013 (le_bytes 4 (unat blind_spot))"

definition SetLivoxLidarWorkMode :: "byte \<Rightarrow> control" where
  "SetLivoxLidarWorkMode work_mode = control_pair 0x001A [work_mode]"

definition EnableLivoxLidarGlassHeat :: control where
  "EnableLivoxLidarGlassHeat = control_pair 0x001B [1]"

definition DisableLivoxLidarGlassHeat :: control where
  "DisableLivoxLidarGlassHeat = control_pair 0x001B [0]"

definition SetLivoxLidarGlassHeat :: "byte \<Rightarrow> control" where
  "SetLivoxLidarGlassHeat glass_heat = control_pair 0x001B [glass_heat]"

definition EnableLivoxLidarImuData :: control where
  "EnableLivoxLidarImuData = control_pair 0x001C [1]"

definition DisableLivoxLidarImuData :: control where
  "DisableLivoxLidarImuData = control_pair 0x001C [0]"

definition EnableLivoxLidarFusaFunciont :: control where
  "EnableLivoxLidarFusaFunciont = control_pair 0x001D [1]"

definition DisableLivoxLidarFusaFunciont :: control where
  "DisableLivoxLidarFusaFunciont = control_pair 0x001D [0]"

definition StartForcedHeating :: control where
  "StartForcedHeating = SendSingleControlCommand 0x001E 1"

definition StopForcedHeating :: control where
  "StopForcedHeating = SendSingleControlCommand 0x001E 0"

definition SetLivoxLidarLogParam :: "byte list \<Rightarrow> control" where
  "SetLivoxLidarLogParam log_param = control_pair 0x7FFF log_param"

definition SetLivoxLidarWorkModeAfterBoot :: "byte \<Rightarrow> control" where
  "SetLivoxLidarWorkModeAfterBoot work_mode = control_pair 0x0020 [work_mode]"

definition QueryLivoxLidarFwType :: control where
  "QueryLivoxLidarFwType = query_keys [0x8010]"

definition QueryLivoxLidarFirmwareVer :: control where
  "QueryLivoxLidarFirmwareVer = query_keys [0x8002]"

text \<open>The commands that set addresses.\<close>

definition control_body :: "byte list outcome \<Rightarrow> control" where
  "control_body r = and_then r (\<lambda>body. Ok (kCommandIDLidarWorkModeControl, body))"

definition SetLivoxLidarIp :: "string \<Rightarrow> string \<Rightarrow> string \<Rightarrow> control" where
  "SetLivoxLidarIp ip_addr net_mask gw_addr = control_body (BuildSetLidarIPInfoRequest ip_addr net_mask gw_addr)"

definition SetLivoxLidarStateInfoHostIPCfg :: "string \<Rightarrow> 16 word \<Rightarrow> 16 word \<Rightarrow> control" where
  "SetLivoxLidarStateInfoHostIPCfg ip host_port lidar_port = control_body (BuildSetHostStateInfoIPCfgRequest ip host_port lidar_port)"

definition SetLivoxLidarPointDataHostIPCfg :: "string \<Rightarrow> 16 word \<Rightarrow> 16 word \<Rightarrow> control" where
  "SetLivoxLidarPointDataHostIPCfg ip host_port lidar_port = control_body (BuildSetHostPointDataIPInfoRequest ip host_port lidar_port)"

definition SetLivoxLidarImuDataHostIPCfg :: "string \<Rightarrow> 16 word \<Rightarrow> 16 word \<Rightarrow> control" where
  "SetLivoxLidarImuDataHostIPCfg ip host_port lidar_port = control_body (BuildSetHostImuDataIPInfoRequest ip host_port lidar_port)"

text \<open>The keys a full query asks for.\<close>

fun internal_info_keys :: "dev_type \<Rightarrow> nat list option" where
  "internal_info_keys IndustrialHAP =
     Some [0x0000, 0x0001, 0x0002, 0x0003, 0x0004, 0x0006, 0x0007, 0x0009, 0x0012, 0x0013, 0x001A, 0x001B, 0x001C, 0x001D, 0x001E,
           0x8000, 0x8001, 0x8002, 0x8003, 0x8004, 0x8005, 0x8006, 0x800D, 0x800E, 0x800F, 0x8010, 0x8012]"
| "internal_info_keys Mid360 =
     Some [0x0000, 0x0001, 0x0004, 0x0005, 0x0006, 0x0007, 0x0012, 0x0015, 0x0016, 0x0017, 0x0018, 0x0019, 0x001A, 0x001C,
           0x8000, 0x8001, 0x8002, 0x8003, 0x8004, 0x8005, 0x8006, 0x8007, 0x8008, 0x8009, 0x800A, 0x800B, 0x800C, 0x800E, 0x8010, 0x8011]"
| "internal_info_keys PA = None"
| "internal_info_keys (Other_Device n) = None"

definition GetQueryLidarInternalInfoKeys :: "('h \<Rightarrow> dev_type option) \<Rightarrow> 'h \<Rightarrow> nat list option" where
  "GetQueryLidarInternalInfoKeys device_dev_type handle = Option.bind (device_dev_type handle) internal_info_keys"

definition QueryLivoxLidarInternalInfo :: "('h \<Rightarrow> dev_type option) \<Rightarrow> 'h \<Rightarrow> control" where
  "QueryLivoxLidarInternalInfo device_dev_type handle =
     (case GetQueryLidarInternalInfoKeys device_dev_type handle of None \<Rightarrow> Failed | Some keys \<Rightarrow> query_keys keys)"

text \<open>
  A reset carries the serial number; what it does not fill of the 16 bytes is what was on the
  stack.
\<close>

definition LivoxLidarRequestReset :: "byte list \<Rightarrow> ('h \<Rightarrow> byte list option) \<Rightarrow> 'h \<Rightarrow> control" where
  "LivoxLidarRequestReset stack devices handle =
     (case devices handle of
        None \<Rightarrow> Failed
      | Some sn \<Rightarrow> if length sn > 16 then Failed else Ok (kCommandIDLidarResetDevice, overwrite 0 sn (take 16 stack)))"

definition LivoxLidarRequestReboot :: control where
  "LivoxLidarRequestReboot = Ok (kCommandIDLidarRebootDevice, le_bytes 2 100)"

section \<open>Sending a control command\<close>

text \<open>\<open>SendCommand\<close> with the next sequence number; a body that could not be built sends nothing.\<close>

definition send_control ::
  "handler_kind option \<Rightarrow> bool \<Rightarrow> nat \<Rightarrow> nat \<Rightarrow> 32 word \<Rightarrow> control \<Rightarrow> 'cb option \<Rightarrow> 'cb command_table \<Rightarrow> LivoxLidarStatus \<times> 'cb command_table" where
  "send_control kind sent now seq handle r cb t =
     (case r of
        Ok (cmd_id, body) \<Rightarrow> SendCommand kind sent now (mk_Command seq cmd_id body handle cb) t
      | _ \<Rightarrow> (Status_Failure, t))"

section \<open>Time of a GPRMC sentence\<close>

text \<open>\<open>Split\<close> with \<open>getline\<close>: an empty last piece is not reported.\<close>

fun getlines :: "char \<Rightarrow> string \<Rightarrow> string \<Rightarrow> string list" where
  "getlines sep part [] = (if part = [] then [] else [part])"
| "getlines sep part (c # cs) = (if c = sep then part # getlines sep [] cs else getlines sep (part @ [c]) cs)"

definition Split :: "string \<Rightarrow> char \<Rightarrow> string list" where
  "Split str pattern = getlines pattern [] str"

definition substr :: "nat \<Rightarrow> nat \<Rightarrow> string \<Rightarrow> string" where
  "substr pos n s = take n (drop pos s)"

text \<open>
  \<open>to_seconds\<close> is \<open>StringToTimestamp\<close> for the format \<open>%Y-%m-%d %H:%M:%S\<close>, which depends on the time
  zone; \<open>None\<close> is an access past the last field.
\<close>

definition ParseGPRMC :: "(string \<Rightarrow> int) \<Rightarrow> string \<Rightarrow> 64 word option" where
  "ParseGPRMC to_seconds gprmc =
     (let v = Split gprmc (CHR '','') in
      if length v < 9 then Some 0
      else if length (v ! 1) < 6 then Some 0
      else if length v \<le> 9 then None
      else if length (v ! 9) < 6 then Some 0
      else
        let time = ''20'' @ drop 4 (v ! 9) @ ''-'' @ substr 2 2 (v ! 9) @ ''-'' @ substr 0 2 (v ! 9) @ '' ''
                   @ substr 0 2 (v ! 1) @ '':'' @ substr 2 2 (v ! 1) @ '':'' @ substr 4 2 (v ! 1)
        in Some (word_of_int (to_seconds time * 1000) * 1000 * 1000))"

definition SetLivoxLidarRmcSyncTime :: "(string \<Rightarrow> int) \<Rightarrow> string \<Rightarrow> control option" where
  "SetLivoxLidarRmcSyncTime to_seconds rmc =
     map_option (\<lambda>ns. Ok (kCommandIDLidarSetPPSSync, 2 # le_bytes 8 (unat ns))) (ParseGPRMC to_seconds rmc)"

section \<open>What the lidar reads\<close>

text \<open>The reader of a list of pairs, as the other end has it.\<close>

fun read_pairs :: "nat \<Rightarrow> byte list \<Rightarrow> (nat \<times> byte list) list option" where
  "read_pairs 0 bs = (if bs = [] then Some [] else None)"
| "read_pairs (Suc n) bs =
     (case (field 0 2 bs, field 2 2 bs) of
        (Some key, Some len) \<Rightarrow>
          (case slice 4 len bs of
             None \<Rightarrow> None
           | Some v \<Rightarrow> map_option (\<lambda>kvs. (key, v) # kvs) (read_pairs n (drop (4 + len) bs)))
      | _ \<Rightarrow> None)"

definition read_request :: "byte list \<Rightarrow> (nat \<times> byte list) list option" where
  "read_request bs = (case field 0 2 bs of None \<Rightarrow> None | Some n \<Rightarrow> read_pairs n (drop 4 bs))"

lemma read_pairs_kvs:
  "\<forall>(key, v) \<in> set kvs. key < 2 ^ 16 \<and> length v < 2 ^ 16 \<Longrightarrow> read_pairs (length kvs) (concat (map kv_bytes kvs)) = Some kvs"
proof (induction kvs)
  case (Cons kv kvs)
  obtain key v where kv: "kv = (key, v)" by (cases kv)
  let ?rest = "concat (map kv_bytes kvs)"
  have bytes: "concat (map kv_bytes (kv # kvs)) = le_bytes 2 key @ le_bytes 2 (length v) @ v @ ?rest"
    by (simp add: kv kv_bytes_def)
  have lim: "key < 256 ^ 2" "length v < 256 ^ 2" using Cons.prems by (auto simp: kv)
  have f: "field 0 2 (le_bytes 2 key @ le_bytes 2 (length v) @ v @ ?rest) = Some key"
    using field_append [of "[]" 0 2 key] lim(1) by simp
  have g: "field 2 2 (le_bytes 2 key @ le_bytes 2 (length v) @ v @ ?rest) = Some (length v)"
    using field_append [of "le_bytes 2 key" 2 2 "length v"] lim(2) by simp
  have s: "slice 4 (length v) (le_bytes 2 key @ le_bytes 2 (length v) @ v @ ?rest) = Some v" by (simp add: slice_def)
  have d: "drop (4 + length v) (le_bytes 2 key @ le_bytes 2 (length v) @ v @ ?rest) = ?rest" by simp
  have IH: "read_pairs (length kvs) ?rest = Some kvs" using Cons by simp
  show ?case unfolding bytes list.size add_0 Suc_eq_plus1 [symmetric] read_pairs.simps
    by (simp only: add_Suc_right add_0_right read_pairs.simps f g option.case prod.case s d IH option.map kv)
qed simp

text \<open>
  Requests are read as they were written: every list of pairs whose keys and lengths fit 16
  bits, the address requests of the configuration included, is given back by the reader.
\<close>

theorem request_roundtrip:
  assumes "length kvs < 2 ^ 16" "\<forall>(key, v) \<in> set kvs. key < 2 ^ 16 \<and> length v < 2 ^ 16"
  shows "read_request (request kvs) = Some kvs"
proof -
  have "field 0 2 (request kvs) = Some (length kvs)" using field_request [OF assms(1), of "[]"] by simp
  moreover have "drop 4 (request kvs) = concat (map kv_bytes kvs)" by (simp add: request_def)
  ultimately show ?thesis using read_pairs_kvs [OF assms(2)] by (simp add: read_request_def)
qed

theorem request_roundtrip_witness: "read_request (request [(0x0013, [1, 2, 3, 4]), (0x001A, [])]) = Some [(0x0013, [1, 2, 3, 4]), (0x001A, [])]"
  by (rule request_roundtrip) simp_all

text \<open>All settings, with any arguments of the right types.\<close>

definition settings :: "byte \<Rightarrow> bool \<Rightarrow> 32 word \<Rightarrow> byte list \<Rightarrow> byte list \<Rightarrow> byte list \<Rightarrow> control list" where
  "settings x b w att fov io =
     [SetLivoxLidarPclDataType x, SetLivoxLidarScanPattern x, SetLivoxLidarDualEmit b, EnableLivoxLidarPointSend, DisableLivoxLidarPointSend,
      SetLivoxLidarInstallAttitude att, SetLivoxLidarFovCfg0 fov, SetLivoxLidarFovCfg1 fov, EnableLivoxLidarFov x, DisableLivoxLidarFov,
      SetLivoxLidarDetectMode x, SetLivoxLidarFuncIOCfg io, SetLivoxLidarBlindSpot w, SetLivoxLidarWorkMode x, EnableLivoxLidarGlassHeat,
      DisableLivoxLidarGlassHeat, SetLivoxLidarGlassHeat x, EnableLivoxLidarImuData, DisableLivoxLidarImuData, EnableLivoxLidarFusaFunciont,
      DisableLivoxLidarFusaFunciont, StartForcedHeating, StopForcedHeating, SetLivoxLidarWorkModeAfterBoot x]"

lemmas setting_defs = control_pair_def SendSingleControlCommand_def SetLivoxLidarPclDataType_def SetLivoxLidarScanPattern_def
  SetLivoxLidarDualEmit_def EnableLivoxLidarPointSend_def DisableLivoxLidarPointSend_def SetLivoxLidarInstallAttitude_def
  SetLivoxLidarFovCfg0_def SetLivoxLidarFovCfg1_def EnableLivoxLidarFov_def DisableLivoxLidarFov_def SetLivoxLidarDetectMode_def
  SetLivoxLidarFuncIOCfg_def SetLivoxLidarBlindSpot_def SetLivoxLidarWorkMode_def EnableLivoxLidarGlassHeat_def
  DisableLivoxLidarGlassHeat_def SetLivoxLidarGlassHeat_def EnableLivoxLidarImuData_def DisableLivoxLidarImuData_def
  EnableLivoxLidarFusaFunciont_def DisableLivoxLidarFusaFunciont_def StartForcedHeating_def StopForcedHeating_def
  SetLivoxLidarWorkModeAfterBoot_def

lemma settings_pairs:
  "settings x b w att fov io = map (\<lambda>(key, v). control_pair key v)
     [(0x0000, [x]), (0x0001, [x]), (0x0002, [if b then 1 else 0]), (0x0003, [0]), (0x0003, [1]), (0x0012, att), (0x0015, fov), (0x0016, fov),
      (0x0017, [x]), (0x0017, [0]), (0x0018, [x]), (0x0019, io), (0x0013, le_bytes 4 (unat w)), (0x001A, [x]), (0x001B, [1]),
      (0x001B, [0]), (0x001B, [x]), (0x001C, [1]), (0x001C, [0]), (0x001D, [1]),
      (0x001D, [0]), (0x001E, [1]), (0x001E, [0]), (0x0020, [x])]"
  by (simp add: settings_def setting_defs)

lemma settings_values:
  assumes "length att = 24" "length fov = 20" "length io = 4"
  shows "list_all (\<lambda>(key, v). value_ok (key, v) \<and> length v \<le> 24)
     [(0x0000, [x]), (0x0001, [x]), (0x0002, [if b then 1 else 0]), (0x0003, [0]), (0x0003, [1]), (0x0012, att), (0x0015, fov), (0x0016, fov),
      (0x0017, [x]), (0x0017, [0]), (0x0018, [x]), (0x0019, io), (0x0013, le_bytes 4 (unat w)), (0x001A, [x]), (0x001B, [1]),
      (0x001B, [0]), (0x001B, [x]), (0x001C, [1]), (0x001C, [0]), (0x001D, [1]),
      (0x001D, [0]), (0x001E, [1]), (0x001E, [0]), (0x0020, [x])]"
proof -
  have "le_bytes 4 n \<noteq> []" for n by (metis length_le_bytes list.size(3) zero_neq_numeral)
  moreover have "att \<noteq> []" "fov \<noteq> []" "io \<noteq> []" using assms by auto
  ultimately show ?thesis using assms by (simp add: value_ok_def field_table_def host_ip_offset_def kKeyLidarIpCfg_def)
qed

text \<open>
  Every setting of the programming interface is a well-formed command: one pair in a body that
  fits the buffer of 1400 bytes, and, when a lidar reports the setting back, the state parser
  marks exactly that key and stores exactly that value.
\<close>

theorem settings_are_echoed:
  assumes "length att = 24" "length fov = 20" "length io = 4" "r \<in> set (settings x b w att fov io)" "length info = info_size"
  shows "\<exists>key v info' keys. r = Ok (kCommandIDLidarWorkModeControl, request [(key, v)]) \<and> length (request [(key, v)]) \<le> 1400
    \<and> ParseStateInfo (request [(key, v)] @ rest) (length (request [(key, v)])) info = Parsed info' keys
    \<and> (\<forall>dst n. map_of field_table key = Some (dst, n) \<longrightarrow> set keys = {key} \<and> take n (drop dst info') = v)"
proof -
  obtain key v where r: "r = control_pair key v" "value_ok (key, v)" "length v \<le> 24"
    using assms(4) settings_values [OF assms(1-3), of x b w] unfolding settings_pairs list_all_iff by fastforce
  have len: "length (request [(key, v)]) = 8 + length v" by (simp add: request_def kv_bytes_def)
  have ok: "\<forall>kv \<in> set [(key, v)]. value_ok kv" using r(2) by simp
  have d: "distinct (map fst [(key, v)])" "length (request [(key, v)]) < 2 ^ 16" using r(3) len by simp_all
  obtain info' keys where p: "ParseStateInfo (request [(key, v)] @ rest) (length (request [(key, v)])) info = Parsed info' keys"
    "set keys = {k \<in> fst ` set [(key, v)]. known_key k}"
    "\<forall>kv \<in> set [(key, v)]. \<forall>(off, bs) \<in> set (pieces kv). take (length bs) (drop off info') = bs"
    using state_info_exact_step [OF ok d assms(5), of rest] by blast
  have "set keys = {key} \<and> take n (drop dst info') = v" if "map_of field_table key = Some (dst, n)" for dst n
    using that p(2,3) r(2) by (auto simp: known_key_def pieces_def value_ok_def)
  then show ?thesis using r(1,3) len p(1) by (intro exI [of _ key] exI [of _ v] exI [of _ info'] exI [of _ keys]) (auto simp: control_pair_def)
qed

theorem settings_are_echoed_witness:
  "\<exists>key v. SetLivoxLidarWorkMode 2 = Ok (kCommandIDLidarWorkModeControl, request [(key, v)]) \<and> length (request [(key, v)]) \<le> 1400"
  using settings_are_echoed [of "replicate 24 0" "replicate 20 0" "replicate 4 0" "SetLivoxLidarWorkMode 2" 2 True 0 "replicate 440 0" "[]"]
  by (auto simp: settings_def info_size_def)

text \<open>
  A GPRMC sentence of exactly nine fields, which is one too short to have a date, is not
  refused but read past its end.
\<close>

theorem short_gprmc_overread:
  assumes "length (Split s (CHR '','')) = 9" "6 \<le> length (Split s (CHR '','') ! 1)"
  shows "ParseGPRMC to_seconds s = None"
  using assms by (simp add: ParseGPRMC_def Let_def)

theorem short_gprmc_overread_witness: "ParseGPRMC (\<lambda>_. 0) ''$GPRMC,123519,A,4807.038,N,01131.000,E,022.4,084.4'' = None"
  by (rule short_gprmc_overread) (simp_all add: Split_def)

end
