(* ===== verification/Runs.thy ===== *)
theory Runs
  imports LIO_Prelude
begin

text \<open>
  Two contracts that several components share: a machine whose steps keep an invariant, and a
  machine that in addition comes closer to a final state with every event except the slow
  ones, each of which may set it back by a bounded amount.
\<close>

section \<open>Machines with an invariant\<close>

locale machine =
  fixes step :: "'e \<Rightarrow> 's \<Rightarrow> 's"
    and inv :: "'s \<Rightarrow> bool"
  assumes step_inv: "inv s \<Longrightarrow> inv (step e s)"
begin

lemma run_inv: "inv s \<Longrightarrow> inv (fold step es s)"
  by (induction es arbitrary: s) (auto intro: step_inv)

end

section \<open>Machines that end\<close>

locale ranked_machine = machine +
  fixes final :: "'b \<Rightarrow> bool"
    and rank :: "'b \<Rightarrow> nat"
    and slow :: "'a \<Rightarrow> 'b \<Rightarrow> bool"
    and cost :: nat
  assumes final_step: "final s \<Longrightarrow> final (step e s)"
    and rank_step: "inv s \<Longrightarrow> \<not> final s \<Longrightarrow> rank (step e s) < rank s + (if slow e s then cost else 0)"
begin

text \<open>The slow events of a run.\<close>

primrec delays :: "'a list \<Rightarrow> 'b \<Rightarrow> nat" where
  "delays [] s = 0"
| "delays (e # es) s = (if slow e s then 1 else 0) + delays es (step e s)"

lemma final_run: "final s \<Longrightarrow> final (fold step es s)"
  by (induction es arbitrary: s) (auto intro: final_step)

lemma rank_run:
  "inv s \<Longrightarrow> \<not> final (fold step es s) \<Longrightarrow> length es + rank (fold step es s) \<le> rank s + cost * delays es s"
proof (induction es arbitrary: s)
  case (Cons e es)
  have nf: "\<not> final s" using Cons.prems(2) final_run [of s "e # es"] by auto
  have "length es + rank (fold step es (step e s)) \<le> rank (step e s) + cost * delays es (step e s)"
    using Cons.IH [of "step e s"] Cons.prems step_inv by simp
  then show ?case using rank_step [OF Cons.prems(1) nf, of e] by (auto split: if_splits)
qed simp

lemma ends: "inv s \<Longrightarrow> rank s + cost * delays es s < length es \<Longrightarrow> final (fold step es s)"
  using rank_run [of s es] by force

end

end
