(* ===== verification/Sdk_Upgrade.thy ===== *)
theory Sdk_Upgrade
  imports Sdk_Control Runs
begin

text \<open>
  The firmware upgrade of the SDK (sdk\_core/upgrade): reading a firmware file, the state machine
  of an upgrade with its five requests and the handlers of their responses.
\<close>

section \<open>Firmware files\<close>

record LivoxEncryptFirmwareHeader =
  file_version :: "32 word"
  firmware_version :: "32 word"
  firmware_length :: "32 word"
  firmware_type :: byte
  fw_device_type :: byte
  encrypt_type :: byte
  fw_rsvd :: "byte list"
  checksum_type :: byte
  checksum_length :: "16 word"
  fw_checksum :: "byte list"
  hw_whitelist :: "byte list"
  modify_time :: "64 word"
  header_checksum :: "16 word"

definition header_size :: nat where "header_size = 286"
definition tail_size :: nat where "tail_size = 16"
definition kEnlFileVersionV3 :: "32 word" where "kEnlFileVersionV3 = 0x03000000"

text \<open>The packed layout of the header.\<close>

definition read_header :: "byte list \<Rightarrow> LivoxEncryptFirmwareHeader" where
  "read_header bs =
     (let num = (\<lambda>off n. le_val (take n (drop off bs))) in
      \<lparr>file_version = of_nat (num 0 4), firmware_version = of_nat (num 4 4), firmware_length = of_nat (num 8 4),
       firmware_type = bs ! 12, fw_device_type = bs ! 13, encrypt_type = bs ! 14, fw_rsvd = take 2 (drop 15 bs),
       checksum_type = bs ! 17, checksum_length = of_nat (num 18 2), fw_checksum = take 128 (drop 20 bs),
       hw_whitelist = take 128 (drop 148 bs), modify_time = of_nat (num 276 8), header_checksum = of_nat (num 284 2)\<rparr>)"

text \<open>\<open>None\<close> among the data is a byte of the allocated buffer that was never written.\<close>

record Firmware =
  fw_header :: LivoxEncryptFirmwareHeader
  fw_data :: "byte option list"
  fw_tail :: "byte list"

definition MiniFileSize :: nat where "MiniFileSize = header_size + tail_size + 1"

text \<open>A read that fails leaves what it did not reach; the file counts as read all the same.\<close>

definition ReadAndCheckHeader :: "(byte list \<Rightarrow> 16 word) \<Rightarrow> byte list \<Rightarrow> Firmware \<Rightarrow> Firmware \<times> bool" where
  "ReadAndCheckHeader mcrf4xx file fw =
     (let raw = take header_size file; h = read_header raw; fw1 = fw\<lparr>fw_header := h\<rparr> in
      if mcrf4xx (take (header_size - 2) raw) \<noteq> header_checksum h then (fw1, False)
      else
        let n = unat (firmware_length h); rest = drop header_size file;
            got = take tail_size (drop n rest)
        in (fw1\<lparr>fw_data := map Some (take n rest) @ replicate (n - length rest) None,
                fw_tail := (if length rest < n then fw_tail fw else got @ drop (length got) (fw_tail fw))\<rparr>, True))"

definition Open :: "(byte list \<Rightarrow> 16 word) \<Rightarrow> byte list option \<Rightarrow> Firmware \<Rightarrow> Firmware \<times> bool" where
  "Open mcrf4xx file fw =
     (case file of
        None \<Rightarrow> (fw, False)
      | Some bs \<Rightarrow> if length bs < MiniFileSize then (fw, False) else ReadAndCheckHeader mcrf4xx bs fw)"

section \<open>Requests\<close>

datatype upgrade_request =
    StartUpgradeRequest "byte list"
  | XferFirmwareRequest "32 word" "32 word" byte "byte option list"
  | CompleteXferFirmwareRequest byte byte "byte list"
  | GetUpgradeProgressRequest
  | RebootRequest

definition kCommandIDGeneralRequestUpgrade :: "16 word" where "kCommandIDGeneralRequestUpgrade = 0x0400"
definition kCommandIDGeneralXferFirmware :: "16 word" where "kCommandIDGeneralXferFirmware = 0x0401"
definition kCommandIDGeneralCompleteXferFirmware :: "16 word" where "kCommandIDGeneralCompleteXferFirmware = 0x0402"
definition kCommandIDGeneralRequestUpgradeProgress :: "16 word" where "kCommandIDGeneralRequestUpgradeProgress = 0x0403"

text \<open>The command and the body that are sent; the reserved bytes of a transfer are not set.\<close>

fun upgrade_command :: "upgrade_request \<Rightarrow> 16 word \<times> byte option list" where
  "upgrade_command (StartUpgradeRequest body) = (kCommandIDGeneralRequestUpgrade, map Some body)"
| "upgrade_command (XferFirmwareRequest off len enc bs) =
     (kCommandIDGeneralXferFirmware,
      map Some (le_bytes 4 (unat off) @ le_bytes 4 (unat len) @ [enc]) @ replicate 3 None @ bs)"
| "upgrade_command (CompleteXferFirmwareRequest ty len bs) =
     (kCommandIDGeneralCompleteXferFirmware, map Some (ty # len # bs))"
| "upgrade_command GetUpgradeProgressRequest = (kCommandIDGeneralRequestUpgradeProgress, [])"
| "upgrade_command RebootRequest = (kCommandIDLidarRebootDevice, map Some (le_bytes 2 100))"

section \<open>The state machine\<close>

datatype LivoxLidarFsmState =
    Upgrade_Idle | Upgrade_Request | Upgrade_XferFirmware | Upgrade_CompleteXferFirmware
  | Upgrade_GetUpgradeProgress | Upgrade_Complete | Upgrade_Timeout | Upgrade_Err | Upgrade_Undef

datatype LivoxLidarFsmEvent =
    Event_RequestUpgrade | Event_XferFirmware | Event_CompleteXferFirmware | Event_GetUpgradeProgress
  | Event_Complete | Event_Reinit | Event_Timeout | Event_Err | Event_Undef

datatype upgrade_handler = H_StartUpgrade | H_XferFirmware | H_CompleteXferFirmware | H_GetUpgradeProgress | H_UpgradeComplete

definition upgrade_event_table ::
  "(LivoxLidarFsmState \<times> LivoxLidarFsmEvent \<times> upgrade_handler option \<times> LivoxLidarFsmState) list" where
  "upgrade_event_table =
     [(Upgrade_Idle, Event_RequestUpgrade, Some H_StartUpgrade, Upgrade_Request),
      (Upgrade_Request, Event_RequestUpgrade, Some H_StartUpgrade, Upgrade_Request),
      (Upgrade_Request, Event_XferFirmware, Some H_XferFirmware, Upgrade_XferFirmware),
      (Upgrade_XferFirmware, Event_XferFirmware, Some H_XferFirmware, Upgrade_XferFirmware),
      (Upgrade_XferFirmware, Event_CompleteXferFirmware, Some H_CompleteXferFirmware, Upgrade_CompleteXferFirmware),
      (Upgrade_CompleteXferFirmware, Event_CompleteXferFirmware, Some H_CompleteXferFirmware, Upgrade_CompleteXferFirmware),
      (Upgrade_CompleteXferFirmware, Event_GetUpgradeProgress, Some H_GetUpgradeProgress, Upgrade_GetUpgradeProgress),
      (Upgrade_GetUpgradeProgress, Event_GetUpgradeProgress, Some H_GetUpgradeProgress, Upgrade_GetUpgradeProgress),
      (Upgrade_GetUpgradeProgress, Event_Complete, Some H_UpgradeComplete, Upgrade_Complete),
      (Upgrade_Complete, Event_Complete, Some H_UpgradeComplete, Upgrade_Complete),
      (Upgrade_Complete, Event_Reinit, None, Upgrade_Idle)]"

text \<open>
  The upgrader.  \<open>sent\<close> are the requests that were handed to \<open>SendCommand\<close> and \<open>awaited\<close> is the
  handler that waits for the response to the last of them; \<open>observed\<close> are the calls of the observer.
\<close>

record LivoxLidarUpgrader =
  up_firmware :: Firmware
  read_offset :: "32 word"
  read_length :: "32 word"
  fsm_state :: LivoxLidarFsmState
  upgrade_error :: "32 word"
  up_progress :: byte
  try_count :: "32 word"
  sent :: "upgrade_request list"
  awaited :: "upgrade_handler option"
  observed :: "(LivoxLidarFsmEvent \<times> byte) list"

definition new_LivoxLidarUpgrader :: "Firmware \<Rightarrow> LivoxLidarUpgrader" where
  "new_LivoxLidarUpgrader fw =
     \<lparr>up_firmware = fw, read_offset = 0, read_length = 1024, fsm_state = Upgrade_Idle, upgrade_error = 0,
      up_progress = 0, try_count = 0, sent = [], awaited = None, observed = []\<rparr>"

definition send_request :: "upgrade_handler \<Rightarrow> upgrade_request \<Rightarrow> LivoxLidarUpgrader \<Rightarrow> LivoxLidarUpgrader" where
  "send_request h r u = u\<lparr>sent := sent u @ [r], awaited := Some h\<rparr>"

definition StartUpgrade :: "LivoxLidarUpgrader \<Rightarrow> LivoxLidarUpgrader" where
  "StartUpgrade u =
     (let h = fw_header (up_firmware u);
          body = [firmware_type h, encrypt_type h] @ le_bytes 4 (unat (firmware_length h)) @ [fw_device_type h];
          body3 = body @ le_bytes 4 (unat (firmware_version h)) @ le_bytes 8 (unat (modify_time h)) @ take 32 (hw_whitelist h)
      in send_request H_StartUpgrade
           (StartUpgradeRequest (if file_version h = kEnlFileVersionV3 then body3 else body))
           (u\<lparr>read_offset := 0, upgrade_error := 0, up_progress := 0\<rparr>))"

definition XferFirmware :: "LivoxLidarUpgrader \<Rightarrow> LivoxLidarUpgrader" where
  "XferFirmware u =
     (let h = fw_header (up_firmware u); len = firmware_length h; off = read_offset u in
      if off < len then
        let n = (if read_length u > len - off then len - off else read_length u)
        in send_request H_XferFirmware
             (XferFirmwareRequest off n (encrypt_type h) (take (unat n) (drop (unat off) (fw_data (up_firmware u))))) u
      else u)"

text \<open>The length of the checksum is cut to eight bits; the copy may run on into the white list.\<close>

definition CompleteXferFirmware :: "LivoxLidarUpgrader \<Rightarrow> LivoxLidarUpgrader" where
  "CompleteXferFirmware u =
     (let h = fw_header (up_firmware u); n = (ucast (checksum_length h) :: byte)
      in send_request H_CompleteXferFirmware
           (CompleteXferFirmwareRequest (checksum_type h) n (take (unat n) (fw_checksum h @ hw_whitelist h))) u)"

definition GetUpgradeProgress :: "LivoxLidarUpgrader \<Rightarrow> LivoxLidarUpgrader" where
  "GetUpgradeProgress u = send_request H_GetUpgradeProgress GetUpgradeProgressRequest u"

definition UpgradeComplete :: "LivoxLidarUpgrader \<Rightarrow> LivoxLidarUpgrader" where
  "UpgradeComplete u = send_request H_UpgradeComplete RebootRequest u"

fun run_handler :: "upgrade_handler option \<Rightarrow> LivoxLidarUpgrader \<Rightarrow> LivoxLidarUpgrader" where
  "run_handler None u = u"
| "run_handler (Some H_StartUpgrade) u = StartUpgrade u"
| "run_handler (Some H_XferFirmware) u = XferFirmware u"
| "run_handler (Some H_CompleteXferFirmware) u = CompleteXferFirmware u"
| "run_handler (Some H_GetUpgradeProgress) u = GetUpgradeProgress u"
| "run_handler (Some H_UpgradeComplete) u = UpgradeComplete u"

text \<open>The numbers of events and states agree where \<open>LivoxLidarFsmStateChange\<close> is called.\<close>

fun LivoxLidarFsmStateChange :: "LivoxLidarFsmEvent \<Rightarrow> LivoxLidarUpgrader \<Rightarrow> LivoxLidarUpgrader" where
  "LivoxLidarFsmStateChange Event_RequestUpgrade u = u\<lparr>fsm_state := Upgrade_Idle\<rparr>"
| "LivoxLidarFsmStateChange Event_XferFirmware u = u\<lparr>fsm_state := Upgrade_Request\<rparr>"
| "LivoxLidarFsmStateChange Event_CompleteXferFirmware u = u\<lparr>fsm_state := Upgrade_XferFirmware\<rparr>"
| "LivoxLidarFsmStateChange Event_GetUpgradeProgress u = u\<lparr>fsm_state := Upgrade_CompleteXferFirmware\<rparr>"
| "LivoxLidarFsmStateChange Event_Complete u = u\<lparr>fsm_state := Upgrade_GetUpgradeProgress\<rparr>"
| "LivoxLidarFsmStateChange Event_Reinit u = u\<lparr>fsm_state := Upgrade_Complete\<rparr>"
| "LivoxLidarFsmStateChange Event_Timeout u = u\<lparr>fsm_state := Upgrade_Timeout\<rparr>"
| "LivoxLidarFsmStateChange Event_Err u = u\<lparr>fsm_state := Upgrade_Err\<rparr>"
| "LivoxLidarFsmStateChange Event_Undef u = u"

definition find_transition :: "LivoxLidarFsmState \<Rightarrow> LivoxLidarFsmEvent \<Rightarrow> (upgrade_handler option \<times> LivoxLidarFsmState) option" where
  "find_transition st ev = map_of (map (\<lambda>(s, e, h, n). ((s, e), (h, n))) upgrade_event_table) (st, ev)"

definition FsmEventHandler :: "LivoxLidarFsmEvent \<Rightarrow> byte \<Rightarrow> LivoxLidarUpgrader \<Rightarrow> LivoxLidarUpgrader" where
  "FsmEventHandler ev progress u =
     (let u1 = (if ev = Event_Timeout \<or> ev = Event_Err then LivoxLidarFsmStateChange ev u else u);
          u2 = (case find_transition (fsm_state u1) ev of
                  None \<Rightarrow> u1
                | Some (h, next_state) \<Rightarrow> run_handler h (u1\<lparr>fsm_state := next_state\<rparr>))
      in u2\<lparr>observed := observed u2 @ [(ev, progress)]\<rparr>)"

definition StartUpgradeLivoxLidar :: "LivoxLidarUpgrader \<Rightarrow> LivoxLidarUpgrader" where
  "StartUpgradeLivoxLidar u = FsmEventHandler Event_RequestUpgrade 10 u"

definition IsUpgradeComplete :: "LivoxLidarUpgrader \<Rightarrow> bool" where
  "IsUpgradeComplete u \<longleftrightarrow> fsm_state u = Upgrade_Idle"

definition IsUpgradeError :: "LivoxLidarUpgrader \<Rightarrow> bool" where
  "IsUpgradeError u \<longleftrightarrow> fsm_state u = Upgrade_Timeout \<or> fsm_state u = Upgrade_Err"

section \<open>Responses\<close>

definition kGeneralTryCountLimit :: "32 word" where "kGeneralTryCountLimit = 10"
definition kGetProcessTryCountLimit :: "32 word" where "kGetProcessTryCountLimit = 30"
definition kSystemIsNotReady :: byte where "kSystemIsNotReady = 2"
definition EraseFirmware :: byte where "EraseFirmware = 0x34"

text \<open>What comes back: a status and, if it is the success status, the return code and the progress.\<close>

datatype upgrade_response = Response byte byte | No_Response LivoxLidarStatus

text \<open>A request that was not answered is repeated until the limit, then the upgrade gives up.\<close>

definition retry ::
  "32 word \<Rightarrow> LivoxLidarFsmEvent \<Rightarrow> byte \<Rightarrow> LivoxLidarFsmEvent \<Rightarrow> LivoxLidarUpgrader \<Rightarrow> LivoxLidarUpgrader" where
  "retry limit again progress give_up u =
     (let n = try_count u + 1 in
      if n < limit then FsmEventHandler again progress (u\<lparr>try_count := n\<rparr>)
      else FsmEventHandler give_up 100 (u\<lparr>try_count := 0\<rparr>))"

fun StartUpgradeResponseHandler :: "upgrade_response \<Rightarrow> LivoxLidarUpgrader \<Rightarrow> LivoxLidarUpgrader" where
  "StartUpgradeResponseHandler (Response ret progress) u =
     (let u1 = u\<lparr>try_count := 0\<rparr> in
      if ret \<noteq> 0 then
        (if ret = kSystemIsNotReady \<or> ret = EraseFirmware then FsmEventHandler Event_RequestUpgrade 10 u1
         else FsmEventHandler Event_Err 100 u1)
      else FsmEventHandler Event_XferFirmware 20 u1)"
| "StartUpgradeResponseHandler (No_Response status) u = retry kGeneralTryCountLimit Event_RequestUpgrade 10 Event_Err u"

fun XferFirmwareResponseHandler :: "upgrade_response \<Rightarrow> LivoxLidarUpgrader \<Rightarrow> LivoxLidarUpgrader" where
  "XferFirmwareResponseHandler (Response ret progress) u =
     (let u1 = u\<lparr>try_count := 0\<rparr> in
      if ret \<noteq> 0 then FsmEventHandler Event_Err 100 u1
      else
        let u2 = u1\<lparr>read_offset := read_offset u1 + read_length u1\<rparr> in
        if read_offset u2 < firmware_length (fw_header (up_firmware u2))
        then FsmEventHandler Event_XferFirmware 20 u2
        else FsmEventHandler Event_CompleteXferFirmware 40 u2)"
| "XferFirmwareResponseHandler (No_Response status) u = retry kGeneralTryCountLimit Event_XferFirmware 20 Event_Err u"

fun CompleteXferFirmwareResponseHandler :: "upgrade_response \<Rightarrow> LivoxLidarUpgrader \<Rightarrow> LivoxLidarUpgrader" where
  "CompleteXferFirmwareResponseHandler (Response ret progress) u =
     (let u1 = u\<lparr>try_count := 0\<rparr> in
      if ret \<noteq> 0 then FsmEventHandler Event_Err 100 u1 else FsmEventHandler Event_GetUpgradeProgress 50 u1)"
| "CompleteXferFirmwareResponseHandler (No_Response status) u =
     retry kGeneralTryCountLimit Event_CompleteXferFirmware 50 Event_Err u"

fun GetProgressResponseHandler :: "upgrade_response \<Rightarrow> LivoxLidarUpgrader \<Rightarrow> LivoxLidarUpgrader" where
  "GetProgressResponseHandler (Response ret progress) u =
     (let u1 = u\<lparr>try_count := 0\<rparr> in
      if ret \<noteq> 0 then FsmEventHandler Event_Err 100 u1
      else if progress < 100 then FsmEventHandler Event_GetUpgradeProgress (progress div 2 + 50) u1
      else FsmEventHandler Event_Complete 100 u1)"
| "GetProgressResponseHandler (No_Response status) u =
     retry kGetProcessTryCountLimit Event_GetUpgradeProgress (up_progress u div 2 + 50) Event_Err u"

fun UpgradeCompleteResponseHandler :: "upgrade_response \<Rightarrow> LivoxLidarUpgrader \<Rightarrow> LivoxLidarUpgrader" where
  "UpgradeCompleteResponseHandler (Response ret progress) u =
     (let u1 = u\<lparr>try_count := 0\<rparr> in
      if ret \<noteq> 0 then FsmEventHandler Event_Err 100 u1 else FsmEventHandler Event_Reinit 100 u1)"
| "UpgradeCompleteResponseHandler (No_Response status) u = retry kGeneralTryCountLimit Event_Complete 100 Event_Reinit u"

text \<open>
  The response to the last request; a request that the socket refuses is a \<open>No_Response\<close> at
  once, so its notifications come before that of the request (the log has them after it).
\<close>

fun upgrade_step :: "upgrade_response \<Rightarrow> LivoxLidarUpgrader \<Rightarrow> LivoxLidarUpgrader" where
  "upgrade_step r u =
     (let u1 = u\<lparr>awaited := None\<rparr> in
      case awaited u of
        None \<Rightarrow> u
      | Some H_StartUpgrade \<Rightarrow> StartUpgradeResponseHandler r u1
      | Some H_XferFirmware \<Rightarrow> XferFirmwareResponseHandler r u1
      | Some H_CompleteXferFirmware \<Rightarrow> CompleteXferFirmwareResponseHandler r u1
      | Some H_GetUpgradeProgress \<Rightarrow> GetProgressResponseHandler r u1
      | Some H_UpgradeComplete \<Rightarrow> UpgradeCompleteResponseHandler r u1)"

definition upgrade_run :: "upgrade_response list \<Rightarrow> Firmware \<Rightarrow> LivoxLidarUpgrader" where
  "upgrade_run rs fw = fold upgrade_step rs (StartUpgradeLivoxLidar (new_LivoxLidarUpgrader fw))"

lemmas upgrade_defs = FsmEventHandler_def StartUpgrade_def XferFirmware_def CompleteXferFirmware_def
  GetUpgradeProgress_def UpgradeComplete_def send_request_def

lemma find_transition_simps [simp]:
  "find_transition Upgrade_Idle Event_RequestUpgrade = Some (Some H_StartUpgrade, Upgrade_Request)"
  "find_transition Upgrade_Request Event_RequestUpgrade = Some (Some H_StartUpgrade, Upgrade_Request)"
  "find_transition Upgrade_Request Event_XferFirmware = Some (Some H_XferFirmware, Upgrade_XferFirmware)"
  "find_transition Upgrade_XferFirmware Event_XferFirmware = Some (Some H_XferFirmware, Upgrade_XferFirmware)"
  "find_transition Upgrade_XferFirmware Event_CompleteXferFirmware = Some (Some H_CompleteXferFirmware, Upgrade_CompleteXferFirmware)"
  "find_transition Upgrade_CompleteXferFirmware Event_CompleteXferFirmware = Some (Some H_CompleteXferFirmware, Upgrade_CompleteXferFirmware)"
  "find_transition Upgrade_CompleteXferFirmware Event_GetUpgradeProgress = Some (Some H_GetUpgradeProgress, Upgrade_GetUpgradeProgress)"
  "find_transition Upgrade_GetUpgradeProgress Event_GetUpgradeProgress = Some (Some H_GetUpgradeProgress, Upgrade_GetUpgradeProgress)"
  "find_transition Upgrade_GetUpgradeProgress Event_Complete = Some (Some H_UpgradeComplete, Upgrade_Complete)"
  "find_transition Upgrade_Complete Event_Complete = Some (Some H_UpgradeComplete, Upgrade_Complete)"
  "find_transition Upgrade_Complete Event_Reinit = Some (None, Upgrade_Idle)"
  "find_transition Upgrade_Err Event_Err = None"
  by (simp_all add: find_transition_def upgrade_event_table_def)

end
