(* ===== verification/Sdk_Upgrade_Props.thy ===== *)
theory Sdk_Upgrade_Props
  imports Sdk_Upgrade
begin

text \<open>
  Correctness of the firmware upgrade: what has been transferred when the transfer is over, how
  long an upgrade may take, which firmware cannot be transferred, and the firmware file format.
\<close>

section \<open>Blocks of a firmware\<close>

definition fw_len :: "Firmware \<Rightarrow> nat" where
  "fw_len fw = unat (firmware_length (fw_header fw))"

definition fw_ok :: "Firmware \<Rightarrow> bool" where
  "fw_ok fw \<longleftrightarrow> 0 < fw_len fw \<and> fw_len fw \<le> 2 ^ 32 - 1024 \<and> length (fw_data fw) = fw_len fw"

definition chunk :: "Firmware \<Rightarrow> nat \<Rightarrow> upgrade_request" where
  "chunk fw k =
     XferFirmwareRequest (of_nat (1024 * k)) (of_nat (min 1024 (fw_len fw - 1024 * k))) (encrypt_type (fw_header fw))
       (take 1024 (drop (1024 * k) (fw_data fw)))"

definition chunk_count :: "Firmware \<Rightarrow> nat" where
  "chunk_count fw = (fw_len fw + 1023) div 1024"

fun xfer_data :: "upgrade_request \<Rightarrow> byte option list" where
  "xfer_data (XferFirmwareRequest off n enc bs) = bs"
| "xfer_data r = []"

fun is_xfer :: "upgrade_request \<Rightarrow> bool" where
  "is_xfer (XferFirmwareRequest off n enc bs) = True"
| "is_xfer r = False"

text \<open>The transfers of an upgrader, repetitions left out.\<close>

definition xfers :: "LivoxLidarUpgrader \<Rightarrow> upgrade_request list" where
  "xfers u = remdups_adj (filter is_xfer (sent u))"

lemma remdups_adj_snoc:
  "remdups_adj (xs @ [x]) = (if xs \<noteq> [] \<and> last xs = x then remdups_adj xs else remdups_adj xs @ [x])"
  by (cases xs rule: rev_cases) (auto simp: remdups_adj_append_two)

lemma last_remdups_adj: "xs \<noteq> [] \<Longrightarrow> last (remdups_adj xs) = last xs"
  by (induction xs rule: remdups_adj.induct) auto

lemma xfers_send:
  "xfers (send_request h r u) = (if is_xfer r then (if xfers u \<noteq> [] \<and> last (xfers u) = r then xfers u else xfers u @ [r]) else xfers u)"
  by (auto simp: xfers_def send_request_def remdups_adj_snoc last_remdups_adj)

lemma unat_small: "n < 2 ^ 32 \<Longrightarrow> unat (of_nat n :: 32 word) = n"
  by (simp add: unat_of_nat)

lemma of_nat_small_inj: "m < 2 ^ 32 \<Longrightarrow> n < 2 ^ 32 \<Longrightarrow> (of_nat m :: 32 word) = of_nat n \<Longrightarrow> m = n"
  by (metis unat_small)

lemma chunk_inj: "1024 * j < fw_len fw \<Longrightarrow> 1024 * k < fw_len fw \<Longrightarrow> fw_ok fw \<Longrightarrow> chunk fw j = chunk fw k \<Longrightarrow> j = k"
proof -
  assume a: "1024 * j < fw_len fw" "1024 * k < fw_len fw" "fw_ok fw" "chunk fw j = chunk fw k"
  then have "(of_nat (1024 * j) :: 32 word) = of_nat (1024 * k)" unfolding chunk_def by blast
  moreover have "1024 * j < 2 ^ 32" "1024 * k < 2 ^ 32" using a by (auto simp: fw_ok_def)
  ultimately have "1024 * j = 1024 * k" by (rule of_nat_small_inj [rotated 2])
  then show ?thesis by simp
qed

lemma concat_blocks: "length xs \<le> c * n \<Longrightarrow> concat (map (\<lambda>k. take c (drop (c * k) xs)) [0..<n]) = xs"
proof -
  have "concat (map (\<lambda>k. take c (drop (c * k) xs)) [0..<n]) = take (c * n) xs" for n
  proof (induction n)
    case (Suc n)
    show ?case by (simp add: Suc.IH add.commute take_add [symmetric] flip: take_add)
  qed simp
  then show "length xs \<le> c * n \<Longrightarrow> ?thesis" by simp
qed

lemma chunks_cover: "fw_ok fw \<Longrightarrow> concat (map xfer_data (map (chunk fw) [0..<chunk_count fw])) = fw_data fw"
proof -
  assume ok: "fw_ok fw"
  have "fw_len fw \<le> 1024 * chunk_count fw" by (simp add: chunk_count_def)
  then show ?thesis
    using concat_blocks [of "fw_data fw" 1024 "chunk_count fw"] ok
    by (simp add: fw_ok_def chunk_def comp_def)
qed

lemma XferFirmware_chunk:
  assumes ok: "fw_ok fw" and u: "up_firmware u = fw" "read_length u = 1024" "read_offset u = of_nat (1024 * k)"
    and k: "1024 * k < fw_len fw"
  shows "XferFirmware u = send_request H_XferFirmware (chunk fw k) u"
proof -
  let ?len = "firmware_length (fw_header fw)" let ?off = "of_nat (1024 * k) :: 32 word"
  have off: "unat ?off = 1024 * k" by (rule unat_small) (use k ok in \<open>simp add: fw_ok_def\<close>)
  have lt: "?off < ?len" using k off by (simp add: word_less_nat_alt fw_len_def)
  have sub: "unat (?len - ?off) = fw_len fw - 1024 * k"
    using lt off by (simp add: unat_sub fw_len_def)
  define n where "n = (if (1024 :: 32 word) > ?len - ?off then ?len - ?off else 1024)"
  have n: "unat n = min 1024 (fw_len fw - 1024 * k)"
    unfolding n_def using sub by (auto simp: word_less_nat_alt)
  then have "n = of_nat (min 1024 (fw_len fw - 1024 * k))" unfolding n [symmetric] by simp
  moreover have "take (unat n) (drop (1024 * k) (fw_data fw)) = take 1024 (drop (1024 * k) (fw_data fw))"
    unfolding n using ok by (auto simp: fw_ok_def min_def)
  ultimately have "XferFirmwareRequest ?off n (encrypt_type (fw_header fw)) (take (unat n) (drop (unat ?off) (fw_data fw))) = chunk fw k"
    unfolding chunk_def off by simp
  then show ?thesis unfolding XferFirmware_def Let_def u using lt by (simp add: n_def)
qed

section \<open>The invariant\<close>

definition all_sent :: "Firmware \<Rightarrow> LivoxLidarUpgrader \<Rightarrow> bool" where
  "all_sent fw u \<longleftrightarrow> xfers u = map (chunk fw) [0..<chunk_count fw]"

definition sending :: "Firmware \<Rightarrow> nat \<Rightarrow> LivoxLidarUpgrader \<Rightarrow> bool" where
  "sending fw k u \<longleftrightarrow>
     read_offset u = of_nat (1024 * k) \<and> 1024 * k < fw_len fw \<and> xfers u = map (chunk fw) [0..<Suc k]"

definition upgrade_inv :: "Firmware \<Rightarrow> LivoxLidarUpgrader \<Rightarrow> bool" where
  "upgrade_inv fw u \<longleftrightarrow>
     up_firmware u = fw \<and> read_length u = 1024
   \<and> unat (try_count u) < (if awaited u = Some H_GetUpgradeProgress then 30 else 10)
   \<and> (case awaited u of
        None \<Rightarrow> fsm_state u = Upgrade_Err \<or> fsm_state u = Upgrade_Idle \<and> all_sent fw u
      | Some H_StartUpgrade \<Rightarrow> fsm_state u = Upgrade_Request \<and> xfers u = [] \<and> read_offset u = 0
      | Some H_XferFirmware \<Rightarrow> fsm_state u = Upgrade_XferFirmware \<and> (\<exists>k. sending fw k u)
      | Some H_CompleteXferFirmware \<Rightarrow> fsm_state u = Upgrade_CompleteXferFirmware \<and> all_sent fw u
      | Some H_GetUpgradeProgress \<Rightarrow> fsm_state u = Upgrade_GetUpgradeProgress \<and> all_sent fw u
      | Some H_UpgradeComplete \<Rightarrow> fsm_state u = Upgrade_Complete \<and> all_sent fw u)"

lemma xfers_fields [simp]:
  "xfers (u\<lparr>fsm_state := a\<rparr>) = xfers u" "xfers (u\<lparr>observed := b\<rparr>) = xfers u" "xfers (u\<lparr>try_count := c\<rparr>) = xfers u"
  "xfers (u\<lparr>awaited := d\<rparr>) = xfers u" "xfers (u\<lparr>read_offset := e\<rparr>) = xfers u" "xfers (u\<lparr>upgrade_error := f\<rparr>) = xfers u"
  "xfers (u\<lparr>up_progress := g\<rparr>) = xfers u"
  by (simp_all add: xfers_def)

lemma send_fields [simp]:
  "fsm_state (send_request h r u) = fsm_state u" "up_firmware (send_request h r u) = up_firmware u"
  "read_length (send_request h r u) = read_length u" "read_offset (send_request h r u) = read_offset u"
  "try_count (send_request h r u) = try_count u" "awaited (send_request h r u) = Some h"
  by (simp_all add: send_request_def)

lemmas fsm_simps = FsmEventHandler_def StartUpgrade_def CompleteXferFirmware_def GetUpgradeProgress_def UpgradeComplete_def
  Let_def xfers_send

lemma retry_count:
  fixes n limit :: "32 word"
  assumes "unat n < unat limit"
  shows "unat (n + 1) = unat n + 1"
proof -
  have "unat limit < 2 ^ 32" using unsigned_less [of limit, where 'a = nat] by simp
  then have "unat n + 1 < 2 ^ 32" using assms by simp
  then show ?thesis by (simp add: unat_word_ariths)
qed

text \<open>The next block, or the one that is repeated.\<close>

lemma xfer_request:
  assumes ok: "fw_ok fw" and u: "up_firmware u = fw" "read_length u = 1024" "read_offset u = of_nat (1024 * k)"
    and k: "1024 * k < fw_len fw" and x: "xfers u = map (chunk fw) [0..<k] \<or> xfers u = map (chunk fw) [0..<Suc k]"
  shows "sending fw k (XferFirmware u)"
proof -
  have fresh: "chunk fw (k - 1) \<noteq> chunk fw k" if "0 < k"
    using chunk_inj [of "k - 1" fw k] ok k that by (cases k) auto
  have "is_xfer (chunk fw k)" by (simp add: chunk_def)
  then have "xfers (send_request H_XferFirmware (chunk fw k) u) = map (chunk fw) [0..<Suc k]"
    using x fresh by (cases k) (auto simp: xfers_send)
  then show ?thesis
    using XferFirmware_chunk [OF ok u k] u k by (simp add: sending_def)
qed

lemma advance_offset:
  assumes ok: "fw_ok fw" and s: "sending fw k u" and l: "read_length u = 1024"
  shows "read_offset u + read_length u = of_nat (1024 * Suc k)"
    and "(of_nat (1024 * Suc k) :: 32 word) < firmware_length (fw_header fw) \<longleftrightarrow> 1024 * Suc k < fw_len fw"
proof -
  show "read_offset u + read_length u = of_nat (1024 * Suc k)"
    using s l by (simp add: sending_def algebra_simps)
  have "unat (of_nat (1024 * Suc k) :: 32 word) = 1024 * Suc k"
    by (rule unat_small) (use ok s in \<open>auto simp: fw_ok_def sending_def\<close>)
  then show "(of_nat (1024 * Suc k) :: 32 word) < firmware_length (fw_header fw) \<longleftrightarrow> 1024 * Suc k < fw_len fw"
    by (metis word_less_nat_alt fw_len_def)
qed

lemma last_block: "1024 * k < fw_len fw \<Longrightarrow> \<not> 1024 * Suc k < fw_len fw \<Longrightarrow> chunk_count fw = Suc k"
  by (simp add: chunk_count_def)

lemma retry_cases:
  fixes limit :: "32 word"
  assumes "unat (try_count u) < unat limit"
  obtains "retry limit again p giveup u = FsmEventHandler again p (u\<lparr>try_count := try_count u + 1\<rparr>)"
      "unat (try_count u + 1) < unat limit" "unat (try_count u + 1) = unat (try_count u) + 1"
  | "retry limit again p giveup u = FsmEventHandler giveup 100 (u\<lparr>try_count := 0\<rparr>)"
  using retry_count [OF assms] that by (cases "try_count u + 1 < limit") (auto simp: retry_def Let_def word_less_nat_alt)

lemma unat_limits [simp]: "unat kGeneralTryCountLimit = 10" "unat kGetProcessTryCountLimit = 30"
  by (simp_all add: kGeneralTryCountLimit_def kGetProcessTryCountLimit_def)

text \<open>What each event leads to: the next state satisfies the invariant and waits for its response.\<close>

definition reaches :: "Firmware \<Rightarrow> upgrade_handler option \<Rightarrow> LivoxLidarUpgrader \<Rightarrow> LivoxLidarUpgrader \<Rightarrow> bool" where
  "reaches fw h u v \<longleftrightarrow> upgrade_inv fw v \<and> awaited v = h \<and> try_count v = try_count u \<and> read_offset v = read_offset u"

definition idle :: "Firmware \<Rightarrow> LivoxLidarUpgrader \<Rightarrow> bool" where
  "idle fw u \<longleftrightarrow> up_firmware u = fw \<and> read_length u = 1024 \<and> awaited u = None"

lemmas reach_simps = reaches_def upgrade_inv_def idle_def fsm_simps

lemma ev_err: "idle fw u \<Longrightarrow> unat (try_count u) < 10 \<Longrightarrow> reaches fw None u (FsmEventHandler Event_Err p u)"
  by (auto simp: reach_simps)

lemma ev_start:
  "idle fw u \<Longrightarrow> unat (try_count u) < 10 \<Longrightarrow> fsm_state u = Upgrade_Idle \<or> fsm_state u = Upgrade_Request \<Longrightarrow> xfers u = [] \<Longrightarrow>
   read_offset u = 0 \<Longrightarrow> reaches fw (Some H_StartUpgrade) u (FsmEventHandler Event_RequestUpgrade p u)"
  by (auto simp: reach_simps)

lemma ev_complete_xfer:
  "idle fw u \<Longrightarrow> unat (try_count u) < 10 \<Longrightarrow> fsm_state u = Upgrade_XferFirmware \<or> fsm_state u = Upgrade_CompleteXferFirmware \<Longrightarrow>
   all_sent fw u \<Longrightarrow> reaches fw (Some H_CompleteXferFirmware) u (FsmEventHandler Event_CompleteXferFirmware p u)"
  by (auto simp: reach_simps all_sent_def)

lemma ev_progress:
  "idle fw u \<Longrightarrow> unat (try_count u) < 30 \<Longrightarrow> fsm_state u = Upgrade_CompleteXferFirmware \<or> fsm_state u = Upgrade_GetUpgradeProgress \<Longrightarrow>
   all_sent fw u \<Longrightarrow> reaches fw (Some H_GetUpgradeProgress) u (FsmEventHandler Event_GetUpgradeProgress p u)"
  by (auto simp: reach_simps all_sent_def)

lemma ev_complete:
  "idle fw u \<Longrightarrow> unat (try_count u) < 10 \<Longrightarrow> fsm_state u = Upgrade_GetUpgradeProgress \<or> fsm_state u = Upgrade_Complete \<Longrightarrow>
   all_sent fw u \<Longrightarrow> reaches fw (Some H_UpgradeComplete) u (FsmEventHandler Event_Complete p u)"
  by (auto simp: reach_simps all_sent_def)

lemma ev_reinit:
  "idle fw u \<Longrightarrow> unat (try_count u) < 10 \<Longrightarrow> fsm_state u = Upgrade_Complete \<Longrightarrow> all_sent fw u \<Longrightarrow>
   reaches fw None u (FsmEventHandler Event_Reinit p u)"
  by (auto simp: reach_simps all_sent_def)

lemma ev_xfer:
  assumes ok: "fw_ok fw" and u: "idle fw u" "unat (try_count u) < 10"
    and st: "fsm_state u = Upgrade_Request \<or> fsm_state u = Upgrade_XferFirmware"
    and k: "read_offset u = of_nat (1024 * k)" "1024 * k < fw_len fw"
    and x: "xfers u = map (chunk fw) [0..<k] \<or> xfers u = map (chunk fw) [0..<Suc k]"
  shows "reaches fw (Some H_XferFirmware) u (FsmEventHandler Event_XferFirmware p u)"
proof -
  let ?u = "u\<lparr>fsm_state := Upgrade_XferFirmware\<rparr>" let ?v = "XferFirmware ?u"
  have u': "up_firmware ?u = fw" "read_length ?u = 1024" "read_offset ?u = of_nat (1024 * k)"
    using u k by (simp_all add: idle_def)
  have v: "?v = send_request H_XferFirmware (chunk fw k) ?u" by (rule XferFirmware_chunk [OF ok u' k(2)])
  have "sending fw k ?v" by (rule xfer_request [OF ok u' k(2)]) (use x in simp)
  then have "sending fw k (?v\<lparr>observed := observed ?v @ [(Event_XferFirmware, p)]\<rparr>)" by (simp add: sending_def)
  moreover have "FsmEventHandler Event_XferFirmware p u = ?v\<lparr>observed := observed ?v @ [(Event_XferFirmware, p)]\<rparr>"
    using st by (auto simp: FsmEventHandler_def Let_def)
  ultimately show ?thesis using u u' by (auto simp: reaches_def upgrade_inv_def v)
qed

section \<open>Steps\<close>

text \<open>How far the upgrade is from its end; the answers that put it off.\<close>

definition upgrade_level :: "Firmware \<Rightarrow> LivoxLidarUpgrader \<Rightarrow> nat" where
  "upgrade_level fw u =
     (case awaited u of
        Some H_StartUpgrade \<Rightarrow> chunk_count fw + 3
      | Some H_XferFirmware \<Rightarrow> chunk_count fw - unat (read_offset u) div 1024 + 2
      | Some H_CompleteXferFirmware \<Rightarrow> 2
      | Some H_GetUpgradeProgress \<Rightarrow> 1
      | _ \<Rightarrow> 0)"

definition upgrade_rank :: "Firmware \<Rightarrow> LivoxLidarUpgrader \<Rightarrow> nat" where
  "upgrade_rank fw u = (if awaited u = None then 0 else 30 * upgrade_level fw u + (30 - unat (try_count u)))"

definition postponed :: "upgrade_response \<Rightarrow> LivoxLidarUpgrader \<Rightarrow> bool" where
  "postponed r u \<longleftrightarrow>
     (case (awaited u, r) of
        (Some H_StartUpgrade, Response ret p) \<Rightarrow> ret = kSystemIsNotReady \<or> ret = EraseFirmware
      | (Some H_GetUpgradeProgress, Response ret p) \<Rightarrow> ret = 0 \<and> p < 100
      | _ \<Rightarrow> False)"

definition good_step :: "Firmware \<Rightarrow> upgrade_response \<Rightarrow> LivoxLidarUpgrader \<Rightarrow> bool" where
  "good_step fw r u \<longleftrightarrow>
     upgrade_inv fw (upgrade_step r u)
   \<and> upgrade_rank fw (upgrade_step r u) < upgrade_rank fw u + (if postponed r u then 30 else 0)"

lemmas step_simps = good_step_def reaches_def upgrade_rank_def upgrade_level_def postponed_def

lemma inv_tries: "upgrade_inv fw u \<Longrightarrow> unat (try_count u) < 30"
  by (auto simp: upgrade_inv_def split: if_splits)

text \<open>A request that was not answered.\<close>

lemma retry_good:
  assumes t: "unat (try_count u) < unat limit" "unat (try_count u) < 30" and a: "awaited u \<noteq> None"
    and again: "\<And>v. v = u\<lparr>awaited := None, try_count := try_count u + 1\<rparr> \<Longrightarrow> unat (try_count v) < unat limit \<Longrightarrow>
      reaches fw (awaited u) v (FsmEventHandler ev p v)"
    and stop: "reaches fw None (u\<lparr>awaited := None, try_count := 0\<rparr>) (FsmEventHandler giveup 100 (u\<lparr>awaited := None, try_count := 0\<rparr>))"
  shows "upgrade_inv fw (retry limit ev p giveup (u\<lparr>awaited := None\<rparr>))
    \<and> upgrade_rank fw (retry limit ev p giveup (u\<lparr>awaited := None\<rparr>)) < upgrade_rank fw u"
proof -
  have "unat (try_count (u\<lparr>awaited := None\<rparr>)) < unat limit" using t by simp
  then show ?thesis
  proof (cases rule: retry_cases [where again = ev and p = p and giveup = giveup])
    case 1
    let ?v = "u\<lparr>awaited := None, try_count := try_count u + 1\<rparr>"
    have r: "reaches fw (awaited u) ?v (FsmEventHandler ev p ?v)" by (rule again) (use 1 in simp_all)
    then have "upgrade_level fw (FsmEventHandler ev p ?v) = upgrade_level fw u"
      by (simp add: reaches_def upgrade_level_def cong: option.case_cong upgrade_handler.case_cong)
    then show ?thesis using r 1 t a by (auto simp: reaches_def upgrade_rank_def)
  next
    case 2
    with stop t a show ?thesis by (auto simp: reaches_def upgrade_rank_def)
  qed
qed

lemma idle_updates [simp]:
  "idle fw (u\<lparr>awaited := None, try_count := n\<rparr>) \<longleftrightarrow> up_firmware u = fw \<and> read_length u = 1024"
  by (simp add: idle_def)

lemma all_sent_fields [simp]:
  "all_sent fw (u\<lparr>try_count := c\<rparr>) = all_sent fw u" "all_sent fw (u\<lparr>awaited := d\<rparr>) = all_sent fw u"
  "all_sent fw (u\<lparr>read_offset := e\<rparr>) = all_sent fw u"
  by (simp_all add: all_sent_def)

lemma step_start:
  assumes ok: "fw_ok fw" and inv: "upgrade_inv fw u" and a: "awaited u = Some H_StartUpgrade"
  shows "good_step fw r u"
proof -
  let ?z = "u\<lparr>awaited := None, try_count := 0\<rparr>"
  have i: "unat (try_count u) < 10" "fsm_state u = Upgrade_Request" "xfers u = []" "read_offset u = 0"
    "up_firmware u = fw" "read_length u = 1024" using inv a by (auto simp: upgrade_inv_def)
  have xf: "reaches fw (Some H_XferFirmware) ?z (FsmEventHandler Event_XferFirmware 20 ?z)"
    by (rule ev_xfer [OF ok, of _ 0]) (use i ok in \<open>auto simp: fw_ok_def\<close>)
  show ?thesis
  proof (cases r)
    case (Response ret p)
    then show ?thesis using a i ev_start [of fw ?z 10] ev_err [of fw ?z 100] xf by (auto simp: step_simps Let_def)
  next
    case (No_Response st)
    have "upgrade_inv fw (upgrade_step r u) \<and> upgrade_rank fw (upgrade_step r u) < upgrade_rank fw u"
      unfolding No_Response upgrade_step.simps Let_def a option.case upgrade_handler.case StartUpgradeResponseHandler.simps
      by (rule retry_good) (use i a in \<open>auto intro!: ev_start ev_err\<close>)
    then show ?thesis by (simp add: good_step_def)
  qed
qed

lemma step_complete_xfer:
  assumes inv: "upgrade_inv fw u" and a: "awaited u = Some H_CompleteXferFirmware"
  shows "good_step fw r u"
proof -
  let ?z = "u\<lparr>awaited := None, try_count := 0\<rparr>"
  have i: "unat (try_count u) < 10" "fsm_state u = Upgrade_CompleteXferFirmware" "all_sent fw u"
    "up_firmware u = fw" "read_length u = 1024" using inv a by (auto simp: upgrade_inv_def)
  show ?thesis
  proof (cases r)
    case (Response ret p)
    then show ?thesis using a i ev_progress [of fw ?z 50] ev_err [of fw ?z 100] by (auto simp: step_simps Let_def)
  next
    case (No_Response st)
    have "upgrade_inv fw (upgrade_step r u) \<and> upgrade_rank fw (upgrade_step r u) < upgrade_rank fw u"
      unfolding No_Response upgrade_step.simps Let_def a option.case upgrade_handler.case CompleteXferFirmwareResponseHandler.simps
      by (rule retry_good) (use i a in \<open>auto intro!: ev_complete_xfer ev_err\<close>)
    then show ?thesis by (simp add: good_step_def)
  qed
qed

lemma step_progress:
  assumes inv: "upgrade_inv fw u" and a: "awaited u = Some H_GetUpgradeProgress"
  shows "good_step fw r u"
proof -
  let ?z = "u\<lparr>awaited := None, try_count := 0\<rparr>"
  have i: "unat (try_count u) < 30" "fsm_state u = Upgrade_GetUpgradeProgress" "all_sent fw u"
    "up_firmware u = fw" "read_length u = 1024" using inv a by (auto simp: upgrade_inv_def)
  show ?thesis
  proof (cases r)
    case (Response ret p)
    then show ?thesis using a i ev_progress [of fw ?z "p div 2 + 50"] ev_complete [of fw ?z 100] ev_err [of fw ?z 100]
      by (auto simp: step_simps Let_def)
  next
    case (No_Response st)
    have "upgrade_inv fw (upgrade_step r u) \<and> upgrade_rank fw (upgrade_step r u) < upgrade_rank fw u"
      unfolding No_Response upgrade_step.simps Let_def a option.case upgrade_handler.case GetProgressResponseHandler.simps
      by (rule retry_good) (use i a in \<open>auto intro!: ev_progress ev_err\<close>)
    then show ?thesis by (simp add: good_step_def)
  qed
qed

lemma step_reboot:
  assumes inv: "upgrade_inv fw u" and a: "awaited u = Some H_UpgradeComplete"
  shows "good_step fw r u"
proof -
  let ?z = "u\<lparr>awaited := None, try_count := 0\<rparr>"
  have i: "unat (try_count u) < 10" "fsm_state u = Upgrade_Complete" "all_sent fw u"
    "up_firmware u = fw" "read_length u = 1024" using inv a by (auto simp: upgrade_inv_def)
  show ?thesis
  proof (cases r)
    case (Response ret p)
    then show ?thesis using a i ev_reinit [of fw ?z 100] ev_err [of fw ?z 100] by (auto simp: step_simps Let_def)
  next
    case (No_Response st)
    have "upgrade_inv fw (upgrade_step r u) \<and> upgrade_rank fw (upgrade_step r u) < upgrade_rank fw u"
      unfolding No_Response upgrade_step.simps Let_def a option.case upgrade_handler.case UpgradeCompleteResponseHandler.simps
      by (rule retry_good) (use i a in \<open>auto intro!: ev_complete ev_reinit\<close>)
    then show ?thesis by (simp add: good_step_def)
  qed
qed

lemma step_xfer:
  assumes ok: "fw_ok fw" and inv: "upgrade_inv fw u" and a: "awaited u = Some H_XferFirmware"
  shows "good_step fw r u"
proof -
  let ?z = "u\<lparr>awaited := None, try_count := 0\<rparr>"
  obtain k where k: "sending fw k u" and i: "unat (try_count u) < 10" "fsm_state u = Upgrade_XferFirmware"
    "up_firmware u = fw" "read_length u = 1024" using inv a by (auto simp: upgrade_inv_def)
  define nx where "nx = (of_nat (1024 * Suc k) :: 32 word)"
  let ?next = "?z\<lparr>read_offset := nx\<rparr>"
  have adv: "read_offset u + 1024 = nx" "nx < firmware_length (fw_header fw) \<longleftrightarrow> 1024 * Suc k < fw_len fw"
    using advance_offset [OF ok k i(4)] unfolding nx_def i(4) by simp_all
  have small: "unat (of_nat (1024 * j) :: 32 word) = 1024 * j" if "j \<le> Suc k" for j
    by (rule unat_small) (use ok k that in \<open>auto simp: fw_ok_def sending_def\<close>)
  have "1024 * k < fw_len fw" using k by (simp add: sending_def)
  then have "Suc k * 1024 \<le> fw_len fw + 1023" by simp
  then have kn: "k < chunk_count fw" unfolding chunk_count_def by (subst less_eq_Suc_le) (simp add: less_eq_div_iff_mult_less_eq)
  have off: "read_offset u = of_nat (1024 * k)" "unat (read_offset u) div 1024 = k"
    using k small [of k] unfolding sending_def by simp_all
  show ?thesis
  proof (cases r)
    case (Response ret p)
    show ?thesis
    proof (cases "ret = 0")
      case True
      show ?thesis
      proof (cases "1024 * Suc k < fw_len fw")
        case more: True
        have s: "upgrade_step r u = FsmEventHandler Event_XferFirmware 20 ?next"
          using a True Response more adv i by (simp add: Let_def)
        have "reaches fw (Some H_XferFirmware) ?next (FsmEventHandler Event_XferFirmware 20 ?next)"
          by (rule ev_xfer [OF ok _ _ _ _ more]) (use i k in \<open>auto simp: idle_def sending_def nx_def\<close>)
        then show ?thesis using s a i off kn small [of "Suc k"] more
          by (auto simp: step_simps nx_def chunk_count_def simp del: upgrade_step.simps of_nat_mult)
      next
        case last: False
        have s: "upgrade_step r u = FsmEventHandler Event_CompleteXferFirmware 40 ?next"
          using a True Response last adv i by (simp add: Let_def)
        have "all_sent fw u" using k last last_block [of k fw] unfolding all_sent_def sending_def by auto
        then have "reaches fw (Some H_CompleteXferFirmware) ?next (FsmEventHandler Event_CompleteXferFirmware 40 ?next)"
          by (intro ev_complete_xfer) (use i in \<open>auto simp: idle_def\<close>)
        then show ?thesis using s a i off kn
          by (auto simp: step_simps simp del: upgrade_step.simps)
      qed
    next
      case False
      then show ?thesis using Response a i ev_err [of fw ?z 100] by (auto simp: step_simps Let_def)
    qed
  next
    case (No_Response st)
    have xf: "reaches fw (Some H_XferFirmware) v (FsmEventHandler Event_XferFirmware 20 v)"
      if "v = u\<lparr>awaited := None, try_count := try_count u + 1\<rparr>" "unat (try_count v) < 10" for v
      by (rule ev_xfer [OF ok, of _ k]) (use that i k in \<open>auto simp: sending_def\<close>)
    have "upgrade_inv fw (upgrade_step r u) \<and> upgrade_rank fw (upgrade_step r u) < upgrade_rank fw u"
      unfolding No_Response upgrade_step.simps Let_def a option.case upgrade_handler.case XferFirmwareResponseHandler.simps
      by (rule retry_good) (use i a in \<open>simp_all add: xf ev_err\<close>)
    then show ?thesis by (simp add: good_step_def)
  qed
qed

section \<open>Runs\<close>

lemma step_good: "fw_ok fw \<Longrightarrow> upgrade_inv fw u \<Longrightarrow> awaited u \<noteq> None \<Longrightarrow> good_step fw r u"
  by (cases "awaited u"; cases "the (awaited u)")
    (auto intro: step_start step_xfer step_complete_xfer step_progress step_reboot)

text \<open>The machine whose state satisfies the invariant of a firmware that can be transferred.\<close>

definition upgrade_ok :: "LivoxLidarUpgrader \<Rightarrow> bool" where
  "upgrade_ok u \<longleftrightarrow> fw_ok (up_firmware u) \<and> upgrade_inv (up_firmware u) u"

lemma idle_step: "awaited u = None \<Longrightarrow> upgrade_step r u = u"
  by simp

lemma upgrade_ok_step: "upgrade_ok u \<Longrightarrow> upgrade_ok (upgrade_step r u)"
proof (cases "awaited u = None")
  case False
  assume u: "upgrade_ok u"
  then have "good_step (up_firmware u) r u" by (intro step_good) (use False in \<open>auto simp: upgrade_ok_def\<close>)
  then show ?thesis using u by (auto simp: good_step_def upgrade_ok_def upgrade_inv_def simp del: upgrade_step.simps)
qed (simp add: idle_step)

lemma upgrade_rank_step:
  "upgrade_ok u \<Longrightarrow> awaited u \<noteq> None \<Longrightarrow>
   upgrade_rank (up_firmware (upgrade_step r u)) (upgrade_step r u)
     < upgrade_rank (up_firmware u) u + (if postponed r u then 30 else 0)"
proof -
  assume u: "upgrade_ok u" "awaited u \<noteq> None"
  then have "good_step (up_firmware u) r u" by (intro step_good) (auto simp: upgrade_ok_def)
  moreover have "up_firmware (upgrade_step r u) = up_firmware u"
    using calculation by (simp add: good_step_def upgrade_inv_def del: upgrade_step.simps)
  ultimately show ?thesis by (simp add: good_step_def del: upgrade_step.simps)
qed

interpretation upgrader: ranked_machine upgrade_step upgrade_ok "\<lambda>u. awaited u = None"
  "\<lambda>u. upgrade_rank (up_firmware u) u" postponed 30
  by unfold_locales (use upgrade_ok_step upgrade_rank_step in \<open>auto simp del: upgrade_step.simps simp: idle_step\<close>)

lemma started:
  assumes ok: "fw_ok fw"
  shows "reaches fw (Some H_StartUpgrade) (new_LivoxLidarUpgrader fw) (StartUpgradeLivoxLidar (new_LivoxLidarUpgrader fw))"
  unfolding StartUpgradeLivoxLidar_def
  by (rule ev_start) (simp_all add: idle_def new_LivoxLidarUpgrader_def xfers_def)

lemma upgrade_run_ok:
  assumes "fw_ok fw"
  shows "upgrade_ok (upgrade_run rs fw)"
  unfolding upgrade_run_def
  by (rule upgrader.run_inv) (use started [OF assms] assms in \<open>auto simp: reaches_def upgrade_ok_def upgrade_inv_def\<close>)

section \<open>Properties\<close>

text \<open>
  C36. What is installed is the firmware: in every run, as soon as the transfer is over - while
  the checksum is sent, the progress is asked for, the lidar is rebooted, and at the end - the
  transfers were the blocks of the firmware in their order, each possibly repeated, and put
  together they are the whole file, whatever was lost or refused on the way.
\<close>

theorem upgrade_transfers_firmware:
  assumes "fw_ok fw"
    and "fsm_state (upgrade_run rs fw) \<in> {Upgrade_CompleteXferFirmware, Upgrade_GetUpgradeProgress, Upgrade_Complete, Upgrade_Idle}"
  shows "remdups_adj (filter is_xfer (sent (upgrade_run rs fw))) = map (chunk fw) [0..<chunk_count fw]
    \<and> concat (map xfer_data (remdups_adj (filter is_xfer (sent (upgrade_run rs fw))))) = fw_data fw"
proof -
  let ?u = "upgrade_run rs fw"
  have "up_firmware (fold upgrade_step rs u) = up_firmware u" if "upgrade_ok u" for u
    using that
  proof (induction rs arbitrary: u)
    case (Cons r rs)
    have "up_firmware (upgrade_step r u) = up_firmware u"
    proof (cases "awaited u = None")
      case False
      then have "good_step (up_firmware u) r u" using Cons.prems by (intro step_good) (auto simp: upgrade_ok_def)
      then show ?thesis by (simp add: good_step_def upgrade_inv_def del: upgrade_step.simps)
    qed (simp add: idle_step)
    then show ?case using Cons.IH [OF upgrade_ok_step [OF Cons.prems], of r] by (simp del: upgrade_step.simps)
  qed simp
  moreover have "upgrade_ok (StartUpgradeLivoxLidar (new_LivoxLidarUpgrader fw))"
    "up_firmware (StartUpgradeLivoxLidar (new_LivoxLidarUpgrader fw)) = fw"
    using started [OF assms(1)] assms(1) by (auto simp: reaches_def upgrade_ok_def upgrade_inv_def)
  ultimately have "up_firmware ?u = fw" unfolding upgrade_run_def by simp
  then have "upgrade_inv fw ?u" using upgrade_run_ok [OF assms(1), of rs] by (simp add: upgrade_ok_def)
  then have "all_sent fw ?u"
    using assms(2) by (auto simp: upgrade_inv_def split: option.splits upgrade_handler.splits)
  then show ?thesis using chunks_cover [OF assms(1)] unfolding all_sent_def xfers_def by simp
qed

definition demo_header :: LivoxEncryptFirmwareHeader where
  "demo_header =
     \<lparr>file_version = 0x02000000, firmware_version = 7, firmware_length = 3, firmware_type = 1, fw_device_type = 9,
      encrypt_type = 0, fw_rsvd = [0, 0], checksum_type = 0, checksum_length = 2, fw_checksum = replicate 128 5,
      hw_whitelist = replicate 128 6, modify_time = 0, header_checksum = 0\<rparr>"

definition demo_firmware :: Firmware where
  "demo_firmware = \<lparr>fw_header = demo_header, fw_data = [Some 1, Some 2, Some 3], fw_tail = replicate 16 0\<rparr>"

lemma demo_data: "fw_data demo_firmware = [Some 1, Some 2, Some 3]"
  by (simp add: demo_firmware_def)

lemma demo_chunks: "chunk_count demo_firmware = 1"
  by (simp add: chunk_count_def fw_len_def demo_firmware_def demo_header_def)

lemma demo_firmware_ok [simp]: "fw_ok demo_firmware"
  by (simp add: fw_ok_def fw_len_def demo_firmware_def demo_header_def)

definition demo_answers :: "upgrade_response list" where
  "demo_answers = [Response 2 0, Response 0 0, No_Response Status_Timeout, Response 0 0, Response 0 0, Response 0 30,
     Response 0 100, Response 0 0]"

lemma demo_run: "fsm_state (upgrade_run demo_answers demo_firmware) = Upgrade_Idle"
  by (simp add: upgrade_run_def demo_answers_def StartUpgradeLivoxLidar_def new_LivoxLidarUpgrader_def upgrade_defs Let_def
      kSystemIsNotReady_def EraseFirmware_def retry_def kGeneralTryCountLimit_def demo_firmware_def demo_header_def)

theorem upgrade_transfers_firmware_witness:
  "concat (map xfer_data (remdups_adj (filter is_xfer (sent (upgrade_run demo_answers demo_firmware))))) = [Some 1, Some 2, Some 3]"
  unfolding demo_data [symmetric]
  by (rule upgrade_transfers_firmware [THEN conjunct2]) (simp_all add: demo_run)


lemma silent_delays: "upgrader.delays (replicate n (No_Response st)) u = 0"
  by (induction n arbitrary: u) (auto simp: postponed_def split: option.splits upgrade_handler.splits)


text \<open>
  A firmware file that announces no data passes the checks of the header, but its upgrade
  never ends: once the lidar accepts it nothing is sent and nothing is awaited, and the state is
  neither complete nor an error, so the destructor of the upgrader waits for ever.
\<close>

theorem empty_firmware_hangs:
  assumes "firmware_length (fw_header fw) = 0"
  shows "awaited (upgrade_run (Response 0 p # rs) fw) = None
    \<and> \<not> IsUpgradeComplete (upgrade_run (Response 0 p # rs) fw) \<and> \<not> IsUpgradeError (upgrade_run (Response 0 p # rs) fw)"
proof -
  define u where "u = upgrade_step (Response 0 p) (StartUpgradeLivoxLidar (new_LivoxLidarUpgrader fw))"
  have u: "awaited u = None" "fsm_state u = Upgrade_XferFirmware"
    using assms by (simp_all add: u_def StartUpgradeLivoxLidar_def new_LivoxLidarUpgrader_def upgrade_defs Let_def)
  have "fold upgrade_step rs u = u" using u(1) by (induction rs) simp_all
  then show ?thesis using u by (simp add: upgrade_run_def IsUpgradeComplete_def IsUpgradeError_def flip: u_def del: upgrade_step.simps)
qed

theorem empty_firmware_hangs_witness:
  "\<not> IsUpgradeComplete (upgrade_run [Response 0 0, No_Response Status_Timeout] (demo_firmware\<lparr>fw_header := demo_header\<lparr>firmware_length := 0\<rparr>\<rparr>))"
  by (rule empty_firmware_hangs [THEN conjunct2, THEN conjunct1]) simp

text \<open>A reboot that is never acknowledged counts as success.\<close>

lemma reboot_again:
  assumes "awaited u = Some H_UpgradeComplete" "fsm_state u = Upgrade_Complete"
  shows "try_count u + 1 < 10 \<Longrightarrow> awaited (upgrade_step (No_Response st) u) = Some H_UpgradeComplete
      \<and> fsm_state (upgrade_step (No_Response st) u) = Upgrade_Complete \<and> try_count (upgrade_step (No_Response st) u) = try_count u + 1"
    and "\<not> try_count u + 1 < 10 \<Longrightarrow> IsUpgradeComplete (upgrade_step (No_Response st) u)"
  using assms by (simp_all add: retry_def Let_def kGeneralTryCountLimit_def fsm_simps IsUpgradeComplete_def)

lemma reboots_again:
  assumes "awaited u = Some H_UpgradeComplete" "fsm_state u = Upgrade_Complete" "try_count u = 0" "n < 10"
  shows "awaited ((upgrade_step (No_Response st) ^^ n) u) = Some H_UpgradeComplete
    \<and> fsm_state ((upgrade_step (No_Response st) ^^ n) u) = Upgrade_Complete \<and> try_count ((upgrade_step (No_Response st) ^^ n) u) = of_nat n"
  using assms(4)
proof (induction n)
  case (Suc n)
  let ?v = "(upgrade_step (No_Response st) ^^ n) u"
  have v: "awaited ?v = Some H_UpgradeComplete" "fsm_state ?v = Upgrade_Complete" "try_count ?v = of_nat n"
    using Suc.IH Suc.prems by (simp_all del: upgrade_step.simps)
  have "unat (of_nat (Suc n) :: 32 word) = Suc n" by (rule unat_small) (use Suc.prems in simp)
  moreover have "unat (10 :: 32 word) = 10" using unat_small [of 10] by simp
  ultimately have "try_count ?v + 1 < 10" using Suc.prems v(3) by (simp only: word_less_nat_alt of_nat_Suc add.commute)
  then show ?case using reboot_again(1) [OF v(1,2)] v(3) by (simp del: upgrade_step.simps add: add.commute)
qed (use assms in simp)

lemma unanswered_reboot_is_success:
  assumes "awaited u = Some H_UpgradeComplete" "fsm_state u = Upgrade_Complete" "try_count u = 0"
  shows "IsUpgradeComplete ((upgrade_step (No_Response st) ^^ 10) u)"
proof -
  have "IsUpgradeComplete (upgrade_step (No_Response st) ((upgrade_step (No_Response st) ^^ 9) u))"
    by (rule reboot_again(2)) (use reboots_again [OF assms, of 9 st] in \<open>simp_all del: upgrade_step.simps\<close>)
  moreover have "(upgrade_step (No_Response st) ^^ Suc 9) u = upgrade_step (No_Response st) ((upgrade_step (No_Response st) ^^ 9) u)"
    by (simp only: funpow.simps comp_apply)
  ultimately show ?thesis by (simp del: upgrade_step.simps funpow.simps)
qed

section \<open>Firmware files\<close>

text \<open>The writer of firmware files.\<close>

definition header_bytes :: "LivoxEncryptFirmwareHeader \<Rightarrow> byte list" where
  "header_bytes h =
     le_bytes 4 (unat (file_version h)) @ le_bytes 4 (unat (firmware_version h)) @ le_bytes 4 (unat (firmware_length h))
   @ [firmware_type h, fw_device_type h, encrypt_type h] @ fw_rsvd h @ [checksum_type h] @ le_bytes 2 (unat (checksum_length h))
   @ fw_checksum h @ hw_whitelist h @ le_bytes 8 (unat (modify_time h)) @ le_bytes 2 (unat (header_checksum h))"

definition header_ok :: "LivoxEncryptFirmwareHeader \<Rightarrow> bool" where
  "header_ok h \<longleftrightarrow> length (fw_rsvd h) = 2 \<and> length (fw_checksum h) = 128 \<and> length (hw_whitelist h) = 128"

lemma length_header: "header_ok h \<Longrightarrow> length (header_bytes h) = header_size"
  by (simp add: header_bytes_def header_ok_def header_size_def)

lemma num_field: "bs = xs @ le_bytes n v @ ys \<Longrightarrow> length xs = off \<Longrightarrow> v < 256 ^ n \<Longrightarrow> le_val (take n (drop off bs)) = v"
  by simp

lemma word_bound:
  "unat (w4 :: 32 word) < 256 ^ 4" "unat (w2 :: 16 word) < 256 ^ 2" "unat (w8 :: 64 word) < 256 ^ 8"
  using unsigned_less [of w4, where 'a = nat] unsigned_less [of w2, where 'a = nat] unsigned_less [of w8, where 'a = nat] by simp_all


lemma read_header_bytes:
  assumes "header_ok h"
  shows "read_header (header_bytes h) = h"
proof -
  let ?b = "header_bytes h"
  define a1 where "a1 = le_bytes 4 (unat (file_version h)) @ le_bytes 4 (unat (firmware_version h))"
  define a2 where "a2 = a1 @ le_bytes 4 (unat (firmware_length h))"
  define a3 where "a3 = a2 @ [firmware_type h, fw_device_type h, encrypt_type h] @ fw_rsvd h @ [checksum_type h]"
  define a4 where "a4 = a3 @ le_bytes 2 (unat (checksum_length h))"
  define a5 where "a5 = a4 @ fw_checksum h @ hw_whitelist h"
  define a6 where "a6 = a5 @ le_bytes 8 (unat (modify_time h))"
  have len: "length a1 = 8" "length a2 = 12" "length a3 = 18" "length a4 = 20" "length a5 = 276" "length a6 = 284"
    using assms by (simp_all add: a1_def a2_def a3_def a4_def a5_def a6_def header_ok_def)
  have b: "?b = a6 @ le_bytes 2 (unat (header_checksum h)) @ []" "?b = a5 @ le_bytes 8 (unat (modify_time h)) @ drop 284 ?b"
    "?b = a3 @ le_bytes 2 (unat (checksum_length h)) @ drop 20 ?b" "?b = a1 @ le_bytes 4 (unat (firmware_length h)) @ drop 12 ?b"
    "?b = le_bytes 4 (unat (file_version h)) @ le_bytes 4 (unat (firmware_version h)) @ drop 8 ?b"
    "?b = [] @ le_bytes 4 (unat (file_version h)) @ le_bytes 4 (unat (firmware_version h)) @ drop 8 ?b"
    using len assms by (simp_all add: header_bytes_def a1_def a2_def a3_def a4_def a5_def a6_def header_ok_def)
  have n: "le_val (take 2 (drop 284 ?b)) = unat (header_checksum h)"
    "le_val (take 8 (drop 276 ?b)) = unat (modify_time h)" "le_val (take 2 (drop 18 ?b)) = unat (checksum_length h)"
    "le_val (take 4 (drop 8 ?b)) = unat (firmware_length h)" "le_val (take 4 (drop 4 ?b)) = unat (firmware_version h)"
    "le_val (take 4 (drop 0 ?b)) = unat (file_version h)"
    by (rule num_field [OF b(1) len(6) word_bound(2)] num_field [OF b(2) len(5) word_bound(3)]
        num_field [OF b(3) len(3) word_bound(2)] num_field [OF b(4) len(1) word_bound(1)]
        num_field [OF b(5) length_le_bytes word_bound(1)] num_field [OF b(6) list.size(3) word_bound(1)])+
  have m: "?b ! 12 = firmware_type h" "?b ! 13 = fw_device_type h" "?b ! 14 = encrypt_type h" "?b ! 17 = checksum_type h"
    "take 2 (drop 15 ?b) = fw_rsvd h" "take 128 (drop 20 ?b) = fw_checksum h" "take 128 (drop 148 ?b) = hw_whitelist h"
    using assms by (simp_all add: header_bytes_def header_ok_def nth_append)
  show ?thesis unfolding read_header_def Let_def n m by simp
qed

text \<open>
  A firmware file is read as it was written: for every header with a matching checksum, all
  data of the announced length and the signature, opening the file gives them back.
\<close>

theorem firmware_roundtrip:
  assumes "header_ok h" "mcrf4xx (take (header_size - 2) (header_bytes h)) = header_checksum h"
    and "length d = unat (firmware_length h)" "d \<noteq> []" "length t = tail_size" "length (fw_tail fw) = tail_size"
  shows "Open mcrf4xx (Some (header_bytes h @ d @ t)) fw = (\<lparr>fw_header = h, fw_data = map Some d, fw_tail = t\<rparr>, True)"
proof -
  have "\<not> length (header_bytes h @ d @ t) < MiniFileSize"
    using assms length_header by (cases d) (auto simp: MiniFileSize_def)
  moreover have "take header_size (header_bytes h @ d @ t) = header_bytes h" "drop header_size (header_bytes h @ d @ t) = d @ t"
    using length_header [OF assms(1)] by simp_all
  ultimately show ?thesis
    using assms read_header_bytes [OF assms(1)] by (simp add: Open_def ReadAndCheckHeader_def Let_def)
qed

theorem firmware_roundtrip_witness:
  "Open (\<lambda>_. 0) (Some (header_bytes demo_header @ [1, 2, 3] @ replicate 16 0)) demo_firmware = (demo_firmware, True)"
  using firmware_roundtrip [of demo_header "\<lambda>_. 0" "[1, 2, 3]" "replicate 16 0" demo_firmware]
  by (simp add: header_ok_def demo_header_def tail_size_def demo_firmware_def)

text \<open>A file that ends before its data do is accepted, with bytes that were never read.\<close>

lemma truncated_file_accepted:
  assumes "header_ok h" "mcrf4xx (take (header_size - 2) (header_bytes h)) = header_checksum h"
    and "17 \<le> length d" "length d < unat (firmware_length h)"
  shows "\<exists>fw'. Open mcrf4xx (Some (header_bytes h @ d)) fw = (fw', True) \<and> None \<in> set (fw_data fw')"
proof -
  have "\<not> length (header_bytes h @ d) < MiniFileSize"
    using assms length_header by (auto simp: MiniFileSize_def tail_size_def)
  moreover have "take header_size (header_bytes h @ d) = header_bytes h" "drop header_size (header_bytes h @ d) = d"
    using length_header [OF assms(1)] by simp_all
  ultimately show ?thesis
    using assms read_header_bytes [OF assms(1)] by (simp add: Open_def ReadAndCheckHeader_def Let_def)
qed

end
