(* ===== verification/Sdk_Config.thy ===== *)
theory Sdk_Config
  imports Sdk_Requests
begin

text \<open>
  The configuration of the SDK: reading it from a JSON document (parse\_cfg\_file.cpp) and checking
  it (params\_check.cpp).  A document is a value as rapidjson delivers it; \<open>Thrown\<close> is a failed
  assertion of rapidjson (a member of something that is no object) or an exception of \<open>stoi\<close>.
\<close>

section \<open>Values\<close>

datatype json_value =
    V_Bool bool
  | V_Uint "32 word"
  | V_String string
  | V_Array "json_value list"
  | V_Object "(string \<times> json_value) list"
  | V_Other

text \<open>\<open>HasMember\<close> and the access in one: \<open>None\<close> where there is no such member.\<close>

fun member :: "string \<Rightarrow> json_value \<Rightarrow> json_value option outcome" where
  "member name (V_Object ms) = Ok (map_of ms name)"
| "member name v = Thrown"

section \<open>The configuration\<close>

text \<open>\<open>LivoxLidarCfg\<close> with the members that only this part of the SDK uses.\<close>

record lidar_cfg = LivoxLidarCfg +
  host_cmd_data_port :: "16 word"
  host_log_data_port :: "16 word"
  lidar_ipaddr :: string
  net_cmd_data_port :: "16 word"
  net_push_msg_port :: "16 word"
  net_point_data_port :: "16 word"
  net_imu_data_port :: "16 word"
  net_log_data_port :: "16 word"

record LivoxLidarLoggerCfg =
  lidar_log_enable :: bool
  lidar_log_cache_size :: "64 word"
  lidar_log_path :: string

record sdk_config =
  lidars_cfg :: "lidar_cfg list"
  custom_lidars_cfg :: "lidar_cfg list"
  logger_cfg :: LivoxLidarLoggerCfg
  master_sdk :: bool

section \<open>Reading\<close>

text \<open>A port: any unsigned number is accepted and cut to sixteen bits.\<close>

definition get_port :: "string \<Rightarrow> json_value \<Rightarrow> 16 word outcome" where
  "get_port name v =
     and_then (member name v) (\<lambda>m. case m of Some (V_Uint n) \<Rightarrow> Ok (ucast n) | _ \<Rightarrow> Failed)"

definition ParseLidarNetInfo :: "json_value \<Rightarrow> lidar_cfg \<Rightarrow> lidar_cfg outcome" where
  "ParseLidarNetInfo v cfg =
     and_then (member ''lidar_net_info'' v) (\<lambda>m.
       case m of
         Some (V_Object ms) \<Rightarrow>
           (let net = V_Object ms in
            and_then (get_port ''cmd_data_port'' net) (\<lambda>cmd.
            and_then (get_port ''push_msg_port'' net) (\<lambda>push.
            and_then (get_port ''point_data_port'' net) (\<lambda>pnt.
            and_then (get_port ''imu_data_port'' net) (\<lambda>imu.
            and_then (get_port ''log_data_port'' net) (\<lambda>log.
              Ok (cfg\<lparr>net_cmd_data_port := cmd, net_push_msg_port := push, net_point_data_port := pnt,
                      net_imu_data_port := imu, net_log_data_port := log\<rparr>)))))))
       | _ \<Rightarrow> Failed)"

text \<open>The address of the host: \<open>host_ip\<close>, or \<open>cmd_data_ip\<close> of older files; both must be strings.\<close>

definition host_address :: "json_value option \<Rightarrow> json_value option \<Rightarrow> string outcome" where
  "host_address host cmd =
     (case (host, cmd) of
        (None, None) \<Rightarrow> Failed
      | (Some (V_String h), None) \<Rightarrow> Ok h
      | (Some (V_String h), Some (V_String c)) \<Rightarrow> Ok h
      | (None, Some (V_String c)) \<Rightarrow> Ok c
      | _ \<Rightarrow> Failed)"

definition multicast_address :: "json_value option \<Rightarrow> string outcome" where
  "multicast_address m = (case m of None \<Rightarrow> Ok '''' | Some (V_String s) \<Rightarrow> Ok s | _ \<Rightarrow> Failed)"

definition ParseHostNetInfo :: "json_value \<Rightarrow> lidar_cfg \<Rightarrow> lidar_cfg outcome" where
  "ParseHostNetInfo v cfg =
     and_then (member ''host_ip'' v) (\<lambda>host.
     and_then (member ''cmd_data_ip'' v) (\<lambda>cmd_ip.
     and_then (host_address host cmd_ip) (\<lambda>ip.
     and_then (member ''multicast_ip'' v) (\<lambda>m.
     and_then (multicast_address m) (\<lambda>multi.
     and_then (get_port ''cmd_data_port'' v) (\<lambda>cmd.
     and_then (get_port ''push_msg_port'' v) (\<lambda>push.
     and_then (get_port ''point_data_port'' v) (\<lambda>pnt.
     and_then (get_port ''imu_data_port'' v) (\<lambda>imu.
     and_then (get_port ''log_data_port'' v) (\<lambda>log.
       Ok (cfg\<lparr>host_ip := ip, multicast_ip := multi, host_cmd_data_port := cmd, push_msg_port := push,
               point_data_port := pnt, imu_data_port := imu, host_log_data_port := log\<rparr>)))))))))))"

definition ParseTypeLidarCfg :: "json_value \<Rightarrow> json_value \<Rightarrow> dev_type \<Rightarrow> lidar_cfg \<Rightarrow> lidar_cfg outcome" where
  "ParseTypeLidarCfg obj host_info ty cfg =
     and_then (ParseLidarNetInfo obj (cfg\<lparr>device_type := ty\<rparr>)) (ParseHostNetInfo host_info)"

text \<open>A fresh structure; its ports are not set, \<open>junk\<close> holds them.\<close>

definition new_cfg :: "lidar_cfg \<Rightarrow> lidar_cfg" where
  "new_cfg junk = junk\<lparr>host_ip := '''', multicast_ip := '''', lidar_ipaddr := ''''\<rparr>"

text \<open>The addresses of one host entry: a configuration for each.\<close>

fun parse_lidar_ips :: "lidar_cfg \<Rightarrow> json_value \<Rightarrow> json_value \<Rightarrow> dev_type \<Rightarrow> json_value list \<Rightarrow> lidar_cfg list \<Rightarrow> lidar_cfg list outcome" where
  "parse_lidar_ips junk obj host_info ty [] cfgs = Ok cfgs"
| "parse_lidar_ips junk obj host_info ty (V_String ip # ips) cfgs =
     and_then (ParseTypeLidarCfg obj host_info ty ((new_cfg junk)\<lparr>lidar_ipaddr := ip\<rparr>)) (\<lambda>cfg.
       parse_lidar_ips junk obj host_info ty ips (cfgs @ [cfg]))"
| "parse_lidar_ips junk obj host_info ty (v # ips) cfgs = Failed"

text \<open>The list of host entries, with and without addresses of lidars.\<close>

fun ParseNewLidarCfg :: "lidar_cfg \<Rightarrow> json_value \<Rightarrow> dev_type \<Rightarrow> json_value list \<Rightarrow> lidar_cfg list \<times> lidar_cfg list
    \<Rightarrow> (lidar_cfg list \<times> lidar_cfg list) outcome" where
  "ParseNewLidarCfg junk obj ty [] (cfgs, customs) = Ok (cfgs, customs)"
| "ParseNewLidarCfg junk obj ty (h # hs) (cfgs, customs) =
     and_then (member ''lidar_ip'' h) (\<lambda>m.
       case m of
         Some (V_Array ips) \<Rightarrow>
           and_then (parse_lidar_ips junk obj h ty ips customs) (\<lambda>customs'. ParseNewLidarCfg junk obj ty hs (cfgs, customs'))
       | _ \<Rightarrow>
           and_then (ParseTypeLidarCfg obj h ty (new_cfg junk)) (\<lambda>cfg. ParseNewLidarCfg junk obj ty hs (cfgs @ [cfg], customs)))"

definition ParseOldLidarCfg :: "lidar_cfg \<Rightarrow> json_value \<Rightarrow> dev_type \<Rightarrow> json_value \<Rightarrow> lidar_cfg list \<times> lidar_cfg list
    \<Rightarrow> (lidar_cfg list \<times> lidar_cfg list) outcome" where
  "ParseOldLidarCfg junk obj ty host_info s =
     and_then (ParseTypeLidarCfg obj host_info ty (new_cfg junk)) (\<lambda>cfg. Ok (fst s @ [cfg], snd s))"

definition ParseLidarCfg :: "lidar_cfg \<Rightarrow> json_value \<Rightarrow> dev_type \<Rightarrow> lidar_cfg list \<times> lidar_cfg list
    \<Rightarrow> (lidar_cfg list \<times> lidar_cfg list) outcome" where
  "ParseLidarCfg junk obj ty s =
     and_then (member ''host_net_info'' obj) (\<lambda>m.
       case m of
         Some (V_Array hs) \<Rightarrow> ParseNewLidarCfg junk obj ty hs s
       | Some (V_Object ms) \<Rightarrow> ParseOldLidarCfg junk obj ty (V_Object ms) s
       | _ \<Rightarrow> Failed)"

definition parse_master :: "json_value option \<Rightarrow> bool outcome" where
  "parse_master m = (case m of None \<Rightarrow> Ok True | Some (V_Bool b) \<Rightarrow> Ok b | _ \<Rightarrow> Failed)"

text \<open>The three members of the log are needed together, except that the path may stand alone.\<close>

definition parse_logger :: "json_value option \<Rightarrow> json_value option \<Rightarrow> json_value option \<Rightarrow> LivoxLidarLoggerCfg outcome" where
  "parse_logger enable cache path =
     (case enable of
        None \<Rightarrow>
          Ok \<lparr>lidar_log_enable = False, lidar_log_cache_size = 0,
              lidar_log_path = (case path of Some (V_String s) \<Rightarrow> s | _ \<Rightarrow> ''./'')\<rparr>
      | Some (V_Bool b) \<Rightarrow>
          (case (cache, path) of
             (Some (V_Uint n), Some (V_String s)) \<Rightarrow>
               Ok \<lparr>lidar_log_enable = b, lidar_log_cache_size = ucast n, lidar_log_path = s\<rparr>
           | _ \<Rightarrow> Failed)
      | _ \<Rightarrow> Failed)"

text \<open>The section of one device type, if it is there and an object.\<close>

definition parse_section :: "lidar_cfg \<Rightarrow> json_value option \<Rightarrow> dev_type \<Rightarrow> lidar_cfg list \<times> lidar_cfg list
    \<Rightarrow> (lidar_cfg list \<times> lidar_cfg list) outcome" where
  "parse_section junk v ty s = (case v of Some (V_Object ms) \<Rightarrow> ParseLidarCfg junk (V_Object ms) ty s | _ \<Rightarrow> Ok s)"

definition Parse :: "lidar_cfg \<Rightarrow> json_value option \<Rightarrow> sdk_config outcome" where
  "Parse junk doc =
     (case doc of
        None \<Rightarrow> Failed
      | Some d \<Rightarrow>
          and_then (member ''master_sdk'' d) (\<lambda>m. and_then (parse_master m) (\<lambda>master.
          and_then (member ''lidar_log_enable'' d) (\<lambda>enable.
          and_then (member ''lidar_log_cache_size_MB'' d) (\<lambda>cache.
          and_then (member ''lidar_log_path'' d) (\<lambda>path.
          and_then (parse_logger enable cache path) (\<lambda>log.
          and_then (member ''HAP'' d) (\<lambda>hap. and_then (parse_section junk hap IndustrialHAP ([], [])) (\<lambda>s1.
          and_then (member ''MID360'' d) (\<lambda>mid. and_then (parse_section junk mid Mid360 s1) (\<lambda>s2.
            Ok \<lparr>lidars_cfg = fst s2, custom_lidars_cfg = snd s2, logger_cfg = log, master_sdk = master\<rparr>)))))))))))"

section \<open>Checking\<close>

text \<open>
  The addresses of the lidars: an empty one is skipped in the first list and an error in the
  second; the result are the addresses seen.
\<close>

fun check_ips :: "bool \<Rightarrow> string list \<Rightarrow> string set \<Rightarrow> string set option" where
  "check_ips custom [] ips = Some ips"
| "check_ips custom (ip # rest) ips =
     (if ip = '''' then (if custom then None else check_ips custom rest ips)
      else if ip \<in> ips then None
      else check_ips custom rest (insert ip ips))"

definition CheckLidarIp :: "lidar_cfg list \<Rightarrow> lidar_cfg list \<Rightarrow> bool" where
  "CheckLidarIp cfgs customs =
     (case check_ips False (map lidar_ipaddr cfgs) {} of
        None \<Rightarrow> False
      | Some ips \<Rightarrow> check_ips True (map lidar_ipaddr customs) ips \<noteq> None)"

definition kMid360LidarCmdPort :: "16 word" where "kMid360LidarCmdPort = 56100"
definition kMid360LidarLogPort :: "16 word" where "kMid360LidarLogPort = 56500"

definition CheckPort :: "lidar_cfg \<Rightarrow> lidar_cfg" where
  "CheckPort cfg =
     (if device_type cfg \<noteq> Mid360 then cfg
      else cfg\<lparr>net_cmd_data_port := kMid360LidarCmdPort, net_push_msg_port := kMid360LidarPushMsgPort,
               net_point_data_port := kMid360LidarPointCloudPort, net_imu_data_port := kMid360LidarImuDataPort,
               net_log_data_port := kMid360LidarLogPort\<rparr>)"

text \<open>The address is reversed and read as a little endian number.\<close>

definition net_ip :: "byte list \<Rightarrow> nat" where
  "net_ip octets = le_val (rev octets)"

fun check_multicast :: "lidar_cfg list \<Rightarrow> unit outcome" where
  "check_multicast [] = Ok ()"
| "check_multicast (cfg # cfgs) =
     (if multicast_ip cfg = '''' then check_multicast cfgs
      else and_then (IpToU8 (multicast_ip cfg)) (\<lambda>octets.
        if net_ip octets \<le> 0xE0000000 \<or> net_ip octets > 0xEFFFFFFF then Failed else check_multicast cfgs))"

definition CheckLidarMulticastIp :: "lidar_cfg list \<Rightarrow> lidar_cfg list \<Rightarrow> unit outcome" where
  "CheckLidarMulticastIp cfgs customs = and_then (check_multicast cfgs) (\<lambda>_. check_multicast customs)"

text \<open>The check corrects the ports in place.\<close>

definition Check :: "sdk_config \<Rightarrow> sdk_config outcome" where
  "Check c =
     (if lidars_cfg c = [] \<and> custom_lidars_cfg c = [] then Failed
      else if \<not> CheckLidarIp (lidars_cfg c) (custom_lidars_cfg c) then Failed
      else
        let c' = c\<lparr>lidars_cfg := map CheckPort (lidars_cfg c), custom_lidars_cfg := map CheckPort (custom_lidars_cfg c)\<rparr>
        in and_then (CheckLidarMulticastIp (lidars_cfg c') (custom_lidars_cfg c')) (\<lambda>_. Ok c'))"

end
