(* ===== verification/Sdk_Devices.thy ===== *)
theory Sdk_Devices
  imports Sdk_Config Sdk_Control Runs
begin

text \<open>
  How the SDK finds lidars and brings them up (device\_manager.cpp,
  command\_handler/general\_command\_handler.cpp and the handlers of the device types): detection,
  the query of the kind of firmware, the configuration from the file, the announcement to the
  user.  A step is a datagram or the answer to a request, as the table of pending commands
  delivers it; \<open>None\<close> is an access through a null pointer, a read behind a buffer or an
  uncaught exception.
\<close>

section \<open>State\<close>

text \<open>\<open>DetectionData\<close>: the body of the answer to a search; its \<open>sn\<close> is read as a string, to the first zero.\<close>

record DetectionData =
  det_ret_code :: byte
  det_dev_type :: dev_type
  det_sn :: "byte list"
  det_lidar_ip :: "byte list"
  det_cmd_port :: "16 word"

definition dev_type_of :: "byte \<Rightarrow> dev_type" where
  "dev_type_of b = (if b = 9 then Mid360 else if b = 10 then IndustrialHAP else if b = 16 then PA else Other_Device (unat b))"

definition detection_size :: nat where "detection_size = 24"

definition read_detection :: "byte list \<Rightarrow> DetectionData option" where
  "read_detection bs =
     (if length bs < detection_size then None
      else Some \<lparr>det_ret_code = bs ! 0, det_dev_type = dev_type_of (bs ! 1), det_sn = takeWhile (\<lambda>b. b \<noteq> 0) (drop 2 bs),
                 det_lidar_ip = take 4 (drop 18 bs), det_cmd_port = of_nat (le_val (take 2 (drop 22 bs)))\<rparr>)"

record DeviceInfo =
  dev_sn :: "byte list"
  dev_lidar_ip :: string
  dev_ty :: dev_type
  is_update_cfg :: bool
  is_get_loader_mode :: bool
  is_loader_mode :: bool
  is_callback :: bool

text \<open>What \<open>operator[]\<close> of the map puts in.\<close>

definition empty_device :: DeviceInfo where
  "empty_device = \<lparr>dev_sn = [], dev_lidar_ip = '''', dev_ty = Other_Device 0, is_update_cfg = False, is_get_loader_mode = False,
                   is_loader_mode = False, is_callback = False\<rparr>"

datatype device_request =
    Query_FwType "32 word"
  | Update_Cfg dev_type "32 word" "16 word" "byte list"

text \<open>
  The members of the device manager, the general command handler and the handlers of the two
  device types (\<open>handler_cfgs\<close>, \<open>configured\<close>).  \<open>framework_master\<close> is \<open>sdk_framework_cfg_ptr_\<close>
  with the member that is read, \<open>fw_count\<close> the static counter of the callback.
\<close>

record sdk_state =
  is_view :: bool
  framework_master :: "bool option"
  detection_host_ip :: string
  custom_cfgs :: "lidar_cfg list"
  type_cfgs_map :: "dev_type \<Rightarrow> lidar_cfg option"
  lidar_cfgs :: "32 word \<Rightarrow> lidar_cfg option"
  general_cfgs :: "32 word \<Rightarrow> lidar_cfg option"
  handler_cfgs :: "dev_type \<Rightarrow> 32 word \<Rightarrow> lidar_cfg option"
  configured :: "dev_type \<Rightarrow> 32 word set"
  device_types :: "32 word \<Rightarrow> dev_type option"
  lidar_types :: "32 word \<Rightarrow> dev_type option"
  devices :: "32 word \<Rightarrow> DeviceInfo option"
  fw_count :: int
  requests :: "device_request list"
  announced :: "32 word list"

text \<open>The handlers that \<open>Init\<close> creates.\<close>

definition has_handler :: "dev_type \<Rightarrow> bool" where
  "has_handler ty \<longleftrightarrow> ty = IndustrialHAP \<or> ty = Mid360"

section \<open>Announcement\<close>

definition LivoxLidarInfoChange :: "32 word \<Rightarrow> sdk_state \<Rightarrow> sdk_state" where
  "LivoxLidarInfoChange h s =
     (let d = (case devices s h of None \<Rightarrow> empty_device | Some d \<Rightarrow> d) in
      s\<lparr>devices := (devices s)(h \<mapsto> d\<lparr>is_update_cfg := True, is_callback := True\<rparr>),
        announced := (if is_callback d then announced s else announced s @ [h])\<rparr>)"

section \<open>The kind of firmware\<close>

text \<open>\<open>SendCommand\<close> reaches the lidar only through the handler of its type.\<close>

definition QueryFwType :: "32 word \<Rightarrow> sdk_state \<Rightarrow> sdk_state" where
  "QueryFwType h s =
     (case device_types s h of
        Some ty \<Rightarrow> if has_handler ty then s\<lparr>requests := requests s @ [Query_FwType h]\<rparr> else s
      | None \<Rightarrow> s)"

definition GetFirmwareType :: "32 word \<Rightarrow> DeviceInfo \<Rightarrow> sdk_state \<Rightarrow> sdk_state option" where
  "GetFirmwareType h d s =
     (case framework_master s of
        None \<Rightarrow> None
      | Some master \<Rightarrow> if \<not> master \<or> is_get_loader_mode d then Some s else Some (QueryFwType h s))"

definition UpdateFwType :: "32 word \<Rightarrow> byte \<Rightarrow> sdk_state \<Rightarrow> sdk_state" where
  "UpdateFwType h fw_type s =
     (case devices s h of
        None \<Rightarrow> s
      | Some d \<Rightarrow> s\<lparr>devices := (devices s)(h \<mapsto> d\<lparr>is_get_loader_mode := True, is_loader_mode := (fw_type = 0)\<rparr>)\<rparr>)"

text \<open>No answer or none with success, or the return code, key, length and value of the first pair.\<close>

datatype fw_answer = Fw_Failed | Fw_Response byte nat nat byte

definition kKeyFwType :: nat where "kKeyFwType = 0x8010"

definition fw_good :: "fw_answer \<Rightarrow> byte option" where
  "fw_good a =
     (case a of Fw_Failed \<Rightarrow> None | Fw_Response ret key len val \<Rightarrow> if ret = 0 \<and> key = kKeyFwType \<and> len = 1 then Some val else None)"

definition QueryFwTypeCallback :: "fw_answer \<Rightarrow> 32 word \<Rightarrow> sdk_state \<Rightarrow> sdk_state" where
  "QueryFwTypeCallback a h s =
     (if fw_count s > 10 then UpdateFwType h 1 (s\<lparr>fw_count := 0\<rparr>)
      else case fw_good a of
        None \<Rightarrow> QueryFwType h (s\<lparr>fw_count := fw_count s + 1\<rparr>)
      | Some val \<Rightarrow> UpdateFwType h val (s\<lparr>fw_count := 0\<rparr>))"

section \<open>Configuration\<close>

definition build_cfg :: "dev_type \<Rightarrow> lidar_cfg \<Rightarrow> byte list outcome" where
  "build_cfg ty cfg =
     (if ty = Mid360 then BuildUpdateMid360LidarCfgRequest (LivoxLidarCfg.truncate cfg)
      else BuildUpdateLidarCfgRequest (LivoxLidarCfg.truncate cfg))"

definition SetCustomLidar :: "dev_type \<Rightarrow> 32 word \<Rightarrow> 16 word \<Rightarrow> lidar_cfg \<Rightarrow> sdk_state \<Rightarrow> sdk_state option" where
  "SetCustomLidar ty h port cfg s =
     (case build_cfg ty cfg of
        Ok body \<Rightarrow> Some (s\<lparr>requests := requests s @ [Update_Cfg ty h port body]\<rparr>)
      | Failed \<Rightarrow> Some s
      | Thrown \<Rightarrow> None)"

definition UpdateLidarCfg :: "dev_type \<Rightarrow> 32 word \<Rightarrow> 16 word \<Rightarrow> sdk_state \<Rightarrow> sdk_state option" where
  "UpdateLidarCfg ty h port s =
     (if \<not> has_handler ty then Some s
      else case framework_master s of
        None \<Rightarrow> None
      | Some master \<Rightarrow>
          if \<not> master \<or> h \<in> configured s ty then Some s
          else case handler_cfgs s ty h of None \<Rightarrow> Some s | Some cfg \<Rightarrow> SetCustomLidar ty h port cfg s)"

datatype cfg_answer = Cfg_Failed | Cfg_Response byte "16 word"

text \<open>The handler for HAP announces a lidar that refused its configuration too.\<close>

definition UpdateLidarCallback :: "dev_type \<Rightarrow> cfg_answer \<Rightarrow> 32 word \<Rightarrow> sdk_state \<Rightarrow> sdk_state" where
  "UpdateLidarCallback ty a h s =
     (case a of
        Cfg_Failed \<Rightarrow> s
      | Cfg_Response ret err \<Rightarrow>
          if ret = 0 \<and> err = 0
          then LivoxLidarInfoChange h (s\<lparr>configured := (configured s)(ty := insert h (configured s ty))\<rparr>)
          else if ty = IndustrialHAP then LivoxLidarInfoChange h s else s)"

section \<open>Detection\<close>

definition add_if_new :: "'k \<Rightarrow> 'v \<Rightarrow> ('k \<Rightarrow> 'v option) \<Rightarrow> 'k \<Rightarrow> 'v option" where
  "add_if_new k v m = (if m k = None then m(k \<mapsto> v) else m)"

definition AddDetectedLidar :: "(string \<Rightarrow> 32 word) \<Rightarrow> lidar_cfg list \<Rightarrow> (32 word \<Rightarrow> lidar_cfg option) \<Rightarrow> 32 word \<Rightarrow> lidar_cfg option" where
  "AddDetectedLidar inet_addr cfgs m = fold (\<lambda>cfg. add_if_new (inet_addr (lidar_ipaddr cfg)) cfg) cfgs m"

text \<open>\<open>Init\<close> of the handler of a type: the configurations of its type that it does not have.\<close>

definition handler_init :: "dev_type \<Rightarrow> sdk_state \<Rightarrow> sdk_state" where
  "handler_init ty s =
     s\<lparr>handler_cfgs := (handler_cfgs s)(ty := (\<lambda>h.
         case handler_cfgs s ty h of
           Some cfg \<Rightarrow> Some cfg
         | None \<Rightarrow> (case general_cfgs s h of Some cfg \<Rightarrow> if device_type cfg = ty then Some cfg else None | None \<Rightarrow> None)))\<rparr>"

text \<open>There is a branch for PA but no handler, so it calls \<open>Init\<close> through a null pointer.\<close>

definition CreateCommandHandler :: "dev_type \<Rightarrow> sdk_state \<Rightarrow> sdk_state option" where
  "CreateCommandHandler ty s =
     (if is_view s then Some s
      else if has_handler ty then Some (handler_init ty s)
      else if ty = PA then None else Some s)"

definition VerifyNetSegment :: "DetectionData \<Rightarrow> sdk_state \<Rightarrow> bool option" where
  "VerifyNetSegment d s =
     (if \<not> is_view s then Some True
      else if detection_host_ip s = '''' then Some False
      else case IpToU8 (detection_host_ip s) of
        Ok octets \<Rightarrow> Some (take 3 octets = take 3 (det_lidar_ip d))
      | Failed \<Rightarrow> Some False
      | Thrown \<Rightarrow> None)"

text \<open>\<open>DeviceManager::HandleDetectionData\<close>, where the SDK is not a viewer.\<close>

definition manager_detection :: "32 word \<Rightarrow> DetectionData \<Rightarrow> bool \<Rightarrow> bool \<Rightarrow> sdk_state \<Rightarrow> sdk_state" where
  "manager_detection h d is_get is_load s =
     (if h = 0 then s
      else case lidar_types s h of
        Some ty \<Rightarrow> if ty \<noteq> det_dev_type d then s else if is_get \<and> is_load then LivoxLidarInfoChange h s else s
      | None \<Rightarrow>
          let s1 = s\<lparr>lidar_types := (lidar_types s)(h \<mapsto> det_dev_type d)\<rparr>
          in if is_get \<and> is_load then LivoxLidarInfoChange h s1 else s1)"

text \<open>A lidar that is known: the configuration is sent once the firmware is known to be the application.\<close>

definition known_detection :: "32 word \<Rightarrow> DetectionData \<Rightarrow> DeviceInfo \<Rightarrow> sdk_state \<Rightarrow> sdk_state option" where
  "known_detection h d dev s =
     map_option (manager_detection h d (is_get_loader_mode dev) (is_loader_mode dev))
       (if \<not> is_update_cfg dev \<and> is_get_loader_mode dev \<and> \<not> is_loader_mode dev
        then UpdateLidarCfg (det_dev_type d) h (det_cmd_port d) s else Some s)"

definition new_detection :: "32 word \<Rightarrow> DetectionData \<Rightarrow> sdk_state \<Rightarrow> sdk_state option" where
  "new_detection h d s =
     (let dev = empty_device\<lparr>dev_sn := det_sn d, dev_lidar_ip := ip_str (det_lidar_ip d), dev_ty := det_dev_type d\<rparr>;
          s1 = s\<lparr>device_types := add_if_new h (det_dev_type d) (device_types s), devices := (devices s)(h \<mapsto> dev)\<rparr>
      in GetFirmwareType h dev s1)"

text \<open>A viewer never gets past the first detection, so its branch for known lidars is left out.\<close>

definition HandleDetectionData :: "32 word \<Rightarrow> CommPacket \<Rightarrow> sdk_state \<Rightarrow> sdk_state option" where
  "HandleDetectionData h packet s =
     (if cp_data packet = [] then Some s
      else case read_detection (cp_data packet) of
        None \<Rightarrow> None
      | Some d \<Rightarrow>
          if det_ret_code d \<noteq> 0 then Some s
          else case VerifyNetSegment d s of
            None \<Rightarrow> None
          | Some False \<Rightarrow> Some s
          | Some True \<Rightarrow>
              Option.bind (CreateCommandHandler (det_dev_type d) s) (\<lambda>s1.
                case devices s1 h of
                  Some dev \<Rightarrow> known_detection h d dev s1
                | None \<Rightarrow> new_detection h d s1))"

section \<open>Datagrams\<close>

definition kDetectionPort :: "16 word" where "kDetectionPort = 56000"
definition kPaLidarFaultPort :: "16 word" where "kPaLidarFaultPort = 10001"
definition kCommandIDLidarSearch :: "16 word" where "kCommandIDLidarSearch = 0"

text \<open>
  The part of both \<open>Handler\<close>s that concerns detection; acknowledgements and messages of the lidar
  are other steps.
\<close>

definition handle_search :: "32 word \<Rightarrow> 16 word \<Rightarrow> CommPacket option \<Rightarrow> sdk_state \<Rightarrow> sdk_state option" where
  "handle_search h port parsed s =
     (case parsed of
        None \<Rightarrow> Some s
      | Some packet \<Rightarrow>
          if port = kDetectionPort \<and> cp_cmd_id packet = kCommandIDLidarSearch \<and> cp_cmd_type packet \<noteq> kCommandTypeCmd
          then HandleDetectionData h packet s else Some s)"

text \<open>Where a datagram of a configured lidar goes.\<close>

datatype route = To_Data dev_type | To_Command dev_type | Dropped

definition route_of :: "lidar_cfg \<Rightarrow> 16 word \<Rightarrow> route" where
  "route_of cfg port =
     (if port = net_imu_data_port cfg \<or> port = net_point_data_port cfg then To_Data (device_type cfg)
      else if port = kDetectionPort \<or> port = net_cmd_data_port cfg \<or> port = net_push_msg_port cfg \<or>
              port = net_log_data_port cfg \<or> port = kPaLidarFaultPort then To_Command (device_type cfg)
      else Dropped)"

text \<open>A lidar without a configuration of its own gets that of its type.\<close>

definition adopt :: "(string \<Rightarrow> 32 word) \<Rightarrow> (32 word \<Rightarrow> string) \<Rightarrow> 32 word \<Rightarrow> CommPacket \<Rightarrow> sdk_state \<Rightarrow> sdk_state option" where
  "adopt inet_addr inet_ntoa h packet s =
     (if cp_cmd_id packet \<noteq> kCommandIDLidarSearch \<or> cp_data packet = [] then Some s
      else case read_detection (cp_data packet) of
        None \<Rightarrow> None
      | Some d \<Rightarrow>
          if det_ret_code d \<noteq> 0 then Some s
          else case type_cfgs_map s (det_dev_type d) of
            None \<Rightarrow> Some s
          | Some cfg \<Rightarrow>
              let cfg' = cfg\<lparr>lidar_ipaddr := inet_ntoa h\<rparr>; cfgs = custom_cfgs s @ [cfg']
              in CreateCommandHandler (det_dev_type d)
                   (s\<lparr>type_cfgs_map := (type_cfgs_map s)(det_dev_type d \<mapsto> cfg'), lidar_cfgs := (lidar_cfgs s)(h \<mapsto> cfg'),
                      custom_cfgs := cfgs, general_cfgs := AddDetectedLidar inet_addr cfgs (general_cfgs s)\<rparr>))"

definition OnData :: "(string \<Rightarrow> 32 word) \<Rightarrow> (32 word \<Rightarrow> string) \<Rightarrow> 32 word \<Rightarrow> 16 word \<Rightarrow> CommPacket option \<Rightarrow> sdk_state \<Rightarrow> sdk_state option" where
  "OnData inet_addr inet_ntoa h port parsed s =
     (if inet_ntoa h = detection_host_ip s then Some s
      else if is_view s then handle_search h port parsed s
      else case lidar_cfgs s h of
        Some cfg \<Rightarrow> (case route_of cfg port of To_Command ty \<Rightarrow> handle_search h port parsed s | _ \<Rightarrow> Some s)
      | None \<Rightarrow>
          if port \<noteq> kDetectionPort then Some s
          else (case parsed of None \<Rightarrow> Some s | Some packet \<Rightarrow> adopt inet_addr inet_ntoa h packet s))"

section \<open>Start\<close>

text \<open>The address of the host; \<open>Init\<close> fails where there is no configuration, which the check rules out.\<close>

definition host_of :: "lidar_cfg list \<Rightarrow> lidar_cfg list \<Rightarrow> string" where
  "host_of cfgs customs = (case cfgs @ customs of [] \<Rightarrow> '''' | c # cs \<Rightarrow> host_ip c)"

text \<open>\<open>DeviceManager::Init\<close> with a configuration, and as a viewer.\<close>

definition GetLidarConfigMap :: "(string \<Rightarrow> 32 word) \<Rightarrow> sdk_config
    \<Rightarrow> (dev_type \<Rightarrow> lidar_cfg option) \<times> (32 word \<Rightarrow> lidar_cfg option)" where
  "GetLidarConfigMap inet_addr c =
     (fold (\<lambda>cfg m. m(device_type cfg \<mapsto> cfg)) (lidars_cfg c) Map.empty,
      fold (\<lambda>cfg m. m(inet_addr (lidar_ipaddr cfg) \<mapsto> cfg)) (custom_lidars_cfg c) Map.empty)"

definition empty_state :: "sdk_state" where
  "empty_state =
     \<lparr>is_view = False, framework_master = None, detection_host_ip = '''', custom_cfgs = [], type_cfgs_map = Map.empty,
      lidar_cfgs = Map.empty, general_cfgs = Map.empty, handler_cfgs = (\<lambda>_. Map.empty), configured = (\<lambda>_. {}),
      device_types = Map.empty, lidar_types = Map.empty, devices = Map.empty, fw_count = 0, requests = [], announced = []\<rparr>"

definition sdk_init :: "(string \<Rightarrow> 32 word) \<Rightarrow> sdk_config \<Rightarrow> sdk_state" where
  "sdk_init inet_addr c =
     (let (types, lidars) = GetLidarConfigMap inet_addr c in
      empty_state\<lparr>framework_master := Some (master_sdk c), detection_host_ip := host_of (lidars_cfg c) (custom_lidars_cfg c),
        custom_cfgs := custom_lidars_cfg c, type_cfgs_map := types, lidar_cfgs := lidars,
        general_cfgs := AddDetectedLidar inet_addr (custom_lidars_cfg c) Map.empty\<rparr>)"

definition view_init :: "string \<Rightarrow> sdk_state" where
  "view_init host = empty_state\<lparr>is_view := True, detection_host_ip := host\<rparr>"

section \<open>Runs\<close>

datatype device_event =
    Datagram "32 word" "16 word" "CommPacket option"
  | Fw_Answer "32 word" fw_answer
  | Cfg_Answer dev_type "32 word" cfg_answer

fun device_step :: "(string \<Rightarrow> 32 word) \<Rightarrow> (32 word \<Rightarrow> string) \<Rightarrow> device_event \<Rightarrow> sdk_state \<Rightarrow> sdk_state option" where
  "device_step inet_addr inet_ntoa (Datagram h port parsed) s = OnData inet_addr inet_ntoa h port parsed s"
| "device_step inet_addr inet_ntoa (Fw_Answer h a) s = Some (QueryFwTypeCallback a h s)"
| "device_step inet_addr inet_ntoa (Cfg_Answer ty h a) s = Some (UpdateLidarCallback ty a h s)"

definition device_next :: "(string \<Rightarrow> 32 word) \<Rightarrow> (32 word \<Rightarrow> string) \<Rightarrow> device_event \<Rightarrow> sdk_state option \<Rightarrow> sdk_state option" where
  "device_next inet_addr inet_ntoa e os = Option.bind os (device_step inet_addr inet_ntoa e)"

definition device_run :: "(string \<Rightarrow> 32 word) \<Rightarrow> (32 word \<Rightarrow> string) \<Rightarrow> device_event list \<Rightarrow> sdk_state \<Rightarrow> sdk_state option" where
  "device_run inet_addr inet_ntoa es s = fold (device_next inet_addr inet_ntoa) es (Some s)"

end
