(* ===== verification/Sdk_Config_Props.thy ===== *)
theory Sdk_Config_Props
  imports Sdk_Config
begin

text \<open>The properties of reading and checking the configuration of the SDK.\<close>

section \<open>Documents\<close>

text \<open>The document of a configuration, as the files of the SDK are laid out.\<close>

definition net_value :: "lidar_cfg \<Rightarrow> json_value" where
  "net_value c =
     V_Object [(''cmd_data_port'', V_Uint (ucast (net_cmd_data_port c))), (''push_msg_port'', V_Uint (ucast (net_push_msg_port c))),
       (''point_data_port'', V_Uint (ucast (net_point_data_port c))), (''imu_data_port'', V_Uint (ucast (net_imu_data_port c))),
       (''log_data_port'', V_Uint (ucast (net_log_data_port c)))]"

definition host_members :: "lidar_cfg \<Rightarrow> (string \<times> json_value) list" where
  "host_members c =
     [(''host_ip'', V_String (host_ip c)), (''multicast_ip'', V_String (multicast_ip c)),
      (''cmd_data_port'', V_Uint (ucast (host_cmd_data_port c))), (''push_msg_port'', V_Uint (ucast (push_msg_port c))),
      (''point_data_port'', V_Uint (ucast (point_data_port c))), (''imu_data_port'', V_Uint (ucast (imu_data_port c))),
      (''log_data_port'', V_Uint (ucast (host_log_data_port c)))]"

text \<open>A host entry, for all lidars of the type or for those with the given addresses.\<close>

definition host_entry :: "lidar_cfg \<times> string list option \<Rightarrow> json_value" where
  "host_entry = (\<lambda>(c, ips).
     V_Object (case ips of None \<Rightarrow> host_members c | Some l \<Rightarrow> (''lidar_ip'', V_Array (map V_String l)) # host_members c))"

definition type_section :: "lidar_cfg \<Rightarrow> (lidar_cfg \<times> string list option) list \<Rightarrow> json_value" where
  "type_section net hosts = V_Object [(''lidar_net_info'', net_value net), (''host_net_info'', V_Array (map host_entry hosts))]"

definition config_doc :: "bool \<Rightarrow> LivoxLidarLoggerCfg \<Rightarrow> json_value \<Rightarrow> json_value \<Rightarrow> json_value" where
  "config_doc master lg hap mid =
     V_Object [(''master_sdk'', V_Bool master), (''lidar_log_enable'', V_Bool (lidar_log_enable lg)),
       (''lidar_log_cache_size_MB'', V_Uint (ucast (lidar_log_cache_size lg))), (''lidar_log_path'', V_String (lidar_log_path lg)),
       (''HAP'', hap), (''MID360'', mid)]"

text \<open>The configuration a host entry stands for.\<close>

definition entry_cfg :: "dev_type \<Rightarrow> lidar_cfg \<Rightarrow> lidar_cfg \<Rightarrow> string \<Rightarrow> lidar_cfg" where
  "entry_cfg ty net host ip =
     host\<lparr>device_type := ty, lidar_ipaddr := ip, net_cmd_data_port := net_cmd_data_port net,
          net_push_msg_port := net_push_msg_port net, net_point_data_port := net_point_data_port net,
          net_imu_data_port := net_imu_data_port net, net_log_data_port := net_log_data_port net\<rparr>"

definition type_cfgs :: "dev_type \<Rightarrow> lidar_cfg \<Rightarrow> (lidar_cfg \<times> string list option) list \<Rightarrow> lidar_cfg list" where
  "type_cfgs ty net hosts = concat (map (\<lambda>(c, ips). case ips of None \<Rightarrow> [entry_cfg ty net c ''''] | Some l \<Rightarrow> []) hosts)"

definition single_cfgs :: "dev_type \<Rightarrow> lidar_cfg \<Rightarrow> (lidar_cfg \<times> string list option) list \<Rightarrow> lidar_cfg list" where
  "single_cfgs ty net hosts = concat (map (\<lambda>(c, ips). case ips of None \<Rightarrow> [] | Some l \<Rightarrow> map (entry_cfg ty net c) l) hosts)"

lemma port_through [simp]: "ucast (ucast (p :: 16 word) :: 32 word) = p"
  by (rule bit_word_eqI) (simp add: bit_simps)

lemma parse_entry:
  "ParseTypeLidarCfg (type_section net hosts) (host_entry (c, ips)) ty ((new_cfg junk)\<lparr>lidar_ipaddr := ip\<rparr>) = Ok (entry_cfg ty net c ip)"
proof -
  have "ParseLidarNetInfo (type_section net hosts) d =
      Ok (d\<lparr>net_cmd_data_port := net_cmd_data_port net, net_push_msg_port := net_push_msg_port net,
           net_point_data_port := net_point_data_port net, net_imu_data_port := net_imu_data_port net, net_log_data_port := net_log_data_port net\<rparr>)" for d
    by (simp add: ParseLidarNetInfo_def type_section_def net_value_def get_port_def)
  moreover have "ParseHostNetInfo (host_entry (c, ips)) d =
      Ok (d\<lparr>host_ip := host_ip c, multicast_ip := multicast_ip c, host_cmd_data_port := host_cmd_data_port c, push_msg_port := push_msg_port c,
            point_data_port := point_data_port c, imu_data_port := imu_data_port c, host_log_data_port := host_log_data_port c\<rparr>)" for d
    by (cases ips) (simp_all add: ParseHostNetInfo_def host_entry_def host_members_def host_address_def multicast_address_def get_port_def)
  ultimately show ?thesis by (simp add: ParseTypeLidarCfg_def entry_cfg_def new_cfg_def)
qed

lemma parse_ips:
  "parse_lidar_ips junk (type_section net hosts) (host_entry (c, ips)) ty (map V_String l) cfgs = Ok (cfgs @ map (entry_cfg ty net c) l)"
  by (induction l arbitrary: cfgs) (simp_all add: parse_entry)

lemma parse_hosts:
  "ParseNewLidarCfg junk (type_section net all) ty (map host_entry hosts) (cfgs, customs) =
     Ok (cfgs @ type_cfgs ty net hosts, customs @ single_cfgs ty net hosts)"
proof (induction hosts arbitrary: cfgs customs)
  case (Cons h hosts)
  obtain c ips where h: "h = (c, ips)" by (cases h)
  show ?case
  proof (cases ips)
    case None
    have "member ''lidar_ip'' (host_entry (c, None)) = Ok None" by (simp add: host_entry_def host_members_def)
    moreover have "new_cfg junk = (new_cfg junk)\<lparr>lidar_ipaddr := ''''\<rparr>" by (simp add: new_cfg_def)
    ultimately show ?thesis
      using Cons.IH parse_entry [where net = net and hosts = all and c = c and ips = None and ty = ty and junk = junk and ip = "''''"] by (simp add: h None type_cfgs_def single_cfgs_def)
  next
    case (Some l)
    have "member ''lidar_ip'' (host_entry (c, Some l)) = Ok (Some (V_Array (map V_String l)))" by (simp add: host_entry_def)
    then show ?thesis using Cons.IH by (simp add: h Some parse_ips type_cfgs_def single_cfgs_def)
  qed
qed (simp add: type_cfgs_def single_cfgs_def)

lemma parse_type_section:
  "parse_section junk (Some (type_section net hosts)) ty (cfgs, customs) =
     Ok (cfgs @ type_cfgs ty net hosts, customs @ single_cfgs ty net hosts)"
proof -
  have "member ''host_net_info'' (type_section net hosts) = Ok (Some (V_Array (map host_entry hosts)))" by (simp add: type_section_def)
  then have "ParseLidarCfg junk (type_section net hosts) ty (cfgs, customs) = Ok (cfgs @ type_cfgs ty net hosts, customs @ single_cfgs ty net hosts)"
    by (simp add: ParseLidarCfg_def parse_hosts)
  then show ?thesis by (simp add: parse_section_def type_section_def)
qed

lemma parse_config_doc:
  assumes "unat (lidar_log_cache_size lg) < 2 ^ 32"
  shows "Parse junk (Some (config_doc master lg (type_section hnet hhosts) (type_section mnet mhosts))) =
     Ok \<lparr>lidars_cfg = type_cfgs IndustrialHAP hnet hhosts @ type_cfgs Mid360 mnet mhosts,
         custom_lidars_cfg = single_cfgs IndustrialHAP hnet hhosts @ single_cfgs Mid360 mnet mhosts,
         logger_cfg = lg, master_sdk = master\<rparr>"
proof -
  let ?hap = "type_section hnet hhosts" and ?mid = "type_section mnet mhosts"
  have m: "member name (config_doc master lg ?hap ?mid) = Ok (map_of
      [(''master_sdk'', V_Bool master), (''lidar_log_enable'', V_Bool (lidar_log_enable lg)),
       (''lidar_log_cache_size_MB'', V_Uint (ucast (lidar_log_cache_size lg))), (''lidar_log_path'', V_String (lidar_log_path lg)),
       (''HAP'', ?hap), (''MID360'', ?mid)] name)" for name
    by (simp add: config_doc_def)
  have "ucast (ucast (lidar_log_cache_size lg) :: 32 word) = lidar_log_cache_size lg"
    using assms by (simp add: word_unat_eq_iff unsigned_ucast_eq unsigned_take_bit_eq take_bit_nat_eq_self)
  then show ?thesis
    by (simp add: Parse_def m parse_master_def parse_logger_def parse_type_section)
qed

text \<open>
  C31. A configuration is read as it is written: from the document with the settings of the SDK and
  the sections of the two device types, \<open>Parse\<close> returns one configuration for every host entry
  without addresses of lidars and one for every address of the others, in the order of the
  document, every member as it stands there, whatever the fresh structures held, as long as the size of
  the log cache is one that the document can hold.
\<close>

theorem config_file_roundtrip:
  assumes "unat (lidar_log_cache_size lg) < 2 ^ 32"
  shows "Parse junk (Some (config_doc master lg (type_section hnet hhosts) (type_section mnet mhosts))) =
     Ok \<lparr>lidars_cfg = type_cfgs IndustrialHAP hnet hhosts @ type_cfgs Mid360 mnet mhosts,
         custom_lidars_cfg = single_cfgs IndustrialHAP hnet hhosts @ single_cfgs Mid360 mnet mhosts,
         logger_cfg = lg, master_sdk = master\<rparr>"
  using assms by (rule parse_config_doc)

section \<open>Accepted configurations\<close>

lemma check_ips_spec:
  "check_ips custom l ips = Some ips' \<Longrightarrow>
     ips' = ips \<union> {ip \<in> set l. ip \<noteq> ''''} \<and> distinct (filter (\<lambda>ip. ip \<noteq> '''') l) \<and>
     (\<forall>ip \<in> set l. ip \<noteq> '''' \<longrightarrow> ip \<notin> ips) \<and> (custom \<longrightarrow> '''' \<notin> set l)"
proof (induction custom l ips arbitrary: ips' rule: check_ips.induct)
  case (2 custom ip rest ips)
  consider "ip = []" "\<not> custom" | "ip \<noteq> []" "ip \<notin> ips" using "2.prems" by (auto split: if_splits)
  then show ?case
  proof cases
    case 1 then show ?thesis using "2.IH"(1) [of ips'] "2.prems" by auto
  next
    case 2
    then have "check_ips custom rest (insert ip ips) = Some ips'" using "2.prems" by simp
    from "2.IH"(2) [OF 2 this] show ?thesis using 2 by auto
  qed
qed simp

lemma CheckLidarIp_spec:
  "CheckLidarIp cfgs customs \<Longrightarrow>
     distinct (filter (\<lambda>ip. ip \<noteq> '''') (map lidar_ipaddr (cfgs @ customs))) \<and> '''' \<notin> set (map lidar_ipaddr customs)"
proof -
  let ?ne = "\<lambda>ip :: string. ip \<noteq> []"
  assume "CheckLidarIp cfgs customs"
  then obtain ips ips' where "check_ips False (map lidar_ipaddr cfgs) {} = Some ips" "check_ips True (map lidar_ipaddr customs) ips = Some ips'"
    unfolding CheckLidarIp_def by (auto split: option.splits)
  note a = check_ips_spec [OF this(1)] and b = check_ips_spec [OF this(2)]
  have "set (filter ?ne (map lidar_ipaddr cfgs)) \<inter> set (filter ?ne (map lidar_ipaddr customs)) = {}"
  proof (rule ccontr)
    assume "\<not> ?thesis"
    then obtain ip where "ip \<in> set (map lidar_ipaddr cfgs)" "ip \<noteq> []" "ip \<in> set (map lidar_ipaddr customs)" by fastforce
    then show False using a b by blast
  qed
  then have "distinct (filter ?ne (map lidar_ipaddr cfgs @ map lidar_ipaddr customs))"
    unfolding filter_append distinct_append using a b by blast
  then show ?thesis using b by simp
qed

lemma ip_loop_length: "ip_loop src result = Ok octets \<Longrightarrow> length octets = 4"
proof (induction src result rule: ip_loop.induct)
  case (1 src result)
  show ?case
  proof (cases "find_dot src")
    case None
    then show ?thesis using "1.prems" ip_loop.simps [of src result] by (auto simp: ip_end_def split: if_splits)
  next
    case (Some r)
    obtain pre post where r: "r = (pre, post)" by (cases r)
    then obtain val where "octet pre = Ok val" "ip_loop post (result @ [val]) = Ok octets"
      using "1.prems" Some ip_loop.simps [of src result] by auto
    then show ?thesis using "1.IH" [OF Some [unfolded r] refl] by blast
  qed
qed

text \<open>A multicast address, without the first of them.\<close>

definition multicast_ok :: "lidar_cfg \<Rightarrow> bool" where
  "multicast_ok cfg \<longleftrightarrow>
     multicast_ip cfg = '''' \<or>
     (\<exists>a b c d. IpToU8 (multicast_ip cfg) = Ok [a, b, c, d] \<and> 224 \<le> unat a \<and> unat a < 240 \<and> [a, b, c, d] \<noteq> [224, 0, 0, 0])"

lemma net_ip_range:
  fixes a b c d :: byte
  shows "\<not> (net_ip [a, b, c, d] \<le> 0xE0000000 \<or> net_ip [a, b, c, d] > 0xEFFFFFFF) \<longleftrightarrow>
     224 \<le> unat a \<and> unat a < 240 \<and> [a, b, c, d] \<noteq> [224, 0, 0, 0]"
proof -
  have v: "net_ip [a, b, c, d] = unat d + 256 * unat c + 65536 * unat b + 16777216 * unat a" by (simp add: net_ip_def)
  have lim: "unat a < 256" "unat b < 256" "unat c < 256" "unat d < 256"
    using unsigned_less [of a, where 'a = nat] unsigned_less [of b, where 'a = nat] unsigned_less [of c, where 'a = nat]
      unsigned_less [of d, where 'a = nat] by simp_all
  have eq: "[a, b, c, d] = [224, 0, 0, 0] \<longleftrightarrow> unat a = 224 \<and> unat b = 0 \<and> unat c = 0 \<and> unat d = 0"
    by (auto simp: word_unat_eq_iff)
  show ?thesis unfolding v eq using lim by auto
qed

lemma check_multicast_spec: "check_multicast cfgs = Ok u \<longleftrightarrow> (\<forall>cfg \<in> set cfgs. multicast_ok cfg)"
proof (induction cfgs)
  case (Cons cfg cfgs)
  show ?case
  proof (cases "multicast_ip cfg = ''''")
    case True
    then show ?thesis using Cons.IH by (simp add: multicast_ok_def)
  next
    case False
    show ?thesis
    proof (cases "IpToU8 (multicast_ip cfg)")
      case (Ok octets)
      then have "length octets = 4" using ip_loop_length by (simp add: IpToU8_def)
      then obtain a b c d where o: "octets = [a, b, c, d]" by (auto simp: length_Suc_conv numeral_eq_Suc)
      show ?thesis
        using False Ok o Cons.IH net_ip_range [of a b c d] by (auto simp: multicast_ok_def)
    qed (use False in \<open>auto simp: multicast_ok_def\<close>)
  qed
qed simp

text \<open>
  C35. A configuration that is read and accepted is sound: no lidar has the address of another one,
  every single lidar has an address, every Mid-360 has the five ports that its firmware uses,
  every multicast address is one, there is at least one configuration, and nothing but the
  ports of the Mid-360 was changed.
\<close>

theorem accepted_config_sound:
  assumes "and_then (Parse junk doc) Check = Ok c"
  shows "\<exists>c0. Parse junk doc = Ok c0 \<and>
     c = c0\<lparr>lidars_cfg := map CheckPort (lidars_cfg c0), custom_lidars_cfg := map CheckPort (custom_lidars_cfg c0)\<rparr> \<and>
     lidars_cfg c @ custom_lidars_cfg c \<noteq> [] \<and>
     distinct (filter (\<lambda>ip. ip \<noteq> '''') (map lidar_ipaddr (lidars_cfg c @ custom_lidars_cfg c))) \<and>
     '''' \<notin> set (map lidar_ipaddr (custom_lidars_cfg c)) \<and>
     (\<forall>cfg \<in> set (lidars_cfg c @ custom_lidars_cfg c). multicast_ok cfg \<and>
        (device_type cfg = Mid360 \<longrightarrow> net_cmd_data_port cfg = 56100 \<and> net_push_msg_port cfg = 56200 \<and>
           net_point_data_port cfg = 56300 \<and> net_imu_data_port cfg = 56400 \<and> net_log_data_port cfg = 56500))"
proof -
  obtain c0 where p: "Parse junk doc = Ok c0" "Check c0 = Ok c" using assms by auto
  have ip: "lidar_ipaddr (CheckPort cfg) = lidar_ipaddr cfg" for cfg by (simp add: CheckPort_def)
  have ports: "device_type (CheckPort cfg) = Mid360 \<longrightarrow> net_cmd_data_port (CheckPort cfg) = 56100 \<and> net_push_msg_port (CheckPort cfg) = 56200 \<and>
      net_point_data_port (CheckPort cfg) = 56300 \<and> net_imu_data_port (CheckPort cfg) = 56400 \<and> net_log_data_port (CheckPort cfg) = 56500" for cfg
    by (simp add: CheckPort_def kMid360LidarCmdPort_def kMid360LidarLogPort_def port_defs)
  have c: "c = c0\<lparr>lidars_cfg := map CheckPort (lidars_cfg c0), custom_lidars_cfg := map CheckPort (custom_lidars_cfg c0)\<rparr>"
    and ne: "lidars_cfg c0 \<noteq> [] \<or> custom_lidars_cfg c0 \<noteq> []" and ips: "CheckLidarIp (lidars_cfg c0) (custom_lidars_cfg c0)"
    and m: "check_multicast (lidars_cfg c) = Ok ()" "check_multicast (custom_lidars_cfg c) = Ok ()"
    using p(2) by (auto simp: Check_def Let_def CheckLidarMulticastIp_def split: if_splits)
  have addrs: "map lidar_ipaddr (lidars_cfg c) = map lidar_ipaddr (lidars_cfg c0)"
      "map lidar_ipaddr (custom_lidars_cfg c) = map lidar_ipaddr (custom_lidars_cfg c0)" by (simp_all add: c ip)
  show ?thesis
  proof (intro exI [of _ c0] conjI ballI)
    fix cfg assume cfg: "cfg \<in> set (lidars_cfg c @ custom_lidars_cfg c)"
    then show "multicast_ok cfg" using m unfolding check_multicast_spec by auto
    show "device_type cfg = Mid360 \<longrightarrow> net_cmd_data_port cfg = 56100 \<and> net_push_msg_port cfg = 56200 \<and>
           net_point_data_port cfg = 56300 \<and> net_imu_data_port cfg = 56400 \<and> net_log_data_port cfg = 56500"
      using cfg ports unfolding c by auto
  next
    show "distinct (filter (\<lambda>ip. ip \<noteq> []) (map lidar_ipaddr (lidars_cfg c @ custom_lidars_cfg c)))"
      using CheckLidarIp_spec [OF ips] unfolding map_append addrs by simp
    show "[] \<notin> set (map lidar_ipaddr (custom_lidars_cfg c))"
      using CheckLidarIp_spec [OF ips] unfolding addrs by simp
    show "lidars_cfg c @ custom_lidars_cfg c \<noteq> []" using c ne by simp
  qed (use p(1) c in simp_all)
qed

definition demo_host :: lidar_cfg where
  "demo_host =
     \<lparr>device_type = Mid360, host_ip = ''192.168.1.5'', multicast_ip = ''224.1.1.5'', push_msg_port = 56201, point_data_port = 56301,
      imu_data_port = 56401, host_cmd_data_port = 56101, host_log_data_port = 56501, lidar_ipaddr = '''', net_cmd_data_port = 1,
      net_push_msg_port = 2, net_point_data_port = 3, net_imu_data_port = 4, net_log_data_port = 5\<rparr>"

definition demo_doc :: json_value where
  "demo_doc =
     config_doc True \<lparr>lidar_log_enable = False, lidar_log_cache_size = 500, lidar_log_path = ''./''\<rparr>
       (type_section demo_host []) (type_section demo_host [(demo_host, Some [''192.168.1.12'', ''192.168.1.13''])])"

lemma demo_multicast: "IpToU8 ''224.1.1.5'' = Ok [224, 1, 1, 5]"
  by (simp add: IpToU8_def ip_loop.simps octet_def stoi_def is_digit_def is_space_def ip_end_def Let_def)

lemma demo_accepted: "\<exists>c. and_then (Parse demo_host (Some demo_doc)) Check = Ok c \<and> map lidar_ipaddr (custom_lidars_cfg c) = [''192.168.1.12'', ''192.168.1.13'']"
proof -
  have "net_ip [224, 1, 1, 5] = 3758162181" by (simp add: net_ip_def)
  then show ?thesis
    by (simp add: demo_doc_def parse_config_doc type_cfgs_def single_cfgs_def Check_def CheckLidarIp_def CheckLidarMulticastIp_def CheckPort_def entry_cfg_def demo_host_def demo_multicast)
qed

lemma config_file_roundtrip_witness:
  "\<exists>c. Parse demo_host (Some demo_doc) = Ok c \<and> lidar_log_cache_size (logger_cfg c) = 500 \<and> length (custom_lidars_cfg c) = 2"
  unfolding demo_doc_def by (subst config_file_roundtrip) (simp_all add: single_cfgs_def)

text \<open>Two Mid-360 behind one host: the ports of the file are replaced.\<close>

lemma accepted_config_sound_witness:
  "\<exists>c. and_then (Parse demo_host (Some demo_doc)) Check = Ok c \<and> (\<forall>cfg \<in> set (lidars_cfg c @ custom_lidars_cfg c). multicast_ok cfg)"
proof -
  obtain c where c: "and_then (Parse demo_host (Some demo_doc)) Check = Ok c" using demo_accepted by blast
  show ?thesis using accepted_config_sound [OF c] c by auto
qed

end
