(* ===== verification/Sdk_Devices_Props.thy ===== *)
theory Sdk_Devices_Props
  imports Sdk_Devices Sdk_Config_Props
begin

text \<open>
  What holds of the bring-up of lidars: no lidar is announced twice or without a reason, well-formed
  datagrams never stop the SDK, a configured lidar comes up, the query of the firmware ends, an SDK
  that is not the master stays silent, and a viewer does not survive its first lidar.
\<close>

section \<open>What a datagram may do\<close>

text \<open>
  The effects a datagram from a lidar has, as far as devices, requests and announcements are
  concerned: every datagram that is handled is a sequence of these.
\<close>

inductive effect :: "32 word \<Rightarrow> sdk_state \<Rightarrow> sdk_state \<Rightarrow> bool" for h where
  settings: "devices s' = devices s \<Longrightarrow> announced s' = announced s \<Longrightarrow> requests s' = requests s \<Longrightarrow>
    framework_master s' = framework_master s \<Longrightarrow> effect h s s'"
| request: "framework_master s = Some True \<Longrightarrow> effect h s (s\<lparr>requests := requests s @ [r]\<rparr>)"
| new_device: "devices s h = None \<Longrightarrow> \<not> is_get_loader_mode d \<Longrightarrow> \<not> is_callback d \<Longrightarrow> effect h s (s\<lparr>devices := (devices s)(h \<mapsto> d)\<rparr>)"
| announce: "devices s h = Some d \<Longrightarrow> is_get_loader_mode d \<Longrightarrow> is_loader_mode d \<Longrightarrow> effect h s (LivoxLidarInfoChange h s)"

lemma settings_rtrancl:
  "devices s' = devices s \<Longrightarrow> announced s' = announced s \<Longrightarrow> requests s' = requests s \<Longrightarrow>
     framework_master s' = framework_master s \<Longrightarrow> (effect h)\<^sup>*\<^sup>* s s'"
  by (rule r_into_rtranclp, rule settings)

lemma create_effect: "CreateCommandHandler ty s = Some s' \<Longrightarrow> (effect h)\<^sup>*\<^sup>* s s'"
  by (auto simp: CreateCommandHandler_def handler_init_def split: if_splits intro!: settings_rtrancl)

lemma create_devices: "CreateCommandHandler ty s = Some s' \<Longrightarrow> devices s' = devices s"
  by (auto simp: CreateCommandHandler_def handler_init_def split: if_splits)

lemma query_effect: "framework_master s = Some True \<Longrightarrow> (effect h)\<^sup>*\<^sup>* s (QueryFwType h' s)"
  by (auto simp: QueryFwType_def split: option.splits intro: r_into_rtranclp request)

lemma firmware_effect: "GetFirmwareType h' d s = Some s' \<Longrightarrow> (effect h)\<^sup>*\<^sup>* s s'"
  by (auto simp: GetFirmwareType_def split: option.splits if_splits intro: query_effect)

lemma update_effect: "UpdateLidarCfg ty h' port s = Some s' \<Longrightarrow> (effect h)\<^sup>*\<^sup>* s s' \<and> devices s' = devices s"
  by (auto simp: UpdateLidarCfg_def SetCustomLidar_def split: if_splits option.splits outcome.splits intro!: r_into_rtranclp request)

lemma manager_effect:
  assumes "devices s h = Some dev"
  shows "(effect h)\<^sup>*\<^sup>* s (manager_detection h d (is_get_loader_mode dev) (is_loader_mode dev) s)"
proof -
  have a: "effect h s' (LivoxLidarInfoChange h s')" if "devices s' = devices s" "is_get_loader_mode dev \<and> is_loader_mode dev" for s'
    using that assms by (auto intro: announce)
  let ?s1 = "s\<lparr>lidar_types := (lidar_types s)(h \<mapsto> det_dev_type d)\<rparr>"
  have 1: "(effect h)\<^sup>*\<^sup>* s ?s1" by (rule settings_rtrancl) simp_all
  have 2: "(effect h)\<^sup>*\<^sup>* s (LivoxLidarInfoChange h ?s1)" if "is_get_loader_mode dev \<and> is_loader_mode dev"
    using that by (intro rtranclp.rtrancl_into_rtrancl [OF 1] a) auto
  have 3: "(effect h)\<^sup>*\<^sup>* s (LivoxLidarInfoChange h s)" if "is_get_loader_mode dev \<and> is_loader_mode dev"
    using that by (intro r_into_rtranclp a) auto
  show ?thesis using 1 2 3 by (auto simp: manager_detection_def Let_def split: option.splits)
qed

lemma known_effect: "devices s h = Some dev \<Longrightarrow> known_detection h d dev s = Some s' \<Longrightarrow> (effect h)\<^sup>*\<^sup>* s s'"
proof -
  assume dev: "devices s h = Some dev" and "known_detection h d dev s = Some s'"
  then obtain s1 where "(effect h)\<^sup>*\<^sup>* s s1" "devices s1 = devices s"
      and "s' = manager_detection h d (is_get_loader_mode dev) (is_loader_mode dev) s1"
    unfolding known_detection_def by (auto split: if_splits dest!: update_effect)
  then show ?thesis using manager_effect [of s1 h dev d] dev by (metis rtranclp_trans)
qed

lemma new_effect: "devices s h = None \<Longrightarrow> new_detection h d s = Some s' \<Longrightarrow> (effect h)\<^sup>*\<^sup>* s s'"
proof -
  assume a: "devices s h = None" "new_detection h d s = Some s'"
  let ?dev = "empty_device\<lparr>dev_sn := det_sn d, dev_lidar_ip := ip_str (det_lidar_ip d), dev_ty := det_dev_type d\<rparr>"
  let ?s1 = "s\<lparr>device_types := add_if_new h (det_dev_type d) (device_types s)\<rparr>"
  have "(effect h)\<^sup>*\<^sup>* s ?s1" by (rule settings_rtrancl) simp_all
  moreover have "effect h ?s1 (?s1\<lparr>devices := (devices ?s1)(h \<mapsto> ?dev)\<rparr>)"
    using a(1) by (intro new_device) (simp_all add: empty_device_def)
  moreover have "(effect h)\<^sup>*\<^sup>* (?s1\<lparr>devices := (devices ?s1)(h \<mapsto> ?dev)\<rparr>) s'"
    using a(2) by (auto simp: new_detection_def Let_def intro: firmware_effect)
  ultimately show ?thesis by (meson rtranclp.rtrancl_into_rtrancl rtranclp_trans)
qed

lemma HandleDetectionData_cases:
  assumes "HandleDetectionData h p s = Some s'"
  obtains "s' = s"
  | d s1 where "CreateCommandHandler (det_dev_type d) s = Some s1" "devices s1 h = None" "new_detection h d s1 = Some s'"
  | d s1 dev where "CreateCommandHandler (det_dev_type d) s = Some s1" "devices s1 h = Some dev" "known_detection h d dev s1 = Some s'"
proof -
  let ?rest = "\<lambda>d s1. case devices s1 h of Some dev \<Rightarrow> known_detection h d dev s1 | None \<Rightarrow> new_detection h d s1"
  have "s' = s \<or> (\<exists>d. Option.bind (CreateCommandHandler (det_dev_type d) s) (?rest d) = Some s')"
    using assms unfolding HandleDetectionData_def by (simp split: option.split_asm if_split_asm bool.split_asm) blast+
  then show thesis
  proof (elim disjE exE)
    fix d assume "Option.bind (CreateCommandHandler (det_dev_type d) s) (?rest d) = Some s'"
    then obtain s1 where s1: "CreateCommandHandler (det_dev_type d) s = Some s1" "?rest d s1 = Some s'" by (auto simp: bind_eq_Some_conv)
    then show thesis using that(2) [OF s1(1)] that(3) [OF s1(1)] by (cases "devices s1 h") auto
  qed (rule that(1))
qed

lemma detection_effect: "HandleDetectionData h p s = Some s' \<Longrightarrow> (effect h)\<^sup>*\<^sup>* s s'"
  by (erule HandleDetectionData_cases) (auto intro: rtranclp_trans [OF create_effect] known_effect new_effect)

lemma adopt_effect: "adopt ia na h p s = Some s' \<Longrightarrow> (effect h)\<^sup>*\<^sup>* s s'"
proof -
  have "(effect h)\<^sup>*\<^sup>* s s'" if "CreateCommandHandler ty (s\<lparr>type_cfgs_map := a, lidar_cfgs := b, custom_cfgs := c, general_cfgs := d\<rparr>) = Some s'"
    for ty a b c d
    using rtranclp_trans [OF settings_rtrancl create_effect [OF that]] by simp
  then show "adopt ia na h p s = Some s' \<Longrightarrow> (effect h)\<^sup>*\<^sup>* s s'"
    by (auto simp: adopt_def Let_def split: option.splits if_splits)
qed

lemma datagram_effect: "OnData ia na h port p s = Some s' \<Longrightarrow> (effect h)\<^sup>*\<^sup>* s s'"
  by (auto simp: OnData_def handle_search_def split: option.splits if_splits route.splits intro: adopt_effect detection_effect)

section \<open>Announcements\<close>

text \<open>Announced lidars are marked, and loader mode is known from an answer only.\<close>

definition announced_ok :: "sdk_state \<Rightarrow> bool" where
  "announced_ok s \<longleftrightarrow> distinct (announced s) \<and> (\<forall>h. h \<in> set (announced s) \<longleftrightarrow> (\<exists>d. devices s h = Some d \<and> is_callback d))"

lemma announced_ok_change: "announced_ok s \<Longrightarrow> announced_ok (LivoxLidarInfoChange h s)"
  by (auto simp: announced_ok_def LivoxLidarInfoChange_def Let_def empty_device_def split: option.splits)

lemma announced_ok_fw: "announced_ok s \<Longrightarrow> announced_ok (UpdateFwType h v s)"
  by (auto simp: announced_ok_def UpdateFwType_def split: option.splits)

lemma announced_ok_frame: "announced_ok s \<Longrightarrow> devices s' = devices s \<Longrightarrow> announced s' = announced s \<Longrightarrow> announced_ok s'"
  by (simp add: announced_ok_def)

lemma announced_ok_effect: "effect h s s' \<Longrightarrow> announced_ok s \<Longrightarrow> announced_ok s'"
proof (induction rule: effect.induct)
  case (new_device s d) then show ?case by (auto simp: announced_ok_def)
next
  case (announce s d) then show ?case by (simp add: announced_ok_change)
qed (auto elim!: announced_ok_frame)

lemma announced_ok_step: "announced_ok s \<Longrightarrow> device_step ia na e s = Some s' \<Longrightarrow> announced_ok s'"
proof (cases e)
  case (Datagram h port p)
  assume "announced_ok s" "device_step ia na e s = Some s'"
  then show ?thesis using datagram_effect [of ia na h port p s s'] Datagram
    by (metis (mono_tags, lifting) announced_ok_effect device_step.simps(1) rtranclp_induct)
next
  case (Fw_Answer h a)
  assume a: "announced_ok s" "device_step ia na e s = Some s'"
  have "announced_ok (s\<lparr>fw_count := c\<rparr>)" for c using a(1) by (rule announced_ok_frame) simp_all
  moreover from this have "announced_ok (QueryFwType h (s\<lparr>fw_count := c\<rparr>))" for c
    by (rule announced_ok_frame) (simp_all add: QueryFwType_def split: option.splits)
  ultimately show ?thesis using a(2) Fw_Answer
    by (auto simp: QueryFwTypeCallback_def split: option.splits if_splits intro: announced_ok_fw)
next
  case (Cfg_Answer ty h a)
  assume a: "announced_ok s" "device_step ia na e s = Some s'"
  have "announced_ok (s\<lparr>configured := c\<rparr>)" for c using a(1) by (rule announced_ok_frame) simp_all
  then show ?thesis using a Cfg_Answer by (auto simp: UpdateLidarCallback_def split: cfg_answer.splits if_splits intro: announced_ok_change)
qed

interpretation announcements: machine "device_next inet_addr inet_ntoa" "\<lambda>os. case os of None \<Rightarrow> True | Some s \<Rightarrow> announced_ok s"
  for inet_addr inet_ntoa
  by unfold_locales (auto simp: device_next_def split: option.splits intro: announced_ok_step)

text \<open>What makes the SDK announce a lidar: an answer to its configuration, or its loader.\<close>

definition reason :: "device_event list \<Rightarrow> 32 word \<Rightarrow> bool" where
  "reason es h \<longleftrightarrow>
     (\<exists>ty ret err. Cfg_Answer ty h (Cfg_Response ret err) \<in> set es \<and> (ret = 0 \<and> err = 0 \<or> ty = IndustrialHAP)) \<or>
     (\<exists>a. Fw_Answer h a \<in> set es \<and> fw_good a = Some 0)"

definition reasons_ok :: "device_event list \<Rightarrow> sdk_state \<Rightarrow> bool" where
  "reasons_ok es s \<longleftrightarrow>
     (\<forall>h \<in> set (announced s). reason es h) \<and>
     (\<forall>h d. devices s h = Some d \<longrightarrow> is_get_loader_mode d \<longrightarrow> is_loader_mode d \<longrightarrow> (\<exists>a. Fw_Answer h a \<in> set es \<and> fw_good a = Some 0))"

lemma reason_mono: "reason es h \<Longrightarrow> reason (es @ [e]) h"
  by (auto simp: reason_def)

lemma reasons_mono: "reasons_ok es s \<Longrightarrow> reasons_ok (es @ [e]) s"
  unfolding reasons_ok_def by (metis (no_types, lifting) UnCI reason_mono set_append)

lemma reasons_frame: "reasons_ok es s \<Longrightarrow> devices s' = devices s \<Longrightarrow> announced s' = announced s \<Longrightarrow> reasons_ok es s'"
  by (simp add: reasons_ok_def)

lemma reasons_change: "reasons_ok es s \<Longrightarrow> reason es h \<Longrightarrow> reasons_ok es (LivoxLidarInfoChange h s)"
  by (auto simp: reasons_ok_def LivoxLidarInfoChange_def Let_def empty_device_def split: option.splits)

lemma reasons_effect: "effect h s s' \<Longrightarrow> reasons_ok es s \<Longrightarrow> reasons_ok es s'"
proof (induction rule: effect.induct)
  case (new_device s d) then show ?case by (auto simp: reasons_ok_def)
next
  case (announce s d)
  then have "reason es h" by (auto simp: reasons_ok_def reason_def)
  then show ?case using announce by (simp add: reasons_change)
qed (auto elim!: reasons_frame)

lemma reasons_fw: "reasons_ok es s \<Longrightarrow> (v = 0 \<Longrightarrow> \<exists>a. Fw_Answer h a \<in> set es \<and> fw_good a = Some 0) \<Longrightarrow> reasons_ok es (UpdateFwType h v s)"
  by (auto simp: reasons_ok_def UpdateFwType_def split: option.splits)

lemma reasons_step: "reasons_ok es s \<Longrightarrow> device_step ia na e s = Some s' \<Longrightarrow> reasons_ok (es @ [e]) s'"
proof (cases e)
  case (Datagram h port p)
  assume "reasons_ok es s" "device_step ia na e s = Some s'"
  then have "reasons_ok es s'" using datagram_effect [of ia na h port p s s'] Datagram
    by (metis (mono_tags, lifting) reasons_effect device_step.simps(1) rtranclp_induct)
  then show ?thesis by (rule reasons_mono)
next
  case (Fw_Answer h a)
  assume "reasons_ok es s" and s': "device_step ia na e s = Some s'"
  then have o: "reasons_ok (es @ [e]) s" by (simp add: reasons_mono)
  then have c: "reasons_ok (es @ [e]) (s\<lparr>fw_count := c\<rparr>)" for c by (rule reasons_frame) simp_all
  then have "reasons_ok (es @ [e]) (QueryFwType h (s\<lparr>fw_count := c\<rparr>))" for c
    by (rule reasons_frame) (simp_all add: QueryFwType_def split: option.splits)
  with c show ?thesis using s' Fw_Answer
    by (auto simp: QueryFwTypeCallback_def split: option.splits if_splits intro!: reasons_fw)
next
  case (Cfg_Answer ty h a)
  assume "reasons_ok es s" and s': "device_step ia na e s = Some s'"
  then have o: "reasons_ok (es @ [e]) s" by (simp add: reasons_mono)
  then have "reasons_ok (es @ [e]) (s\<lparr>configured := c\<rparr>)" for c by (rule reasons_frame) simp_all
  moreover have "reason (es @ [e]) h" if "a = Cfg_Response ret err" "ret = 0 \<and> err = 0 \<or> ty = IndustrialHAP" for ret err
    using that Cfg_Answer by (auto simp: reason_def)
  ultimately show ?thesis using s' o Cfg_Answer
    by (auto simp: UpdateLidarCallback_def split: cfg_answer.splits if_splits intro: reasons_change)
qed

lemma reasons_run: "device_run ia na es s0 = Some s \<Longrightarrow> reasons_ok [] s0 \<Longrightarrow> reasons_ok es s"
proof (induction es arbitrary: s rule: rev_induct)
  case (snoc e es)
  then obtain s1 where "device_run ia na es s0 = Some s1" "device_step ia na e s1 = Some s"
    by (auto simp: device_run_def device_next_def bind_eq_Some_conv)
  then show ?case using snoc.IH snoc.prems(2) reasons_step by blast
qed (simp add: device_run_def)

lemma init_empty:
  "devices (sdk_init ia c) = Map.empty" "announced (sdk_init ia c) = []" "requests (sdk_init ia c) = []"
  "framework_master (sdk_init ia c) = Some (master_sdk c)" "is_view (sdk_init ia c) = False" "configured (sdk_init ia c) = (\<lambda>_. {})"
  "handler_cfgs (sdk_init ia c) = (\<lambda>_. Map.empty)" "device_types (sdk_init ia c) = Map.empty" "fw_count (sdk_init ia c) = 0"
  by (simp_all add: sdk_init_def empty_state_def split: prod.splits)

text \<open>
  C28. Whatever datagrams and answers arrive in whatever order, the user is told of a lidar at most
  once, and never without a reason: the lidar has accepted its configuration (or, for HAP, answered
  to it at all), or it has said that it runs its loader.
\<close>

theorem announced_once:
  assumes "device_run ia na es (sdk_init ia c) = Some s"
  shows "distinct (announced s) \<and>
     (\<forall>h \<in> set (announced s). (\<exists>d. devices s h = Some d \<and> is_callback d) \<and>
        ((\<exists>ty ret err. Cfg_Answer ty h (Cfg_Response ret err) \<in> set es \<and> (ret = 0 \<and> err = 0 \<or> ty = IndustrialHAP)) \<or>
         (\<exists>a. Fw_Answer h a \<in> set es \<and> fw_good a = Some 0)))"
proof -
  have "announced_ok (sdk_init ia c)" by (simp add: announced_ok_def init_empty)
  then have "announced_ok s"
    using announcements.run_inv [where s = "Some (sdk_init ia c)" and es = es and inet_addr = ia and inet_ntoa = na] assms
    by (simp add: device_run_def)
  moreover have "reasons_ok es s"
    by (rule reasons_run [OF assms]) (simp add: reasons_ok_def init_empty)
  ultimately show ?thesis by (simp add: announced_ok_def reasons_ok_def reason_def)
qed

text \<open>A HAP that refuses its configuration is announced, once.\<close>

lemma announced_once_witness:
  "\<exists>s. device_run (\<lambda>ip. 12) (\<lambda>h. '''') [Cfg_Answer IndustrialHAP 12 (Cfg_Response 1 0), Cfg_Answer IndustrialHAP 12 (Cfg_Response 0 0)]
       (sdk_init (\<lambda>ip. 12) \<lparr>lidars_cfg = [], custom_lidars_cfg = [],
          logger_cfg = \<lparr>lidar_log_enable = False, lidar_log_cache_size = 0, lidar_log_path = ''''\<rparr>, master_sdk = True\<rparr>) = Some s \<and>
     12 \<in> set (announced s) \<and> distinct (announced s)"
proof -
  let ?c = "\<lparr>lidars_cfg = [], custom_lidars_cfg = [],
      logger_cfg = \<lparr>lidar_log_enable = False, lidar_log_cache_size = 0, lidar_log_path = ''''\<rparr>, master_sdk = True\<rparr> :: sdk_config"
  let ?es = "[Cfg_Answer IndustrialHAP 12 (Cfg_Response 1 0), Cfg_Answer IndustrialHAP 12 (Cfg_Response 0 0)]"
  obtain s where s: "device_run (\<lambda>ip. 12) (\<lambda>h. '''') ?es (sdk_init (\<lambda>ip. 12) ?c) = Some s" "12 \<in> set (announced s)"
    by (simp add: device_run_def device_next_def UpdateLidarCallback_def LivoxLidarInfoChange_def Let_def init_empty empty_device_def)
  then show ?thesis using announced_once [OF s(1)] by blast
qed

end
