(* ===== verification/Sdk_Bringup_Props.thy ===== *)
theory Sdk_Bringup_Props
  imports Sdk_Devices_Props
begin

text \<open>
  The run of a well-formed SDK: no harmless datagram or answer stops it, a configured lidar comes
  up whatever the others do, the query of the firmware ends, an SDK that is not the master is
  silent, and a viewer does not survive its first lidar.
\<close>

section \<open>Well-formed states\<close>

text \<open>The request with the configuration can be built, or is given up, without an exception.\<close>

definition builds :: "lidar_cfg \<Rightarrow> bool" where
  "builds cfg \<longleftrightarrow> build_cfg Mid360 cfg \<noteq> Thrown \<and> build_cfg IndustrialHAP cfg \<noteq> Thrown"

definition sdk_ok :: "sdk_state \<Rightarrow> bool" where
  "sdk_ok s \<longleftrightarrow>
     \<not> is_view s \<and> framework_master s \<noteq> None \<and> (\<forall>cfg \<in> set (custom_cfgs s). builds cfg) \<and>
     (\<forall>ty cfg. type_cfgs_map s ty = Some cfg \<longrightarrow> builds cfg) \<and> (\<forall>h cfg. general_cfgs s h = Some cfg \<longrightarrow> builds cfg) \<and>
     (\<forall>ty h cfg. handler_cfgs s ty h = Some cfg \<longrightarrow> builds cfg)"

text \<open>A datagram with an answer to a search has a whole body, of no lidar of type PA.\<close>

fun harmless :: "device_event \<Rightarrow> bool" where
  "harmless (Datagram h port (Some p)) \<longleftrightarrow>
     cp_cmd_id p = kCommandIDLidarSearch \<longrightarrow> cp_data p = [] \<or> (\<exists>d. read_detection (cp_data p) = Some d \<and> det_dev_type d \<noteq> PA)"
| "harmless e \<longleftrightarrow> True"

lemma builds_addr [simp]: "builds (cfg\<lparr>lidar_ipaddr := a\<rparr>) = builds cfg"
  by (simp add: builds_def build_cfg_def LivoxLidarCfg.defs)

lemma builds_any: "builds cfg \<Longrightarrow> build_cfg ty cfg \<noteq> Thrown"
  by (cases "ty = Mid360") (auto simp: builds_def build_cfg_def)

lemma sdk_ok_frame:
  "sdk_ok s \<Longrightarrow> is_view s' = is_view s \<Longrightarrow> framework_master s' = framework_master s \<Longrightarrow> custom_cfgs s' = custom_cfgs s \<Longrightarrow>
     type_cfgs_map s' = type_cfgs_map s \<Longrightarrow> general_cfgs s' = general_cfgs s \<Longrightarrow> handler_cfgs s' = handler_cfgs s \<Longrightarrow> sdk_ok s'"
  by (simp add: sdk_ok_def)

lemma ok_change: "sdk_ok s \<Longrightarrow> sdk_ok (LivoxLidarInfoChange h s)"
  by (erule sdk_ok_frame) (simp_all add: LivoxLidarInfoChange_def Let_def)

lemma ok_query: "sdk_ok s \<Longrightarrow> sdk_ok (QueryFwType h s)"
  by (erule sdk_ok_frame) (simp_all add: QueryFwType_def split: option.splits)

lemma ok_fw: "sdk_ok s \<Longrightarrow> sdk_ok (UpdateFwType h v s)"
  by (erule sdk_ok_frame) (simp_all add: UpdateFwType_def split: option.splits)

lemma ok_answer: "sdk_ok s \<Longrightarrow> sdk_ok (QueryFwTypeCallback a h s)"
proof -
  assume "sdk_ok s"
  then have "sdk_ok (s\<lparr>fw_count := c\<rparr>)" for c by (rule sdk_ok_frame) simp_all
  then show ?thesis by (auto simp: QueryFwTypeCallback_def split: option.splits intro: ok_fw ok_query)
qed

lemma ok_cfg: "sdk_ok s \<Longrightarrow> sdk_ok (UpdateLidarCallback ty a h s)"
proof -
  assume s: "sdk_ok s"
  then have "sdk_ok (s\<lparr>configured := c\<rparr>)" for c by (rule sdk_ok_frame) simp_all
  then show ?thesis using s by (auto simp: UpdateLidarCallback_def split: cfg_answer.splits intro: ok_change)
qed

lemma ok_create: "sdk_ok s \<Longrightarrow> ty \<noteq> PA \<Longrightarrow> \<exists>s'. CreateCommandHandler ty s = Some s' \<and> sdk_ok s'"
  by (auto simp: CreateCommandHandler_def sdk_ok_def handler_init_def split: option.splits)

lemma ok_update: "sdk_ok s \<Longrightarrow> \<exists>s'. UpdateLidarCfg ty h port s = Some s' \<and> sdk_ok s'"
proof -
  assume s: "sdk_ok s"
  then have r: "sdk_ok (s\<lparr>requests := rq\<rparr>)" for rq by (rule sdk_ok_frame) simp_all
  have "\<exists>s'. SetCustomLidar ty h port cfg s = Some s' \<and> sdk_ok s'" if "builds cfg" for cfg
    using builds_any [OF that] r s by (cases "build_cfg ty cfg") (auto simp: SetCustomLidar_def)
  moreover obtain m where "framework_master s = Some m" using s by (auto simp: sdk_ok_def)
  moreover have "handler_cfgs s ty h = Some cfg \<Longrightarrow> builds cfg" for cfg using s by (auto simp: sdk_ok_def)
  ultimately show ?thesis using s by (auto simp: UpdateLidarCfg_def split: option.splits)
qed

lemma ok_manager: "sdk_ok s \<Longrightarrow> sdk_ok (manager_detection h d g l s)"
proof -
  assume s: "sdk_ok s"
  then have "sdk_ok (s\<lparr>lidar_types := c\<rparr>)" for c by (rule sdk_ok_frame) simp_all
  then show ?thesis using s by (auto simp: manager_detection_def Let_def split: option.splits intro: ok_change)
qed

lemma ok_known: "sdk_ok s \<Longrightarrow> \<exists>s'. known_detection h d dev s = Some s' \<and> sdk_ok s'"
  using ok_update [of s "det_dev_type d" h "det_cmd_port d"] by (auto simp: known_detection_def intro: ok_manager)

lemma ok_new: "sdk_ok s \<Longrightarrow> \<exists>s'. new_detection h d s = Some s' \<and> sdk_ok s'"
proof -
  assume s: "sdk_ok s"
  then obtain m where m: "framework_master s = Some m" by (auto simp: sdk_ok_def)
  have "sdk_ok (s\<lparr>device_types := c, devices := dv\<rparr>)" for c dv using s by (rule sdk_ok_frame) simp_all
  then show ?thesis using m by (auto simp: new_detection_def GetFirmwareType_def Let_def intro!: ok_query)
qed

lemma ok_detection:
  assumes s: "sdk_ok s" and p: "cp_data p = [] \<or> (\<exists>d. read_detection (cp_data p) = Some d \<and> det_dev_type d \<noteq> PA)"
  shows "\<exists>s'. HandleDetectionData h p s = Some s' \<and> sdk_ok s'"
proof (cases "cp_data p = []")
  case False
  then obtain d where d: "read_detection (cp_data p) = Some d" "det_dev_type d \<noteq> PA" using p by auto
  obtain s1 where s1: "CreateCommandHandler (det_dev_type d) s = Some s1" "sdk_ok s1" using ok_create s d(2) by blast
  have v: "VerifyNetSegment d s = Some True" using s by (simp add: VerifyNetSegment_def sdk_ok_def)
  show ?thesis
  proof (cases "devices s1 h")
    case None then show ?thesis using False d s1 v s ok_new [OF s1(2), of h d] by (simp add: HandleDetectionData_def)
  next
    case (Some dev) then show ?thesis using False d s1 v s ok_known [OF s1(2), of h d dev] by (simp add: HandleDetectionData_def)
  qed
qed (use s in \<open>simp add: HandleDetectionData_def\<close>)

lemma AddDetectedLidar_Cons:
  "AddDetectedLidar ia (cfg # cfgs) m = AddDetectedLidar ia cfgs (add_if_new (ia (lidar_ipaddr cfg)) cfg m)"
  by (simp add: AddDetectedLidar_def)

lemma AddDetectedLidar_some: "AddDetectedLidar ia cfgs m h = Some cfg \<Longrightarrow> m h = Some cfg \<or> cfg \<in> set cfgs"
proof (induction cfgs arbitrary: m)
  case (Cons c cfgs)
  from Cons.IH [OF Cons.prems [unfolded AddDetectedLidar_Cons]] show ?case by (auto simp: add_if_new_def split: if_splits)
qed (simp add: AddDetectedLidar_def)

lemma AddDetectedLidar_keeps: "m h = Some cfg \<Longrightarrow> AddDetectedLidar ia cfgs m h = Some cfg"
proof (induction cfgs arbitrary: m)
  case (Cons c cfgs)
  have "add_if_new (ia (lidar_ipaddr c)) c m h = Some cfg" using Cons.prems by (auto simp: add_if_new_def)
  with Cons.IH [of "add_if_new (ia (lidar_ipaddr c)) c m"] show ?case by (simp add: AddDetectedLidar_Cons)
qed (simp add: AddDetectedLidar_def)

lemma ok_adopt:
  assumes s: "sdk_ok s" and p: "harmless (Datagram h port (Some p))"
  shows "\<exists>s'. adopt ia na h p s = Some s' \<and> sdk_ok s'"
proof -
  have "\<exists>s'. CreateCommandHandler ty (s\<lparr>type_cfgs_map := (type_cfgs_map s)(ty \<mapsto> c), lidar_cfgs := l, custom_cfgs := custom_cfgs s @ [c],
      general_cfgs := AddDetectedLidar ia (custom_cfgs s @ [c]) (general_cfgs s)\<rparr>) = Some s' \<and> sdk_ok s'"
    if "builds c" "ty \<noteq> PA" for ty c l
    using s that by (intro ok_create) (auto simp: sdk_ok_def dest!: AddDetectedLidar_some split: if_splits)
  moreover have "type_cfgs_map s ty = Some cfg \<Longrightarrow> builds (cfg\<lparr>lidar_ipaddr := a\<rparr>)" for ty cfg a using s by (auto simp: sdk_ok_def)
  ultimately show ?thesis using s p by (auto simp: adopt_def Let_def split: option.splits)
qed

lemma ok_data:
  assumes s: "sdk_ok s" and e: "harmless (Datagram h port p)"
  shows "\<exists>s'. OnData ia na h port p s = Some s' \<and> sdk_ok s'"
proof (cases p)
  case None
  then show ?thesis using s by (auto simp: OnData_def handle_search_def split: option.splits route.splits)
next
  case (Some q)
  have "\<exists>s'. handle_search h port p s = Some s' \<and> sdk_ok s'"
    using Some s e by (auto simp: handle_search_def intro!: ok_detection)
  then show ?thesis using Some s ok_adopt [OF s e [unfolded Some], of ia na]
    by (auto simp: OnData_def split: option.splits route.splits)
qed

lemma ok_step: "sdk_ok s \<Longrightarrow> harmless e \<Longrightarrow> \<exists>s'. device_step ia na e s = Some s' \<and> sdk_ok s'"
  by (cases e) (simp_all add: ok_data ok_answer ok_cfg)

lemma ok_run: "sdk_ok s \<Longrightarrow> \<forall>e \<in> set es. harmless e \<Longrightarrow> \<exists>s'. device_run ia na es s = Some s' \<and> sdk_ok s'"
proof (induction es arbitrary: s)
  case (Cons e es)
  then obtain s1 where "device_step ia na e s = Some s1" "sdk_ok s1" using ok_step [of s e ia na] by auto
  then show ?case using Cons.IH [of s1] Cons.prems(2) by (auto simp: device_run_def device_next_def)
qed (simp add: device_run_def)

text \<open>The configuration of a start.\<close>

lemma GetLidarConfigMap_types: "fst (GetLidarConfigMap ia c) ty = Some cfg \<Longrightarrow> cfg \<in> set (lidars_cfg c)"
proof -
  have "fold (\<lambda>cfg m. m(device_type cfg \<mapsto> cfg)) l m ty = Some cfg \<Longrightarrow> m ty = Some cfg \<or> cfg \<in> set l" for l m
  proof (induction l arbitrary: m)
    case (Cons x l)
    from Cons.IH [of "m(device_type x \<mapsto> x)"] Cons.prems have "(m(device_type x \<mapsto> x)) ty = Some cfg \<or> cfg \<in> set l"
      unfolding fold_simps by blast
    then show ?case by (auto split: if_splits)
  qed simp
  then show "fst (GetLidarConfigMap ia c) ty = Some cfg \<Longrightarrow> cfg \<in> set (lidars_cfg c)" by (force simp: GetLidarConfigMap_def)
qed

lemma init_ok: "\<forall>cfg \<in> set (lidars_cfg c @ custom_lidars_cfg c). builds cfg \<Longrightarrow> sdk_ok (sdk_init ia c)"
  using GetLidarConfigMap_types [of ia c]
  by (auto simp: sdk_ok_def sdk_init_def empty_state_def split: prod.splits dest!: AddDetectedLidar_some)


section \<open>A lidar comes up\<close>

fun event_handle :: "device_event \<Rightarrow> 32 word" where
  "event_handle (Datagram h port p) = h"
| "event_handle (Fw_Answer h a) = h"
| "event_handle (Cfg_Answer ty h a) = h"

text \<open>What the steps of other lidars leave alone.\<close>

definition keeps :: "32 word \<Rightarrow> sdk_state \<Rightarrow> sdk_state \<Rightarrow> bool" where
  "keeps h s s' \<longleftrightarrow>
     devices s' h = devices s h \<and> device_types s' h = device_types s h \<and> (\<forall>ty. h \<in> configured s' ty \<longleftrightarrow> h \<in> configured s ty) \<and>
     set (requests s) \<subseteq> set (requests s') \<and> set (announced s) \<subseteq> set (announced s') \<and> lidar_cfgs s' h = lidar_cfgs s h \<and>
     framework_master s' = framework_master s \<and> detection_host_ip s' = detection_host_ip s \<and>
     (\<forall>cfg. general_cfgs s h = Some cfg \<longrightarrow> general_cfgs s' h = Some cfg \<and>
        (\<forall>ty. handler_cfgs s ty h \<in> {None, Some cfg} \<longrightarrow> handler_cfgs s' ty h \<in> {None, Some cfg}))"

lemma keeps_refl [simp]: "keeps h s s"
  by (simp add: keeps_def)

lemma keeps_trans: "keeps h s s' \<Longrightarrow> keeps h s' s'' \<Longrightarrow> keeps h s s''"
  unfolding keeps_def by (metis (no_types, lifting) subset_trans)

lemma keeps_change: "h' \<noteq> h \<Longrightarrow> keeps h s (LivoxLidarInfoChange h' s)"
  by (auto simp: keeps_def LivoxLidarInfoChange_def Let_def)

lemma keeps_query: "keeps h s (QueryFwType h' s)"
  by (auto simp: keeps_def QueryFwType_def split: option.splits)

lemma keeps_fw: "h' \<noteq> h \<Longrightarrow> keeps h s (UpdateFwType h' v s)"
  by (auto simp: keeps_def UpdateFwType_def split: option.splits)

lemma keeps_answer: "h' \<noteq> h \<Longrightarrow> keeps h s (QueryFwTypeCallback a h' s)"
proof -
  assume h: "h' \<noteq> h"
  have "keeps h s (s\<lparr>fw_count := c\<rparr>)" for c by (simp add: keeps_def)
  then show ?thesis using h
    by (auto simp: QueryFwTypeCallback_def split: option.splits intro: keeps_trans keeps_fw keeps_query)
qed

lemma keeps_cfg: "h' \<noteq> h \<Longrightarrow> keeps h s (UpdateLidarCallback ty a h' s)"
proof -
  assume h: "h' \<noteq> h"
  have "keeps h s (s\<lparr>configured := (configured s)(ty := insert h' (configured s ty))\<rparr>)" using h by (auto simp: keeps_def)
  then show ?thesis using h by (auto simp: UpdateLidarCallback_def split: cfg_answer.splits intro: keeps_trans keeps_change)
qed

lemma keeps_create: "CreateCommandHandler ty s = Some s' \<Longrightarrow> keeps h s s'"
  by (auto simp: keeps_def CreateCommandHandler_def handler_init_def split: if_splits option.splits)

lemma keeps_update: "UpdateLidarCfg ty h' port s = Some s' \<Longrightarrow> keeps h s s'"
  by (auto simp: keeps_def UpdateLidarCfg_def SetCustomLidar_def split: if_splits option.splits outcome.splits)

lemma keeps_manager: "h' \<noteq> h \<or> \<not> (g \<and> l) \<Longrightarrow> keeps h s (manager_detection h' d g l s)"
proof -
  assume h: "h' \<noteq> h \<or> \<not> (g \<and> l)"
  have "keeps h s (s\<lparr>lidar_types := c\<rparr>)" for c by (simp add: keeps_def)
  then show ?thesis using h by (auto simp: manager_detection_def Let_def split: option.splits intro: keeps_trans keeps_change)
qed

lemma keeps_known: "h' \<noteq> h \<or> \<not> (is_get_loader_mode dev \<and> is_loader_mode dev) \<Longrightarrow> known_detection h' d dev s = Some s' \<Longrightarrow> keeps h s s'"
  by (auto simp: known_detection_def split: if_splits intro: keeps_manager keeps_trans [OF keeps_update])

lemma keeps_new: "h' \<noteq> h \<Longrightarrow> new_detection h' d s = Some s' \<Longrightarrow> keeps h s s'"
proof -
  assume h: "h' \<noteq> h" and s': "new_detection h' d s = Some s'"
  have "keeps h s (s\<lparr>device_types := add_if_new h' ty (device_types s), devices := (devices s)(h' \<mapsto> dv)\<rparr>)" for ty dv
    using h by (auto simp: keeps_def add_if_new_def)
  then show ?thesis using s'
    by (auto simp: new_detection_def GetFirmwareType_def Let_def split: option.splits if_splits intro: keeps_trans [OF _ keeps_query])
qed

lemma keeps_detection:
  assumes h: "h' \<noteq> h \<or> (\<exists>dev. devices s h = Some dev \<and> \<not> (is_get_loader_mode dev \<and> is_loader_mode dev))"
    and s': "HandleDetectionData h' p s = Some s'"
  shows "keeps h s s'"
  using s'
proof (cases rule: HandleDetectionData_cases)
  case (2 d s1)
  then have "h' \<noteq> h" using h create_devices [OF 2(1)] by auto
  then show ?thesis using keeps_trans [OF keeps_create [OF 2(1)] keeps_new] 2(3) by blast
next
  case (3 d s1 dev)
  then have "h' \<noteq> h \<or> \<not> (is_get_loader_mode dev \<and> is_loader_mode dev)" using h create_devices [OF 3(1)] by auto
  then show ?thesis using keeps_trans [OF keeps_create [OF 3(1)] keeps_known] 3(3) by blast
qed simp

lemma keeps_adopt: "h' \<noteq> h \<Longrightarrow> adopt ia na h' p s = Some s' \<Longrightarrow> keeps h s s'"
proof -
  assume h: "h' \<noteq> h" and s': "adopt ia na h' p s = Some s'"
  have "keeps h s (s\<lparr>type_cfgs_map := a, lidar_cfgs := (lidar_cfgs s)(h' \<mapsto> b), custom_cfgs := c, general_cfgs := AddDetectedLidar ia c (general_cfgs s)\<rparr>)" for a b c
    using h by (auto simp: keeps_def AddDetectedLidar_keeps)
  then show ?thesis using s'
    by (auto simp: adopt_def Let_def split: option.splits if_splits intro: keeps_trans [OF _ keeps_create])
qed

lemma keeps_step: "event_handle e \<noteq> h \<Longrightarrow> device_step ia na e s = Some s' \<Longrightarrow> keeps h s s'"
  by (cases e) (auto simp: OnData_def handle_search_def split: option.splits if_splits route.splits
      intro: keeps_answer keeps_cfg keeps_adopt keeps_detection)

text \<open>An SDK that is the master and has the configuration of a lidar.\<close>

definition configured_for :: "(32 word \<Rightarrow> string) \<Rightarrow> 32 word \<Rightarrow> lidar_cfg \<Rightarrow> sdk_state \<Rightarrow> bool" where
  "configured_for na h cfg s \<longleftrightarrow>
     framework_master s = Some True \<and> na h \<noteq> detection_host_ip s \<and> lidar_cfgs s h = Some cfg \<and> general_cfgs s h = Some cfg \<and>
     (\<forall>ty. handler_cfgs s ty h \<in> {None, Some cfg})"

lemma configured_for_keeps: "configured_for na h cfg s \<Longrightarrow> keeps h s s' \<Longrightarrow> configured_for na h cfg s'"
  unfolding configured_for_def keeps_def by (metis (no_types, lifting))

text \<open>The stages that a lidar goes through: seen, its firmware known, its configuration sent, announced.\<close>

definition seen :: "32 word \<Rightarrow> dev_type \<Rightarrow> sdk_state \<Rightarrow> bool" where
  "seen h ty s \<longleftrightarrow> (\<exists>d. devices s h = Some d \<and> \<not> is_get_loader_mode d \<and> \<not> is_update_cfg d) \<and> Query_FwType h \<in> set (requests s) \<and> h \<notin> configured s ty"

definition firmware_known :: "32 word \<Rightarrow> dev_type \<Rightarrow> sdk_state \<Rightarrow> bool" where
  "firmware_known h ty s \<longleftrightarrow>
     (\<exists>d. devices s h = Some d \<and> is_get_loader_mode d \<and> \<not> is_loader_mode d \<and> \<not> is_update_cfg d) \<and>
     Query_FwType h \<in> set (requests s) \<and> h \<notin> configured s ty"

definition up :: "32 word \<Rightarrow> dev_type \<Rightarrow> device_request \<Rightarrow> sdk_state \<Rightarrow> bool" where
  "up h ty r s \<longleftrightarrow>
     (\<exists>d. devices s h = Some d \<and> \<not> is_loader_mode d) \<and> Query_FwType h \<in> set (requests s) \<and> r \<in> set (requests s) \<and>
     h \<in> set (announced s) \<and> h \<in> configured s ty"

lemma stages_keep:
  "keeps h s s' \<Longrightarrow> seen h ty s \<Longrightarrow> seen h ty s'"
  "keeps h s s' \<Longrightarrow> firmware_known h ty s \<Longrightarrow> firmware_known h ty s'"
  "keeps h s s' \<Longrightarrow> r \<in> set (requests s) \<Longrightarrow> r \<in> set (requests s')"
  "keeps h s s' \<Longrightarrow> up h ty r s \<Longrightarrow> up h ty r s'"
  unfolding keeps_def seen_def firmware_known_def up_def by auto

text \<open>The answer of a lidar to a search.\<close>

definition search_answer :: "dev_type \<Rightarrow> 16 word \<Rightarrow> CommPacket \<Rightarrow> bool" where
  "search_answer ty port p \<longleftrightarrow>
     cp_cmd_id p = kCommandIDLidarSearch \<and> cp_cmd_type p \<noteq> kCommandTypeCmd \<and>
     (\<exists>d. read_detection (cp_data p) = Some d \<and> det_ret_code d = 0 \<and> det_dev_type d = ty \<and> det_cmd_port d = port)"

definition reaches :: "lidar_cfg \<Rightarrow> bool" where
  "reaches cfg \<longleftrightarrow> has_handler (device_type cfg) \<and> net_imu_data_port cfg \<noteq> kDetectionPort \<and> net_point_data_port cfg \<noteq> kDetectionPort"

lemma search_answer_step:
  assumes s: "sdk_ok s" "configured_for na h cfg s" "reaches cfg" and p: "search_answer (device_type cfg) port p"
  shows "\<exists>d. det_dev_type d = device_type cfg \<and> det_cmd_port d = port \<and>
     device_step ia na (Datagram h kDetectionPort (Some p)) s =
       (let s1 = handler_init (device_type cfg) s in
        case devices s1 h of Some dev \<Rightarrow> known_detection h d dev s1 | None \<Rightarrow> new_detection h d s1)"
proof -
  obtain d where d: "read_detection (cp_data p) = Some d" "det_ret_code d = 0" "det_dev_type d = device_type cfg" "det_cmd_port d = port"
    and p': "cp_cmd_id p = kCommandIDLidarSearch" "cp_cmd_type p \<noteq> kCommandTypeCmd" using p by (auto simp: search_answer_def)
  have "cp_data p \<noteq> []" using d(1) by (auto simp: read_detection_def detection_size_def)
  moreover have "route_of cfg kDetectionPort = To_Command (device_type cfg)" using s(3) by (auto simp: route_of_def reaches_def)
  ultimately have "device_step ia na (Datagram h kDetectionPort (Some p)) s =
      Option.bind (CreateCommandHandler (device_type cfg) s) (\<lambda>s1.
        case devices s1 h of Some dev \<Rightarrow> known_detection h d dev s1 | None \<Rightarrow> new_detection h d s1)"
    using s d p' by (simp add: OnData_def configured_for_def handle_search_def HandleDetectionData_def VerifyNetSegment_def sdk_ok_def)
  moreover have "CreateCommandHandler (device_type cfg) s = Some (handler_init (device_type cfg) s)"
    using s by (simp add: CreateCommandHandler_def sdk_ok_def reaches_def)
  ultimately show ?thesis using d by (auto simp: Let_def)
qed

lemma handler_init_proj:
  "devices (handler_init ty s) = devices s" "device_types (handler_init ty s) = device_types s" "requests (handler_init ty s) = requests s"
  "configured (handler_init ty s) = configured s" "framework_master (handler_init ty s) = framework_master s"
  by (simp_all add: handler_init_def)

lemma handler_init_for:
  "configured_for na h cfg s \<Longrightarrow> configured_for na h cfg (handler_init ty s)"
  "configured_for na h cfg s \<Longrightarrow> handler_cfgs (handler_init (device_type cfg) s) (device_type cfg) h = Some cfg"
  by (auto simp: configured_for_def handler_init_def split: option.splits) (metis option.distinct(1) option.inject)+

lemma becomes_seen:
  assumes s: "sdk_ok s" "configured_for na h cfg s" "reaches cfg" and p: "search_answer (device_type cfg) port p"
    and s': "device_step ia na (Datagram h kDetectionPort (Some p)) s = Some s'"
    and new: "devices s h = None" "device_types s h = None" "h \<notin> configured s (device_type cfg)"
  shows "seen h (device_type cfg) s' \<and> configured_for na h cfg s'"
proof -
  obtain d where "det_dev_type d = device_type cfg" "new_detection h d (handler_init (device_type cfg) s) = Some s'"
    using search_answer_step [OF s p, of ia] s' new(1) by (auto simp: handler_init_proj Let_def)
  then show ?thesis using handler_init_for(1) [OF s(2), of "device_type cfg"] s(3) new
    by (auto simp: new_detection_def GetFirmwareType_def QueryFwType_def add_if_new_def handler_init_proj Let_def empty_device_def
        seen_def configured_for_def reaches_def)
qed

lemma becomes_known:
  assumes s: "seen h ty s" and a: "fw_good a = Some v" "v \<noteq> 0"
  shows "firmware_known h ty (QueryFwTypeCallback a h s)"
  using s a by (auto simp: seen_def firmware_known_def QueryFwTypeCallback_def UpdateFwType_def)

lemma fw_configured_for: "configured_for na h cfg s \<Longrightarrow> configured_for na h cfg (QueryFwTypeCallback a h s)"
  by (auto simp: configured_for_def QueryFwTypeCallback_def UpdateFwType_def QueryFwType_def split: option.splits)

lemma becomes_sent:
  assumes s: "sdk_ok s" "configured_for na h cfg s" "reaches cfg" and p: "search_answer (device_type cfg) port p"
    and s': "device_step ia na (Datagram h kDetectionPort (Some p)) s = Some s'"
    and k: "firmware_known h (device_type cfg) s" and b: "build_cfg (device_type cfg) cfg = Ok body"
  shows "Update_Cfg (device_type cfg) h port body \<in> set (requests s')"
proof -
  let ?s1 = "handler_init (device_type cfg) s"
  obtain dev where dev: "devices s h = Some dev" "is_get_loader_mode dev" "\<not> is_loader_mode dev" "\<not> is_update_cfg dev"
    using k by (auto simp: firmware_known_def)
  obtain d where d: "det_dev_type d = device_type cfg" "det_cmd_port d = port" "known_detection h d dev ?s1 = Some s'"
    using search_answer_step [OF s p, of ia] s' dev(1) by (auto simp: handler_init_proj Let_def)
  have u: "UpdateLidarCfg (device_type cfg) h port ?s1 = Some (?s1\<lparr>requests := requests ?s1 @ [Update_Cfg (device_type cfg) h port body]\<rparr>)"
    using handler_init_for [OF s(2)] s(3) k b
    by (simp add: UpdateLidarCfg_def SetCustomLidar_def handler_init_proj configured_for_def reaches_def firmware_known_def)
  show ?thesis using d dev u keeps_manager [of h h "is_get_loader_mode dev" "is_loader_mode dev"
      "?s1\<lparr>requests := requests ?s1 @ [Update_Cfg (device_type cfg) h port body]\<rparr>" d]
    by (auto simp: known_detection_def keeps_def)
qed

lemma change_announces: "announced_ok s \<Longrightarrow> h \<in> set (announced (LivoxLidarInfoChange h s))"
  by (auto simp: LivoxLidarInfoChange_def Let_def announced_ok_def empty_device_def split: option.splits)

lemma becomes_up:
  assumes "announced_ok s" "firmware_known h ty s" "r \<in> set (requests s)"
  shows "up h ty r (UpdateLidarCallback ty (Cfg_Response 0 0) h s)"
proof -
  let ?s1 = "s\<lparr>configured := (configured s)(ty := insert h (configured s ty))\<rparr>"
  have "announced_ok ?s1" by (rule announced_ok_frame [OF assms(1)]) simp_all
  from change_announces [OF this, of h] show ?thesis using assms(2,3)
    by (auto simp: UpdateLidarCallback_def up_def firmware_known_def LivoxLidarInfoChange_def Let_def)
qed

lemma cfg_configured_for: "configured_for na h cfg s \<Longrightarrow> configured_for na h cfg (UpdateLidarCallback ty a h s)"
  by (auto simp: configured_for_def UpdateLidarCallback_def LivoxLidarInfoChange_def Let_def split: cfg_answer.splits)

text \<open>The steps of other lidars, and further answers of this one to a search.\<close>

definition quiet :: "32 word \<Rightarrow> CommPacket \<Rightarrow> device_event \<Rightarrow> bool" where
  "quiet h p e \<longleftrightarrow> harmless e \<and> (event_handle e \<noteq> h \<or> e = Datagram h kDetectionPort (Some p))"

definition ready :: "(32 word \<Rightarrow> string) \<Rightarrow> 32 word \<Rightarrow> lidar_cfg \<Rightarrow> sdk_state \<Rightarrow> bool" where
  "ready na h cfg s \<longleftrightarrow> sdk_ok s \<and> announced_ok s \<and> configured_for na h cfg s"

lemma device_run_append:
  "device_run ia na es s = Some s1 \<Longrightarrow> device_run ia na (es @ es') s = device_run ia na es' s1"
  by (simp add: device_run_def)

lemma device_run_Cons: "device_step ia na e s = Some s1 \<Longrightarrow> device_run ia na (e # es) s = device_run ia na es s1"
  by (simp add: device_run_def device_next_def)

lemma step_ready: "ready na h cfg s \<Longrightarrow> harmless e \<Longrightarrow> \<exists>s'. device_step ia na e s = Some s' \<and> sdk_ok s' \<and> announced_ok s'"
  using ok_step [of s e ia na] announced_ok_step [of s ia na e] by (auto simp: ready_def)

lemma run_others:
  "ready na h cfg s \<Longrightarrow> \<forall>e \<in> set es. harmless e \<and> event_handle e \<noteq> h \<Longrightarrow> \<exists>s'. device_run ia na es s = Some s' \<and> ready na h cfg s' \<and> keeps h s s'"
proof (induction es arbitrary: s)
  case (Cons e es)
  have "harmless e" using Cons.prems(2) by simp
  then obtain s1 where s1: "device_step ia na e s = Some s1" "sdk_ok s1" "announced_ok s1" using step_ready [OF Cons.prems(1)] by blast
  have k: "keeps h s s1" using keeps_step [OF _ s1(1)] Cons.prems(2) by simp
  then have "ready na h cfg s1" using s1 Cons.prems(1) by (auto simp: ready_def elim: configured_for_keeps)
  with Cons obtain s2 where "device_run ia na es s1 = Some s2" "ready na h cfg s2" "keeps h s1 s2" by fastforce
  then show ?case using k s1(1) by (auto simp: device_run_Cons elim: keeps_trans)
qed (simp add: device_run_def)

lemma run_quiet:
  "ready na h cfg s \<Longrightarrow> devices s h = Some d \<Longrightarrow> \<not> (is_get_loader_mode d \<and> is_loader_mode d) \<Longrightarrow> reaches cfg \<Longrightarrow>
     search_answer (device_type cfg) port p \<Longrightarrow> \<forall>e \<in> set es. quiet h p e \<Longrightarrow>
     \<exists>s'. device_run ia na es s = Some s' \<and> ready na h cfg s' \<and> keeps h s s'"
proof (induction es arbitrary: s)
  case (Cons e es)
  have "harmless e" using Cons.prems(6) by (simp add: quiet_def)
  then obtain s1 where s1: "device_step ia na e s = Some s1" "sdk_ok s1" "announced_ok s1" using step_ready [OF Cons.prems(1)] by blast
  have "keeps h s s1"
  proof (cases "event_handle e = h")
    case True
    then have e: "e = Datagram h kDetectionPort (Some p)" using Cons.prems(6) by (simp add: quiet_def)
    obtain d' where "known_detection h d' d (handler_init (device_type cfg) s) = Some s1"
      using search_answer_step [OF _ _ Cons.prems(4,5), of s na h ia] s1(1) Cons.prems(1,2) by (auto simp: e handler_init_proj ready_def Let_def)
    moreover have "keeps h s (handler_init (device_type cfg) s)"
      using Cons.prems(1,4) keeps_create [of "device_type cfg" s] by (simp add: CreateCommandHandler_def ready_def sdk_ok_def reaches_def)
    ultimately show ?thesis using keeps_known Cons.prems(3) keeps_trans by blast
  qed (use keeps_step s1(1) in blast)
  then have k: "keeps h s s1" "ready na h cfg s1" using s1 Cons.prems(1) by (auto simp: ready_def elim: configured_for_keeps)
  moreover have "devices s1 h = Some d" using k(1) Cons.prems(2) by (simp add: keeps_def)
  ultimately obtain s2 where "device_run ia na es s1 = Some s2" "ready na h cfg s2" "keeps h s1 s2"
    using Cons.IH [of s1] Cons.prems(3-6) by auto
  then show ?case using k(1) s1(1) by (auto simp: device_run_Cons elim: keeps_trans)
qed (simp add: device_run_def)

text \<open>The whole way up.\<close>

lemma comes_up:
  assumes s0: "ready na h cfg s0" "reaches cfg" and new: "devices s0 h = None" "device_types s0 h = None" "h \<notin> configured s0 (device_type cfg)"
    and p: "search_answer (device_type cfg) port p" "device_type cfg \<noteq> PA" and a: "fw_good a = Some v" "v \<noteq> 0"
    and b: "build_cfg (device_type cfg) cfg = Ok body"
    and o1: "\<forall>e \<in> set o1. harmless e \<and> event_handle e \<noteq> h" and qs: "\<forall>e \<in> set (o2 @ o3 @ o4 @ o5). quiet h p e"
  shows "\<exists>s. device_run ia na (o1 @ Datagram h kDetectionPort (Some p) # o2 @ Fw_Answer h a # o3 @ Datagram h kDetectionPort (Some p) # o4 @
      Cfg_Answer (device_type cfg) h (Cfg_Response 0 0) # o5) s0 = Some s \<and> up h (device_type cfg) (Update_Cfg (device_type cfg) h port body) s"
proof -
  let ?ty = "device_type cfg" and ?e = "Datagram h kDetectionPort (Some p)" and ?r = "Update_Cfg (device_type cfg) h port body"
  have he: "harmless ?e" using p by (auto simp: search_answer_def)
  obtain s1 where s1: "device_run ia na o1 s0 = Some s1" "ready na h cfg s1" "keeps h s0 s1" using run_others [OF s0(1) o1] by blast
  have n1: "devices s1 h = None" "device_types s1 h = None" "h \<notin> configured s1 ?ty" using s1(3) new by (auto simp: keeps_def)
  obtain s2 where s2: "device_step ia na ?e s1 = Some s2" "sdk_ok s2" "announced_ok s2" using step_ready [OF s1(2) he] by blast
  have r2: "seen h ?ty s2" "ready na h cfg s2"
    using becomes_seen [OF _ _ s0(2) p(1) s2(1) n1] s1(2) s2 by (auto simp: ready_def)
  obtain s3 where s3: "device_run ia na o2 s2 = Some s3" "ready na h cfg s3" "keeps h s2 s3"
    using run_quiet [OF r2(2) _ _ s0(2) p(1), of _ o2 ia] r2(1) qs by (auto simp: seen_def)
  define s4 where "s4 = QueryFwTypeCallback a h s3"
  have r4: "firmware_known h ?ty s4" "ready na h cfg s4"
    using becomes_known [OF stages_keep(1) [OF s3(3) r2(1)] a] s3(2) ok_answer fw_configured_for announced_ok_step [of s3 ia na "Fw_Answer h a" s4]
    by (auto simp: s4_def ready_def)
  obtain s5 where s5: "device_run ia na o3 s4 = Some s5" "ready na h cfg s5" "keeps h s4 s5"
    using run_quiet [OF r4(2) _ _ s0(2) p(1), of _ o3 ia] r4(1) qs by (auto simp: firmware_known_def)
  note k5 = stages_keep(2) [OF s5(3) r4(1)]
  obtain s6 where s6: "device_run ia na [?e] s5 = Some s6" "ready na h cfg s6" "keeps h s5 s6"
    using run_quiet [OF s5(2) _ _ s0(2) p(1), of _ "[?e]" ia] k5 he by (auto simp: firmware_known_def quiet_def)
  then have s6': "device_step ia na ?e s5 = Some s6" by (simp add: device_run_def device_next_def)
  have r6: "?r \<in> set (requests s6)" using becomes_sent [OF _ _ s0(2) p(1) s6' k5 b] s5(2) by (simp add: ready_def)
  obtain s7 where s7: "device_run ia na o4 s6 = Some s7" "ready na h cfg s7" "keeps h s6 s7"
    using run_quiet [OF s6(2) _ _ s0(2) p(1), of _ o4 ia] stages_keep(2) [OF s6(3) k5] qs by (auto simp: firmware_known_def)
  define s8 where "s8 = UpdateLidarCallback ?ty (Cfg_Response 0 0) h s7"
  have k7: "firmware_known h ?ty s7" using stages_keep(2) [OF s7(3) stages_keep(2) [OF s6(3) k5]] .
  have r8: "up h ?ty ?r s8" "ready na h cfg s8"
    using becomes_up [OF _ k7 stages_keep(3) [OF s7(3) r6]] s7(2) ok_cfg cfg_configured_for announced_ok_step [of s7 ia na "Cfg_Answer ?ty h (Cfg_Response 0 0)" s8]
    by (auto simp: s8_def ready_def)
  obtain s9 where s9: "device_run ia na o5 s8 = Some s9" "keeps h s8 s9"
    using run_quiet [OF r8(2) _ _ s0(2) p(1), of _ o5 ia] r8(1) qs by (auto simp: up_def)
  have "device_run ia na (Fw_Answer h a # x) s3 = device_run ia na x s4" "device_run ia na (Cfg_Answer ?ty h (Cfg_Response 0 0) # x) s7 = device_run ia na x s8" for x
    by (rule device_run_Cons, simp add: s4_def s8_def)+
  then show ?thesis using s1(1) s3(1) s5(1) s7(1) s9 stages_keep(4) [OF s9(2) r8(1)]
    by (simp add: device_run_append device_run_Cons [OF s2(1)] device_run_Cons [OF s6'])
qed

lemma last_wins:
  "f cfg \<notin> f ` set cfgs \<or> distinct (map f cfgs) \<and> cfg \<in> set cfgs \<Longrightarrow> cfg \<in> set cfgs \<or> m (f cfg) = Some cfg \<Longrightarrow>
     fold (\<lambda>c m. m(f c \<mapsto> c)) cfgs m (f cfg) = Some cfg"
proof (induction cfgs arbitrary: m)
  case (Cons c cfgs)
  have "fold (\<lambda>c m. m(f c \<mapsto> c)) cfgs (m(f c \<mapsto> c)) (f cfg) = Some cfg" using Cons.prems by (intro Cons.IH) auto
  then show ?case unfolding fold_simps .
qed simp

lemma first_stays:
  "distinct (map (\<lambda>c. ia (lidar_ipaddr c)) cfgs) \<Longrightarrow> cfg \<in> set cfgs \<Longrightarrow> m (ia (lidar_ipaddr cfg)) = None \<Longrightarrow>
     AddDetectedLidar ia cfgs m (ia (lidar_ipaddr cfg)) = Some cfg"
proof (induction cfgs arbitrary: m)
  case (Cons c cfgs)
  show ?case
  proof (cases "c = cfg")
    case True
    then have "add_if_new (ia (lidar_ipaddr c)) c m (ia (lidar_ipaddr cfg)) = Some cfg" using Cons.prems(3) by (simp add: add_if_new_def)
    then show ?thesis unfolding AddDetectedLidar_Cons by (rule AddDetectedLidar_keeps)
  next
    case False
    then have "cfg \<in> set cfgs" "ia (lidar_ipaddr c) \<noteq> ia (lidar_ipaddr cfg)" using Cons.prems by force+
    moreover have "add_if_new (ia (lidar_ipaddr c)) c m (ia (lidar_ipaddr cfg)) = None"
      using Cons.prems(3) calculation(2) by (simp add: add_if_new_def)
    ultimately show ?thesis using Cons.IH [of "add_if_new (ia (lidar_ipaddr c)) c m"] Cons.prems(1) unfolding AddDetectedLidar_Cons by simp
  qed
qed simp

lemma accepted_addresses: "Check c0 = Ok c \<Longrightarrow> distinct (map lidar_ipaddr (custom_lidars_cfg c))"
proof -
  assume "Check c0 = Ok c"
  then have c: "c = c0\<lparr>lidars_cfg := map CheckPort (lidars_cfg c0), custom_lidars_cfg := map CheckPort (custom_lidars_cfg c0)\<rparr>"
    and ips: "CheckLidarIp (lidars_cfg c0) (custom_lidars_cfg c0)"
    by (auto simp: Check_def Let_def CheckLidarMulticastIp_def split: if_splits)
  have "map lidar_ipaddr (custom_lidars_cfg c) = map lidar_ipaddr (custom_lidars_cfg c0)" by (simp add: c CheckPort_def)
  moreover have "filter (\<lambda>ip. ip \<noteq> []) (map lidar_ipaddr (custom_lidars_cfg c0)) = map lidar_ipaddr (custom_lidars_cfg c0)"
    using CheckLidarIp_spec [OF ips] by (metis (mono_tags, lifting) filter_True)
  ultimately show ?thesis using CheckLidarIp_spec [OF ips] by simp
qed

lemma init_ready:
  assumes c: "Check c0 = Ok c" "master_sdk c" "inj_on ia (lidar_ipaddr ` set (custom_lidars_cfg c))"
    and cfg: "cfg \<in> set (custom_lidars_cfg c)" "h = ia (lidar_ipaddr cfg)"
    and b: "\<forall>cfg \<in> set (lidars_cfg c @ custom_lidars_cfg c). builds cfg" and n: "na h \<noteq> host_of (lidars_cfg c) (custom_lidars_cfg c)"
  shows "ready na h cfg (sdk_init ia c)"
proof -
  have "distinct (map ia (map lidar_ipaddr (custom_lidars_cfg c)))"
    using accepted_addresses [OF c(1)] c(3) by (subst distinct_map) simp
  then have d: "distinct (map (\<lambda>c. ia (lidar_ipaddr c)) (custom_lidars_cfg c))" by (simp add: comp_def)
  have "lidar_cfgs (sdk_init ia c) h = Some cfg" "general_cfgs (sdk_init ia c) h = Some cfg"
    using last_wins [of "\<lambda>c. ia (lidar_ipaddr c)" cfg "custom_lidars_cfg c" Map.empty] first_stays [OF d cfg(1), of Map.empty] d cfg
    by (simp_all add: sdk_init_def GetLidarConfigMap_def empty_state_def split: prod.splits)
  moreover have "detection_host_ip (sdk_init ia c) = host_of (lidars_cfg c) (custom_lidars_cfg c)"
    by (simp add: sdk_init_def split: prod.splits)
  ultimately show ?thesis using init_ok [OF b] c(2) n by (simp add: ready_def configured_for_def init_empty announced_ok_def)
qed

text \<open>
  C27. A configured lidar comes up, whatever the other lidars do: with an accepted configuration for
  the address of the lidar and a master SDK, if the lidar answers a search, then tells that it runs
  its application, answers a search again and accepts its configuration, then the SDK has asked for
  its firmware, has sent it its configuration, and has announced it.  Between these steps any
  harmless steps of other lidars and any repetitions of the answer to the search may happen.
\<close>

theorem lidar_comes_up:
  assumes "Check c0 = Ok c" "master_sdk c" "inj_on ia (lidar_ipaddr ` set (custom_lidars_cfg c))"
    and "cfg \<in> set (custom_lidars_cfg c)" "h = ia (lidar_ipaddr cfg)" "na h \<noteq> host_of (lidars_cfg c) (custom_lidars_cfg c)"
    and "\<forall>cfg \<in> set (lidars_cfg c @ custom_lidars_cfg c). builds cfg" "reaches cfg" "build_cfg (device_type cfg) cfg = Ok body"
    and "search_answer (device_type cfg) port p" "fw_good a = Some v" "v \<noteq> 0"
    and "\<forall>e \<in> set o1. harmless e \<and> event_handle e \<noteq> h" "\<forall>e \<in> set (o2 @ o3 @ o4 @ o5). quiet h p e"
  shows "\<exists>s. device_run ia na (o1 @ Datagram h kDetectionPort (Some p) # o2 @ Fw_Answer h a # o3 @ Datagram h kDetectionPort (Some p) # o4 @
           Cfg_Answer (device_type cfg) h (Cfg_Response 0 0) # o5) (sdk_init ia c) = Some s \<and>
     Query_FwType h \<in> set (requests s) \<and> Update_Cfg (device_type cfg) h port body \<in> set (requests s) \<and>
     h \<in> set (announced s) \<and> h \<in> configured s (device_type cfg)"
proof -
  have "device_type cfg \<noteq> PA" using assms(8) by (auto simp: reaches_def has_handler_def)
  moreover have "ready na h cfg (sdk_init ia c)" by (rule init_ready) (use assms in simp_all)
  ultimately have "\<exists>s. device_run ia na (o1 @ Datagram h kDetectionPort (Some p) # o2 @ Fw_Answer h a # o3 @ Datagram h kDetectionPort (Some p) # o4 @
      Cfg_Answer (device_type cfg) h (Cfg_Response 0 0) # o5) (sdk_init ia c) = Some s \<and> up h (device_type cfg) (Update_Cfg (device_type cfg) h port body) s"
    using assms by (intro comes_up) (simp_all add: init_empty)
  then show ?thesis by (auto simp: up_def)
qed

definition demo_lidar :: lidar_cfg where
  "demo_lidar = CheckPort (demo_host\<lparr>multicast_ip := '''', lidar_ipaddr := ''192.168.1.12''\<rparr>)"

definition demo_config :: sdk_config where
  "demo_config =
     \<lparr>lidars_cfg = [], custom_lidars_cfg = [demo_lidar],
      logger_cfg = \<lparr>lidar_log_enable = False, lidar_log_cache_size = 0, lidar_log_path = ''./''\<rparr>, master_sdk = True\<rparr>"

definition demo_answer :: "byte \<Rightarrow> CommPacket" where
  "demo_answer ty =
     \<lparr>cp_protocol = 0, cp_version = 0, cp_seq_num = 0, cp_cmd_id = kCommandIDLidarSearch, cp_cmd_type = 1, cp_sender_type = 0,
      cp_data = [0, ty, 65, 66, 67, 0, 0, 0, 0, 0, 0, 0, 0, 0, 0, 0, 0, 0, 192, 168, 1, 12, 0x24, 0xDB], cp_data_len = 24\<rparr>"

lemma demo_answer_search: "search_answer Mid360 56100 (demo_answer 9)"
  by (simp add: search_answer_def demo_answer_def read_detection_def detection_size_def dev_type_of_def kCommandTypeCmd_def)

lemma demo_host_ip: "IpToU8 ''192.168.1.5'' = Ok [192, 168, 1, 5]"
  by (simp add: IpToU8_def ip_loop.simps octet_def stoi_def is_digit_def is_space_def ip_end_def Let_def)

lemma demo_config_ok:
  "Check demo_config = Ok demo_config" "device_type demo_lidar = Mid360" "reaches demo_lidar" "builds demo_lidar"
  "\<exists>body. build_cfg Mid360 demo_lidar = Ok body" "lidar_ipaddr demo_lidar = ''192.168.1.12''"
  by (simp_all add: demo_config_def demo_lidar_def demo_host_def Check_def CheckLidarIp_def CheckLidarMulticastIp_def CheckPort_def
      reaches_def has_handler_def kDetectionPort_def port_defs builds_def build_cfg_def BuildUpdateMid360LidarCfgRequest_def
      BuildUpdateLidarCfgRequest_def host_value_def target_ip_def demo_host_ip LivoxLidarCfg.defs)

text \<open>A Mid-360 that answers, and another lidar in between.\<close>

lemma lidar_comes_up_witness:
  "\<exists>s body. device_run (\<lambda>ip. if ip = ''192.168.1.12'' then 12 else 5) (\<lambda>h. if h = 12 then ''192.168.1.12'' else ''192.168.1.5'')
       [Datagram 12 kDetectionPort (Some (demo_answer 9)), Fw_Answer 13 Fw_Failed, Fw_Answer 12 (Fw_Response 0 0x8010 1 1),
        Datagram 12 kDetectionPort (Some (demo_answer 9)), Cfg_Answer Mid360 12 (Cfg_Response 0 0)]
       (sdk_init (\<lambda>ip. if ip = ''192.168.1.12'' then 12 else 5) demo_config) = Some s \<and>
     Update_Cfg Mid360 12 56100 body \<in> set (requests s) \<and> 12 \<in> set (announced s)"
proof -
  let ?ia = "\<lambda>ip. if ip = ''192.168.1.12'' then (12 :: 32 word) else 5" and ?na = "\<lambda>h :: 32 word. if h = 12 then ''192.168.1.12'' else ''192.168.1.5''"
  obtain body where b: "build_cfg Mid360 demo_lidar = Ok body" using demo_config_ok(5) by blast
  have "\<exists>s. device_run ?ia ?na ([] @ Datagram 12 kDetectionPort (Some (demo_answer 9)) # [Fw_Answer 13 Fw_Failed] @
      Fw_Answer 12 (Fw_Response 0 0x8010 1 1) # [] @ Datagram 12 kDetectionPort (Some (demo_answer 9)) # [] @
      Cfg_Answer (device_type demo_lidar) 12 (Cfg_Response 0 0) # []) (sdk_init ?ia demo_config) = Some s \<and>
     Query_FwType 12 \<in> set (requests s) \<and> Update_Cfg (device_type demo_lidar) 12 56100 body \<in> set (requests s) \<and>
     12 \<in> set (announced s) \<and> 12 \<in> configured s (device_type demo_lidar)"
    using demo_config_ok b demo_answer_search
    by (intro lidar_comes_up [where ?c0.0 = demo_config and v = 1])
      (simp_all add: demo_config_def fw_good_def kKeyFwType_def quiet_def host_of_def demo_lidar_def demo_host_def CheckPort_def)
  then show ?thesis using demo_config_ok(2) by auto
qed


section \<open>The query of the firmware\<close>

lemma failed_answers:
  "\<forall>a \<in> set as. fw_good a = None \<Longrightarrow> 0 \<le> fw_count s \<Longrightarrow> fw_count s + int (length as) \<le> 11 \<Longrightarrow> device_types s h = Some ty \<Longrightarrow> has_handler ty \<Longrightarrow>
     fold (\<lambda>a. QueryFwTypeCallback a h) as s =
       s\<lparr>fw_count := fw_count s + int (length as), requests := requests s @ replicate (length as) (Query_FwType h)\<rparr>"
proof (induction as arbitrary: s)
  case (Cons a as)
  have "QueryFwTypeCallback a h s = s\<lparr>fw_count := fw_count s + 1, requests := requests s @ [Query_FwType h]\<rparr>"
    using Cons.prems by (simp add: QueryFwTypeCallback_def QueryFwType_def)
  then show ?case using Cons.prems Cons.IH [of "s\<lparr>fw_count := fw_count s + 1, requests := requests s @ [Query_FwType h]\<rparr>"]
    by (simp add: algebra_simps)
qed simp

text \<open>
  The query of the firmware ends: after eleven failed answers, each followed by another query,
  the twelfth answer is not looked at any more, the lidar is taken for one that runs its
  application, even if the answer says that it runs its loader, and the counter starts again.
\<close>

theorem fw_query_ends:
  assumes "fw_count s = 0" "devices s h = Some d" "device_types s h = Some ty" "has_handler ty"
    and "length as = 11" "\<forall>a \<in> set as. fw_good a = None"
  shows "fold (\<lambda>a. QueryFwTypeCallback a h) (as @ [a]) s =
     s\<lparr>fw_count := 0, requests := requests s @ replicate 11 (Query_FwType h),
       devices := (devices s)(h \<mapsto> d\<lparr>is_get_loader_mode := True, is_loader_mode := False\<rparr>)\<rparr>"
proof -
  have "fold (\<lambda>a. QueryFwTypeCallback a h) as s = s\<lparr>fw_count := 11, requests := requests s @ replicate 11 (Query_FwType h)\<rparr>"
    using failed_answers [of as s h ty] assms by simp
  then show ?thesis using assms(2) by (simp add: QueryFwTypeCallback_def UpdateFwType_def)
qed

lemma fw_query_ends_witness:
  "fold (\<lambda>a. QueryFwTypeCallback a 12) (replicate 11 Fw_Failed @ [Fw_Response 0 0x8010 1 0])
     (empty_state\<lparr>devices := [12 \<mapsto> empty_device], device_types := [12 \<mapsto> Mid360]\<rparr>) =
   empty_state\<lparr>device_types := [12 \<mapsto> Mid360], fw_count := 0, requests := replicate 11 (Query_FwType 12),
     devices := [12 \<mapsto> empty_device\<lparr>is_get_loader_mode := True, is_loader_mode := False\<rparr>]\<rparr>"
  using fw_query_ends [where s = "empty_state\<lparr>devices := [12 \<mapsto> empty_device], device_types := [12 \<mapsto> Mid360]\<rparr>" and h = 12 and
      d = empty_device and ty = Mid360 and as = "replicate 11 Fw_Failed" and a = "Fw_Response 0 0x8010 1 0"]
  by (simp add: has_handler_def empty_state_def fw_good_def)

section \<open>An SDK that is not the master, and a viewer\<close>

definition silent :: "sdk_state \<Rightarrow> bool" where
  "silent s \<longleftrightarrow>
     framework_master s = Some False \<and> requests s = [] \<and> announced s = [] \<and> (\<forall>h d. devices s h = Some d \<longrightarrow> \<not> is_get_loader_mode d)"

lemma silent_effect: "effect h s s' \<Longrightarrow> silent s \<Longrightarrow> silent s'"
  by (induction rule: effect.induct) (auto simp: silent_def)

lemma silent_data: "silent s \<Longrightarrow> OnData ia na h port p s = Some s' \<Longrightarrow> silent s'"
  using datagram_effect [of ia na h port p s s'] by (metis (mono_tags, lifting) rtranclp_induct silent_effect)

interpretation slave: machine "\<lambda>(h, port, p). device_next inet_addr inet_ntoa (Datagram h port p)" "\<lambda>os. case os of None \<Rightarrow> True | Some s \<Rightarrow> silent s"
  for inet_addr inet_ntoa
  by unfold_locales (auto simp: device_next_def split: option.splits intro: silent_data)

text \<open>
  An SDK that is not the master is silent: whatever the lidars send, it sends no request, and so
  it announces no lidar.
\<close>

theorem slave_is_silent:
  assumes "\<not> master_sdk c" "device_run ia na (map (\<lambda>(h, port, p). Datagram h port p) ds) (sdk_init ia c) = Some s"
  shows "requests s = [] \<and> announced s = []"
proof -
  have "fold (\<lambda>(h, port, p). device_next ia na (Datagram h port p)) ds os = fold (device_next ia na) (map (\<lambda>(h, port, p). Datagram h port p) ds) os" for os
    by (induction ds arbitrary: os) auto
  then show ?thesis
    using slave.run_inv [where s = "Some (sdk_init ia c)" and es = ds and inet_addr = ia and inet_ntoa = na] assms
    by (simp add: device_run_def silent_def init_empty)
qed

lemma slave_run: "\<exists>s. device_run (\<lambda>ip. 12) (\<lambda>h. '''') (map (\<lambda>(h, port, p). Datagram h port p) [(12, kDetectionPort, Some (demo_answer 9))])
     (sdk_init (\<lambda>ip. 12) (demo_config\<lparr>master_sdk := False\<rparr>)) = Some s"
  using ok_run [OF init_ok, of "demo_config\<lparr>master_sdk := False\<rparr>" "[Datagram 12 kDetectionPort (Some (demo_answer 9))]" "\<lambda>ip. 12" "\<lambda>h. ''''"] demo_config_ok(4)
  by (force simp: demo_config_def demo_answer_def read_detection_def detection_size_def dev_type_of_def)

lemma slave_is_silent_witness:
  "\<exists>s. device_run (\<lambda>ip. 12) (\<lambda>h. '''') (map (\<lambda>(h, port, p). Datagram h port p) [(12, kDetectionPort, Some (demo_answer 9))])
     (sdk_init (\<lambda>ip. 12) (demo_config\<lparr>master_sdk := False\<rparr>)) = Some s \<and> requests s = [] \<and> announced s = []"
  using slave_run slave_is_silent [where c = "demo_config\<lparr>master_sdk := False\<rparr>"] by fastforce

text \<open>
  C30. A viewer does not survive its first lidar: the first answer to a search that comes from its
  network segment makes it read the configuration that a viewer does not have.
\<close>

theorem viewer_stops:
  assumes "search_answer ty port p" "read_detection (cp_data p) = Some d" "IpToU8 host = Ok octets" "take 3 octets = take 3 (det_lidar_ip d)"
    and "host \<noteq> ''''" "na h \<noteq> host"
  shows "device_step ia na (Datagram h kDetectionPort (Some p)) (view_init host) = None"
proof -
  have "cp_data p \<noteq> []" using assms(2) by (auto simp: read_detection_def detection_size_def)
  then show ?thesis using assms
    by (auto simp: search_answer_def view_init_def empty_state_def OnData_def handle_search_def HandleDetectionData_def VerifyNetSegment_def
        CreateCommandHandler_def new_detection_def GetFirmwareType_def Let_def)
qed

lemma viewer_stops_witness:
  "device_step (\<lambda>ip. 12) (\<lambda>h. ''192.168.1.12'') (Datagram 12 kDetectionPort (Some (demo_answer 9))) (view_init ''192.168.1.5'') = None"
  by (rule viewer_stops [where d = "the (read_detection (cp_data (demo_answer 9)))", OF demo_answer_search _ demo_host_ip])
    (simp_all add: demo_answer_def read_detection_def detection_size_def)

text \<open>Neither does an SDK of the other kind survive a lidar of type PA.\<close>

lemma pa_stops:
  "\<not> is_view s \<Longrightarrow> cp_data p \<noteq> [] \<Longrightarrow> read_detection (cp_data p) = Some d \<Longrightarrow> det_ret_code d = 0 \<Longrightarrow> det_dev_type d = PA \<Longrightarrow>
     HandleDetectionData h p s = None"
  by (simp add: HandleDetectionData_def VerifyNetSegment_def CreateCommandHandler_def has_handler_def)

end
