(* ===== verification/Sdk_Logger.thy ===== *)
theory Sdk_Logger
  imports Sdk_Devices "HOL-Library.AList" "HOL-Library.List_Lexorder" "HOL-Library.Char_ord"
begin

text \<open>
  The log files of the lidars (sdk\_core/logger\_handler): a lidar pushes its log in packets, a
  thread writes them to files that stay hidden until they are complete, and another thread deletes
  the oldest files when a directory grows over its limit.  A step is one call of a function of
  the source; the file system is a value.
\<close>

section \<open>Files\<close>

text \<open>
  A file is a directory and a name.  The files are in the order in which their directories list
  them.  Renaming and removing succeed for files that are there.
\<close>

type_synonym path = "string \<times> string"

record file_system =
  dirs :: "string list"
  contents :: "(path \<times> byte list) list"

definition read_file :: "file_system \<Rightarrow> path \<Rightarrow> byte list option" where
  "read_file fs p = map_of (contents fs) p"

text \<open>Writing to a file opened for appending.\<close>

definition append_file :: "path \<Rightarrow> byte list \<Rightarrow> file_system \<Rightarrow> file_system" where
  "append_file p d fs =
     fs\<lparr>contents := AList.update p (case read_file fs p of None \<Rightarrow> d | Some old \<Rightarrow> old @ d) (contents fs)\<rparr>"

definition remove_file :: "path \<Rightarrow> file_system \<Rightarrow> file_system" where
  "remove_file p fs = fs\<lparr>contents := AList.delete p (contents fs)\<rparr>"

text \<open>A hidden file gets its name without the dot; a file of that name is replaced.\<close>

definition ChangeCurrentFileName :: "string \<Rightarrow> string \<Rightarrow> file_system \<Rightarrow> file_system" where
  "ChangeCurrentFileName dir file_name fs =
     (case file_name of
        [] \<Rightarrow> fs
      | c # file_name_cut \<Rightarrow>
          if c \<noteq> CHR ''.'' then fs
          else case read_file fs (dir, file_name) of
            None \<Rightarrow> fs
          | Some d \<Rightarrow>
              let fs1 = remove_file (dir, file_name) (remove_file (dir, file_name_cut) fs)
              in fs1\<lparr>contents := AList.update (dir, file_name_cut) d (contents fs1)\<rparr>)"

text \<open>All hidden files of a directory and of the directories below it.\<close>

definition below :: "string \<Rightarrow> string \<Rightarrow> bool" where
  "below dir d \<longleftrightarrow> (let p = dir @ (if last dir = CHR ''/'' then '''' else ''/'') in take (length p) (d @ ''/'') = p)"

definition ChangeHiddenFiles :: "string \<Rightarrow> file_system \<Rightarrow> file_system" where
  "ChangeHiddenFiles dir_name fs =
     (if dir_name = [] then fs
      else fold (\<lambda>(dir, name) s. if below dir_name dir then ChangeCurrentFileName dir name s else s) (map fst (contents fs)) fs)"

definition GetDirTotalSize :: "string \<Rightarrow> file_system \<Rightarrow> nat" where
  "GetDirTotalSize dir fs = sum_list (map (\<lambda>((d, n), c). if d = dir then length c else 0) (contents fs))"

text \<open>
  The directories of the logs hold no other directories, which the source would go through too.
  The names that are not hidden, in the order of the time they start with (the order of a
  \<open>multimap\<close>, which keeps the order of insertion for equal keys).
\<close>

definition kLengthOfTimeInFilename :: nat where "kLengthOfTimeInFilename = 19"

definition shown :: "string \<Rightarrow> bool" where
  "shown n \<longleftrightarrow> n \<noteq> [] \<and> hd n \<noteq> CHR ''.''"

definition GetFileNames :: "string \<Rightarrow> file_system \<Rightarrow> string list" where
  "GetFileNames dir fs =
     sort_key (take kLengthOfTimeInFilename) (map (\<lambda>((d, n), c). n) (filter (\<lambda>((d, n), c). d = dir \<and> shown n) (contents fs)))"

section \<open>The writer of one lidar\<close>

datatype Flag = kNull | kCreateFile | kEndFile | kTransferData

record WriteBuffer =
  wb_log_type :: byte
  wb_flag :: Flag
  wb_file_index :: byte
  wb_trans_index :: "32 word"
  wb_data :: "byte list"

record CurrentFileInfo =
  cf_flag :: Flag
  cf_file_index :: byte
  cf_trans_index :: "32 word"
  cf_fp :: "path option"
  cf_file_name :: string

definition no_file :: CurrentFileInfo where
  "no_file = \<lparr>cf_flag = kNull, cf_file_index = 0, cf_trans_index = 0, cf_fp = None, cf_file_name = ''''\<rparr>"

text \<open>The maps of files and directories create their entries on access, so they are total.\<close>

record LoggerHandler =
  lh_root :: string
  lh_branch :: "byte \<Rightarrow> string"
  lh_serial :: string
  lh_current :: "byte \<Rightarrow> CurrentFileInfo"
  lh_queue :: "WriteBuffer list"

definition new_LoggerHandler :: "string \<Rightarrow> string \<Rightarrow> LoggerHandler" where
  "new_LoggerHandler root_dir sn = \<lparr>lh_root = root_dir, lh_branch = (\<lambda>_. ''''), lh_serial = sn, lh_current = (\<lambda>_. no_file), lh_queue = []\<rparr>"

definition branch_of :: "LoggerHandler \<Rightarrow> byte \<Rightarrow> string" where
  "branch_of h t = lh_root h @ (if last (lh_root h) = CHR ''/'' then '''' else ''/'') @ ''type_'' @ to_string (unat t)"

text \<open>The name without the dot, from the time of creation.\<close>

definition log_name :: "string \<Rightarrow> LoggerHandler \<Rightarrow> WriteBuffer \<Rightarrow> string" where
  "log_name time h wb =
     time @ ''_'' @ lh_serial h @ ''_'' @ to_string (unat (wb_log_type wb)) @ ''_'' @ to_string (unat (wb_file_index wb)) @ ''.dat''"

text \<open>\<open>can_make\<close> and \<open>can_open\<close> say whether \<open>mkdir\<close> and \<open>fopen\<close> succeed, \<open>now\<close> is the time when a buffer is written.\<close>

definition CreateFile ::
  "(string \<Rightarrow> bool) \<Rightarrow> (path \<Rightarrow> bool) \<Rightarrow> (WriteBuffer \<Rightarrow> string) \<Rightarrow> WriteBuffer \<Rightarrow> LoggerHandler \<times> file_system \<Rightarrow> LoggerHandler \<times> file_system" where
  "CreateFile can_make can_open now wb =
     (\<lambda>(h, fs).
        let t = wb_log_type wb; branch = branch_of h t; h1 = h\<lparr>lh_branch := (lh_branch h)(t := branch)\<rparr> in
        if branch \<notin> set (dirs fs) \<and> \<not> can_make branch then (h1, fs)
        else
          let fs1 = (if branch \<in> set (dirs fs) then fs else fs\<lparr>dirs := branch # dirs fs\<rparr>);
              c = lh_current h1 t;
              fs2 = (if cf_fp c \<noteq> None then ChangeCurrentFileName branch (cf_file_name c) fs1 else fs1);
              name = CHR ''.'' # log_name (now wb) h wb;
              ok = can_open (branch, name);
              fs3 = (if ok then append_file (branch, name) (wb_data wb) fs2 else fs2)
          in (h1\<lparr>lh_current := (lh_current h1)(t :=
                   \<lparr>cf_flag = wb_flag wb, cf_file_index = wb_file_index wb, cf_trans_index = wb_trans_index wb,
                    cf_fp = (if ok then Some (branch, name) else None), cf_file_name = name\<rparr>)\<rparr>, fs3))"

definition WriteFile :: "WriteBuffer \<Rightarrow> LoggerHandler \<times> file_system \<Rightarrow> LoggerHandler \<times> file_system" where
  "WriteFile wb =
     (\<lambda>(h, fs).
        let t = wb_log_type wb; c = lh_current h t in
        if cf_file_index c \<noteq> wb_file_index wb then (h, fs)
        else
          (h\<lparr>lh_current := (lh_current h)(t := c\<lparr>cf_flag := wb_flag wb, cf_trans_index := wb_trans_index wb\<rparr>)\<rparr>,
           case cf_fp c of None \<Rightarrow> fs | Some p \<Rightarrow> append_file p (wb_data wb) fs))"

definition StopFile :: "WriteBuffer \<Rightarrow> LoggerHandler \<times> file_system \<Rightarrow> LoggerHandler \<times> file_system" where
  "StopFile wb =
     (\<lambda>(h, fs).
        let t = wb_log_type wb; c = lh_current h t in
        (h\<lparr>lh_current := (lh_current h)(t := c\<lparr>cf_fp := None, cf_flag := wb_flag wb, cf_trans_index := wb_trans_index wb\<rparr>)\<rparr>,
         if cf_fp c \<noteq> None then ChangeCurrentFileName (lh_branch h t) (cf_file_name c) fs else fs))"

definition write_one ::
  "(string \<Rightarrow> bool) \<Rightarrow> (path \<Rightarrow> bool) \<Rightarrow> (WriteBuffer \<Rightarrow> string) \<Rightarrow> WriteBuffer \<Rightarrow> LoggerHandler \<times> file_system \<Rightarrow> LoggerHandler \<times> file_system" where
  "write_one can_make can_open now wb s =
     (case wb_flag wb of
        kCreateFile \<Rightarrow> CreateFile can_make can_open now wb s
      | kEndFile \<Rightarrow> StopFile wb s
      | kTransferData \<Rightarrow> WriteFile wb s
      | kNull \<Rightarrow> s)"

text \<open>A packet from before the last one of its log.\<close>

definition stale :: "LoggerHandler \<Rightarrow> WriteBuffer \<Rightarrow> bool" where
  "stale h wb \<longleftrightarrow> wb_trans_index wb < cf_trans_index (lh_current h (wb_log_type wb)) \<and> wb_flag wb \<noteq> kCreateFile"

text \<open>The loop over the queue; on such a packet it goes on without taking it from the queue.\<close>

partial_function (option) write_loop ::
  "(string \<Rightarrow> bool) \<Rightarrow> (path \<Rightarrow> bool) \<Rightarrow> (WriteBuffer \<Rightarrow> string) \<Rightarrow> LoggerHandler \<times> file_system \<Rightarrow> WriteBuffer list
   \<Rightarrow> (LoggerHandler \<times> file_system) option" where
  "write_loop can_make can_open now s q =
     (case q of
        [] \<Rightarrow> Some s
      | wb # rest \<Rightarrow>
          if stale (fst s) wb then write_loop can_make can_open now s (wb # rest)
          else write_loop can_make can_open now (write_one can_make can_open now wb s) rest)"

definition Write ::
  "(string \<Rightarrow> bool) \<Rightarrow> (path \<Rightarrow> bool) \<Rightarrow> (WriteBuffer \<Rightarrow> string) \<Rightarrow> LoggerHandler \<times> file_system \<Rightarrow> (LoggerHandler \<times> file_system) option" where
  "Write can_make can_open now = (\<lambda>(h, fs). write_loop can_make can_open now (h\<lparr>lh_queue := []\<rparr>, fs) (lh_queue h))"

text \<open>The thread is stopped without a last \<open>Write\<close>, and the files are closed under their hidden names.\<close>

definition handler_Destory :: "LoggerHandler \<Rightarrow> LoggerHandler" where
  "handler_Destory h = h\<lparr>lh_current := (\<lambda>t. (lh_current h t)\<lparr>cf_fp := None\<rparr>)\<rparr>"

section \<open>The manager\<close>

text \<open>Commands and answers that are sent are recorded with their lidar.\<close>

record LoggerManager =
  log_enable :: bool
  log_root_path :: string
  max_realtimelog_cache_size :: "64 word"
  max_exceptionlog_cache_size :: "64 word"
  log_devices :: "32 word \<Rightarrow> string option"
  log_handlers :: "32 word \<Rightarrow> LoggerHandler option"
  log_cond :: bool
  log_destroyed :: bool
  log_sent :: "(32 word \<times> nat \<times> byte list) list"

definition new_LoggerManager :: LoggerManager where
  "new_LoggerManager =
     \<lparr>log_enable = False, log_root_path = ''./'', max_realtimelog_cache_size = 150 * 1024 * 1024, max_exceptionlog_cache_size = 50 * 1024 * 1024,
      log_devices = Map.empty, log_handlers = Map.empty, log_cond = False, log_destroyed = False, log_sent = []\<rparr>"

definition kCommandIDLidarPushLog :: nat where "kCommandIDLidarPushLog = 0x0300"
definition kCommandIDLidarCollectionLog :: nat where "kCommandIDLidarCollectionLog = 0x0301"

text \<open>The limits for the exception log and for the realtime log, from the megabytes of the configuration.\<close>

definition cache_limits :: "64 word \<Rightarrow> 64 word \<times> 64 word" where
  "cache_limits mb =
     (if mb > 200 * (1 + 3) div 1 then (200 * 1024 * 1024, (mb - 200) * 1024 * 1024)
      else ((mb * 1 div (1 + 3)) * 1024 * 1024, (mb * 3 div (1 + 3)) * 1024 * 1024))"

text \<open>The last character of an empty path is undefined in the source, as it is here.\<close>

definition InitLoggerSavePath :: "(string \<Rightarrow> bool) \<Rightarrow> string \<Rightarrow> LoggerManager \<times> file_system \<Rightarrow> bool \<times> LoggerManager \<times> file_system" where
  "InitLoggerSavePath can_make path =
     (\<lambda>(m, fs).
        let root_dir = path @ (if last path = CHR ''/'' then '''' else ''/'') @ ''lidar_log/'' in
        if root_dir \<in> set (dirs fs) then (True, m\<lparr>log_root_path := root_dir\<rparr>, fs)
        else if \<not> can_make root_dir then (False, m, fs)
        else (True, m\<lparr>log_root_path := root_dir\<rparr>, fs\<lparr>dirs := root_dir # dirs fs\<rparr>))"

definition logger_Init ::
  "(string \<Rightarrow> bool) \<Rightarrow> LivoxLidarLoggerCfg option \<Rightarrow> LoggerManager \<times> file_system \<Rightarrow> bool \<times> LoggerManager \<times> file_system" where
  "logger_Init can_make cfg =
     (\<lambda>(m, fs).
        case cfg of
          None \<Rightarrow> (True, m\<lparr>log_enable := False\<rparr>, fs)
        | Some c \<Rightarrow>
            if \<not> lidar_log_enable c \<or> lidar_log_cache_size c = 0 \<or> lidar_log_cache_size c > 1000000000
            then (True, m\<lparr>log_enable := False\<rparr>, fs)
            else
              let (ex, rt) = cache_limits (lidar_log_cache_size c);
                  (ok, m1, fs1) = InitLoggerSavePath can_make (lidar_log_path c)
                    (m\<lparr>log_enable := True, max_exceptionlog_cache_size := ex, max_realtimelog_cache_size := rt\<rparr>, fs)
              in if ok then (True, m1, ChangeHiddenFiles (lidar_log_path c) fs1) else (False, m1, fs1))"

text \<open>The serial number is text of at most sixteen characters; the other members of the device are never read.\<close>

definition serial_of :: "byte list \<Rightarrow> string" where
  "serial_of bs = map (\<lambda>b. char_of (unat b)) (takeWhile (\<lambda>b. b \<noteq> 0) bs)"

definition logger_AddDevice :: "32 word \<Rightarrow> DetectionData \<Rightarrow> LoggerManager \<Rightarrow> LoggerManager" where
  "logger_AddDevice handle d m =
     (if log_devices m handle = None then m\<lparr>log_devices := (log_devices m)(handle \<mapsto> serial_of (det_sn d))\<rparr> else m)"

definition RemoveDevice :: "32 word \<Rightarrow> LoggerManager \<Rightarrow> LoggerManager" where
  "RemoveDevice handle m = m\<lparr>log_devices := (log_devices m)(handle := None)\<rparr>"

definition send_log :: "32 word \<Rightarrow> nat \<Rightarrow> byte list \<Rightarrow> LoggerManager \<Rightarrow> LoggerManager" where
  "send_log handle cmd bs m = m\<lparr>log_sent := log_sent m @ [(handle, cmd, bs)]\<rparr>"

definition StartLogger :: "32 word \<Rightarrow> byte \<Rightarrow> LoggerManager \<Rightarrow> LoggerManager" where
  "StartLogger handle log_type m = (if \<not> log_enable m then m else send_log handle kCommandIDLidarCollectionLog [log_type, 1] m)"

definition StopLogger :: "32 word \<Rightarrow> byte \<Rightarrow> LoggerManager \<Rightarrow> LoggerManager" where
  "StopLogger handle log_type m = send_log handle kCommandIDLidarCollectionLog [log_type, 0] m"

text \<open>
  The answer to the command to stop: status, the return code if there is a response, and whether the
  manager was given as client data.  A refusal repeats the command.
\<close>

definition LoggerStopCallback :: "bool \<Rightarrow> 32 word \<Rightarrow> byte option \<Rightarrow> bool \<Rightarrow> LoggerManager \<Rightarrow> LoggerManager option" where
  "LoggerStopCallback success handle ret_code client_data m =
     (if \<not> success then Some (if client_data then StopLogger handle 0 m else m)
      else if \<not> client_data then None
      else if ret_code \<noteq> Some 0 then Some (StopLogger handle 0 m)
      else Some (RemoveDevice handle m))"

text \<open>A packet of a log: the header, and the memory from the data on.\<close>

record log_push =
  lp_log_type :: byte
  lp_file_index :: byte
  lp_flag :: byte
  lp_trans_index :: "32 word"
  lp_data_length :: nat
  lp_memory :: "byte list"

definition read_push :: "byte list \<Rightarrow> log_push option" where
  "read_push bs =
     (if length bs < 16 then None
      else Some \<lparr>lp_log_type = bs ! 0, lp_file_index = bs ! 1, lp_flag = bs ! 3, lp_trans_index = of_nat (le_val (take 4 (drop 10 bs))),
                 lp_data_length = le_val (take 2 (drop 14 bs)), lp_memory = drop 16 bs\<rparr>)"

text \<open>The length of the data is the one the packet gives; the copy may leave the memory.\<close>

definition StoreLogBag :: "log_push \<Rightarrow> Flag \<Rightarrow> LoggerHandler \<Rightarrow> LoggerHandler option" where
  "StoreLogBag r flag h =
     map_option (\<lambda>d. h\<lparr>lh_queue := lh_queue h @
         [\<lparr>wb_log_type = lp_log_type r, wb_flag = flag, wb_file_index = lp_file_index r, wb_trans_index = lp_trans_index r, wb_data = d\<rparr>]\<rparr>)
       (slice 0 (lp_data_length r) (lp_memory r))"

definition put_log_handler :: "32 word \<Rightarrow> LoggerHandler \<Rightarrow> LoggerManager \<Rightarrow> LoggerManager" where
  "put_log_handler handle h m = m\<lparr>log_handlers := (log_handlers m)(handle \<mapsto> h)\<rparr>"

text \<open>Without a known device there is no handler, and the empty pointer is used.\<close>

definition OnLoggerCreate :: "32 word \<Rightarrow> log_push \<Rightarrow> LoggerManager \<Rightarrow> LoggerManager option" where
  "OnLoggerCreate handle r m =
     (case (case log_handlers m handle of
              Some h \<Rightarrow> Some h
            | None \<Rightarrow> map_option (new_LoggerHandler (log_root_path m)) (log_devices m handle)) of
        None \<Rightarrow> None
      | Some h \<Rightarrow> map_option (\<lambda>h'. put_log_handler handle h' m) (StoreLogBag r kCreateFile h))"

definition OnLoggerStopped :: "32 word \<Rightarrow> log_push \<Rightarrow> LoggerManager \<Rightarrow> LoggerManager option" where
  "OnLoggerStopped handle r m =
     (case log_handlers m handle of
        None \<Rightarrow> Some m
      | Some h \<Rightarrow> map_option (\<lambda>h'. (put_log_handler handle h' m)\<lparr>log_cond := True\<rparr>) (StoreLogBag r kEndFile h))"

definition OnLoggerTransfer :: "32 word \<Rightarrow> log_push \<Rightarrow> LoggerManager \<Rightarrow> LoggerManager option" where
  "OnLoggerTransfer handle r m =
     (case log_handlers m handle of
        None \<Rightarrow> Some m
      | Some h \<Rightarrow> map_option (\<lambda>h'. put_log_handler handle h' m) (StoreLogBag r kTransferData h))"

definition push_answer :: "log_push \<Rightarrow> byte list" where
  "push_answer r = [0, lp_log_type r, lp_file_index r] @ le_bytes 4 (unat (lp_trans_index r))"

definition logger_Handler ::
  "(byte list \<Rightarrow> 16 word) \<Rightarrow> (byte list \<Rightarrow> 32 word) \<Rightarrow> 32 word \<Rightarrow> byte list \<Rightarrow> nat \<Rightarrow> LoggerManager \<Rightarrow> LoggerManager option" where
  "logger_Handler ccitt crc32 handle buf buf_size m =
     (if \<not> log_enable m \<or> buf_size = 0 then Some m
      else case ParseCommStream ccitt crc32 buf buf_size of
        None \<Rightarrow> None
      | Some None \<Rightarrow> Some m
      | Some (Some packet) \<Rightarrow>
          if unat (cp_cmd_id packet) \<noteq> kCommandIDLidarPushLog then Some m
          else case read_push (cp_data packet) of
            None \<Rightarrow> None
          | Some r \<Rightarrow>
              let m1 = (if bit (lp_flag r) 0 then send_log handle kCommandIDLidarPushLog (push_answer r) m else m)
              in if bit (lp_flag r) 1 then OnLoggerCreate handle r m1
                 else if bit (lp_flag r) 2 then OnLoggerStopped handle r m1
                 else OnLoggerTransfer handle r m1)"

section \<open>Old files\<close>

fun delete_oldest :: "string \<Rightarrow> 64 word \<Rightarrow> string list \<Rightarrow> file_system \<Rightarrow> file_system" where
  "delete_oldest dir limit [] fs = fs"
| "delete_oldest dir limit (n # ns) fs =
     (if GetDirTotalSize dir fs > unat limit then delete_oldest dir limit ns (remove_file (dir, n) fs) else fs)"

definition delete_in :: "string \<Rightarrow> 64 word \<Rightarrow> file_system \<Rightarrow> file_system" where
  "delete_in dir limit fs =
     (if dir \<in> set (dirs fs) \<and> GetDirTotalSize dir fs > unat limit then delete_oldest dir limit (GetFileNames dir fs) fs else fs)"

text \<open>One round of the thread.\<close>

definition CycleDelete :: "LoggerManager \<times> file_system \<Rightarrow> LoggerManager \<times> file_system" where
  "CycleDelete =
     (\<lambda>(m, fs).
        let path = (\<lambda>t. log_root_path m @ (if last (log_root_path m) = CHR ''/'' then '''' else ''/'') @ t)
        in (m\<lparr>log_cond := False\<rparr>,
            delete_in (path ''type_1'') (max_exceptionlog_cache_size m) (delete_in (path ''type_0'') (max_realtimelog_cache_size m) fs)))"

text \<open>
  The writers are destroyed, then the lidars told to stop (\<open>handles\<close> are the handles of the devices,
  in their order), then what is hidden gets its name.  The last round of the deleting thread, if it waits when it is woken, is a step of its own.
\<close>

definition StopAllLogger :: "32 word list \<Rightarrow> LoggerManager \<Rightarrow> LoggerManager" where
  "StopAllLogger handles m = (if \<not> log_enable m then m else fold (\<lambda>h m. StopLogger h 0 m) handles m)"

definition logger_Destory :: "32 word list \<Rightarrow> LoggerManager \<times> file_system \<Rightarrow> LoggerManager \<times> file_system" where
  "logger_Destory handles =
     (\<lambda>(m, fs).
        if log_destroyed m then (m, fs)
        else
          let m1 = StopAllLogger handles (m\<lparr>log_handlers := Map.empty, log_cond := True\<rparr>)
          in (m1\<lparr>log_enable := False, log_destroyed := True\<rparr>,
              if log_enable m1 then ChangeHiddenFiles (log_root_path m1) fs else fs))"

end
