(* ===== verification/Sdk_Logger_Props.thy ===== *)
theory Sdk_Logger_Props
  imports Sdk_Logger
begin

text \<open>
  The log files of the SDK (logger\_handler, logger\_manager and file\_manager): a file whose packets
  arrive in order is stored whole, the writer returns exactly if no packet is late, and the deletion
  of old files takes the oldest ones only and stops at its limit.
\<close>

section \<open>Files\<close>

lemma read_append: "read_file (append_file p d fs) q = (if q = p then Some (case read_file fs p of None \<Rightarrow> d | Some old \<Rightarrow> old @ d) else read_file fs q)"
  by (simp add: read_file_def append_file_def AList.update_conv')

lemma read_remove: "read_file (remove_file p fs) q = (if q = p then None else read_file fs q)"
  by (auto simp: read_file_def remove_file_def AList.delete_conv')

lemma read_put: "map_of (AList.update p d al) q = (if q = p then Some d else map_of al q)"
  by (simp add: AList.update_conv')

lemma read_dirs [simp]: "read_file (fs\<lparr>dirs := ds\<rparr>) q = read_file fs q"
  by (simp add: read_file_def)

text \<open>Uncovering a hidden file moves its data.\<close>

lemma read_uncovered:
  "read_file fs (dir, CHR ''.'' # n) = Some d \<Longrightarrow>
   read_file (ChangeCurrentFileName dir (CHR ''.'' # n) fs) q =
     (if q = (dir, n) then Some d else if q = (dir, CHR ''.'' # n) then None else read_file fs q)"
  using read_remove [of "(dir, CHR ''.'' # n)" "remove_file (dir, n) fs"] read_remove [of "(dir, n)" fs]
  by (simp add: ChangeCurrentFileName_def Let_def read_file_def read_put)

section \<open>A file of a log\<close>

lemma write_loop_Nil [simp]: "write_loop mk op now s [] = Some s"
  by (subst write_loop.simps) simp

lemma write_loop_Cons: "\<not> stale (fst s) wb \<Longrightarrow> write_loop mk op now s (wb # q) = write_loop mk op now (write_one mk op now wb s) q"
  by (subst write_loop.simps) simp

text \<open>The packets of one file: the first one creates it, the others carry its data, the last one ends it.\<close>

fun transfers :: "byte \<Rightarrow> byte \<Rightarrow> 32 word \<Rightarrow> byte list list \<Rightarrow> WriteBuffer list" where
  "transfers t idx k [] = [\<lparr>wb_log_type = t, wb_flag = kEndFile, wb_file_index = idx, wb_trans_index = k, wb_data = []\<rparr>]"
| "transfers t idx k (d # ds) =
     \<lparr>wb_log_type = t, wb_flag = kTransferData, wb_file_index = idx, wb_trans_index = k, wb_data = d\<rparr> # transfers t idx (k + 1) ds"

definition create_packet :: "byte \<Rightarrow> byte \<Rightarrow> 32 word \<Rightarrow> byte list \<Rightarrow> WriteBuffer" where
  "create_packet t idx k d = \<lparr>wb_log_type = t, wb_flag = kCreateFile, wb_file_index = idx, wb_trans_index = k, wb_data = d\<rparr>"

lemma next_index: "unat k + Suc n < 2 ^ 32 \<Longrightarrow> unat (k + 1 :: 32 word) = unat k + 1"
proof -
  assume "unat k + Suc n < 2 ^ 32"
  then have "unat k + unat (1 :: 32 word) < 2 ^ LENGTH(32)" by simp
  then show ?thesis by (simp add: unat_plus_if')
qed

lemma write_transfers:
  assumes "unat k + length ds < 2 ^ 32" "k' \<le> k"
    and c: "lh_current h t = \<lparr>cf_flag = f, cf_file_index = idx, cf_trans_index = k', cf_fp = Some (lh_branch h t, CHR ''.'' # name), cf_file_name = CHR ''.'' # name\<rparr>"
    and "read_file fs (lh_branch h t, CHR ''.'' # name) = Some d"
  shows "\<exists>h' fs'. write_loop mk op now (h, fs) (transfers t idx k ds) = Some (h', fs') \<and> cf_fp (lh_current h' t) = None \<and>
     (\<forall>q. read_file fs' q = (if q = (lh_branch h t, name) then Some (d @ concat ds)
        else if q = (lh_branch h t, CHR ''.'' # name) then None else read_file fs q))"
  using assms
proof (induction ds arbitrary: k k' h fs d f)
  case Nil
  let ?e = "\<lparr>wb_log_type = t, wb_flag = kEndFile, wb_file_index = idx, wb_trans_index = k, wb_data = []\<rparr>"
  have "\<not> stale h ?e" using Nil by (simp add: stale_def)
  then show ?case using Nil read_uncovered [OF Nil.prems(4)]
    by (simp add: write_loop_Cons write_one_def StopFile_def Let_def)
next
  case (Cons x ds)
  let ?e = "\<lparr>wb_log_type = t, wb_flag = kTransferData, wb_file_index = idx, wb_trans_index = k, wb_data = x\<rparr>"
  let ?h = "h\<lparr>lh_current := (lh_current h)(t := (lh_current h t)\<lparr>cf_flag := kTransferData, cf_trans_index := k\<rparr>)\<rparr>"
  let ?p = "(lh_branch h t, CHR ''.'' # name)"
  let ?fs = "append_file ?p x fs"
  have "\<not> stale h ?e" using Cons.prems by (simp add: stale_def)
  moreover have "write_one mk op now ?e (h, fs) = (?h, ?fs)" using Cons.prems(3) by (simp add: write_one_def WriteFile_def Let_def)
  ultimately have s: "write_loop mk op now (h, fs) (transfers t idx k (x # ds)) = write_loop mk op now (?h, ?fs) (transfers t idx (k + 1) ds)"
    by (simp add: write_loop_Cons)
  have n: "unat (k + 1) = unat k + 1" using Cons.prems(1) by (intro next_index [where n = "length ds"]) simp
  have "\<exists>h' fs'. write_loop mk op now (?h, ?fs) (transfers t idx (k + 1) ds) = Some (h', fs') \<and> cf_fp (lh_current h' t) = None \<and>
     (\<forall>q. read_file fs' q = (if q = (lh_branch ?h t, name) then Some ((d @ x) @ concat ds)
        else if q = (lh_branch ?h t, CHR ''.'' # name) then None else read_file ?fs q))"
  proof (rule Cons.IH)
    show "unat (k + 1) + length ds < 2 ^ 32" unfolding n using Cons.prems(1) by simp
    show "k \<le> k + 1" unfolding word_le_nat_alt n by simp
    show "lh_current ?h t = \<lparr>cf_flag = kTransferData, cf_file_index = idx, cf_trans_index = k, cf_fp = Some (lh_branch ?h t, CHR ''.'' # name), cf_file_name = CHR ''.'' # name\<rparr>"
      using Cons.prems(3) by simp
    show "read_file ?fs (lh_branch ?h t, CHR ''.'' # name) = Some (d @ x)" using Cons.prems(4) by (simp add: read_append)
  qed
  then obtain h' fs' where r: "write_loop mk op now (?h, ?fs) (transfers t idx (k + 1) ds) = Some (h', fs')" "cf_fp (lh_current h' t) = None"
      "\<And>q. read_file fs' q = (if q = (lh_branch h t, name) then Some ((d @ x) @ concat ds)
        else if q = (lh_branch h t, CHR ''.'' # name) then None else read_file ?fs q)" by auto
  show ?case unfolding s r(1) using r(2) by (auto simp: r(3) read_append)
qed

lemma branch_queue [simp]: "branch_of (h\<lparr>lh_queue := q\<rparr>) t = branch_of h t" "log_name s (h\<lparr>lh_queue := q\<rparr>) wb = log_name s h wb"
  by (simp_all add: branch_of_def log_name_def)



section \<open>When the writer returns\<close>

text \<open>No packet of the queue is stale when its turn comes.\<close>

fun in_order :: "(string \<Rightarrow> bool) \<Rightarrow> (path \<Rightarrow> bool) \<Rightarrow> (WriteBuffer \<Rightarrow> string) \<Rightarrow> LoggerHandler \<times> file_system \<Rightarrow> WriteBuffer list \<Rightarrow> bool" where
  "in_order mk op now s [] = True"
| "in_order mk op now s (wb # q) = (\<not> stale (fst s) wb \<and> in_order mk op now (write_one mk op now wb s) q)"

lemma write_loop_returned: "write_loop mk op now s q = Some r \<Longrightarrow> in_order mk op now s q"
proof (rule write_loop.raw_induct [where P = "\<lambda>mk op now s q _. in_order mk op now s q"])
  fix loop mk op now s q r
  assume step: "\<And>mk op now s q r. loop mk op now s q = Some r \<Longrightarrow> in_order mk op now s q"
    and eq: "(case q of [] \<Rightarrow> Some s | wb # rest \<Rightarrow> if stale (fst s) wb then loop mk op now s (wb # rest)
      else loop mk op now (write_one mk op now wb s) rest) = Some r"
  show "in_order mk op now s q"
  proof (cases q)
    case (Cons wb rest)
    then show ?thesis using eq step [of mk op now s q r] step [of mk op now "write_one mk op now wb s" rest r]
      by (auto split: if_splits)
  qed simp
qed

lemma write_loop_returns: "in_order mk op now s q \<Longrightarrow> write_loop mk op now s q \<noteq> None"
  by (induction mk op now s q rule: in_order.induct) (simp_all add: write_loop_Cons)

text \<open>
  C33. One late packet stops the log writer: \<open>Write\<close> returns exactly if no packet of its queue is
  older than the last one of its log when its turn comes; otherwise its loop never ends.
\<close>

theorem late_packet_hangs_writer:
  "Write mk op now (h, fs) = None \<longleftrightarrow> \<not> in_order mk op now (h\<lparr>lh_queue := []\<rparr>, fs) (lh_queue h)"
  unfolding Write_def prod.case using write_loop_returned write_loop_returns by (metis option.exhaust)

text \<open>So it hangs when a file goes on with an old index.\<close>

lemma old_packet_hangs:
  assumes "k < cf_trans_index (lh_current h t)"
  shows "Write mk op now (h\<lparr>lh_queue := transfers t idx k ds\<rparr>, fs) = None"
proof -
  have "\<not> in_order mk op now (h\<lparr>lh_queue := []\<rparr>, fs) (transfers t idx k ds)"
    using assms by (cases ds) (simp_all add: stale_def)
  then show ?thesis unfolding Write_def by (simp del: in_order.simps) (metis write_loop_returned option.exhaust)
qed

section \<open>Old files\<close>

definition remove_all :: "string \<Rightarrow> string list \<Rightarrow> file_system \<Rightarrow> file_system" where
  "remove_all dir ns fs = fold (\<lambda>n. remove_file (dir, n)) ns fs"

lemma remove_all_simps [simp]: "remove_all dir [] fs = fs" "remove_all dir (n # ns) fs = remove_all dir ns (remove_file (dir, n) fs)"
  by (simp_all add: remove_all_def)

lemma read_remove_all: "read_file (remove_all dir ns fs) q = (if fst q = dir \<and> snd q \<in> set ns then None else read_file fs q)"
  by (induction ns arbitrary: fs) (auto simp: read_remove)

lemma delete_oldest_spec:
  "\<exists>k \<le> length ns. delete_oldest dir limit ns fs = remove_all dir (take k ns) fs \<and>
     (\<forall>j < k. unat limit < GetDirTotalSize dir (remove_all dir (take j ns) fs)) \<and>
     (k = length ns \<or> GetDirTotalSize dir (remove_all dir (take k ns) fs) \<le> unat limit)"
proof (induction ns arbitrary: fs)
  case (Cons n ns)
  show ?case
  proof (cases "GetDirTotalSize dir fs > unat limit")
    case True
    obtain k where k: "k \<le> length ns" "delete_oldest dir limit ns (remove_file (dir, n) fs) = remove_all dir (take k ns) (remove_file (dir, n) fs)"
        "\<forall>j < k. unat limit < GetDirTotalSize dir (remove_all dir (take j ns) (remove_file (dir, n) fs))"
        "k = length ns \<or> GetDirTotalSize dir (remove_all dir (take k ns) (remove_file (dir, n) fs)) \<le> unat limit"
      using Cons.IH by blast
    have "unat limit < GetDirTotalSize dir (remove_all dir (take j (n # ns)) fs)" if "j < Suc k" for j
      using that k(3) True by (cases j) auto
    then show ?thesis using k True by (intro exI [of _ "Suc k"]) auto
  next
    case False then show ?thesis by (intro exI [of _ 0]) auto
  qed
qed auto

text \<open>
  C34. Only the oldest files go, and only as many as must: a round of the deletion in a directory takes away
  some first files in the order of the times they start with; before each of them the directory was over its
  limit, and afterwards it is within its limit or has no file left that may be deleted.  Files of other directories
  and hidden ones stay.
\<close>

theorem oldest_logs_deleted:
  assumes "dir \<in> set (dirs fs)"
  shows "\<exists>ns rest. GetFileNames dir fs = ns @ rest \<and> sorted (map (take kLengthOfTimeInFilename) (ns @ rest)) \<and>
     (\<forall>q. read_file (delete_in dir limit fs) q = (if fst q = dir \<and> snd q \<in> set ns then None else read_file fs q)) \<and>
     (\<forall>j < length ns. unat limit < GetDirTotalSize dir (remove_all dir (take j ns) fs)) \<and>
     (rest = [] \<or> GetDirTotalSize dir (delete_in dir limit fs) \<le> unat limit) \<and> list_all shown ns"
proof -
  let ?names = "GetFileNames dir fs"
  have shown: "list_all shown ?names" by (auto simp: list_all_iff GetFileNames_def)
  have sorted: "sorted (map (take kLengthOfTimeInFilename) ?names)" by (simp add: GetFileNames_def)
  show ?thesis
  proof (cases "GetDirTotalSize dir fs > unat limit")
    case True
    obtain k where k: "k \<le> length ?names" "delete_oldest dir limit ?names fs = remove_all dir (take k ?names) fs"
        "\<forall>j < k. unat limit < GetDirTotalSize dir (remove_all dir (take j ?names) fs)"
        "k = length ?names \<or> GetDirTotalSize dir (remove_all dir (take k ?names) fs) \<le> unat limit"
      using delete_oldest_spec by blast
    have e: "delete_in dir limit fs = remove_all dir (take k ?names) fs" using True assms k(2) by (simp add: delete_in_def)
    have "list_all shown (take k ?names)" using shown by (auto simp: list_all_iff dest: in_set_takeD)
    then show ?thesis using k sorted unfolding e
      by (intro exI [of _ "take k ?names"] exI [of _ "drop k ?names"]) (auto simp: read_remove_all)
  next
    case False
    then show ?thesis using sorted by (intro exI [of _ "[]"] exI [of _ ?names]) (simp add: delete_in_def)
  qed
qed

definition demo_logs :: file_system where
  "demo_logs = \<lparr>dirs = [''d''], contents = [((''d'', ''2026-02-01_00-00-00_b''), [1, 2, 3]), ((''d'', ''2026-01-01_00-00-00_a''), [4, 5])]\<rparr>"

lemma oldest_logs_deleted_witness:
  "\<exists>ns rest. GetFileNames ''d'' demo_logs = ns @ rest \<and> (\<forall>j < length ns. 3 < GetDirTotalSize ''d'' (remove_all ''d'' (take j ns) demo_logs)) \<and>
     (rest = [] \<or> GetDirTotalSize ''d'' (delete_in ''d'' 3 demo_logs) \<le> 3)"
proof -
  have "''d'' \<in> set (dirs demo_logs)" by (simp add: demo_logs_def)
  from oldest_logs_deleted [OF this, of 3] show ?thesis by auto
qed

section \<open>Hidden files\<close>

text \<open>
  At the start every hidden file below the configured directory is renamed, not only those of the
  logs: with the logs in a home directory, the profile of its owner.
\<close>

lemma init_renames_foreign_files:
  "read_file (snd (snd (logger_Init (\<lambda>_. True)
       (Some \<lparr>lidar_log_enable = True, lidar_log_cache_size = 500, lidar_log_path = ''/home/u''\<rparr>)
       (new_LoggerManager, \<lparr>dirs = [''/home/u''], contents = [((''/home/u'', ''.profile''), d)]\<rparr>)))) (''/home/u'', ''profile'') = Some d"
  by (simp add: logger_Init_def InitLoggerSavePath_def cache_limits_def ChangeHiddenFiles_def below_def new_LoggerManager_def
      ChangeCurrentFileName_def read_file_def remove_file_def Let_def)

section \<open>Packets\<close>

text \<open>A log that is created by a lidar which was never found goes through an empty pointer.\<close>

lemma unknown_lidar_log_crashes:
  "log_handlers m handle = None \<Longrightarrow> log_devices m handle = None \<Longrightarrow> OnLoggerCreate handle r m = None"
  by (simp add: OnLoggerCreate_def)

text \<open>A packet that gives more data than it has is read past its end.\<close>

lemma long_log_overreads:
  "lp_data_length r > length (lp_memory r) \<Longrightarrow> StoreLogBag r flag h = None"
  by (simp add: StoreLogBag_def slice_def)

text \<open>The two limits are three parts and one part of the configured size, up to 200 megabytes for exceptions.\<close>

lemma cache_limits_small: "unat mb \<le> 800 \<Longrightarrow>
   unat (fst (cache_limits mb)) = (unat mb div 4) * 1048576 \<and> unat (snd (cache_limits mb)) = (unat mb * 3 div 4) * 1048576"
proof -
  assume m: "unat mb \<le> 800"
  have c: "\<not> mb > 200 * (1 + 3) div 1" using m by (simp add: word_less_nat_alt)
  have 3: "unat (mb * 3) = unat mb * 3" using m by (simp add: unat_mult_lem [THEN iffD1])
  have q: "unat (mb div 4) = unat mb div 4" "unat (mb * 3 div 4) = unat mb * 3 div 4" by (simp_all add: unat_div 3)
  have "unat (mb div 4 * 1024 * 1024) = unat mb div 4 * 1024 * 1024" "unat (mb * 3 div 4 * 1024 * 1024) = unat mb * 3 div 4 * 1024 * 1024"
    using m by (simp_all add: unat_word_ariths q)
  then show ?thesis using c by (simp add: cache_limits_def)
qed

end
