(* ===== verification/Spec2Isabelle.thy ===== *)
theory Spec2Isabelle
  imports KD_Props Driver_Props Pub_Props Lio_Mapping Lio_Imu_Props Lio_Preprocess_Props Sdk_Upgrade_Props Sdk_Bringup_Props Sdk_Logger_Props
begin

text \<open>
  A verification development for LIO\_SLAM: a Livox lidar SDK (src/src/Livox-SDK2), a ROS driver on
  top of it (src/src/livox\_ros\_driver) and the lidar-inertial odometry FAST-LIO with its
  incremental k-d tree (src/src/FAST\_LIO\_ROS2).  The paths below are relative to src/src.

  \<^bold>\<open>How the program works.\<close>  The SDK finds lidars by broadcast, asks them for the kind of their firmware,
  sends them their configuration and passes their datagrams on.  The driver queues the packets of
  points and IMU samples of each lidar, decodes the points into its own frame and hands out a frame
  each publish period.  FAST-LIO filters the scans, pairs each with the IMU samples of its time,
  predicts the motion, moves every point to the end of the scan, corrects the state against the map,
  and inserts the scan into the map: an incremental k-d tree that rebuilds unbalanced subtrees in a
  second thread, cut to a cube around the sensor.

  \<^bold>\<open>Theories.\<close>  Each component has a theory with its state (records), its operations (functions of the
  old state to the new one) and often one with its properties (\<open>..._Props\<close>).

  \<^item> \<open>LIO_Prelude\<close>, \<open>Runs\<close>, \<open>Byte_Codec\<close>: shared lemmas, the contracts of machines, little-endian fields.

  \<^item> \<open>KD_Types\<close>, \<open>KD_Heap\<close>, \<open>KD_State\<close>, \<open>KD_Ops\<close>, \<open>KD_Nearest\<close>, \<open>KD_Radius\<close>, \<open>KD_Api\<close>, \<open>KD_Rebuild\<close>, with
    \<open>KD_Inv\<close>, \<open>KD_Correct\<close>, \<open>KD_Props\<close>: FAST\_LIO\_ROS2/include/ikd-Tree.  The tree is a datatype whose
    nodes are the records of the struct; pointers become subtrees and the path to the subtree that is
    being rebuilt.  The invariant (sizes, boxes, flags, order) is kept by every operation; searches,
    deletions and down-sampling are compared with the multiset of stored points; the rebuild in the
    background is compared with doing the logged operations at once.

  \<^item> \<open>Queues\<close>, \<open>Cache_Index\<close>, \<open>Driver\<close>, \<open>Pub_Handler\<close>, with \<open>Driver_Props\<close>, \<open>Pub_Props\<close>: the three queues between
    threads, the table of lidars, the data store, the handshake that configures a lidar and the
    distribution to ROS, the point pipeline (livox\_ros\_driver/src).

  \<^item> \<open>Lio_Sync\<close>, \<open>Lio_Map\<close>, \<open>Lio_Map_Props\<close>: the buffers, the local map and the timer round of
    laserMapping.cpp.  \<open>Lio_Geometry\<close>, \<open>Lio_Imu\<close>, \<open>Lio_Imu_Props\<close>: so3\_math.h, the state and motion
    model (use-ikfom.hpp, the prediction of esekfom.hpp), IMU\_Processing.hpp.  \<open>Lio_Features\<close>,
    \<open>Lio_Preprocess\<close>, \<open>Lio_Preprocess_Props\<close>: preprocess.cpp.

  \<^item> \<open>Lio_Measure\<close>, \<open>Lio_Measure_Props\<close>: the measurement of the filter (\<open>h_share_model\<close>): the matches are
    planes through the nearest points of the map, and the rows handed to the filter are the derivatives of the
    distances.  \<open>Matrices\<close>, \<open>Lio_Kalman\<close>, \<open>Lio_Covariance\<close>, \<open>Lio_Manifold\<close>, \<open>Lio_Kalman_Props\<close>: the iterated
    Kalman filter of IKFoM\_toolkit for this state: differences and changes of states undo each other, both
    formulas of the gain agree, the covariance stays positive semidefinite, an update ends.
    \<open>Lio_Mapping\<close>: the timer round with the filter, the matching and the map put together.

  \<^item> \<open>Sdk_Protocol\<close>, \<open>Sdk_Requests\<close>, \<open>Sdk_State\<close>, \<open>Sdk_Commands\<close>, \<open>Sdk_Control\<close>, \<open>Sdk_Upgrade\<close>, \<open>Sdk_Config\<close>,
    \<open>Sdk_Devices\<close>, \<open>Sdk_Logger\<close>, with their \<open>_Props\<close> and \<open>Sdk_Bringup_Props\<close>: the packets, the bodies of the requests, the state
    messages, the table of pending commands, the settings, the firmware upgrade, the configuration
    file, the bring-up of lidars and the files of their logs (Livox-SDK2/sdk\_core).  The loop that
    writes a log may not end; it is a partial function, and the packets for which it returns are
    characterised exactly.

  \<^bold>\<open>Interfaces.\<close>  \<open>fifo_queue\<close> (\<open>Queues\<close>) is what the users of a queue rely on, interpreted by the
  operation log, the packet ring and the IMU list.  \<open>point_store\<close> (\<open>Lio_Map\<close>) is what the mapping needs
  of its map, interpreted by the k-d tree.  \<open>machine\<close> and \<open>ranked_machine\<close> (\<open>Runs\<close>) are runs that keep an
  invariant and runs that end; the upgrader and two views of the device manager interpret them.

  \<^bold>\<open>Conventions.\<close>  \<open>None\<close> (or a constructor of its own) is an access outside an array or through a null
  pointer, an uncaught exception, or, where the text says so, a loop that does not return; where a
  part of the code may do so, the properties say when it does not.  Integers of the protocols are
  words of their width; \<open>float\<close> and \<open>double\<close> are exact reals, so rounding is not modelled.  Recursive
  functions carry termination proofs; the searches of the k-d tree recurse on the tree, the loops of
  the preprocessing on the distance to the end of the line.  Where fuel is used (the runs of the
  handlers of the upgrade machine) the text states the bound and why it is enough.  The loop of the filter
  counts its turns down from the maximum the program sets, plus one.

  \<^bold>\<open>Concurrency.\<close>  Threads are lists of atomic steps.  A step is a critical section or a whole
  callback; the granularity is given in the theories.  Mutexes that protect one step are left out.

  \<^bold>\<open>Parameters.\<close>  Standard library and third-party code that is called is an argument with its documented
  contract: \<open>std::nth_element\<close>, \<open>std::sort\<close>, the checksums (FastCRC), \<open>inet_addr\<close> and \<open>inet_ntoa\<close>, the
  decoding of PointCloud2, the voxel filter, the clock, the result of sending on a socket, the inverse of
  a matrix (which inverts what can be inverted) and the least squares solution of Eigen.

  \<^bold>\<open>Not modelled.\<close>  The sockets, the io loops and their threads; logging to the console and the files of
  the debug point cloud manager; the update functions of the toolkit that the program never calls, its sparse
  matrices, views and streams; publishing, plotting and the ROS nodes; the
  \<open>father_ptr\<close> of tree nodes and the recorded balance statistics; the branches of a viewer behind its
  first detection.
\<close>

end
